(* ===== verification/Prelude.thy ===== *)
theory Prelude
  imports Main "HOL-Library.Word" "HOL-Library.AList" "HOL-Library.Char_ord"
    "HOL-Library.List_Lexorder" "HOL-Library.Product_Lexorder"
    "HOL-Library.Code_Target_Numeral"
begin

text \<open>
  Shared vocabulary of the development.
  \<^item> Rust integers: \<open>i64\<close> values are \<open>int\<close> together with the range predicate
    \<open>i64_ok\<close>; \<open>usize\<close> and \<open>u64\<close> values are \<open>nat\<close> with \<open>usize_ok\<close>; bytes are \<open>8 word\<close>.
  \<^item> \<open>HashMap\<close>: an association list in some iteration order. Rust does not specify the
    order, and every theorem holds for every list, that is for every order.
  \<^item> Stable sorts: \<open>sort_key\<close> of the library, which is stable as \<open>slice::sort_by\<close> is.
  \<^item> Windows of a sorted listing, as every paged endpoint cuts them.
  The collections \<open>hm_simps\<close> and \<open>option_simps\<close> gather the rewrite rules the component
  theories share.
\<close>

named_theorems hm_simps \<open>lookups in updated hash maps\<close>
named_theorems option_simps \<open>shape lemmas on fallible steps\<close>

type_synonym byte = "8 word"
type_synonym bytes = "8 word list"

section \<open>Integer ranges\<close>

definition i64_min :: int where "i64_min = - (2 ^ 63)"
definition i64_max :: int where "i64_max = 2 ^ 63 - 1"

definition i64_ok :: "int \<Rightarrow> bool" where
  "i64_ok x \<longleftrightarrow> i64_min \<le> x \<and> x \<le> i64_max"

definition usize_max :: nat where "usize_max = 2 ^ 64 - 1"

definition usize_ok :: "nat \<Rightarrow> bool" where
  "usize_ok n \<longleftrightarrow> n \<le> usize_max"

text \<open>\<open>usize::saturating_add\<close> and \<open>Ord::clamp\<close>.\<close>

definition saturating_add :: "nat \<Rightarrow> nat \<Rightarrow> nat" where
  "saturating_add a b = min (a + b) usize_max"

definition clamp_nat :: "nat \<Rightarrow> nat \<Rightarrow> nat \<Rightarrow> nat" where
  "clamp_nat x lo hi = (if x < lo then lo else if hi < x then hi else x)"

lemma clamp_nat_range: "lo \<le> hi \<Longrightarrow> lo \<le> clamp_nat x lo hi \<and> clamp_nat x lo hi \<le> hi"
  by (simp add: clamp_nat_def)

lemma clamp_nat_id: "lo \<le> x \<Longrightarrow> x \<le> hi \<Longrightarrow> clamp_nat x lo hi = x"
  by (simp add: clamp_nat_def)

section \<open>Hash maps\<close>

type_synonym ('k, 'v) hashmap = "('k \<times> 'v) list"

abbreviation hm_get :: "('k, 'v) hashmap \<Rightarrow> 'k \<Rightarrow> 'v option" where
  "hm_get m k \<equiv> map_of m k"

definition hm_insert :: "'k \<Rightarrow> 'v \<Rightarrow> ('k, 'v) hashmap \<Rightarrow> ('k, 'v) hashmap" where
  "hm_insert k v m = AList.update k v m"

definition hm_remove :: "'k \<Rightarrow> ('k, 'v) hashmap \<Rightarrow> ('k, 'v) hashmap" where
  "hm_remove k m = AList.delete k m"

definition hm_values :: "('k, 'v) hashmap \<Rightarrow> 'v list" where
  "hm_values m = map snd m"

definition hm_keys :: "('k, 'v) hashmap \<Rightarrow> 'k list" where
  "hm_keys m = map fst m"

definition hm_contains :: "('k, 'v) hashmap \<Rightarrow> 'k \<Rightarrow> bool" where
  "hm_contains m k \<longleftrightarrow> hm_get m k \<noteq> None"

text \<open>A hash map holds each key once.\<close>

definition hm_ok :: "('k, 'v) hashmap \<Rightarrow> bool" where
  "hm_ok m \<longleftrightarrow> distinct (map fst m)"

lemma hm_get_insert [hm_simps]: "hm_get (hm_insert k v m) k' = (if k' = k then Some v else hm_get m k')"
  by (simp add: hm_insert_def update_conv')

lemma hm_get_remove [hm_simps]: "hm_get (hm_remove k m) k' = (if k' = k then None else hm_get m k')"
  by (simp add: hm_remove_def delete_conv')

lemma hm_ok_Nil [simp]: "hm_ok []"
  by (simp add: hm_ok_def)

lemma hm_ok_insert [simp]: "hm_ok m \<Longrightarrow> hm_ok (hm_insert k v m)"
  by (simp add: hm_ok_def hm_insert_def distinct_update)

lemma hm_ok_remove [simp]: "hm_ok m \<Longrightarrow> hm_ok (hm_remove k m)"
  by (simp add: hm_ok_def hm_remove_def distinct_delete)

lemma hm_insert_empty [simp]: "hm_insert k v [] = [(k, v)]"
  by (simp add: hm_insert_def)

lemma hm_remove_single [simp]: "hm_remove k [(k, v)] = []"
  by (simp add: hm_remove_def AList.delete_eq)

lemma length_hm_insert:
  "length (hm_insert k v m) = (if hm_get m k = None then Suc (length m) else length m)"
  by (induction m) (auto simp: hm_insert_def)

lemma hm_contains_insert [hm_simps]:
  "hm_contains (hm_insert k v m) k' \<longleftrightarrow> k' = k \<or> hm_contains m k'"
  by (simp add: hm_contains_def hm_simps)

section \<open>Sorted listings and windows\<close>

text \<open>\<open>iter().skip(offset).take(limit)\<close>.\<close>

definition window :: "nat \<Rightarrow> nat \<Rightarrow> 'a list \<Rightarrow> 'a list" where
  "window off lim xs = take lim (drop off xs)"

lemma length_window: "length (window off lim xs) = min lim (length xs - off)"
  by (simp add: window_def)

lemma window_le: "length (window off lim xs) \<le> lim"
  by (simp add: window_def)

lemma window_past_end [simp]: "length xs \<le> off \<Longrightarrow> window off lim xs = []"
  by (simp add: window_def)

lemma set_window_subset: "set (window off lim xs) \<subseteq> set xs"
  by (auto simp: window_def dest: in_set_takeD in_set_dropD)

lemma window_append: "window off lim xs @ window (off + lim) lim' xs = window off (lim + lim') xs"
  by (simp add: window_def take_add add.commute)

lemma sorted_window: "sorted (map f xs) \<Longrightarrow> sorted (map f (window off lim xs))"
  by (simp add: window_def drop_map [symmetric] take_map [symmetric] sorted_wrt_take sorted_wrt_drop)

lemma sorted_split_at:
  assumes "sorted (map f xs)" and "n \<le> m" and "m < length xs"
  shows "f (xs ! n) \<le> f (xs ! m)"
  using assms sorted_nth_mono [of "map f xs" n m] by simp

lemma filter_sort_key_commute: "filter P (sort_key f xs) = sort_key f (filter P xs)"
proof (induction xs)
  case (Cons x xs)
  then show ?case
    by (cases "P x") (simp_all add: filter_insort filter_insort_triv)
qed simp

text \<open>\<open>filter_map\<close> keeps the order, and sorted distinct keys it yields back.\<close>

lemma set_map_filter_iff: "y \<in> set (List.map_filter f xs) \<longleftrightarrow> (\<exists>x\<in>set xs. f x = Some y)"
  by (induction xs) (auto simp: List.map_filter_def split: option.splits)

lemma sorted_map_filter:
  assumes "sorted ws" and "distinct ws" and "\<And>w y. f w = Some y \<Longrightarrow> k y = w"
  shows "sorted (map k (List.map_filter f ws)) \<and> distinct (map k (List.map_filter f ws))"
  using assms(1,2)
proof (induction ws)
  case (Cons w ws)
  have sub: "k ` set (List.map_filter f ws) \<subseteq> set ws"
    using assms(3) by (auto simp: set_map_filter_iff)
  show ?case
  proof (cases "f w")
    case None
    with Cons show ?thesis by (simp add: List.map_filter_def)
  next
    case (Some y)
    then have "map k (List.map_filter f (w # ws)) = w # map k (List.map_filter f ws)"
      using assms(3) by (simp add: List.map_filter_def)
    moreover from sub Cons.prems have "\<forall>x\<in>k ` set (List.map_filter f ws). w \<le> x" and "w \<notin> k ` set (List.map_filter f ws)"
      by auto
    ultimately show ?thesis using Cons by simp
  qed
qed (simp add: List.map_filter_def)

section \<open>Fallible steps\<close>

text \<open>\<open>Option::filter\<close> and \<open>Option::unwrap_or\<close>.\<close>

definition opt_filter :: "('a \<Rightarrow> bool) \<Rightarrow> 'a option \<Rightarrow> 'a option" where
  "opt_filter P x = (case x of None \<Rightarrow> None | Some v \<Rightarrow> if P v then Some v else None)"

definition opt_or :: "'a option \<Rightarrow> 'a \<Rightarrow> 'a" where
  "opt_or x d = (case x of None \<Rightarrow> d | Some v \<Rightarrow> v)"

definition opt_else :: "'a option \<Rightarrow> 'a option \<Rightarrow> 'a option" where
  "opt_else x y = (case x of None \<Rightarrow> y | Some v \<Rightarrow> Some v)"

definition is_none_or :: "('a \<Rightarrow> bool) \<Rightarrow> 'a option \<Rightarrow> bool" where
  "is_none_or P x = (case x of None \<Rightarrow> True | Some v \<Rightarrow> P v)"

definition is_some_and :: "('a \<Rightarrow> bool) \<Rightarrow> 'a option \<Rightarrow> bool" where
  "is_some_and P x = (case x of None \<Rightarrow> False | Some v \<Rightarrow> P v)"

lemma opt_filter_Some [option_simps]: "opt_filter P x = Some v \<longleftrightarrow> x = Some v \<and> P v"
  by (auto simp: opt_filter_def split: option.splits)

lemma opt_or_simps [simp]: "opt_or None d = d" "opt_or (Some v) d = v"
  by (simp_all add: opt_or_def)

lemma opt_else_simps [simp]: "opt_else None y = y" "opt_else (Some v) y = Some v"
  by (simp_all add: opt_else_def)

lemma opt_else_Some [option_simps]:
  "opt_else x y = Some v \<longleftrightarrow> x = Some v \<or> (x = None \<and> y = Some v)"
  by (auto simp: opt_else_def split: option.splits)

lemma opt_else_None [option_simps]: "opt_else x y = None \<longleftrightarrow> x = None \<and> y = None"
  by (auto simp: opt_else_def split: option.splits)

lemma opt_filter_simps [simp]:
  "opt_filter P None = None" "opt_filter P (Some v) = (if P v then Some v else None)"
  by (simp_all add: opt_filter_def)

lemma is_none_or_simps [simp]: "is_none_or P None" "is_none_or P (Some v) = P v"
  by (simp_all add: is_none_or_def)

lemma is_some_and_simps [simp]: "\<not> is_some_and P None" "is_some_and P (Some v) = P v"
  by (simp_all add: is_some_and_def)

end
