(* ===== verification/Rust_Str.thy ===== *)
theory Rust_Str
  imports Prelude
begin

text \<open>
  Rust's \<open>str\<close> as the sources use it. A string is its UTF-8 encoding, one \<open>char\<close> of HOL
  per byte, so \<open>len\<close> is \<open>length\<close> and searching, splitting and comparing are on bytes, as
  in Rust. Iteration over \<open>chars()\<close> and trimming are on characters: \<open>utf8_chars\<close> cuts a
  string before every byte that is not a continuation byte, and a Rust \<open>char\<close> is the
  nonempty byte list of its encoding.
  Integer parsing and printing follow \<open>FromStr\<close> and \<open>Display\<close> of the integer types:
  an optional sign, at least one digit, the range check of the width.
\<close>

named_theorems str_simps \<open>rewriting string searches and affixes\<close>

section \<open>Bytes and characters\<close>

definition utf8 :: "nat list \<Rightarrow> string" where
  "utf8 = map char_of"

definition as_bytes :: "string \<Rightarrow> bytes" where
  "as_bytes s = map (\<lambda>c. word_of_nat (of_char c)) s"

definition from_bytes :: "bytes \<Rightarrow> string" where
  "from_bytes bs = map (\<lambda>b. char_of (unat b)) bs"

lemma length_as_bytes [simp]: "length (as_bytes s) = length s"
  by (simp add: as_bytes_def)

lemma char_code_lt_256: "(of_char c :: nat) < 256"
  using of_char_mod_256 [of c, where 'a = nat] by (metis mod_less_divisor zero_less_numeral)

lemma from_as_bytes [simp]: "from_bytes (as_bytes s) = s"
  by (induction s) (simp_all add: from_bytes_def as_bytes_def unat_of_nat char_code_lt_256)

lemma as_bytes_inject [simp]: "as_bytes s = as_bytes t \<longleftrightarrow> s = t"
  by (metis from_as_bytes)

lemma as_bytes_append [simp]: "as_bytes (s @ t) = as_bytes s @ as_bytes t"
  by (simp add: as_bytes_def)

definition is_cont :: "char \<Rightarrow> bool" where
  "is_cont c \<longleftrightarrow> 128 \<le> (of_char c :: nat) \<and> (of_char c :: nat) < 192"

function utf8_chars :: "string \<Rightarrow> string list" where
  "utf8_chars [] = []"
| "utf8_chars (b # bs) = (b # takeWhile is_cont bs) # utf8_chars (dropWhile is_cont bs)"
  by pat_completeness auto
termination
  by (relation "measure length") (auto simp: length_dropWhile_le less_Suc_eq_le)

lemma concat_utf8_chars [simp]: "concat (utf8_chars s) = s"
  by (induction s rule: utf8_chars.induct) simp_all

lemma utf8_chars_nonempty: "c \<in> set (utf8_chars s) \<Longrightarrow> c \<noteq> []"
  by (induction s rule: utf8_chars.induct) auto

definition is_ascii :: "char \<Rightarrow> bool" where
  "is_ascii c \<longleftrightarrow> (of_char c :: nat) < 128"

lemma ascii_not_cont: "is_ascii c \<Longrightarrow> \<not> is_cont c"
  by (simp add: is_ascii_def is_cont_def)

lemma utf8_chars_ascii: "list_all is_ascii s \<Longrightarrow> utf8_chars s = map (\<lambda>c. [c]) s"
proof (induction s)
  case (Cons c s)
  then have "takeWhile is_cont s = [] \<and> dropWhile is_cont s = s"
    by (cases s) (auto simp: ascii_not_cont)
  with Cons show ?case by simp
qed simp

text \<open>ASCII classes, on the byte value.\<close>

definition in_range :: "char \<Rightarrow> char \<Rightarrow> char \<Rightarrow> bool" where
  "in_range lo hi c \<longleftrightarrow> (of_char lo :: nat) \<le> of_char c \<and> (of_char c :: nat) \<le> of_char hi"

definition is_ascii_digit :: "char \<Rightarrow> bool" where
  "is_ascii_digit = in_range (CHR ''0'') (CHR ''9'')"

definition is_ascii_upper :: "char \<Rightarrow> bool" where
  "is_ascii_upper = in_range (CHR ''A'') (CHR ''Z'')"

definition is_ascii_lower :: "char \<Rightarrow> bool" where
  "is_ascii_lower = in_range (CHR ''a'') (CHR ''z'')"

definition is_ascii_alnum :: "char \<Rightarrow> bool" where
  "is_ascii_alnum c \<longleftrightarrow> is_ascii_digit c \<or> is_ascii_upper c \<or> is_ascii_lower c"

definition is_ascii_hexdigit :: "char \<Rightarrow> bool" where
  "is_ascii_hexdigit c \<longleftrightarrow> is_ascii_digit c \<or> in_range (CHR ''A'') (CHR ''F'') c
     \<or> in_range (CHR ''a'') (CHR ''f'') c"

lemmas ascii_class_defs = in_range_def is_ascii_digit_def is_ascii_upper_def is_ascii_lower_def
  is_ascii_alnum_def is_ascii_hexdigit_def

definition to_lower_char :: "char \<Rightarrow> char" where
  "to_lower_char c = (if is_ascii_upper c then char_of ((of_char c :: nat) + 32) else c)"

definition to_upper_char :: "char \<Rightarrow> char" where
  "to_upper_char c = (if is_ascii_lower c then char_of ((of_char c :: nat) - 32) else c)"

definition to_ascii_lowercase :: "string \<Rightarrow> string" where
  "to_ascii_lowercase = map to_lower_char"

definition to_ascii_uppercase :: "string \<Rightarrow> string" where
  "to_ascii_uppercase = map to_upper_char"

definition eq_ignore_ascii_case :: "string \<Rightarrow> string \<Rightarrow> bool" where
  "eq_ignore_ascii_case s t \<longleftrightarrow> to_ascii_lowercase s = to_ascii_lowercase t"

lemma length_to_ascii_lowercase [simp]: "length (to_ascii_lowercase s) = length s"
  by (simp add: to_ascii_lowercase_def)

lemma to_lower_char_idem [simp]: "to_lower_char (to_lower_char c) = to_lower_char c"
proof (cases "is_ascii_upper c")
  case True
  then have "(of_char c :: nat) \<le> 90"
    by (simp add: is_ascii_upper_def in_range_def)
  moreover from this have "(of_char (char_of ((of_char c :: nat) + 32)) :: nat) = of_char c + 32"
    by (simp add: of_char_of)
  moreover from True have "65 \<le> (of_char c :: nat)"
    by (simp add: is_ascii_upper_def in_range_def)
  ultimately have "\<not> is_ascii_upper (char_of ((of_char c :: nat) + 32))"
    by (simp add: is_ascii_upper_def in_range_def)
  with True show ?thesis by (simp add: to_lower_char_def)
qed (simp add: to_lower_char_def)

lemma to_ascii_lowercase_idem [simp]:
  "to_ascii_lowercase (to_ascii_lowercase s) = to_ascii_lowercase s"
  by (simp add: to_ascii_lowercase_def)

section \<open>Affixes and searching\<close>

fun strip_prefix :: "string \<Rightarrow> string \<Rightarrow> string option" where
  "strip_prefix [] s = Some s"
| "strip_prefix (p # ps) [] = None"
| "strip_prefix (p # ps) (c # s) = (if p = c then strip_prefix ps s else None)"

definition starts_with :: "string \<Rightarrow> string \<Rightarrow> bool" where
  "starts_with p s \<longleftrightarrow> strip_prefix p s \<noteq> None"

definition strip_suffix :: "string \<Rightarrow> string \<Rightarrow> string option" where
  "strip_suffix p s = map_option rev (strip_prefix (rev p) (rev s))"

definition ends_with :: "string \<Rightarrow> string \<Rightarrow> bool" where
  "ends_with p s \<longleftrightarrow> strip_suffix p s \<noteq> None"

lemma strip_prefix_Some [str_simps]: "strip_prefix p s = Some r \<longleftrightarrow> s = p @ r"
  by (induction p s rule: strip_prefix.induct) auto

lemma strip_prefix_append [simp]: "strip_prefix p (p @ r) = Some r"
  by (simp add: str_simps)

lemma strip_suffix_Some [str_simps]: "strip_suffix p s = Some r \<longleftrightarrow> s = r @ p"
  by (auto simp: strip_suffix_def str_simps) (metis rev_append rev_rev_ident)

lemma starts_with_iff [str_simps]: "starts_with p s \<longleftrightarrow> (\<exists>r. s = p @ r)"
  by (auto simp: starts_with_def str_simps)

lemma ends_with_iff [str_simps]: "ends_with p s \<longleftrightarrow> (\<exists>r. s = r @ p)"
  by (auto simp: ends_with_def str_simps)

text \<open>\<open>str::find\<close>: the first byte offset at which the needle occurs.\<close>

fun find_sub :: "string \<Rightarrow> string \<Rightarrow> nat option" where
  "find_sub p [] = (if p = [] then Some 0 else None)"
| "find_sub p (c # s) = (if starts_with p (c # s) then Some 0 else map_option Suc (find_sub p s))"

definition contains_sub :: "string \<Rightarrow> string \<Rightarrow> bool" where
  "contains_sub p s \<longleftrightarrow> find_sub p s \<noteq> None"

lemma find_sub_Some_split:
  "find_sub p s = Some i \<Longrightarrow> s = take i s @ p @ drop (i + length p) s \<and> i + length p \<le> length s"
proof (induction p s arbitrary: i rule: find_sub.induct)
  case (1 p)
  then show ?case by (simp split: if_splits)
next
  case (2 p c s)
  show ?case
  proof (cases "starts_with p (c # s)")
    case True
    then obtain r where r: "c # s = p @ r" by (auto simp: str_simps)
    from 2 True have "i = 0" by simp
    with r show ?thesis by simp
  next
    case False
    with 2 show ?thesis by auto
  qed
qed

lemma find_sub_None: "find_sub p s = None \<longleftrightarrow> (\<nexists>a b. s = a @ p @ b)"
proof (induction p s rule: find_sub.induct)
  case (2 p c s)
  show ?case
  proof (cases "starts_with p (c # s)")
    case True
    then show ?thesis by (auto simp: str_simps) (metis append_Nil)
  next
    case False
    have "(\<exists>a b. c # s = a @ p @ b) \<longleftrightarrow> (\<exists>a b. s = a @ p @ b)"
    proof
      assume "\<exists>a b. c # s = a @ p @ b"
      then obtain a b where ab: "c # s = a @ p @ b" by blast
      with False have "a \<noteq> []" by (auto simp: str_simps)
      with ab show "\<exists>a b. s = a @ p @ b" by (cases a) auto
    next
      assume "\<exists>a b. s = a @ p @ b"
      then show "\<exists>a b. c # s = a @ p @ b" by (metis append_Cons)
    qed
    with 2 False show ?thesis by simp
  qed
qed auto

lemma contains_sub_iff [str_simps]: "contains_sub p s \<longleftrightarrow> (\<exists>a b. s = a @ p @ b)"
  by (auto simp: contains_sub_def find_sub_None)

text \<open>
  The offset found is the least one: a text with no occurrence before the needle, also
  none overlapping it, gives exactly its own length.
\<close>

lemma find_sub_hit:
  assumes "\<And>i. i < length a \<Longrightarrow> \<not> starts_with p (drop i a @ p @ b)"
  shows "find_sub p (a @ p @ b) = Some (length a)"
  using assms
proof (induction a)
  case Nil
  have "starts_with p (p @ b)" by (simp add: starts_with_def)
  then show ?case by (cases "p @ b") auto
next
  case (Cons c a)
  have "\<not> starts_with p (c # a @ p @ b)"
    using Cons.prems [of 0] by simp
  moreover have "find_sub p (a @ p @ b) = Some (length a)"
    using Cons.prems [of "Suc i" for i] by (intro Cons.IH) auto
  ultimately show ?case by simp
qed

lemma find_sub_fresh_head:
  assumes "c \<notin> set a"
  shows "find_sub (c # p) (a @ (c # p) @ b) = Some (length a)"
proof (rule find_sub_hit)
  fix i
  assume "i < length a"
  then have "drop i a \<noteq> []" and "hd (drop i a) \<in> set a"
    by (simp_all add: hd_drop_conv_nth)
  with assms show "\<not> starts_with (c # p) (drop i a @ (c # p) @ b)"
    by (cases "drop i a") (auto simp: starts_with_def)
qed

text \<open>\<open>split_once\<close> with a string separator and \<open>rsplit_once\<close> with a byte.\<close>

definition split_once :: "string \<Rightarrow> string \<Rightarrow> (string \<times> string) option" where
  "split_once p s = map_option (\<lambda>i. (take i s, drop (i + length p) s)) (find_sub p s)"

definition rsplit_once :: "char \<Rightarrow> string \<Rightarrow> (string \<times> string) option" where
  "rsplit_once c s = (if c \<in> set s
     then Some (rev (tl (dropWhile (\<lambda>x. x \<noteq> c) (rev s))), rev (takeWhile (\<lambda>x. x \<noteq> c) (rev s)))
     else None)"

lemma split_once_Some: "split_once p s = Some (a, b) \<Longrightarrow> s = a @ p @ b"
  by (auto simp: split_once_def dest: find_sub_Some_split)

text \<open>\<open>str::split\<close> with a nonempty pattern, and \<open>str::replace\<close>.\<close>

function split_on :: "string \<Rightarrow> string \<Rightarrow> string list" where
  "split_on p s = (if p = [] then [s] else
     (case split_once p s of None \<Rightarrow> [s] | Some (a, b) \<Rightarrow> a # split_on p b))"
  by pat_completeness auto
termination
proof (relation "measure (length \<circ> snd)")
  fix p s :: string and x a b
  assume "p \<noteq> []" and "split_once p s = Some x" and "(a, b) = x"
  then show "((p, b), p, s) \<in> measure (length \<circ> snd)"
    using split_once_Some [of p s a b] by auto
qed simp

declare split_on.simps [simp del]

definition join_with :: "string \<Rightarrow> string list \<Rightarrow> string" where
  "join_with sep xs = (case xs of [] \<Rightarrow> [] | y # ys \<Rightarrow> y @ concat (map (\<lambda>z. sep @ z) ys))"

lemma join_split_on: "p \<noteq> [] \<Longrightarrow> join_with p (split_on p s) = s"
proof (induction p s rule: split_on.induct)
  case (1 p s)
  show ?case
  proof (cases "split_once p s")
    case None
    with 1 show ?thesis by (simp add: split_on.simps [of p s] join_with_def)
  next
    case (Some ab)
    then obtain a b where ab: "split_once p s = Some (a, b)" by (cases ab) auto
    with 1 have IH: "join_with p (split_on p b) = b" by auto
    obtain y ys where y: "split_on p b = y # ys"
      by (cases "split_on p b") (auto simp: split_on.simps [of p b] split: if_splits option.splits)
    from ab 1 have "split_on p s = a # split_on p b"
      by (simp add: split_on.simps [of p s])
    with IH y have "join_with p (split_on p s) = a @ p @ b"
      by (simp add: join_with_def)
    with split_once_Some [OF ab] show ?thesis by simp
  qed
qed

definition replace_char :: "char \<Rightarrow> string \<Rightarrow> string \<Rightarrow> string" where
  "replace_char c t s = concat (map (\<lambda>x. if x = c then t else [x]) s)"

section \<open>Trimming\<close>

text \<open>
  \<open>char::is_whitespace\<close> (the Unicode property \<open>White_Space\<close>) and \<open>char::is_control\<close>
  (category \<open>Cc\<close>) on the UTF-8 encoding of the character.
\<close>

definition char_code :: "string \<Rightarrow> nat list" where
  "char_code cs = map of_char cs"

definition is_whitespace :: "string \<Rightarrow> bool" where
  "is_whitespace cs \<longleftrightarrow> (case char_code cs of
       [a] \<Rightarrow> (9 \<le> a \<and> a \<le> 13) \<or> a = 32
     | [a, b] \<Rightarrow> a = 194 \<and> (b = 133 \<or> b = 160)
     | [a, b, c] \<Rightarrow> (a = 225 \<and> b = 154 \<and> c = 128)
         \<or> (a = 226 \<and> b = 128 \<and> (128 \<le> c \<and> c \<le> 138 \<or> c = 168 \<or> c = 169 \<or> c = 175))
         \<or> (a = 226 \<and> b = 129 \<and> c = 159) \<or> (a = 227 \<and> b = 128 \<and> c = 128)
     | _ \<Rightarrow> False)"

definition is_control :: "string \<Rightarrow> bool" where
  "is_control cs \<longleftrightarrow> (case char_code cs of
       [a] \<Rightarrow> a < 32 \<or> a = 127
     | [a, b] \<Rightarrow> a = 194 \<and> 128 \<le> b \<and> b \<le> 159
     | _ \<Rightarrow> False)"

definition trim_start :: "string \<Rightarrow> string" where
  "trim_start s = concat (dropWhile is_whitespace (utf8_chars s))"

definition trim_end :: "string \<Rightarrow> string" where
  "trim_end s = concat (rev (dropWhile is_whitespace (rev (utf8_chars s))))"

definition trim :: "string \<Rightarrow> string" where
  "trim s = trim_end (trim_start s)"

definition trim_end_matches :: "(char \<Rightarrow> bool) \<Rightarrow> string \<Rightarrow> string" where
  "trim_end_matches P s = rev (dropWhile P (rev s))"

lemma length_concat_dropWhile: "length (concat (dropWhile P xs)) \<le> length (concat xs)"
  by (induction xs) auto

lemma length_trim_start: "length (trim_start s) \<le> length s"
  using length_concat_dropWhile [of is_whitespace "utf8_chars s"] by (simp add: trim_start_def)

lemma length_trim_end: "length (trim_end s) \<le> length s"
proof -
  let ?xs = "dropWhile is_whitespace (rev (utf8_chars s))"
  have "length (concat (rev ?xs)) = length (concat ?xs)"
    by (simp add: length_concat rev_map [symmetric])
  also have "\<dots> \<le> length (concat (rev (utf8_chars s)))"
    by (rule length_concat_dropWhile)
  also have "\<dots> = length (concat (utf8_chars s))"
    by (simp only: length_concat rev_map [symmetric] sum_list_rev)
  finally show ?thesis by (simp add: trim_end_def)
qed

lemma length_trim: "length (trim s) \<le> length s"
  using length_trim_start [of s] length_trim_end [of "trim_start s"] by (simp add: trim_def)

lemma trim_Nil [simp]: "trim [] = []"
  by (simp add: trim_def trim_start_def trim_end_def)

lemma trim_ascii_id:
  assumes "list_all is_ascii s" and "list_all (\<lambda>c. \<not> is_whitespace [c]) s"
  shows "trim s = s"
proof -
  have "list_all (\<lambda>cs. \<not> is_whitespace cs) (utf8_chars s)"
    using assms by (simp add: utf8_chars_ascii list_all_iff)
  then have drop: "dropWhile is_whitespace (utf8_chars s) = utf8_chars s"
    by (cases "utf8_chars s") auto
  from \<open>list_all (\<lambda>cs. \<not> is_whitespace cs) (utf8_chars s)\<close>
  have "list_all (\<lambda>cs. \<not> is_whitespace cs) (rev (utf8_chars s))" by simp
  then have "dropWhile is_whitespace (rev (utf8_chars s)) = rev (utf8_chars s)"
    by (cases "rev (utf8_chars s)") auto
  with drop show ?thesis
    by (simp add: trim_def trim_start_def trim_end_def)
qed

section \<open>Decimal numbers\<close>

definition digit_value :: "char \<Rightarrow> nat" where
  "digit_value c = of_char c - 48"

definition digit_char :: "nat \<Rightarrow> char" where
  "digit_char d = char_of (48 + d)"

definition parse_dec :: "string \<Rightarrow> nat option" where
  "parse_dec s = (if s = [] \<or> \<not> list_all is_ascii_digit s then None
     else Some (foldl (\<lambda>n c. n * 10 + digit_value c) 0 s))"

text \<open>\<open>str::parse\<close> for an unsigned type with largest value \<open>m\<close>, and for \<open>i64\<close>.\<close>

definition parse_unsigned :: "nat \<Rightarrow> string \<Rightarrow> nat option" where
  "parse_unsigned m s = opt_filter (\<lambda>n. n \<le> m)
     (parse_dec (case s of c # cs \<Rightarrow> if c = CHR ''+'' then cs else s | [] \<Rightarrow> s))"

definition parse_usize :: "string \<Rightarrow> nat option" where
  "parse_usize = parse_unsigned usize_max"

definition parse_u16 :: "string \<Rightarrow> nat option" where
  "parse_u16 = parse_unsigned 65535"

definition parse_i64 :: "string \<Rightarrow> int option" where
  "parse_i64 s = opt_filter i64_ok (case s of
       [] \<Rightarrow> None
     | c # cs \<Rightarrow>
         if c = CHR ''-'' then map_option (\<lambda>n. - int n) (parse_dec cs)
         else if c = CHR ''+'' then map_option int (parse_dec cs)
         else map_option int (parse_dec s))"

fun nat_to_dec :: "nat \<Rightarrow> string" where
  "nat_to_dec n = (if n < 10 then [digit_char n] else nat_to_dec (n div 10) @ [digit_char (n mod 10)])"

declare nat_to_dec.simps [simp del]

definition int_to_dec :: "int \<Rightarrow> string" where
  "int_to_dec i = (if i < 0 then CHR ''-'' # nat_to_dec (nat (- i)) else nat_to_dec (nat i))"

lemma digit_char_code: "d < 10 \<Longrightarrow> (of_char (digit_char d) :: nat) = 48 + d"
  by (simp add: digit_char_def of_char_of)

lemma digit_char_digit [simp]: "d < 10 \<Longrightarrow> is_ascii_digit (digit_char d)"
  by (simp add: is_ascii_digit_def in_range_def digit_char_code)

lemma digit_value_char [simp]: "d < 10 \<Longrightarrow> digit_value (digit_char d) = d"
  by (simp add: digit_value_def digit_char_code)

lemma nat_to_dec_nonempty [simp]: "nat_to_dec n \<noteq> []"
  by (subst nat_to_dec.simps) simp

lemma nat_to_dec_digits: "list_all is_ascii_digit (nat_to_dec n)"
proof (induction n rule: nat_to_dec.induct)
  case (1 n)
  then show ?case by (subst nat_to_dec.simps) simp
qed

lemma nat_to_dec_value: "foldl (\<lambda>n c. n * 10 + digit_value c) 0 (nat_to_dec n) = n"
proof (induction n rule: nat_to_dec.induct)
  case (1 n)
  then show ?case by (subst nat_to_dec.simps) simp
qed

lemma parse_nat_to_dec [simp]: "parse_dec (nat_to_dec n) = Some n"
  by (simp add: parse_dec_def nat_to_dec_digits nat_to_dec_value)

lemma nat_to_dec_head_digit: "is_ascii_digit (hd (nat_to_dec n))"
  using nat_to_dec_digits [of n] by (cases "nat_to_dec n") auto

lemma parse_unsigned_to_dec: "n \<le> m \<Longrightarrow> parse_unsigned m (nat_to_dec n) = Some n"
proof -
  assume "n \<le> m"
  moreover have "hd (nat_to_dec n) \<noteq> CHR ''+''"
    using nat_to_dec_head_digit [of n] by (auto simp: ascii_class_defs)
  ultimately show ?thesis
    by (cases "nat_to_dec n") (use parse_nat_to_dec [of n] in \<open>auto simp: parse_unsigned_def\<close>)
qed

lemma parse_i64_to_dec:
  assumes "i64_ok i"
  shows "parse_i64 (int_to_dec i) = Some i"
proof (cases "i < 0")
  case True
  with assms show ?thesis by (simp add: parse_i64_def int_to_dec_def)
next
  case False
  have d: "is_ascii_digit (hd (nat_to_dec (nat i)))" by (rule nat_to_dec_head_digit)
  then have "hd (nat_to_dec (nat i)) \<noteq> CHR ''-''" and "hd (nat_to_dec (nat i)) \<noteq> CHR ''+''"
    by (auto simp: ascii_class_defs)
  with False assms show ?thesis
    by (cases "nat_to_dec (nat i)")
      (use parse_nat_to_dec [of "nat i"] in \<open>auto simp: parse_i64_def int_to_dec_def\<close>)
qed

lemma int_to_dec_inject:
  assumes "int_to_dec i = int_to_dec j"
  shows "i = j"
proof -
  have val: "(case int_to_dec k of c # cs \<Rightarrow> if c = CHR ''-''
      then map_option (\<lambda>n. - int n) (parse_dec cs) else map_option int (parse_dec (int_to_dec k))) = Some k" for k
  proof (cases "k < 0")
    case False
    have "hd (nat_to_dec (nat k)) \<noteq> CHR ''-''"
      using nat_to_dec_head_digit [of "nat k"] by (auto simp: ascii_class_defs)
    with False show ?thesis
      by (cases "nat_to_dec (nat k)") (use parse_nat_to_dec [of "nat k"] in \<open>auto simp: int_to_dec_def\<close>)
  qed (simp add: int_to_dec_def)
  have "Some i = Some j"
    using val [of i, unfolded assms] val [of j] by (rule trans [OF sym])
  then show ?thesis by simp
qed

lemma parse_unsigned_bound: "parse_unsigned m s = Some n \<Longrightarrow> n \<le> m"
  by (simp add: parse_unsigned_def option_simps)

lemma parse_i64_bound: "parse_i64 s = Some i \<Longrightarrow> i64_ok i"
  by (simp add: parse_i64_def option_simps)

section \<open>UTF-8 validity\<close>

text \<open>
  \<open>utf8_step\<close> reads one unit of a nonempty byte string: \<open>(True, n)\<close> for a well-formed
  character of \<open>n\<close> bytes, \<open>(False, n)\<close> for a maximal ill-formed prefix of \<open>n\<close> bytes, as
  \<open>Utf8Chunks\<close> cuts them. \<open>from_utf8_lossy\<close> puts U+FFFD for each of the latter.
\<close>

definition utf8_class :: "nat \<Rightarrow> (nat \<times> nat \<times> nat) option" where
  "utf8_class b = (if 194 \<le> b \<and> b \<le> 223 then Some (2, 128, 191)
     else if b = 224 then Some (3, 160, 191)
     else if b = 237 then Some (3, 128, 159)
     else if 225 \<le> b \<and> b \<le> 239 then Some (3, 128, 191)
     else if b = 240 then Some (4, 144, 191)
     else if 241 \<le> b \<and> b \<le> 243 then Some (4, 128, 191)
     else if b = 244 then Some (4, 128, 143)
     else None)"

definition utf8_step :: "string \<Rightarrow> bool \<times> nat" where
  "utf8_step s = (case s of
       [] \<Rightarrow> (True, 1)
     | b # rest \<Rightarrow>
        if is_ascii b then (True, 1)
        else (case utf8_class (of_char b) of
            None \<Rightarrow> (False, 1)
          | Some (n, lo, hi) \<Rightarrow>
              (case rest of
                 [] \<Rightarrow> (False, 1)
               | c # cs \<Rightarrow>
                   if \<not> (lo \<le> (of_char c :: nat) \<and> (of_char c :: nat) \<le> hi) then (False, 1)
                   else (let k = length (takeWhile is_cont (take (n - 2) cs)) in (k = n - 2, k + 2)))))"

lemma utf8_step_pos: "0 < snd (utf8_step s)"
  by (auto simp: utf8_step_def Let_def split: list.splits option.splits)

function utf8_valid :: "string \<Rightarrow> bool" where
  "utf8_valid s = (if s = [] then True
     else fst (utf8_step s) \<and> utf8_valid (drop (snd (utf8_step s)) s))"
  by pat_completeness auto
termination
  by (relation "measure length") (auto simp: utf8_step_pos)

declare utf8_valid.simps [simp del]

function from_utf8_lossy :: "string \<Rightarrow> string" where
  "from_utf8_lossy s = (if s = [] then []
     else (if fst (utf8_step s) then take (snd (utf8_step s)) s else utf8 [239, 191, 189])
       @ from_utf8_lossy (drop (snd (utf8_step s)) s))"
  by pat_completeness auto
termination
  by (relation "measure length") (auto simp: utf8_step_pos)

declare from_utf8_lossy.simps [simp del]

definition from_utf8 :: "bytes \<Rightarrow> string option" where
  "from_utf8 bs = (if utf8_valid (from_bytes bs) then Some (from_bytes bs) else None)"

lemma lossy_valid_id: "utf8_valid s \<Longrightarrow> from_utf8_lossy s = s"
proof (induction s rule: utf8_valid.induct)
  case (1 s)
  show ?case
  proof (cases "s = []")
    case False
    with "1.prems" have v: "fst (utf8_step s)" "utf8_valid (drop (snd (utf8_step s)) s)"
      by (simp_all add: utf8_valid.simps [of s])
    with "1.IH" False have "from_utf8_lossy (drop (snd (utf8_step s)) s) = drop (snd (utf8_step s)) s"
      by simp
    with v False show ?thesis by (subst from_utf8_lossy.simps) simp
  qed (simp add: from_utf8_lossy.simps)
qed

lemma utf8_valid_ascii: "list_all is_ascii s \<Longrightarrow> utf8_valid s"
proof (induction s)
  case (Cons c s)
  then have "utf8_step (c # s) = (True, 1)" by (simp add: utf8_step_def)
  with Cons show ?case by (subst utf8_valid.simps) simp
qed (simp add: utf8_valid.simps)

section \<open>Needles that do not overlap themselves\<close>

text \<open>
  A needle whose first byte does not come back in it is found right after any text that
  does not contain it, as it is for every opening and closing tag.
\<close>

lemma starts_with_drop_nth:
  assumes "starts_with p (drop i s)" and "k < length p"
  shows "i + k < length s \<and> s ! (i + k) = p ! k"
proof -
  from assms(1) obtain r where r: "drop i s = p @ r" by (auto simp: str_simps)
  then have "length s - i = length p + length r" by (metis length_append length_drop)
  with assms(2) have le: "i + k < length s" by simp
  have "s ! (i + k) = drop i s ! k" using le by simp
  with r assms(2) le show ?thesis by (simp add: nth_append)
qed

lemma find_sub_after:
  assumes "\<not> contains_sub p a" and "p = c # q" and "c \<notin> set q"
  shows "find_sub p (a @ p @ b) = Some (length a)"
proof (rule find_sub_hit)
  fix i
  assume i: "i < length a"
  show "\<not> starts_with p (drop i a @ p @ b)"
  proof
    assume s: "starts_with p (drop i a @ p @ b)"
    show False
    proof (cases "length p \<le> length a - i")
      case True
      from s obtain r where "drop i a @ p @ b = p @ r" by (auto simp: str_simps)
      then have "take (length p) (drop i a) = p"
        using True by (metis append_eq_conv_conj length_drop take_append take_all diff_is_0_eq' take_0 append_Nil2)
      then have "a = take i a @ p @ drop (length p) (drop i a)"
        by (metis append_take_drop_id)
      with assms(1) show False by (auto simp: str_simps)
    next
      case False
      let ?k = "length a - i"
      have "starts_with p (drop 0 (drop i a @ p @ b))" using s by simp
      from starts_with_drop_nth [OF this, of ?k] False
      have "(drop i a @ p @ b) ! ?k = p ! ?k" by simp
      moreover have "(drop i a @ p @ b) ! ?k = c" using assms(2) by (simp add: nth_append)
      moreover from assms(2) i False have "p ! ?k \<in> set q" by (cases ?k) auto
      ultimately show False using assms(3) by simp
    qed
  qed
qed

lemma utf8_chars_append:
  assumes "\<not> is_cont c"
  shows "utf8_chars (a @ c # b) = utf8_chars a @ utf8_chars (c # b)"
proof (induction a rule: utf8_chars.induct)
  case (2 x xs)
  have "takeWhile is_cont (xs @ c # b) = takeWhile is_cont xs"
    using assms by (induction xs) auto
  moreover have "dropWhile is_cont (xs @ c # b) = dropWhile is_cont xs @ c # b"
    using assms by (induction xs) auto
  ultimately show ?case using 2 by simp
qed simp

section \<open>Characters of well-formed text\<close>

lemma utf8_class_range:
  "utf8_class b = Some (n, lo, hi) \<Longrightarrow> 2 \<le> n \<and> 128 \<le> lo \<and> hi \<le> 191 \<and> 192 \<le> b"
  by (auto simp: utf8_class_def split: if_splits)

lemma utf8_valid_head: "utf8_valid (c # s) \<Longrightarrow> \<not> is_cont c"
  by (subst (asm) utf8_valid.simps)
    (auto simp: utf8_step_def is_cont_def is_ascii_def dest!: utf8_class_range split: option.splits if_splits)

lemma takeWhile_cont_valid: "utf8_valid s \<Longrightarrow> takeWhile is_cont s = [] \<and> dropWhile is_cont s = s"
  by (cases s) (auto dest: utf8_valid_head)

lemma takeWhile_full: "length (takeWhile P (take k xs)) = k \<Longrightarrow> takeWhile P xs = take k xs @ takeWhile P (drop k xs)"
proof (induction k arbitrary: xs)
  case (Suc k)
  then show ?case by (cases xs) (auto split: if_splits)
qed simp

lemma dropWhile_full: "length (takeWhile P (take k xs)) = k \<Longrightarrow> dropWhile P xs = dropWhile P (drop k xs)"
proof (induction k arbitrary: xs)
  case (Suc k)
  then show ?case by (cases xs) (auto split: if_splits)
qed simp

lemma utf8_chars_step:
  assumes "utf8_valid s" and "s \<noteq> []"
  shows "utf8_chars s = take (snd (utf8_step s)) s # utf8_chars (drop (snd (utf8_step s)) s)"
    and "is_ascii (hd s) \<Longrightarrow> snd (utf8_step s) = 1"
proof -
  obtain b rest where s: "s = b # rest" using assms(2) by (cases s) auto
  have v: "fst (utf8_step s)" "utf8_valid (drop (snd (utf8_step s)) s)"
    using assms by (simp_all add: utf8_valid.simps [of s])
  show "is_ascii (hd s) \<Longrightarrow> snd (utf8_step s) = 1"
    by (simp add: s utf8_step_def)
  show "utf8_chars s = take (snd (utf8_step s)) s # utf8_chars (drop (snd (utf8_step s)) s)"
  proof (cases "is_ascii b")
    case True
    with v show ?thesis by (simp add: s utf8_step_def takeWhile_cont_valid)
  next
    case False
    with v(1) obtain n lo hi c cs where step: "utf8_class (of_char b) = Some (n, lo, hi)" "rest = c # cs"
        "lo \<le> (of_char c :: nat)" "(of_char c :: nat) \<le> hi"
        "length (takeWhile is_cont (take (n - 2) cs)) = n - 2" "utf8_step s = (True, n)"
      by (auto simp: s utf8_step_def Let_def split: option.splits list.splits if_splits
          dest: utf8_class_range)
    from utf8_class_range [OF step(1)] step(3,4) have c: "is_cont c" "2 \<le> n"
      by (auto simp: is_cont_def)
    obtain m where n: "n = Suc (Suc m)" using c(2) by (metis Suc_le_D numeral_2_eq_2 Suc_le_mono)
    have "utf8_valid (drop m cs)" using v(2) step(2,6) n by (simp add: s)
    from takeWhile_cont_valid [OF this] step(5) n
    have "takeWhile is_cont cs = take m cs" "dropWhile is_cont cs = drop m cs"
      using takeWhile_full [of is_cont m cs] dropWhile_full [of is_cont m cs] by simp_all
    with c step n show ?thesis by (simp add: s)
  qed
qed

lemma utf8_chars_valid_ascii:
  "utf8_valid s \<Longrightarrow> u \<in> set (utf8_chars s) \<Longrightarrow> is_ascii (hd u) \<Longrightarrow> length u = 1"
proof (induction s rule: utf8_valid.induct)
  case (1 s)
  show ?case
  proof (cases "s = []")
    case False
    with 1 have v: "fst (utf8_step s)" "utf8_valid (drop (snd (utf8_step s)) s)"
      by (simp_all add: utf8_valid.simps [of s])
    note st = utf8_chars_step [OF "1.prems"(1) False]
    from st(1) "1.prems"(2) consider "u = take (snd (utf8_step s)) s"
      | "u \<in> set (utf8_chars (drop (snd (utf8_step s)) s))" by auto
    then show ?thesis
    proof cases
      case 1
      with False "1.prems"(3) st(2) utf8_step_pos [of s] show ?thesis
        by (cases s) auto
    next
      case 2
      with "1.IH" False v "1.prems"(3) show ?thesis by simp
    qed
  qed (use "1.prems" in simp)
qed

text \<open>
  A list of units is the character list of its concatenation when every unit is a byte with
  its continuation bytes, and every unit but the first begins with a byte of another kind.
\<close>

definition unit_ok :: "string \<Rightarrow> bool" where
  "unit_ok u \<longleftrightarrow> u \<noteq> [] \<and> list_all is_cont (tl u)"

definition units_ok :: "string list \<Rightarrow> bool" where
  "units_ok us \<longleftrightarrow> list_all unit_ok us \<and> list_all (\<lambda>u. \<not> is_cont (hd u)) us"

lemma utf8_chars_units: "units_ok us \<Longrightarrow> utf8_chars (concat us) = us"
proof (induction us)
  case (Cons u us)
  obtain c cs where u: "u = c # cs" using Cons by (cases u) (auto simp: units_ok_def unit_ok_def)
  have cs: "\<forall>x\<in>set cs. is_cont x" using Cons u by (simp add: units_ok_def unit_ok_def list_all_iff)
  have w: "takeWhile is_cont (concat us) = [] \<and> dropWhile is_cont (concat us) = concat us"
  proof (cases us)
    case (Cons v vs)
    with Cons.prems show ?thesis by (cases v) (auto simp: units_ok_def unit_ok_def)
  qed simp
  have "takeWhile is_cont (cs @ concat us) = cs" and "dropWhile is_cont (cs @ concat us) = concat us"
    using cs w by simp_all
  with Cons u show ?case by (simp add: units_ok_def)
qed simp

lemma units_ok_valid: "utf8_valid s \<Longrightarrow> units_ok (utf8_chars s)"
proof (induction s rule: utf8_chars.induct)
  case (2 b bs)
  have nc: "\<not> is_cont b" using "2.prems" by (rule utf8_valid_head)
  let ?n = "snd (utf8_step (b # bs))"
  have st: "utf8_chars (b # bs) = take ?n (b # bs) # utf8_chars (drop ?n (b # bs))"
    using utf8_chars_step(1) [OF "2.prems"] by simp
  then have "take ?n (b # bs) = b # takeWhile is_cont bs"
    and tl: "utf8_chars (drop ?n (b # bs)) = utf8_chars (dropWhile is_cont bs)" by simp_all
  then have "drop ?n (b # bs) = dropWhile is_cont bs"
    by (metis concat_utf8_chars)
  moreover have "utf8_valid (drop ?n (b # bs))"
    using "2.prems" by (simp add: utf8_valid.simps [of "b # bs"])
  ultimately have "units_ok (utf8_chars (dropWhile is_cont bs))" using "2.IH" by simp
  with nc show ?case
    by (simp add: units_ok_def unit_ok_def list_all_iff) (meson set_takeWhileD)
qed (simp add: units_ok_def)

lemma units_ok_subset: "units_ok us \<Longrightarrow> set vs \<subseteq> set us \<Longrightarrow> units_ok vs"
  by (auto simp: units_ok_def list_all_iff)

lemma trim_start_units: "units_ok us \<Longrightarrow> trim_start (concat us) = concat (dropWhile is_whitespace us)"
  by (simp add: trim_start_def utf8_chars_units)

lemma trim_units:
  assumes "units_ok us"
  obtains vs where "trim (concat us) = concat vs" and "set vs \<subseteq> set us" and "units_ok vs"
    and "vs = rev (dropWhile is_whitespace (rev (dropWhile is_whitespace us)))"
proof -
  let ?ws = "dropWhile is_whitespace us" and ?vs = "rev (dropWhile is_whitespace (rev (dropWhile is_whitespace us)))"
  have ws: "set ?ws \<subseteq> set us" by (auto dest: set_dropWhileD)
  then have "trim (concat us) = concat ?vs"
    using assms units_ok_subset [OF assms ws]
    by (simp add: trim_def trim_end_def trim_start_units utf8_chars_units)
  moreover have "set ?vs \<subseteq> set us" by (auto dest!: set_dropWhileD)
  ultimately show ?thesis using that units_ok_subset [OF assms] by blast
qed

end
