(* ===== verification/Pathsafe.thy ===== *)
theory Pathsafe
  imports Rust_Str
begin

text \<open>
  The path guards of \<open>src/pathsafe.rs\<close>: \<open>safe_segment\<close> (the gate every value taken from
  a request or a database passes before it becomes a file name), \<open>slugify\<close> (the
  sanitiser of export names) and \<open>is_contained\<close> (the check after the join).
  Windows and Unix differ in the path separators; the model takes the list of separators as
  an argument, and the results hold for any of \<open>/\<close> and \<open>\\<close>.
  The locale \<open>segment_guard\<close> states what clients of the gate rely on; its lemmas say that a
  directory joined with guarded names stays below the directory, whatever the names are.
\<close>

section \<open>The guards\<close>

definition max_segment :: nat where "max_segment = 128"

definition is_reserved_device :: "string \<Rightarrow> bool" where
  "is_reserved_device s \<longleftrightarrow> (let
      base = trim_end_matches (\<lambda>c. c = CHR '' '' \<or> c = CHR ''.'') (takeWhile (\<lambda>c. c \<noteq> CHR ''.'') s);
      upper = to_ascii_uppercase base
    in upper \<in> {''CON'', ''PRN'', ''AUX'', ''NUL'', ''CONIN$'', ''CONOUT$''}
       \<or> (length upper = 4 \<and> (starts_with ''COM'' upper \<or> starts_with ''LPT'' upper)
          \<and> in_range (CHR ''1'') (CHR ''9'') (upper ! 3)))"

definition safe_segment :: "string \<Rightarrow> bool" where
  "safe_segment s \<longleftrightarrow> s \<noteq> []
     \<and> length s \<le> max_segment
     \<and> s \<noteq> ''.''
     \<and> s \<noteq> ''..''
     \<and> CHR ''/'' \<notin> set s
     \<and> CHR 0x5C \<notin> set s
     \<and> CHR '':'' \<notin> set s
     \<and> \<not> list_ex is_control (utf8_chars s)
     \<and> \<not> ends_with ''.'' s
     \<and> \<not> ends_with '' '' s
     \<and> \<not> is_reserved_device s"

definition slug_char :: "string \<Rightarrow> char" where
  "slug_char cs = (case cs of
       [c] \<Rightarrow> if is_ascii_alnum c \<or> c = CHR ''-'' \<or> c = CHR ''_'' then c else CHR ''_''
     | _ \<Rightarrow> CHR ''_'')"

definition slugify :: "string \<Rightarrow> string \<Rightarrow> string" where
  "slugify s fallback = (let out = take 64 (map slug_char (utf8_chars s)) in
     if out = [] then fallback
     else if is_reserved_device out then CHR ''_'' # take 63 out
     else out)"

text \<open>
  \<open>is_contained\<close>: paths are component lists, \<open>canonicalize\<close> is the file system's
  (a parameter, \<open>None\<close> for an error), \<open>parent\<close> of the root path is none.
\<close>

definition is_contained :: "('p list \<Rightarrow> 'p list option) \<Rightarrow> 'p list \<Rightarrow> 'p list \<Rightarrow> bool" where
  "is_contained canonicalize root path = (case path of
       [] \<Rightarrow> False
     | _ \<Rightarrow> (case (canonicalize root, canonicalize (butlast path)) of
          (Some r, Some p) \<Rightarrow> take (length r) p = r
        | _ \<Rightarrow> False))"

section \<open>Slugs\<close>

definition slug_ok :: "char \<Rightarrow> bool" where
  "slug_ok c \<longleftrightarrow> is_ascii_alnum c \<or> c = CHR ''-'' \<or> c = CHR ''_''"

lemma slug_char_ok: "slug_ok (slug_char cs)"
  by (auto simp: slug_char_def slug_ok_def split: list.splits)

lemma slug_ok_class:
  assumes "slug_ok c"
  shows "is_ascii c" and "\<not> is_control [c]" and "c \<noteq> CHR ''.''" and "c \<noteq> CHR '' ''"
    and "c \<noteq> CHR ''/''" and "c \<noteq> CHR 0x5C" and "c \<noteq> CHR '':''"
  using assms by (auto simp: slug_ok_def ascii_class_defs is_ascii_def is_control_def char_code_def)

lemma slug_ok_chars:
  assumes "list_all slug_ok s"
  shows "utf8_chars s = map (\<lambda>c. [c]) s"
  using assms by (intro utf8_chars_ascii) (auto simp: list_all_iff slug_ok_class)

lemma slug_fixed: "list_all slug_ok s \<Longrightarrow> map slug_char (utf8_chars s) = s"
  by (simp add: slug_ok_chars) (auto simp: list_all_iff slug_char_def slug_ok_def intro!: map_idI)

lemma slug_not_last:
  assumes "list_all slug_ok s" and "\<not> slug_ok c"
  shows "\<not> ends_with [c] s"
  using assms by (auto simp: str_simps)

lemma slug_takeWhile: "list_all slug_ok s \<Longrightarrow> takeWhile (\<lambda>c. c \<noteq> CHR ''.'') s = s"
  by (auto simp: list_all_iff takeWhile_eq_all_conv slug_ok_class)

lemma slug_trim_end:
  assumes "list_all slug_ok s"
  shows "trim_end_matches (\<lambda>c. c = CHR '' '' \<or> c = CHR ''.'') s = s"
proof -
  have "\<forall>c\<in>set (rev s). \<not> (c = CHR '' '' \<or> c = CHR ''.'')"
    using assms by (auto simp: list_all_iff slug_ok_class)
  then have "dropWhile (\<lambda>c. c = CHR '' '' \<or> c = CHR ''.'') (rev s) = rev s"
    by (cases "rev s") auto
  then show ?thesis by (simp add: trim_end_matches_def)
qed

lemma underscore_not_reserved:
  assumes "list_all slug_ok s"
  shows "\<not> is_reserved_device (CHR ''_'' # s)"
proof -
  let ?s = "CHR ''_'' # s"
  have "list_all slug_ok ?s" using assms by (simp add: slug_ok_def)
  then have "trim_end_matches (\<lambda>c. c = CHR '' '' \<or> c = CHR ''.'')
      (takeWhile (\<lambda>c. c \<noteq> CHR ''.'') ?s) = ?s"
    by (simp only: slug_takeWhile slug_trim_end)
  moreover have "to_upper_char (CHR ''_'') = CHR ''_''"
    by (simp add: to_upper_char_def is_ascii_lower_def in_range_def)
  ultimately show ?thesis
    unfolding is_reserved_device_def Let_def
    by (simp only:) (simp add: to_ascii_uppercase_def str_simps)
qed

text \<open>A nonempty slug of at most \<open>max_segment\<close> bytes that is no device name is safe.\<close>

lemma slug_safe:
  assumes ok: "list_all slug_ok s" and ne: "s \<noteq> []" and len: "length s \<le> max_segment"
    and dev: "\<not> is_reserved_device s"
  shows "safe_segment s"
proof -
  have mem: "c \<notin> set s" if "\<not> slug_ok c" for c
    using ok that by (auto simp: list_all_iff)
  have bad: "\<not> slug_ok (CHR ''.'')" "\<not> slug_ok (CHR '' '')" "\<not> slug_ok (CHR ''/'')"
    "\<not> slug_ok (CHR 0x5C)" "\<not> slug_ok (CHR '':'')"
    using slug_ok_class by blast+
  have "s \<noteq> ''.''" "s \<noteq> ''..''"
    using mem [OF bad(1)] by auto
  moreover have "\<not> list_ex is_control (utf8_chars s)"
    using ok by (auto simp: slug_ok_chars list_ex_iff list_all_iff slug_ok_class)
  ultimately show ?thesis
    using ne len dev bad mem ok by (simp add: safe_segment_def slug_not_last)
qed

lemma slugify_cases:
  obtains (fallback) "slugify s f = f" "s = []"
  | (slug) "list_all slug_ok (slugify s f)" "slugify s f \<noteq> []" "length (slugify s f) \<le> 64"
      "\<not> is_reserved_device (slugify s f)"
proof -
  let ?out = "take 64 (map slug_char (utf8_chars s))"
  have out: "list_all slug_ok ?out"
    by (auto simp: list_all_iff slug_char_ok dest!: in_set_takeD)
  show ?thesis
  proof (cases "?out = []")
    case True
    then have "utf8_chars s = []" by simp
    then have "s = []" using concat_utf8_chars [of s] by (metis concat.simps(1))
    with True fallback show ?thesis by (simp add: slugify_def)
  next
    case False
    show ?thesis
    proof (cases "is_reserved_device ?out")
      case True
      have tk: "list_all slug_ok (take 63 ?out)"
        using out set_take_subset [of 63 ?out] by (auto simp: list_all_iff simp del: take_take)
      from False True have eq: "slugify s f = CHR ''_'' # take 63 ?out"
        unfolding slugify_def Let_def by (simp only: if_False if_True)
      have "list_all slug_ok (CHR ''_'' # take 63 ?out)"
        using tk by (simp add: slug_ok_def del: take_take)
      moreover have "length (CHR ''_'' # take 63 ?out) \<le> 64" by simp
      ultimately show ?thesis
        using underscore_not_reserved [OF tk] by (intro slug) (simp_all only: eq list.distinct not_False_eq_True)
    next
      case dev: False
      with False have eq: "slugify s f = ?out"
        unfolding slugify_def Let_def by (simp only: if_False)
      have "length ?out \<le> 64" by simp
      with out False dev eq show ?thesis
        by (intro slug) (simp_all only: not_False_eq_True)
    qed
  qed
qed

text \<open>
  The sanitiser's contract with the gate: whatever the requested scope, the slug is
  accepted by \<open>safe_segment\<close>, so an export name built from it is one harmless path component.
\<close>

theorem slugify_safe:
  assumes "safe_segment fallback"
  shows "safe_segment (slugify s fallback)"
proof (cases rule: slugify_cases [of s fallback])
  case fallback
  with assms show ?thesis by simp
next
  case slug
  then show ?thesis by (intro slug_safe) (simp_all add: max_segment_def)
qed

theorem slugify_safe_witness:
  "safe_segment ''scope'' \<and> safe_segment (slugify ''../../etc/passwd'' ''scope'')
   \<and> safe_segment (slugify ''COM7'' ''scope'')"
proof -
  have f: "safe_segment ''scope''" by code_simp
  show ?thesis using f slugify_safe [OF f, of "''../../etc/passwd''"] slugify_safe [OF f, of "''COM7''"]
    by simp
qed

lemma slugify_fixed:
  assumes "list_all slug_ok s" and "s \<noteq> []" and "length s \<le> 64" and "\<not> is_reserved_device s"
  shows "slugify s f = s"
proof -
  have "take 64 (map slug_char (utf8_chars s)) = s"
    using assms by (simp add: slug_fixed)
  with assms show ?thesis by (simp add: slugify_def)
qed

text \<open>Sanitising twice changes nothing, so a stored slug can be fed back.\<close>

lemma slugify_idem: "s \<noteq> [] \<Longrightarrow> slugify (slugify s f) f' = slugify s f"
  by (cases rule: slugify_cases [of s f]) (auto intro: slugify_fixed)

section \<open>Joining guarded names\<close>

text \<open>
  \<open>Path::join\<close> and the lexical resolution of a path: a component list without empty and
  \<open>.\<close> parts in which \<open>..\<close> removes the part before it. An absolute argument replaces the
  base, as \<open>join\<close> does.
\<close>

fun split_chars :: "(char \<Rightarrow> bool) \<Rightarrow> string \<Rightarrow> string list" where
  "split_chars P [] = [[]]"
| "split_chars P (c # s) = (if P c then [] # split_chars P s
     else (case split_chars P s of [] \<Rightarrow> [[c]] | x # xs \<Rightarrow> (c # x) # xs))"

definition path_join :: "(char \<Rightarrow> bool) \<Rightarrow> string \<Rightarrow> string \<Rightarrow> string" where
  "path_join sep base seg = (case seg of
       [] \<Rightarrow> base @ ''/''
     | c # _ \<Rightarrow> if sep c then seg else base @ ''/'' @ seg)"

definition resolve_step :: "string list \<Rightarrow> string \<Rightarrow> string list" where
  "resolve_step st p = (if p = [] \<or> p = ''.'' then st else if p = ''..'' then butlast st else st @ [p])"

definition resolve :: "(char \<Rightarrow> bool) \<Rightarrow> string \<Rightarrow> string list" where
  "resolve sep s = foldl resolve_step [] (split_chars sep s)"

lemma split_chars_nonempty [simp]: "split_chars P s \<noteq> []"
  by (induction s) (auto split: list.splits)

lemma split_chars_no_sep: "(\<And>c. c \<in> set s \<Longrightarrow> \<not> P c) \<Longrightarrow> split_chars P s = [s]"
  by (induction s) auto

lemma split_chars_append_sep:
  "P c \<Longrightarrow> split_chars P (s @ c # t) = split_chars P s @ split_chars P t"
proof (induction s)
  case (Cons d s)
  then show ?case by (cases "split_chars P s") auto
qed simp

text \<open>What a client may assume of the gate, and what follows for joined paths.\<close>

locale segment_guard =
  fixes safe :: "string \<Rightarrow> bool"
  assumes nonempty: "safe s \<Longrightarrow> s \<noteq> []"
    and no_slash: "safe s \<Longrightarrow> CHR ''/'' \<notin> set s"
    and no_backslash: "safe s \<Longrightarrow> CHR 0x5C \<notin> set s"
    and not_dot: "safe s \<Longrightarrow> s \<noteq> ''.''"
    and not_dotdot: "safe s \<Longrightarrow> s \<noteq> ''..''"
begin

lemma resolve_join:
  assumes "safe seg" and "sep (CHR ''/'')" and "\<And>c. sep c \<Longrightarrow> c = CHR ''/'' \<or> c = CHR 0x5C"
  shows "resolve sep (path_join sep base seg) = resolve sep base @ [seg]"
proof -
  have nosep: "\<not> sep c" if "c \<in> set seg" for c
    using assms(3) [of c] no_slash [OF assms(1)] no_backslash [OF assms(1)] that by auto
  from nonempty [OF assms(1)] obtain c t where seg: "seg = c # t" by (cases seg) auto
  with nosep have "path_join sep base seg = base @ CHR ''/'' # seg"
    by (simp add: path_join_def)
  then have "resolve sep (path_join sep base seg) = resolve_step (resolve sep base) seg"
    using assms(2) nosep by (simp add: resolve_def split_chars_append_sep split_chars_no_sep)
  with nonempty not_dot not_dotdot assms(1) show ?thesis by (simp add: resolve_step_def)
qed

lemma resolve_joins:
  assumes "list_all safe segs" and "sep (CHR ''/'')"
    and "\<And>c. sep c \<Longrightarrow> c = CHR ''/'' \<or> c = CHR 0x5C"
  shows "resolve sep (foldl (path_join sep) base segs) = resolve sep base @ segs"
  using assms(1)
proof (induction segs rule: rev_induct)
  case (snoc seg segs)
  then show ?case using resolve_join [of seg sep] assms(2,3) by simp
qed simp

end

interpretation seg: segment_guard safe_segment
  by unfold_locales (auto simp: safe_segment_def)

text \<open>
  A path built by joining guarded names to an export root resolves to the root's own
  components followed by exactly those names: no name walks out of the root, whatever the
  contact database or the request put into it.
\<close>

theorem guarded_join_contained:
  assumes "list_all safe_segment segs" and "sep (CHR ''/'')"
    and "\<And>c. sep c \<Longrightarrow> c = CHR ''/'' \<or> c = CHR 0x5C"
  shows "resolve sep (foldl (path_join sep) root segs) = resolve sep root @ segs"
  using assms by (rule seg.resolve_joins)

theorem guarded_join_contained_witness:
  "resolve (\<lambda>c. c = CHR ''/'' \<or> c = CHR 0x5C)
     (foldl (path_join (\<lambda>c. c = CHR ''/'' \<or> c = CHR 0x5C)) ''/data/api-media'' [''wxid_a'', ''images''])
   = [''data'', ''api-media'', ''wxid_a'', ''images'']"
proof -
  have s: "list_all safe_segment [''wxid_a'', ''images'']" by code_simp
  have r: "resolve (\<lambda>c. c = CHR ''/'' \<or> c = CHR 0x5C) ''/data/api-media'' = [''data'', ''api-media'']"
    by code_simp
  show ?thesis
    using guarded_join_contained [OF s, of "\<lambda>c. c = CHR ''/'' \<or> c = CHR 0x5C" "''/data/api-media''"] r
    by simp
qed

end
