(* ===== verification/History.thy ===== *)
theory History
  imports Prelude
begin

text \<open>
  The replay buffer and the event bus of \<open>src/sync/history.rs\<close>.
  \<^item> \<open>history_buf\<close> is \<open>HistoryBuf\<close>: the retained items and the last number handed out.
    Instants are nanoseconds since the start of the process; \<open>duration_since\<close> saturates
    at zero, as \<open>nat\<close> subtraction does.
  \<^item> \<open>event_bus\<close> is \<open>EventBus\<close>: the buffer and the sending half of tokio's broadcast
    channel. tokio is not part of the sources, so sending and subscribing are arguments
    (\<open>send\<close>, \<open>subscribe\<close>), and the results on delivery state tokio's contract as
    hypotheses on them: a receiver sees what is sent after it subscribed, in order.
  The mutex makes \<open>publish\<close> and \<open>subscribe_with_replay\<close> one step each, so a run of the bus
  is a list of whole operations (\<open>bus_op\<close>).
  The counter is a \<open>u64\<close> in the code; it is a \<open>nat\<close> here because it counts events since
  start-up and 2^64 of them do not happen.
\<close>

section \<open>The buffer\<close>

record 'e history_item =
  hi_id :: nat
  hi_at :: nat
  hi_event :: 'e

record 'e history_buf =
  items :: "'e history_item list"
  last_id :: nat

definition history_max :: nat where "history_max = 1000"

definition history_ttl :: nat where "history_ttl = 600 * 1000000000"

definition history_default :: "'e history_buf" where
  "history_default = \<lparr>items = [], last_id = 0\<rparr>"

text \<open>\<open>while items.len() > MAX { items.pop_front(); }\<close>\<close>

fun evict :: "nat \<Rightarrow> 'a list \<Rightarrow> 'a list" where
  "evict m [] = []"
| "evict m (x # xs) = (if length (x # xs) > m then evict m xs else x # xs)"

definition append :: "nat \<Rightarrow> 'e \<Rightarrow> 'e history_buf \<Rightarrow> nat \<times> 'e history_buf" where
  "append now ev h = (let n = last_id h + 1 in
     (n, \<lparr>items = evict history_max (items h @ [\<lparr>hi_id = n, hi_at = now, hi_event = ev\<rparr>]),
          last_id = n\<rparr>))"

definition clear :: "'e history_buf \<Rightarrow> 'e history_buf" where
  "clear h = h\<lparr>items := []\<rparr>"

definition replay_since :: "nat \<Rightarrow> nat \<Rightarrow> 'e history_buf \<Rightarrow> (nat \<times> 'e) list" where
  "replay_since now since h = map (\<lambda>i. (hi_id i, hi_event i))
     (filter (\<lambda>i. hi_id i > since \<and> now - hi_at i < history_ttl) (items h))"

lemma evict_drop: "evict m xs = drop (length xs - m) xs"
proof (induction xs)
  case (Cons x xs)
  show ?case
  proof (cases "length (x # xs) > m")
    case True
    then have "length (x # xs) - m = Suc (length xs - m)" by simp
    with True Cons show ?thesis by simp
  qed simp
qed simp

text \<open>
  The buffer invariant: at most \<open>history_max\<close> items, numbered without gaps up to \<open>last_id\<close>.
\<close>

definition history_inv :: "'e history_buf \<Rightarrow> bool" where
  "history_inv h \<longleftrightarrow> length (items h) \<le> history_max
     \<and> length (items h) \<le> last_id h
     \<and> map hi_id (items h) = [last_id h - length (items h) + 1 ..< last_id h + 1]"

lemma history_inv_default [simp]: "history_inv history_default"
  by (simp add: history_inv_def history_default_def)

lemma history_inv_clear [simp]: "history_inv h \<Longrightarrow> history_inv (clear h)"
  by (simp add: history_inv_def clear_def)

lemma history_inv_append [simp]:
  assumes "history_inv h"
  shows "history_inv (snd (append now ev h))"
proof -
  let ?its = "items h @ [\<lparr>hi_id = last_id h + 1, hi_at = now, hi_event = ev\<rparr>]"
  let ?d = "length ?its - history_max"
  from assms have len: "length (items h) \<le> history_max" "length (items h) \<le> last_id h"
    and ids: "map hi_id (items h) = [last_id h - length (items h) + 1 ..< last_id h + 1]"
    by (simp_all add: history_inv_def)
  have "map hi_id ?its = [last_id h - length (items h) + 1 ..< last_id h + 2]"
    using ids len by (simp add: Suc_diff_le flip: upt_Suc_append)
  then have "map hi_id (drop ?d ?its) = [last_id h - length (items h) + 1 + ?d ..< last_id h + 2]"
    by (simp only: drop_map [symmetric] drop_upt)
  moreover have "last_id h - length (items h) + 1 + ?d = last_id h + 1 - length (drop ?d ?its) + 1"
    using len by (simp add: history_max_def)
  moreover have "length (drop ?d ?its) \<le> history_max" "length (drop ?d ?its) \<le> last_id h + 1"
    using len by auto
  ultimately show ?thesis
    by (simp only: append_def Let_def snd_conv history_inv_def history_buf.simps evict_drop) simp
qed

lemma append_id [simp]: "fst (append now ev h) = last_id h + 1"
  by (simp add: append_def Let_def)

lemma append_last_id [simp]: "last_id (snd (append now ev h)) = last_id h + 1"
  by (simp add: append_def Let_def)

lemma clear_last_id [simp]: "last_id (clear h) = last_id h"
  by (simp add: clear_def)

lemma clear_replay [simp]: "replay_since now since (clear h) = []"
  by (simp add: clear_def replay_since_def)

text \<open>What a buffer promises its clients, and the consequences for a resuming reader.\<close>

locale replay_log =
  fixes app :: "nat \<Rightarrow> 'e \<Rightarrow> 'h \<Rightarrow> nat \<times> 'h"
    and clr :: "'h \<Rightarrow> 'h"
    and replay :: "nat \<Rightarrow> nat \<Rightarrow> 'h \<Rightarrow> (nat \<times> 'e) list"
    and last_no :: "'h \<Rightarrow> nat"
    and inv :: "'h \<Rightarrow> bool"
  assumes inv_app: "inv h \<Longrightarrow> inv (snd (app now ev h))"
    and inv_clr: "inv h \<Longrightarrow> inv (clr h)"
    and app_fresh: "fst (app now ev h) = last_no h + 1"
    and app_last: "last_no (snd (app now ev h)) = last_no h + 1"
    and clr_last: "last_no (clr h) = last_no h"
    and replay_sorted: "inv h \<Longrightarrow> sorted_wrt (<) (map fst (replay now since h))"
    and replay_range: "inv h \<Longrightarrow> (i, e) \<in> set (replay now since h) \<Longrightarrow> since < i \<and> i \<le> last_no h"
begin

text \<open>A number handed out later is above everything a reader saw before.\<close>

lemma app_above_replay:
  assumes "inv h" and "(i, e) \<in> set (replay now since h)"
  shows "i < fst (app now' ev h)"
  using replay_range [OF assms] by (simp add: app_fresh)

lemma resume_past_end: "inv h \<Longrightarrow> last_no h \<le> since \<Longrightarrow> replay now since h = []"
proof (rule ccontr)
  assume "inv h" "last_no h \<le> since" "replay now since h \<noteq> []"
  then obtain i e where "(i, e) \<in> set (replay now since h)" by (cases "replay now since h") auto
  with replay_range [OF \<open>inv h\<close>] \<open>last_no h \<le> since\<close> show False by fastforce
qed

lemma replay_then_live_sorted:
  assumes "inv h"
  shows "sorted_wrt (<) (map fst (replay now since h) @ [last_no h + 1 ..< n])"
proof -
  have "x < y" if "x \<in> set (map fst (replay now since h))" and "last_no h + 1 \<le> y" for x y
    using that replay_range [OF assms] by fastforce
  with replay_sorted [OF assms] show ?thesis
    by (simp add: sorted_wrt_append)
qed

end

lemma history_ids_sorted: "history_inv h \<Longrightarrow> sorted_wrt (<) (map hi_id (items h))"
  by (simp add: history_inv_def sorted_wrt_upt del: upt_Suc)

lemma history_replay_sorted: "history_inv h \<Longrightarrow> sorted_wrt (<) (map fst (replay_since now since h))"
  using history_ids_sorted [of h]
  by (simp add: replay_since_def comp_def sorted_wrt_map sorted_wrt_filter)

lemma history_item_range: "history_inv h \<Longrightarrow> i \<in> set (items h) \<Longrightarrow> hi_id i \<le> last_id h"
proof -
  assume "history_inv h" "i \<in> set (items h)"
  then have "hi_id i \<in> set [last_id h - length (items h) + 1 ..< last_id h + 1]"
    unfolding history_inv_def by (metis image_eqI set_map)
  then show ?thesis by (auto simp del: upt_Suc)
qed

interpretation hist: replay_log append clear replay_since last_id history_inv
proof unfold_locales
  fix h :: "'a history_buf" and now since i e
  assume h: "history_inv h"
  then show "sorted_wrt (<) (map fst (replay_since now since h))" by (rule history_replay_sorted)
  assume "(i, e) \<in> set (replay_since now since h)"
  with h show "since < i \<and> i \<le> last_id h"
    by (auto simp: replay_since_def dest: history_item_range)
qed simp_all

section \<open>The bus\<close>

record ('e, 'ch) event_bus =
  history :: "'e history_buf"
  tx :: 'ch

definition publish :: "('ch \<Rightarrow> nat \<times> 'e \<Rightarrow> 'ch) \<Rightarrow> nat \<Rightarrow> 'e \<Rightarrow> ('e, 'ch) event_bus
    \<Rightarrow> nat \<times> ('e, 'ch) event_bus" where
  "publish send now ev b = (let (n, h) = append now ev (history b) in
     (n, b\<lparr>history := h, tx := send (tx b) (n, ev)\<rparr>))"

definition clear_history :: "('e, 'ch) event_bus \<Rightarrow> ('e, 'ch) event_bus" where
  "clear_history b = b\<lparr>history := clear (history b)\<rparr>"

definition subscribe_with_replay :: "('ch \<Rightarrow> 'rx) \<Rightarrow> nat \<Rightarrow> nat \<Rightarrow> ('e, 'ch) event_bus
    \<Rightarrow> 'rx \<times> (nat \<times> 'e) list" where
  "subscribe_with_replay subscribe now since b =
     (subscribe (tx b), replay_since now since (history b))"

datatype 'e bus_op = Publish nat 'e | Clear

fun bus_step :: "('ch \<Rightarrow> nat \<times> 'e \<Rightarrow> 'ch) \<Rightarrow> ('e, 'ch) event_bus \<Rightarrow> 'e bus_op \<Rightarrow> ('e, 'ch) event_bus" where
  "bus_step send b (Publish now ev) = snd (publish send now ev b)"
| "bus_step send b Clear = clear_history b"

definition bus_run :: "('ch \<Rightarrow> nat \<times> 'e \<Rightarrow> 'ch) \<Rightarrow> 'e bus_op list \<Rightarrow> ('e, 'ch) event_bus
    \<Rightarrow> ('e, 'ch) event_bus" where
  "bus_run send ops b = foldl (bus_step send) b ops"

text \<open>The events a run publishes, in order.\<close>

fun published :: "'e bus_op list \<Rightarrow> 'e list" where
  "published [] = []"
| "published (Publish now ev # ops) = ev # published ops"
| "published (Clear # ops) = published ops"

lemma bus_step_inv: "history_inv (history b) \<Longrightarrow> history_inv (history (bus_step send b x))"
  by (cases x) (auto simp: publish_def clear_history_def Let_def split_beta)

lemma bus_run_inv: "history_inv (history b) \<Longrightarrow> history_inv (history (bus_run send ops b))"
  by (induction ops arbitrary: b) (auto simp: bus_run_def bus_step_inv)

lemma bus_run_last_id: "last_id (history (bus_run send ops b)) = last_id (history b) + length (published ops)"
proof (induction ops arbitrary: b)
  case (Cons x ops)
  then show ?case
    by (cases x) (simp_all add: bus_run_def publish_def clear_history_def split_beta)
qed (simp add: bus_run_def)

text \<open>
  Under the channel's contract (\<open>log\<close> is the sequence of everything sent), a run appends to
  the log exactly its events with the next consecutive numbers.
\<close>

lemma bus_run_log:
  assumes "\<And>ch x. log (send ch x) = log ch @ [x]"
  shows "log (tx (bus_run send ops b)) = log (tx b) @
    zip [last_id (history b) + 1 ..< last_id (history b) + 1 + length (published ops)] (published ops)"
proof (induction ops arbitrary: b)
  case (Cons x ops)
  show ?case
  proof (cases x)
    case (Publish now ev)
    let ?b = "snd (publish send now ev b)"
    let ?n = "last_id (history b)"
    have "last_id (history ?b) = ?n + 1" "log (tx ?b) = log (tx b) @ [(?n + 1, ev)]"
      using assms by (simp_all add: publish_def split_beta)
    moreover have "[?n + 1 ..< ?n + 1 + length (ev # published ops)]
        = (?n + 1) # [?n + 2 ..< ?n + 2 + length (published ops)]"
      by (simp add: upt_conv_Cons del: upt_Suc)
    ultimately show ?thesis
      using Cons [of ?b] Publish by (simp add: bus_run_def del: upt_Suc)
  next
    case Clear
    with Cons [of "clear_history b"] show ?thesis
      by (simp add: bus_run_def clear_history_def del: upt_Suc)
  qed
qed (simp add: bus_run_def)



text \<open>The items that a run without \<open>Clear\<close> adds, and what is left after eviction.\<close>

fun new_items :: "nat \<Rightarrow> 'e bus_op list \<Rightarrow> 'e history_item list" where
  "new_items n [] = []"
| "new_items n (Publish now ev # ops) = \<lparr>hi_id = n + 1, hi_at = now, hi_event = ev\<rparr> # new_items (n + 1) ops"
| "new_items n (Clear # ops) = new_items n ops"

definition no_clear :: "'e bus_op list \<Rightarrow> bool" where
  "no_clear ops \<longleftrightarrow> Clear \<notin> set ops"

lemma length_new_items [simp]: "length (new_items n ops) = length (published ops)"
  by (induction n ops rule: new_items.induct) auto

lemma new_items_pairs: "map (\<lambda>i. (hi_id i, hi_event i)) (new_items n ops)
    = zip [n + 1 ..< n + 1 + length (published ops)] (published ops)"
  by (induction n ops rule: new_items.induct) (auto simp: upt_conv_Cons simp del: upt_Suc)

lemma new_items_above: "i \<in> set (new_items n ops) \<Longrightarrow> n < hi_id i"
  by (induction n ops rule: new_items.induct) auto

lemma evict_append_evict: "evict m (evict m xs @ ys) = evict m (xs @ ys)"
  by (cases "length xs \<le> m") (simp_all add: evict_drop add.commute)

lemma items_run:
  assumes "no_clear ops" and "length (items (history b)) \<le> history_max"
  shows "items (history (bus_run send ops b))
    = evict history_max (items (history b) @ new_items (last_id (history b)) ops)"
  using assms
proof (induction ops arbitrary: b)
  case Nil
  then show ?case by (simp add: bus_run_def evict_drop)
next
  case (Cons x ops)
  then obtain now ev where x: "x = Publish now ev"
    by (cases x) (auto simp: no_clear_def)
  let ?b = "snd (publish send now ev b)"
  have its: "items (history ?b)
      = evict history_max (items (history b) @ [\<lparr>hi_id = last_id (history b) + 1, hi_at = now, hi_event = ev\<rparr>])"
    by (simp add: publish_def append_def split_beta Let_def)
  then have "length (items (history ?b)) \<le> history_max"
    by (simp add: evict_drop)
  moreover have "last_id (history ?b) = last_id (history b) + 1"
    by (simp add: publish_def split_beta)
  ultimately show ?case
    using Cons.IH [of ?b] Cons.prems(1)
    by (simp add: x bus_run_def no_clear_def its evict_append_evict)
qed

text \<open>
  A client that reconnects with the last number it saw is replayed every event
  published in between, in order and with its number, as long as at most 1000 were published,
  none is older than the ten-minute window and no account was deregistered meanwhile.
\<close>

theorem resume_replays_everything:
  assumes inv: "history_inv (history b)"
    and nc: "no_clear ops"
    and cap: "length (published ops) \<le> history_max"
    and fresh: "\<And>t e. Publish t e \<in> set ops \<Longrightarrow> now - t < history_ttl"
  shows "replay_since now (last_id (history b)) (history (bus_run send ops b))
    = zip [last_id (history b) + 1 ..< last_id (history b) + 1 + length (published ops)] (published ops)"
proof -
  let ?n = "last_id (history b)" and ?old = "items (history b)" and ?new = "new_items (last_id (history b)) ops"
  let ?P = "\<lambda>i. hi_id i > ?n \<and> now - hi_at i < history_ttl"
  let ?k = "length (?old @ ?new) - history_max"
  have age: "i \<in> set (new_items m ops') \<Longrightarrow> set ops' \<subseteq> set ops \<Longrightarrow> now - hi_at i < history_ttl" for i m ops'
    by (induction m ops' rule: new_items.induct) (auto dest: fresh)
  have "length ?old \<le> history_max" using inv by (simp add: history_inv_def)
  then have "items (history (bus_run send ops b)) = drop ?k ?old @ ?new"
    using items_run [OF nc, of b send] cap by (simp add: evict_drop)
  moreover have "filter ?P (drop ?k ?old) = []"
    using history_item_range [OF inv] by (fastforce simp: filter_empty_conv dest: in_set_dropD)
  moreover have "filter ?P ?new = ?new"
    using age [of _ ?n ops] new_items_above by (auto simp: filter_id_conv)
  ultimately show ?thesis
    by (simp add: replay_since_def new_items_pairs del: upt_Suc)
qed

theorem resume_replays_everything_witness:
  "replay_since 100 0 (history (bus_run (\<lambda>ch x. ch) [Publish 7 ''a'', Publish 9 ''b'']
      (\<lparr>history = history_default, tx = ()\<rparr>)))
   = [(1, ''a''), (2, ''b'')]"
proof -
  let ?b = "\<lparr>history = history_default, tx = ()\<rparr> :: (string, unit) event_bus"
  have z: "last_id (history ?b) = 0" by (simp add: history_default_def)
  have "replay_since 100 (last_id (history ?b)) (history (bus_run (\<lambda>ch x. ch) [Publish 7 ''a'', Publish 9 ''b''] ?b))
      = zip [last_id (history ?b) + 1 ..< last_id (history ?b) + 1 + length (published [Publish 7 ''a'', Publish 9 ''b''])]
          (published [Publish 7 ''a'', Publish 9 ''b''])"
    by (rule resume_replays_everything)
      (auto simp: no_clear_def history_max_def history_ttl_def)
  then show ?thesis by (simp only: z) (simp add: upt_rec)
qed

text \<open>
  Deregistration clears the buffer without touching the counter: nothing published
  before reaches a later reader, whatever cursor it brings, and no number is used twice, so a
  cursor from before the clearing never hides a later event.
\<close>

theorem clear_forgets_but_keeps_numbers:
  assumes "history_inv (history b)"
    and "(i, e) \<in> set (replay_since now since (history (bus_run send (Clear # ops) b)))"
  shows "last_id (history b) < i \<and> e \<in> set (published ops)"
  using assms(2)
proof -
  have run: "set (items (history (bus_run send ops b')))
      \<subseteq> set (items (history b')) \<union> {it. last_id (history b') < hi_id it \<and> hi_event it \<in> set (published ops)}"
    for b' :: "('a, 'b) event_bus"
  proof (induction ops arbitrary: b')
    case (Cons x ops)
    show ?case
    proof (cases x)
      case (Publish t ev)
      let ?b = "snd (publish send t ev b')"
      have "set (items (history ?b)) \<subseteq> insert \<lparr>hi_id = last_id (history b') + 1, hi_at = t, hi_event = ev\<rparr>
          (set (items (history b')))"
        by (auto simp: publish_def append_def split_beta Let_def evict_drop dest!: in_set_dropD)
      moreover have "last_id (history ?b) = last_id (history b') + 1"
        by (simp add: publish_def split_beta)
      ultimately show ?thesis
        using Cons [of ?b] Publish by (fastforce simp: bus_run_def)
    next
      case Clear
      with Cons [of "clear_history b'"] show ?thesis
        by (auto simp: bus_run_def clear_history_def clear_def)
    qed
  qed (simp add: bus_run_def)
  have "set (items (history (bus_run send (Clear # ops) b)))
      \<subseteq> {it. last_id (history b) < hi_id it \<and> hi_event it \<in> set (published ops)}"
    using run [of "clear_history b"] by (simp add: bus_run_def clear_history_def clear_def)
  with assms(2) show ?thesis by (auto simp: replay_since_def)
qed

theorem clear_forgets_but_keeps_numbers_witness:
  "(3, ''c'') \<in> set (replay_since 100 0 (history (bus_run (\<lambda>ch x. ch) [Clear, Publish 9 ''c'']
      (bus_run (\<lambda>ch x. ch) [Publish 7 ''a'', Publish 8 ''b''] \<lparr>history = history_default, tx = ()\<rparr>))))
   \<and> 2 < (3::nat)"
proof -
  let ?b = "bus_run (\<lambda>ch x. ch) [Publish 7 ''a'', Publish 8 ''b''] (\<lparr>history = history_default, tx = ()\<rparr> :: (string, unit) event_bus)"
  have inv: "history_inv (history ?b)" by (simp add: bus_run_inv)
  have mem: "(3, ''c'') \<in> set (replay_since 100 0 (history (bus_run (\<lambda>ch x. ch) [Clear, Publish 9 ''c''] ?b)))"
    by code_simp
  show ?thesis
    using clear_forgets_but_keeps_numbers [OF inv mem] mem by simp
qed

text \<open>
  From start-up on, after any sequence of publishing and clearing, the buffer holds at
  most 1000 events and they carry the last consecutive numbers.
\<close>

theorem history_bounded_and_gapless:
  "let h = history (bus_run send ops \<lparr>history = history_default, tx = ch\<rparr>)
   in length (items h) \<le> history_max
      \<and> map hi_id (items h) = [last_id h - length (items h) + 1 ..< last_id h + 1]
      \<and> last_id h = length (published ops)"
proof -
  let ?b = "\<lparr>history = history_default, tx = ch\<rparr>"
  have "history_inv (history (bus_run send ops ?b))" by (rule bus_run_inv) simp
  moreover have "last_id (history (bus_run send ops ?b)) = length (published ops)"
    using bus_run_last_id [of send ops ?b] by (simp add: history_default_def)
  ultimately show ?thesis by (simp only: Let_def history_inv_def)
qed

end
