(* ===== verification/Bytes.thy ===== *)
theory Bytes
  imports Prelude
begin

text \<open>
  Byte buffers: slices \<open>xs[a..b]\<close>, \<open>copy_from_slice\<close> into a range (\<open>put\<close>), and the
  little- and big-endian readings of 32-bit fields that the page and image formats use.
\<close>

unbundle bit_operations_syntax

named_theorems buf_simps \<open>slices of concatenated and patched buffers\<close>

definition slice :: "nat \<Rightarrow> nat \<Rightarrow> 'a list \<Rightarrow> 'a list" where
  "slice a b xs = take (b - a) (drop a xs)"

definition put :: "nat \<Rightarrow> 'a list \<Rightarrow> 'a list \<Rightarrow> 'a list" where
  "put off ys xs = take off xs @ ys @ drop (off + length ys) xs"

abbreviation zeros :: "nat \<Rightarrow> bytes" where
  "zeros n \<equiv> replicate n 0"

lemma length_slice [buf_simps, simp]: "length (slice a b xs) = min (b - a) (length xs - a)"
  by (simp add: slice_def)

lemma length_put [simp]: "off + length ys \<le> length xs \<Longrightarrow> length (put off ys xs) = length xs"
  by (simp add: put_def)

lemma slice_all [simp]: "length xs \<le> n \<Longrightarrow> slice 0 n xs = xs"
  by (simp add: slice_def)

lemma slice_append_left: "b \<le> length xs \<Longrightarrow> slice a b (xs @ ys) = slice a b xs"
  by (simp add: slice_def)

lemma slice_append_right: "length xs \<le> a \<Longrightarrow> slice a b (xs @ ys) = slice (a - length xs) (b - length xs) ys"
  by (simp add: slice_def)

lemma slice_split: "a \<le> b \<Longrightarrow> b \<le> c \<Longrightarrow> slice a b xs @ slice b c xs = slice a c xs"
proof -
  assume "a \<le> b" "b \<le> c"
  then have "c - a = (b - a) + (c - b)" by simp
  then have "slice a c xs = take (b - a) (drop a xs) @ take (c - b) (drop (b - a) (drop a xs))"
    by (simp only: slice_def take_add)
  with \<open>a \<le> b\<close> show ?thesis by (simp add: slice_def)
qed

lemma slice_put_same: "off + length ys \<le> length xs \<Longrightarrow> slice off (off + length ys) (put off ys xs) = ys"
  by (simp add: slice_def put_def)

lemma slice_put_before:
  assumes "b \<le> off" and "off \<le> length xs"
  shows "slice a b (put off ys xs) = slice a b xs"
proof -
  have "slice a b (put off ys xs) = slice a b (take off xs)"
    using assms by (simp add: put_def slice_append_left)
  also have "\<dots> = slice a b xs"
    using assms by (simp add: slice_def drop_take min_def)
  finally show ?thesis .
qed

lemma slice_put_after:
  assumes "off + length ys \<le> a" and "off + length ys \<le> length xs"
  shows "slice a b (put off ys xs) = slice a b xs"
proof -
  have "drop a (put off ys xs) = drop (a - off - length ys) (drop (off + length ys) xs)"
    using assms by (simp add: put_def)
  also have "\<dots> = drop a xs"
    using assms by simp
  finally show ?thesis by (simp add: slice_def)
qed

lemma put_at_end: "off = length xs \<Longrightarrow> put off ys (xs @ zs) = xs @ ys @ drop (length ys) zs"
  by (simp add: put_def)

section \<open>32-bit fields\<close>

definition le_bytes32 :: "nat \<Rightarrow> bytes" where
  "le_bytes32 n = map (\<lambda>i. word_of_nat (n div 256 ^ i)) [0, 1, 2, 3]"

definition be_bytes32 :: "nat \<Rightarrow> bytes" where
  "be_bytes32 n = rev (le_bytes32 n)"

definition read_le :: "bytes \<Rightarrow> nat" where
  "read_le bs = foldr (\<lambda>b a. unat b + 256 * a) bs 0"

definition read_be :: "bytes \<Rightarrow> nat" where
  "read_be bs = read_le (rev bs)"

lemma length_le_bytes32 [simp]: "length (le_bytes32 n) = 4"
  by (simp add: le_bytes32_def)

lemma length_be_bytes32 [simp]: "length (be_bytes32 n) = 4"
  by (simp add: be_bytes32_def)

lemma read_le_bytes32: "n < 2 ^ 32 \<Longrightarrow> read_le (le_bytes32 n) = n"
proof -
  assume n: "n < 2 ^ 32"
  have d: "n div 65536 = n div 256 div 256" "n div 16777216 = n div 256 div 256 div 256"
    by (simp_all add: div_mult2_eq [symmetric])
  have "n div 256 div 256 div 256 < 256" using n by simp
  then show ?thesis
    by (simp add: read_le_def le_bytes32_def unat_of_nat d)
qed

lemma read_be_bytes32: "n < 2 ^ 32 \<Longrightarrow> read_be (be_bytes32 n) = n"
  by (simp add: read_be_def be_bytes32_def read_le_bytes32)

lemma read_le_bound: "read_le bs < 256 ^ length bs"
proof (induction bs)
  case (Cons b bs)
  have "unat b < 256" using unsigned_less [of b, where 'a = nat] by simp
  moreover have "read_le (b # bs) = unat b + 256 * read_le bs" by (simp add: read_le_def)
  ultimately show ?case using Cons by simp
qed (simp add: read_le_def)

lemma xor_self_cancel: "(b XOR x) XOR x = (b :: byte)"
  by (simp add: xor.assoc)

end
