(* ===== verification/Wcdb.thy ===== *)
theory Wcdb
  imports Bytes
begin

text \<open>
  The WeChat 4.0 page cipher of \<open>src/db/wcdb.rs\<close>. AES, HMAC and PBKDF2 come from
  third-party crates: they are the fields of the parameter \<open>crypto\<close>, and \<open>crypto_ok\<close>
  states their documented behaviour (CBC without padding keeps the length and decrypts what
  it encrypted; an HMAC-SHA512 tag has 64 bytes). The random IV of the encrypting side is an
  argument. Everything else is the code: the page layout, the page-1 special case, the
  verification before decryption, the padding of a short last page, the scan of the
  write-ahead log and the patching of the snapshot.
\<close>

section \<open>Layout constants and primitives\<close>

definition page_size :: nat where "page_size = 4096"
definition reserve_size :: nat where "reserve_size = 80"
definition iv_size :: nat where "iv_size = 16"
definition hmac_size :: nat where "hmac_size = 64"
definition salt_size :: nat where "salt_size = 16"
definition usable_size :: nat where "usable_size = page_size - reserve_size"
definition wal_header_size :: nat where "wal_header_size = 32"
definition wal_frame_header_size :: nat where "wal_frame_header_size = 24"
definition wal_frame_size :: nat where "wal_frame_size = wal_frame_header_size + page_size"

definition sqlite_hdr :: bytes where
  "sqlite_hdr = [83, 81, 76, 105, 116, 101, 32, 102, 111, 114, 109, 97, 116, 32, 51, 0]"

lemmas layout = page_size_def reserve_size_def iv_size_def hmac_size_def salt_size_def
  usable_size_def wal_header_size_def wal_frame_header_size_def wal_frame_size_def

record crypto =
  pbkdf2_hmac :: "bytes \<Rightarrow> bytes \<Rightarrow> nat \<Rightarrow> bytes"
  hmac_sha512 :: "bytes \<Rightarrow> bytes \<Rightarrow> bytes"
  cbc_decrypt :: "bytes \<Rightarrow> bytes \<Rightarrow> bytes \<Rightarrow> bytes option"
  cbc_encrypt :: "bytes \<Rightarrow> bytes \<Rightarrow> bytes \<Rightarrow> bytes"

definition crypto_ok :: "crypto \<Rightarrow> bool" where
  "crypto_ok c \<longleftrightarrow> (\<forall>k m. length (hmac_sha512 c k m) = 64)
     \<and> (\<forall>k iv pt. 16 dvd length pt \<longrightarrow> length (cbc_encrypt c k iv pt) = length pt
          \<and> cbc_decrypt c k iv (cbc_encrypt c k iv pt) = Some pt)
     \<and> (\<forall>k iv ct. 16 dvd length ct \<longrightarrow> (\<exists>pt. cbc_decrypt c k iv ct = Some pt \<and> length pt = length ct))"

datatype wcdb_error = Page_Truncated nat nat | Aes_Failed | Db_Too_Small nat | Hmac_Failed

definition derive_mac_key :: "crypto \<Rightarrow> bytes \<Rightarrow> bytes \<Rightarrow> bytes" where
  "derive_mac_key c enc_key salt = pbkdf2_hmac c enc_key (map (\<lambda>b. b XOR 0x3a) salt) 2"

definition page_mac :: "crypto \<Rightarrow> bytes \<Rightarrow> bytes \<Rightarrow> nat \<Rightarrow> bytes" where
  "page_mac c mac_key ct_iv pgno = hmac_sha512 c mac_key (ct_iv @ le_bytes32 pgno)"

definition aes_cbc_decrypt :: "crypto \<Rightarrow> bytes \<Rightarrow> bytes \<Rightarrow> bytes \<Rightarrow> wcdb_error + bytes" where
  "aes_cbc_decrypt c key iv ct = (case cbc_decrypt c key iv ct of None \<Rightarrow> Inl Aes_Failed | Some b \<Rightarrow> Inr b)"

section \<open>Pages\<close>

definition verify_page1 :: "crypto \<Rightarrow> bytes \<Rightarrow> bytes \<Rightarrow> bool" where
  "verify_page1 c enc_key page = (if length page < page_size then False else
     let mac_key = derive_mac_key c enc_key (slice 0 salt_size page);
         expected = page_mac c mac_key (slice 16 (usable_size + iv_size) page) 1
     in expected = drop (page_size - hmac_size) page)"

definition decrypt_page :: "crypto \<Rightarrow> bytes \<Rightarrow> bytes \<Rightarrow> nat \<Rightarrow> wcdb_error + bytes" where
  "decrypt_page c enc_key page pgno = (if length page < page_size then Inl (Page_Truncated pgno (length page)) else
     let iv = slice usable_size (usable_size + iv_size) page;
         ct = (if pgno = 1 then slice salt_size usable_size page else slice 0 usable_size page)
     in case aes_cbc_decrypt c enc_key iv ct of Inl e \<Rightarrow> Inl e
        | Inr pt \<Rightarrow> Inr (if pgno = 1 then put 16 pt (put 0 sqlite_hdr (zeros page_size))
                         else put 0 pt (zeros page_size)))"

definition decrypt_page_raw :: "crypto \<Rightarrow> bytes \<Rightarrow> bytes \<Rightarrow> wcdb_error + bytes" where
  "decrypt_page_raw c enc_key page = (if length page < page_size then Inl (Page_Truncated 0 (length page)) else
     case aes_cbc_decrypt c enc_key (slice usable_size (usable_size + iv_size) page) (slice 0 usable_size page) of
       Inl e \<Rightarrow> Inl e | Inr pt \<Rightarrow> Inr (put 0 pt (zeros page_size)))"

definition encrypt_page :: "crypto \<Rightarrow> bytes \<Rightarrow> bytes \<Rightarrow> nat \<Rightarrow> bytes \<Rightarrow> bytes \<Rightarrow> bytes" where
  "encrypt_page c enc_key salt pgno plain iv = (let
      page0 = (if pgno = 1 then put 0 salt (zeros page_size) else zeros page_size);
      src = (if pgno = 1 then slice salt_size usable_size plain else slice 0 usable_size plain);
      ct = cbc_encrypt c enc_key iv src;
      page1 = put (if pgno = 1 then salt_size else 0) ct page0;
      page2 = put usable_size iv page1;
      mac_key = derive_mac_key c enc_key salt;
      hmac_input = (if pgno = 1 then slice 16 (usable_size + iv_size) page2
                    else slice 0 (usable_size + iv_size) page2)
    in put (page_size - hmac_size) (page_mac c mac_key hmac_input pgno) page2)"

definition encrypt_page_raw :: "crypto \<Rightarrow> bytes \<Rightarrow> nat \<Rightarrow> bytes \<Rightarrow> bytes \<Rightarrow> bytes" where
  "encrypt_page_raw c enc_key pgno plain iv = (let
      page1 = put 0 (cbc_encrypt c enc_key iv (slice 0 usable_size plain)) (zeros page_size);
      page2 = put usable_size iv page1;
      mac_key = derive_mac_key c enc_key (zeros salt_size)
    in put (page_size - hmac_size) (page_mac c mac_key (slice 0 (usable_size + iv_size) page2) pgno) page2)"

section \<open>Database files\<close>

text \<open>\<open>page_buf\<close> in the loop: the slice of the file, zero-filled to a whole page.\<close>

definition page_buf :: "bytes \<Rightarrow> nat \<Rightarrow> bytes" where
  "page_buf enc start = (let s = slice start (min (start + page_size) (length enc)) enc
     in s @ zeros (page_size - length s))"

fun decrypt_pages :: "crypto \<Rightarrow> bytes \<Rightarrow> bytes \<Rightarrow> nat list \<Rightarrow> wcdb_error + bytes" where
  "decrypt_pages c k enc [] = Inr []"
| "decrypt_pages c k enc (pgno # rest) =
     (case decrypt_page c k (page_buf enc ((pgno - 1) * page_size)) pgno of
        Inl e \<Rightarrow> Inl e
      | Inr dec \<Rightarrow> (case decrypt_pages c k enc rest of Inl e \<Rightarrow> Inl e | Inr out \<Rightarrow> Inr (dec @ out)))"

definition total_pages :: "bytes \<Rightarrow> nat" where
  "total_pages enc = (length enc + page_size - 1) div page_size"

definition decrypt_db :: "crypto \<Rightarrow> bytes \<Rightarrow> bytes \<Rightarrow> wcdb_error + bytes" where
  "decrypt_db c enc_key enc = (if length enc < page_size then Inl (Db_Too_Small (length enc))
     else if \<not> verify_page1 c enc_key (slice 0 page_size enc) then Inl Hmac_Failed
     else decrypt_pages c enc_key enc [1 ..< total_pages enc + 1])"

section \<open>The write-ahead log\<close>

record wal_frame =
  wf_pgno :: nat
  wf_page :: bytes

definition wal_frame_live :: "bytes \<Rightarrow> nat \<Rightarrow> nat \<Rightarrow> bool" where
  "wal_frame_live hdr salt1 salt2 \<longleftrightarrow> (let pgno = read_be (slice 0 4 hdr)
     in pgno \<noteq> 0 \<and> pgno \<le> 1000000 \<and> read_be (slice 8 12 hdr) = salt1 \<and> read_be (slice 12 16 hdr) = salt2)"

definition wal_frame_at :: "crypto \<Rightarrow> bytes \<Rightarrow> nat \<Rightarrow> nat \<Rightarrow> bytes \<Rightarrow> nat \<Rightarrow> wal_frame list" where
  "wal_frame_at c enc_key salt1 salt2 wal off = (let
      hdr = slice off (off + wal_frame_header_size) wal;
      pgno = read_be (slice 0 4 hdr)
    in if wal_frame_live hdr salt1 salt2
       then (case decrypt_page c enc_key (slice (off + 24) (off + wal_frame_size) wal) pgno of
               Inl _ \<Rightarrow> [] | Inr page \<Rightarrow> [\<lparr>wf_pgno = pgno, wf_page = page\<rparr>])
       else [])"

function wal_scan :: "crypto \<Rightarrow> bytes \<Rightarrow> nat \<Rightarrow> nat \<Rightarrow> bytes \<Rightarrow> nat \<Rightarrow> wal_frame list" where
  "wal_scan c k s1 s2 wal off = (if off + wal_frame_size \<le> length wal
     then wal_frame_at c k s1 s2 wal off @ wal_scan c k s1 s2 wal (off + wal_frame_size)
     else [])"
  by pat_completeness auto
termination
  by (relation "measure (\<lambda>(c, k, s1, s2, wal, off). length wal - off)") (auto simp: layout)

declare wal_scan.simps [simp del]

definition decrypt_wal_frames :: "crypto \<Rightarrow> bytes \<Rightarrow> bytes \<Rightarrow> wal_frame list" where
  "decrypt_wal_frames c enc_key wal = (if length wal \<le> wal_header_size then []
     else wal_scan c enc_key (read_be (slice 16 20 wal)) (read_be (slice 20 24 wal)) wal wal_header_size)"

text \<open>\<open>resize\<close> with zeros, then the copy of the page.\<close>

definition apply_frame :: "bytes \<Rightarrow> wal_frame \<Rightarrow> bytes" where
  "apply_frame snap f = (let off = (wf_pgno f - 1) * page_size;
      grown = (if off + page_size > length snap then snap @ zeros (off + page_size - length snap) else snap)
    in put off (wf_page f) grown)"

definition apply_wal_frames :: "bytes \<Rightarrow> wal_frame list \<Rightarrow> bytes" where
  "apply_wal_frames snap frames = foldl apply_frame snap frames"

section \<open>What the encrypting side writes\<close>

lemma crypto_okD:
  assumes "crypto_ok c"
  shows "length (hmac_sha512 c k m) = 64"
    and "16 dvd length pt \<Longrightarrow> length (cbc_encrypt c k iv pt) = length pt"
    and "16 dvd length pt \<Longrightarrow> cbc_decrypt c k iv (cbc_encrypt c k iv pt) = Some pt"
  using assms by (auto simp: crypto_ok_def)

definition page_src :: "nat \<Rightarrow> bytes \<Rightarrow> bytes" where
  "page_src pgno plain = (if pgno = 1 then slice salt_size usable_size plain else slice 0 usable_size plain)"

text \<open>The plaintext a reader gets back: the reserve is zero, page 1 starts with the magic.\<close>

definition clear_page :: "nat \<Rightarrow> bytes \<Rightarrow> bytes" where
  "clear_page pgno plain = (if pgno = 1 then sqlite_hdr else []) @ page_src pgno plain @ zeros reserve_size"

lemma page_src_len: "length plain = page_size \<Longrightarrow> 16 dvd length (page_src pgno plain)
    \<and> length (page_src pgno plain) = usable_size - (if pgno = 1 then salt_size else 0)"
  by (simp add: page_src_def layout)

lemma cbc_page_src:
  assumes "crypto_ok c" and "length plain = page_size"
  shows "length (cbc_encrypt c k iv (page_src pgno plain)) = usable_size - (if pgno = 1 then salt_size else 0)"
    and "cbc_decrypt c k iv (cbc_encrypt c k iv (page_src pgno plain)) = Some (page_src pgno plain)"
proof -
  have src: "16 dvd length (page_src pgno plain)"
    "length (page_src pgno plain) = usable_size - (if pgno = 1 then salt_size else 0)"
    using page_src_len [OF assms(2), of pgno] by blast+
  show "length (cbc_encrypt c k iv (page_src pgno plain)) = usable_size - (if pgno = 1 then salt_size else 0)"
    using crypto_okD(2) [OF assms(1) src(1)] by (simp only: src(2))
  show "cbc_decrypt c k iv (cbc_encrypt c k iv (page_src pgno plain)) = Some (page_src pgno plain)"
    by (rule crypto_okD(3) [OF assms(1) src(1)])
qed

lemma length_sqlite_hdr [simp]: "length sqlite_hdr = 16"
  by (simp add: sqlite_hdr_def)

lemma length_clear_page [simp]: "length plain = page_size \<Longrightarrow> length (clear_page pgno plain) = page_size"
  using page_src_len [of plain pgno] by (simp add: clear_page_def layout)

lemma encrypt_page_layout:
  assumes c: "crypto_ok c" and len: "length salt = salt_size" "length plain = page_size" "length iv = iv_size"
  shows "\<exists>mac. encrypt_page c k salt pgno plain iv
      = (if pgno = 1 then salt else []) @ cbc_encrypt c k iv (page_src pgno plain) @ iv @ mac
    \<and> length mac = hmac_size
    \<and> mac = page_mac c (derive_mac_key c k salt) (cbc_encrypt c k iv (page_src pgno plain) @ iv) pgno"
proof -
  define h where "h = (if pgno = 1 then salt else [])"
  define ct where "ct = cbc_encrypt c k iv (page_src pgno plain)"
  define mac where "mac = page_mac c (derive_mac_key c k salt) (ct @ iv) pgno"
  have hlen: "length h = (if pgno = 1 then 16 else 0)"
    using len by (simp add: h_def layout)
  have ct: "length ct = 4016 - length h"
    using cbc_page_src(1) [OF c len(2), of k iv pgno] hlen by (simp add: ct_def layout)
  have mac: "length mac = hmac_size"
    using crypto_okD(1) [OF c] by (simp add: mac_def page_mac_def layout)
  have p0: "(if pgno = 1 then put 0 salt (zeros page_size) else zeros page_size) = h @ zeros (page_size - length h)"
    using len by (simp add: put_def h_def)
  have p1: "put (if pgno = 1 then salt_size else 0) ct (h @ zeros (page_size - length h))
      = (h @ ct) @ zeros reserve_size"
    using put_at_end [of "length h" h ct "zeros (page_size - length h)"] ct hlen
    by (simp add: layout split: if_splits)
  have p2: "put usable_size iv ((h @ ct) @ zeros reserve_size) = (h @ ct @ iv) @ zeros hmac_size"
    using put_at_end [of usable_size "h @ ct" iv "zeros reserve_size"] ct hlen len
    by (simp add: layout split: if_splits)
  have inp: "(if pgno = 1 then slice 16 (usable_size + iv_size) ((h @ ct @ iv) @ zeros hmac_size)
      else slice 0 (usable_size + iv_size) ((h @ ct @ iv) @ zeros hmac_size)) = ct @ iv"
    using ct hlen len by (simp add: slice_def layout split: if_splits)
  have p3: "put (page_size - hmac_size) mac ((h @ ct @ iv) @ zeros hmac_size) = h @ ct @ iv @ mac"
    using put_at_end [of "page_size - hmac_size" "h @ ct @ iv" mac "zeros hmac_size"] ct hlen len mac
    by (simp add: layout split: if_splits)
  have "encrypt_page c k salt pgno plain iv = h @ ct @ iv @ mac"
    unfolding encrypt_page_def Let_def page_src_def [symmetric] ct_def [symmetric] p0 p1 p2 inp
      mac_def [symmetric] p3 ..
  with mac show ?thesis by (auto simp: h_def ct_def mac_def)
qed

lemma encrypt_page_len:
  assumes "crypto_ok c" and "length salt = salt_size" "length plain = page_size" "length iv = iv_size"
  shows "length (encrypt_page c k salt pgno plain iv) = page_size"
  using encrypt_page_layout [OF assms, of k pgno] cbc_page_src(1) [OF assms(1,3), of k iv pgno] assms(2-)
  by (auto simp: layout)

lemma decrypt_encrypt_page:
  assumes c: "crypto_ok c" and len: "length salt = salt_size" "length plain = page_size" "length iv = iv_size"
  shows "decrypt_page c k (encrypt_page c k salt pgno plain iv) pgno = Inr (clear_page pgno plain)"
proof -
  define h where "h = (if pgno = 1 then salt else [])"
  define src where "src = page_src pgno plain"
  define ct where "ct = cbc_encrypt c k iv src"
  have hlen: "length h = (if pgno = 1 then 16 else 0)"
    using len by (simp add: h_def layout)
  obtain mac where enc: "encrypt_page c k salt pgno plain iv = h @ ct @ iv @ mac" and mac: "length mac = hmac_size"
    using encrypt_page_layout [OF c len, of k pgno] unfolding h_def src_def ct_def by blast
  have src: "length src = 4016 - length h"
    using page_src_len [OF len(2), of pgno] hlen by (simp add: src_def layout)
  have ct: "length ct = 4016 - length h" and dec: "cbc_decrypt c k iv ct = Some src"
    using cbc_page_src [OF c len(2), of k iv pgno] hlen by (simp_all add: ct_def src_def layout)
  have iv: "slice usable_size (usable_size + iv_size) (h @ ct @ iv @ mac) = iv"
    using ct len hlen by (simp add: slice_def layout split: if_splits)
  have cts: "(if pgno = 1 then slice salt_size usable_size (h @ ct @ iv @ mac)
      else slice 0 usable_size (h @ ct @ iv @ mac)) = ct"
    using ct len hlen by (simp add: slice_def layout split: if_splits)
  have out: "(if pgno = 1 then put 16 src (put 0 sqlite_hdr (zeros page_size))
      else put 0 src (zeros page_size)) = clear_page pgno plain"
    using src hlen by (simp add: put_def clear_page_def layout src_def split: if_splits)
  have "\<not> length (h @ ct @ iv @ mac) < page_size"
    using ct len mac hlen by (simp add: layout split: if_splits)
  then show ?thesis
    unfolding decrypt_page_def enc Let_def iv cts aes_cbc_decrypt_def dec
    by (simp only: out option.case sum.case if_False)
qed

lemma verify_encrypt_page1:
  assumes c: "crypto_ok c" and len: "length salt = salt_size" "length plain = page_size" "length iv = iv_size"
  shows "verify_page1 c k (encrypt_page c k salt 1 plain iv)"
proof -
  let ?ct = "cbc_encrypt c k iv (page_src 1 plain)"
  obtain mac where enc: "encrypt_page c k salt 1 plain iv = salt @ ?ct @ iv @ mac" and mac: "length mac = hmac_size"
    and m: "mac = page_mac c (derive_mac_key c k salt) (?ct @ iv) 1"
    using encrypt_page_layout [OF c len, of k 1] by auto
  have ct: "length ?ct = usable_size - salt_size"
    using cbc_page_src(1) [OF c len(2), of k iv 1] by simp
  have "slice 0 salt_size (salt @ ?ct @ iv @ mac) = salt"
    and "slice 16 (usable_size + iv_size) (salt @ ?ct @ iv @ mac) = ?ct @ iv"
    and "drop (page_size - hmac_size) (salt @ ?ct @ iv @ mac) = mac"
    and "\<not> length (salt @ ?ct @ iv @ mac) < page_size"
    using ct len mac by (simp_all add: slice_def layout)
  then show ?thesis unfolding verify_page1_def enc Let_def by (simp add: m)
qed

text \<open>A cipher for the witnesses: XOR with the key's first byte, constant tags.\<close>

definition xor_crypto :: crypto where
  "xor_crypto = \<lparr>pbkdf2_hmac = (\<lambda>k s n. k), hmac_sha512 = (\<lambda>k m. zeros 64),
     cbc_decrypt = (\<lambda>k iv ct. Some (map (\<lambda>b. b XOR hd (k @ [0])) ct)),
     cbc_encrypt = (\<lambda>k iv pt. map (\<lambda>b. b XOR hd (k @ [0])) pt)\<rparr>"

lemma xor_crypto_ok: "crypto_ok xor_crypto"
  by (simp add: crypto_ok_def xor_crypto_def comp_def xor_self_cancel)

text \<open>
  Page round trip: a page written in the on-disk layout decrypts to its usable part with
  a zeroed reserve (page 1 with the SQLite magic in place of the salt), and page 1 passes the
  key verification that guards opening a database.
\<close>

theorem page_roundtrip:
  assumes "crypto_ok c" and "length salt = salt_size" "length plain = page_size" "length iv = iv_size"
  shows "decrypt_page c k (encrypt_page c k salt pgno plain iv) pgno = Inr (clear_page pgno plain)
    \<and> verify_page1 c k (encrypt_page c k salt 1 plain iv)
    \<and> length (encrypt_page c k salt pgno plain iv) = page_size"
  using decrypt_encrypt_page [OF assms] verify_encrypt_page1 [OF assms] encrypt_page_len [OF assms] by blast

theorem page_roundtrip_witness:
  "decrypt_page xor_crypto [90] (encrypt_page xor_crypto [90] (zeros salt_size) 2 (replicate page_size 7) (zeros iv_size)) 2
   = Inr (clear_page 2 (replicate page_size 7))"
  using page_roundtrip [OF xor_crypto_ok, of "zeros salt_size" "replicate page_size 7" "zeros iv_size" "[90]" 2]
  by simp

section \<open>Whole files\<close>

text \<open>An encrypted database as the writer produces it: the pages in order, numbered from 1.\<close>

definition encrypted_file :: "crypto \<Rightarrow> bytes \<Rightarrow> bytes \<Rightarrow> (bytes \<times> bytes) list \<Rightarrow> bytes" where
  "encrypted_file c k salt ps = concat (map (\<lambda>i. encrypt_page c k salt (i + 1) (fst (ps ! i)) (snd (ps ! i))) [0 ..< length ps])"

lemma nth_chunk:
  assumes "\<forall>x \<in> set xs. length x = w" and "i < length xs"
  shows "take w (drop (i * w) (concat xs @ ys)) = xs ! i"
  using assms
proof (induction xs arbitrary: i)
  case (Cons x xs)
  then have w: "length x = w" by simp
  show ?case
  proof (cases i)
    case (Suc j)
    with Cons.IH [of j] Cons.prems w show ?thesis by simp
  qed (use w in simp)
qed simp

lemma length_concat_chunks: "\<forall>x \<in> set xs. length x = w \<Longrightarrow> length (concat xs) = length xs * w"
  by (induction xs) auto

lemma page_buf_chunk:
  assumes "\<forall>x \<in> set xs. length x = page_size" and "i < length xs"
  shows "page_buf (concat xs) (i * page_size) = xs ! i"
proof -
  have "i * page_size + page_size \<le> length xs * page_size"
    using assms(2) mult_le_mono1 [of "Suc i" "length xs" page_size] by simp
  then have "slice (i * page_size) (min (i * page_size + page_size) (length (concat xs))) (concat xs) = xs ! i"
    using nth_chunk [OF assms, of "[]"] length_concat_chunks [OF assms(1)] by (simp add: slice_def)
  then show ?thesis using assms by (simp add: page_buf_def)
qed

lemma decrypt_pages_all:
  assumes "\<And>n. n \<in> set ns \<Longrightarrow> decrypt_page c k (page_buf enc ((n - 1) * page_size)) n = Inr (f n)"
  shows "decrypt_pages c k enc ns = Inr (concat (map f ns))"
  using assms by (induction ns) simp_all

lemma total_pages_exact: "length enc = n * page_size \<Longrightarrow> total_pages enc = n"
  by (simp add: total_pages_def layout)

text \<open>
  C26. Whole-file decryption: the encrypted file of any nonempty page list opens under its key,
  and every page, page 1 with its special layout included, is decrypted at its own number and
  offset into its own place of the output.
\<close>

theorem decrypt_db_roundtrip:
  assumes c: "crypto_ok c" and ne: "ps \<noteq> []" and salt: "length salt = salt_size"
    and lens: "\<And>p iv. (p, iv) \<in> set ps \<Longrightarrow> length p = page_size \<and> length iv = iv_size"
  shows "decrypt_db c k (encrypted_file c k salt ps)
    = Inr (concat (map (\<lambda>i. clear_page (i + 1) (fst (ps ! i))) [0 ..< length ps]))"
proof -
  let ?page = "\<lambda>i. encrypt_page c k salt (i + 1) (fst (ps ! i)) (snd (ps ! i))"
  let ?xs = "map ?page [0 ..< length ps]"
  have l: "length (fst (ps ! i)) = page_size" "length (snd (ps ! i)) = iv_size" if "i < length ps" for i
    using lens [of "fst (ps ! i)" "snd (ps ! i)"] that by simp_all
  have len: "\<forall>x \<in> set ?xs. length x = page_size"
    using l encrypt_page_len [OF c salt] by auto
  have tot: "length (concat ?xs) = length ps * page_size"
    using length_concat_chunks [OF len] by simp
  have buf: "page_buf (concat ?xs) (i * page_size) = ?page i" if "i < length ps" for i
    using page_buf_chunk [OF len, of i] that by simp
  have "slice 0 page_size (concat ?xs) = ?page 0"
    using nth_chunk [OF len, of 0 "[]"] ne by (simp add: slice_def)
  then have ver: "verify_page1 c k (slice 0 page_size (concat ?xs))"
    using verify_encrypt_page1 [OF c salt l [of 0]] ne by simp
  have "decrypt_page c k (page_buf (concat ?xs) ((n - 1) * page_size)) n = Inr (clear_page n (fst (ps ! (n - 1))))"
    if "n \<in> set [1 ..< length ps + 1]" for n
  proof -
    from that have "n - 1 < length ps" and "n - 1 + 1 = n" by auto
    with buf [of "n - 1"] decrypt_encrypt_page [OF c salt l [of "n - 1"], of k n] show ?thesis by simp
  qed
  then have "decrypt_pages c k (concat ?xs) [1 ..< length ps + 1]
      = Inr (concat (map (\<lambda>n. clear_page n (fst (ps ! (n - 1)))) [1 ..< length ps + 1]))"
    by (rule decrypt_pages_all)
  also have "map (\<lambda>n. clear_page n (fst (ps ! (n - 1)))) [1 ..< length ps + 1]
      = map (\<lambda>i. clear_page (i + 1) (fst (ps ! i))) [0 ..< length ps]"
    by (rule nth_equalityI) (simp_all del: upt_Suc)
  finally have dec: "decrypt_pages c k (concat ?xs) [1 ..< length ps + 1]
      = Inr (concat (map (\<lambda>i. clear_page (i + 1) (fst (ps ! i))) [0 ..< length ps]))" .
  have "\<not> length (concat ?xs) < page_size"
    unfolding tot using ne by (cases ps) (simp_all only: list.size, simp_all)
  then show ?thesis
    unfolding decrypt_db_def encrypted_file_def total_pages_exact [OF tot] dec using ver by (simp only: if_False not_True_eq_False)
qed

theorem decrypt_db_roundtrip_witness:
  "decrypt_db xor_crypto [90] (encrypted_file xor_crypto [90] (zeros salt_size)
      [(replicate page_size 7, zeros iv_size), (replicate page_size 9, zeros iv_size)])
   = Inr (clear_page 1 (replicate page_size 7) @ clear_page 2 (replicate page_size 9))"
proof -
  let ?ps = "[(replicate page_size 7, zeros iv_size), (replicate page_size 9, zeros iv_size)] :: (bytes \<times> bytes) list"
  have "decrypt_db xor_crypto [90] (encrypted_file xor_crypto [90] (zeros salt_size) ?ps)
      = Inr (concat (map (\<lambda>i. clear_page (i + 1) (fst (?ps ! i))) [0 ..< length ?ps]))"
    by (rule decrypt_db_roundtrip [OF xor_crypto_ok]) auto
  then show ?thesis by (simp add: numeral_2_eq_2)
qed

section \<open>The log, read and applied\<close>

text \<open>One frame as SQLite writes it: page number, database size, the two salts, checksum, page.\<close>

record wal_entry =
  we_pgno :: nat
  we_size :: bytes
  we_salts :: "nat \<times> nat"
  we_cksum :: bytes
  we_plain :: bytes
  we_iv :: bytes

definition frame_bytes :: "crypto \<Rightarrow> bytes \<Rightarrow> bytes \<Rightarrow> wal_entry \<Rightarrow> bytes" where
  "frame_bytes c k salt e = be_bytes32 (we_pgno e) @ we_size e
     @ be_bytes32 (fst (we_salts e)) @ be_bytes32 (snd (we_salts e)) @ we_cksum e
     @ encrypt_page c k salt (we_pgno e) (we_plain e) (we_iv e)"

definition entry_ok :: "wal_entry \<Rightarrow> bool" where
  "entry_ok e \<longleftrightarrow> 1 \<le> we_pgno e \<and> we_pgno e \<le> 1000000 \<and> length (we_size e) = 4
     \<and> fst (we_salts e) < 2 ^ 32 \<and> snd (we_salts e) < 2 ^ 32 \<and> length (we_cksum e) = 8
     \<and> length (we_plain e) = page_size \<and> length (we_iv e) = iv_size"

lemma frame_bytes_len:
  "crypto_ok c \<Longrightarrow> length salt = salt_size \<Longrightarrow> entry_ok e \<Longrightarrow> length (frame_bytes c k salt e) = wal_frame_size"
  by (simp add: frame_bytes_def entry_ok_def encrypt_page_len wal_frame_size_def wal_frame_header_size_def)

lemma frame_read:
  assumes c: "crypto_ok c" and salt: "length salt = salt_size" and e: "entry_ok e"
  shows "wal_frame_at c k s1 s2 (pre @ frame_bytes c k salt e @ post) (length pre)
    = (if we_salts e = (s1, s2) then [\<lparr>wf_pgno = we_pgno e, wf_page = clear_page (we_pgno e) (we_plain e)\<rparr>] else [])"
proof -
  let ?p = "encrypt_page c k salt (we_pgno e) (we_plain e) (we_iv e)"
  define hdr where "hdr = be_bytes32 (we_pgno e) @ we_size e
     @ be_bytes32 (fst (we_salts e)) @ be_bytes32 (snd (we_salts e)) @ we_cksum e"
  have f: "frame_bytes c k salt e = hdr @ ?p" by (simp add: frame_bytes_def hdr_def)
  have ok: "1 \<le> we_pgno e" "we_pgno e \<le> 1000000" "length (we_size e) = 4" "fst (we_salts e) < 2 ^ 32"
    "snd (we_salts e) < 2 ^ 32" "length (we_cksum e) = 8" "length (we_plain e) = page_size" "length (we_iv e) = iv_size"
    using e by (simp_all add: entry_ok_def)
  have h: "length hdr = 24" using ok by (simp add: hdr_def)
  have plen: "length ?p = page_size" by (rule encrypt_page_len [OF c salt ok(7,8)])
  have s1: "slice (length pre) (length pre + wal_frame_header_size) (pre @ (hdr @ ?p) @ post) = hdr"
    using h by (simp add: slice_def wal_frame_header_size_def)
  have s2: "slice (length pre + 24) (length pre + wal_frame_size) (pre @ (hdr @ ?p) @ post) = ?p"
    using h plen by (simp add: slice_def wal_frame_size_def wal_frame_header_size_def)
  have n: "read_be (slice 0 4 hdr) = we_pgno e" "read_be (slice 8 12 hdr) = fst (we_salts e)"
    "read_be (slice 12 16 hdr) = snd (we_salts e)"
    using ok by (simp_all add: slice_def hdr_def read_be_bytes32)
  have "wal_frame_live hdr a b \<longleftrightarrow> we_salts e = (a, b)" for a b
    using ok by (auto simp: wal_frame_live_def Let_def n prod_eq_iff)
  then show ?thesis
    unfolding wal_frame_at_def Let_def f s1 s2 n decrypt_encrypt_page [OF c salt ok(7,8)] by simp
qed

lemma wal_scan_frames:
  assumes c: "crypto_ok c" and salt: "length salt = salt_size" and es: "list_all entry_ok es"
    and tail: "length tail < wal_frame_size"
  shows "wal_scan c k s1 s2 (pre @ concat (map (frame_bytes c k salt) es) @ tail) (length pre)
    = map (\<lambda>e. \<lparr>wf_pgno = we_pgno e, wf_page = clear_page (we_pgno e) (we_plain e)\<rparr>)
        (filter (\<lambda>e. we_salts e = (s1, s2)) es)"
  using es
proof (induction es arbitrary: pre)
  case Nil
  then show ?case using tail by (subst wal_scan.simps) simp
next
  case (Cons e es)
  let ?f = "frame_bytes c k salt e" and ?rest = "concat (map (frame_bytes c k salt) es) @ tail"
  have e: "entry_ok e" and es: "list_all entry_ok es" using Cons.prems by simp_all
  have len: "length ?f = wal_frame_size" by (rule frame_bytes_len [OF c salt e])
  have "wal_scan c k s1 s2 (pre @ ?f @ ?rest) (length pre)
      = wal_frame_at c k s1 s2 (pre @ ?f @ ?rest) (length pre)
        @ wal_scan c k s1 s2 ((pre @ ?f) @ ?rest) (length (pre @ ?f))"
    by (subst wal_scan.simps) (simp add: len)
  then show ?case
    using Cons.IH [OF es, of "pre @ ?f"] by (simp add: frame_read [OF c salt e])
qed



text \<open>Page \<open>n\<close> of a decrypted snapshot.\<close>

definition page_at :: "bytes \<Rightarrow> nat \<Rightarrow> bytes" where
  "page_at b n = slice ((n - 1) * page_size) (n * page_size) b"

definition frame_ok :: "wal_frame \<Rightarrow> bool" where
  "frame_ok f \<longleftrightarrow> 1 \<le> wf_pgno f \<and> length (wf_page f) = page_size"

definition page_or_zero :: "bytes \<Rightarrow> nat \<Rightarrow> bytes" where
  "page_or_zero b n = (if n * page_size \<le> length b then page_at b n else zeros page_size)"

lemma page_bounds:
  assumes "1 \<le> (n :: nat)" and "n < m"
  shows "n * page_size \<le> (m - 1) * page_size"
  using assms by (intro mult_le_mono1) simp

lemma length_apply_frame:
  assumes "frame_ok f"
  shows "length (apply_frame snap f) = max (length snap) (wf_pgno f * page_size)"
proof -
  have "(wf_pgno f - 1) * page_size + page_size = wf_pgno f * page_size"
    using assms by (cases "wf_pgno f") (simp_all add: frame_ok_def)
  moreover have "length (wf_page f) = page_size" using assms by (simp add: frame_ok_def)
  moreover have "length (put off ys xs) = max (length xs) (off + length ys)" if "off \<le> length xs" for off and ys xs :: bytes
    using that by (simp add: put_def)
  ultimately show ?thesis by (simp only: apply_frame_def Let_def) (simp add: max_def)
qed

lemma page_apply_frame:
  assumes f: "frame_ok f" and al: "page_size dvd length snap" and n: "1 \<le> n"
    and n_len: "n * page_size \<le> length (apply_frame snap f)"
  shows "page_at (apply_frame snap f) n = (if n = wf_pgno f then wf_page f else page_or_zero snap n)"
proof -
  let ?off = "(wf_pgno f - 1) * page_size"
  define g where "g = (if ?off + page_size > length snap then snap @ zeros (?off + page_size - length snap) else snap)"
  have pos: "0 < page_size" by (simp add: page_size_def)
  have pg: "length (wf_page f) = page_size" "1 \<le> wf_pgno f" using f by (simp_all add: frame_ok_def)
  have off: "?off + page_size = wf_pgno f * page_size" using pg by (cases "wf_pgno f") simp_all
  have app: "apply_frame snap f = put ?off (wf_page f) g" by (simp add: apply_frame_def g_def Let_def)
  have gl: "?off + length (wf_page f) \<le> length g" using pg by (simp add: g_def)
  have g_len: "length g = max (length snap) (wf_pgno f * page_size)" using off by (simp add: g_def)
  have other: "page_at g n = page_or_zero snap n"
  proof (cases "n * page_size \<le> length snap")
    case True
    then show ?thesis by (simp add: page_or_zero_def page_at_def g_def slice_append_left)
  next
    case False
    from al obtain q where q: "length snap = q * page_size" by (metis dvd_div_mult_self)
    with False have "q < n" by simp
    then have "q \<le> n - 1" by linarith
    then have low: "length snap \<le> (n - 1) * page_size" by (simp only: q mult_le_mono1)
    from n have "(n - 1) * page_size + page_size = n * page_size" by (cases n) simp_all
    moreover have "n * page_size \<le> length g"
      using n_len f length_apply_frame [OF f, of snap] g_len by simp
    ultimately have "slice ((n - 1) * page_size) (n * page_size) g = zeros page_size"
      using low False by (auto simp: g_def slice_append_right slice_def)
    with False show ?thesis by (simp add: page_or_zero_def page_at_def)
  qed
  consider "n = wf_pgno f" | "n < wf_pgno f" | "wf_pgno f < n" by linarith
  then show ?thesis
  proof cases
    case 1
    then show ?thesis
      using slice_put_same [OF gl] off pg by (simp add: page_at_def app)
  next
    case 2
    have "n * page_size \<le> ?off" by (rule page_bounds [OF n 2])
    then have "page_at (put ?off (wf_page f) g) n = page_at g n"
      unfolding page_at_def using gl by (intro slice_put_before) simp_all
    with 2 other show ?thesis by (simp add: app)
  next
    case 3
    have "wf_pgno f * page_size \<le> (n - 1) * page_size" by (rule page_bounds [OF pg(2) 3])
    then have "page_at (put ?off (wf_page f) g) n = page_at g n"
      unfolding page_at_def using gl off pg by (intro slice_put_after) simp_all
    with 3 other show ?thesis by (simp add: app)
  qed
qed

lemma apply_frame_aligned: "frame_ok f \<Longrightarrow> page_size dvd length snap \<Longrightarrow> page_size dvd length (apply_frame snap f)"
  by (auto simp: length_apply_frame max_def)

lemma page_or_zero_apply_frame:
  assumes f: "frame_ok f" and al: "page_size dvd length snap" and n: "1 \<le> n"
  shows "page_or_zero (apply_frame snap f) n = (if n = wf_pgno f then wf_page f else page_or_zero snap n)"
proof (cases "n * page_size \<le> length (apply_frame snap f)")
  case True
  then show ?thesis using page_apply_frame [OF f al n True] by (simp add: page_or_zero_def)
next
  case False
  then show ?thesis by (auto simp: page_or_zero_def length_apply_frame [OF f])
qed

text \<open>
  C27. Applying the log: the snapshot grows to the highest page written, and every page of
  the result is the page of the last frame with its number; a page no frame writes is the
  snapshot's own, or zeros where the snapshot was too short.
\<close>

theorem wal_apply_last_frame_wins:
  assumes "list_all frame_ok fs" and "page_size dvd length snap" and "1 \<le> n"
  shows "page_or_zero (apply_wal_frames snap fs) n
      = (case find (\<lambda>f. wf_pgno f = n) (rev fs) of Some f \<Rightarrow> wf_page f | None \<Rightarrow> page_or_zero snap n)
    \<and> length (apply_wal_frames snap fs) = foldl max (length snap) (map (\<lambda>f. wf_pgno f * page_size) fs)"
  using assms(1)
proof (induction fs rule: rev_induct)
  case Nil
  then show ?case by (simp add: apply_wal_frames_def)
next
  case (snoc f fs)
  let ?s = "apply_wal_frames snap fs"
  from snoc.prems have fs: "list_all frame_ok fs" and f: "frame_ok f" by simp_all
  have "page_size dvd length ?s"
    using fs assms(2) by (induction fs rule: rev_induct) (simp_all add: apply_wal_frames_def apply_frame_aligned)
  with f snoc.IH [OF fs] assms(3) show ?case
    by (simp add: apply_wal_frames_def page_or_zero_apply_frame length_apply_frame)
qed

theorem wal_apply_last_frame_wins_witness:
  "let fs = [\<lparr>wf_pgno = 2, wf_page = replicate page_size 1\<rparr>, \<lparr>wf_pgno = 2, wf_page = replicate page_size 6\<rparr>]
   in page_or_zero (apply_wal_frames [] fs) 2 = replicate page_size 6
      \<and> page_or_zero (apply_wal_frames [] fs) 1 = zeros page_size"
proof -
  let ?fs = "[\<lparr>wf_pgno = 2, wf_page = replicate page_size 1\<rparr>, \<lparr>wf_pgno = 2, wf_page = replicate page_size 6\<rparr>]"
  have ok: "list_all frame_ok ?fs" by (simp add: frame_ok_def)
  have nil: "page_size dvd length ([] :: bytes)" by simp
  have "page_or_zero [] 1 = zeros page_size"
    using page_size_def by (simp add: page_or_zero_def)
  with wal_apply_last_frame_wins [OF ok nil, of 2] wal_apply_last_frame_wins [OF ok nil, of 1]
  show ?thesis by (simp add: Let_def)
qed

end
