(* ===== verification/Keystore.thy ===== *)
theory Keystore
  imports Rust_Str Bytes
begin

text \<open>
  Keys held in memory (\<open>src/keystore/mod.rs\<close>): the per-file database keys (\<open>KeyMap\<close>),
  their textual form, and the image keys derived from an \<open>img_code\<close> or given directly.
  The \<open>hex\<close> and \<open>md-5\<close> crates are arguments: \<open>hex_decode\<close>, \<open>hex_encode\<close>, \<open>md5\<close>.
\<close>

type_synonym db_key = bytes

datatype key_error = Bad_Key_Length nat | Bad_Key_Hex | Bad_Aes_Length | Bad_Xor

datatype key_map = Empty | Single db_key | Key_Map "(string, db_key) hashmap"

definition backslashed :: "string \<Rightarrow> string" where
  "backslashed rel = replace_char (CHR ''/'') [CHR 0x5C] rel"

fun key_for :: "key_map \<Rightarrow> string \<Rightarrow> db_key option" where
  "key_for Empty rel = None"
| "key_for (Single k) rel = Some k"
| "key_for (Key_Map m) rel = opt_else (hm_get m rel) (hm_get m (backslashed rel))"

fun key_map_is_empty :: "key_map \<Rightarrow> bool" where
  "key_map_is_empty Empty = True"
| "key_map_is_empty _ = False"

definition parse_db_key :: "(string \<Rightarrow> bytes option) \<Rightarrow> string \<Rightarrow> key_error + db_key" where
  "parse_db_key hex_decode raw = (let s = trim raw in
     if length s \<noteq> 64 then Inl (Bad_Key_Length (length s))
     else (case hex_decode s of None \<Rightarrow> Inl Bad_Key_Hex | Some bs \<Rightarrow> Inr bs))"

text \<open>The loop of \<open>from_parts\<close> over the entries of the map, in its iteration order.\<close>

fun parse_key_entries :: "(string \<Rightarrow> bytes option) \<Rightarrow> (string, string) hashmap \<Rightarrow> (string, db_key) hashmap
    \<Rightarrow> key_error + (string, db_key) hashmap" where
  "parse_key_entries hex_decode [] m = Inr m"
| "parse_key_entries hex_decode ((rel, hex) # rest) m = (case parse_db_key hex_decode hex of
       Inl e \<Rightarrow> Inl e
     | Inr k \<Rightarrow> parse_key_entries hex_decode rest (hm_insert rel k m))"

definition key_map_from_parts :: "(string \<Rightarrow> bytes option) \<Rightarrow> db_key option \<Rightarrow> (string, string) hashmap option
    \<Rightarrow> key_error + key_map" where
  "key_map_from_parts hex_decode key keys = (case key of
       Some k \<Rightarrow> Inr (Single k)
     | None \<Rightarrow> (case keys of
          None \<Rightarrow> Inr Empty
        | Some m \<Rightarrow> (case parse_key_entries hex_decode m [] of Inl e \<Rightarrow> Inl e | Inr ks \<Rightarrow> Inr (Key_Map ks))))"

section \<open>Image keys\<close>

definition xor_key :: "string \<Rightarrow> byte" where
  "xor_key code = (case as_bytes code of b # _ \<Rightarrow> b | [] \<Rightarrow> 0)"

definition aes_key_hex :: "(bytes \<Rightarrow> bytes) \<Rightarrow> (bytes \<Rightarrow> string) \<Rightarrow> string \<Rightarrow> string \<Rightarrow> string" where
  "aes_key_hex md5 hex_encode code wxid = hex_encode (take 8 (md5 (as_bytes code @ as_bytes wxid)))"

record image_keys =
  ik_aes :: bytes
  ik_xor :: byte

definition image_keys_from_img_code :: "(bytes \<Rightarrow> bytes) \<Rightarrow> (bytes \<Rightarrow> string) \<Rightarrow> string \<Rightarrow> string \<Rightarrow> image_keys" where
  "image_keys_from_img_code md5 hex_encode code wxid =
     \<lparr>ik_aes = as_bytes (aes_key_hex md5 hex_encode code wxid), ik_xor = xor_key code\<rparr>"

text \<open>\<open>u8::from_str_radix(h, 16)\<close>: an optional \<open>+\<close>, at least one digit, at most 255.\<close>

definition hex_digit_value :: "char \<Rightarrow> nat option" where
  "hex_digit_value c = (if is_ascii_digit c then Some (of_char c - 48)
     else if in_range (CHR ''a'') (CHR ''f'') c then Some (of_char c - 87)
     else if in_range (CHR ''A'') (CHR ''F'') c then Some (of_char c - 55)
     else None)"

definition parse_u8_hex :: "string \<Rightarrow> nat option" where
  "parse_u8_hex s = (let t = (case s of c # cs \<Rightarrow> if c = CHR ''+'' then cs else s | [] \<Rightarrow> s) in
     if t = [] then None
     else opt_filter (\<lambda>n. n \<le> 255)
       (foldl (\<lambda>a c. case (a, hex_digit_value c) of (Some n, Some d) \<Rightarrow> Some (n * 16 + d) | _ \<Rightarrow> None) (Some 0) t))"

definition image_keys_from_parts :: "string \<Rightarrow> string \<Rightarrow> key_error + image_keys" where
  "image_keys_from_parts aes_hex xor_text = (let b = as_bytes aes_hex in
     if length b \<noteq> 16 then Inl Bad_Aes_Length
     else (case (case opt_else (strip_prefix ''0x'' xor_text) (strip_prefix ''0X'' xor_text) of
               Some h \<Rightarrow> parse_u8_hex h | None \<Rightarrow> parse_unsigned 255 xor_text) of
             None \<Rightarrow> Inl Bad_Xor
           | Some n \<Rightarrow> Inr \<lparr>ik_aes = b, ik_xor = word_of_nat n\<rparr>))"

section \<open>Properties\<close>

text \<open>Hexadecimal as the witnesses use it.\<close>

definition nibble :: "nat \<Rightarrow> char" where
  "nibble d = (if d < 10 then char_of (48 + d) else char_of (87 + d))"

definition lower_hex :: "bytes \<Rightarrow> string" where
  "lower_hex bs = concat (map (\<lambda>b. [nibble (unat b div 16), nibble (unat b mod 16)]) bs)"

fun unhex :: "string \<Rightarrow> bytes option" where
  "unhex [] = Some []"
| "unhex [c] = None"
| "unhex (a # b # s) = (case (hex_digit_value a, hex_digit_value b, unhex s) of
     (Some x, Some y, Some bs) \<Rightarrow> Some (word_of_nat (16 * x + y) # bs) | _ \<Rightarrow> None)"

lemma hex_digit_value_nibble: "d < 16 \<Longrightarrow> hex_digit_value (nibble d) = Some d"
  by (auto simp: hex_digit_value_def nibble_def ascii_class_defs of_char_of)

lemma unhex_lower_hex: "unhex (lower_hex bs) = Some bs"
proof (induction bs)
  case (Cons b bs)
  have "unat b < 256" using unsigned_less [of b, where 'a = nat] by simp
  then have "unat b div 16 < 16" by simp
  with Cons show ?case by (simp add: lower_hex_def hex_digit_value_nibble)
qed (simp add: lower_hex_def)

lemma unhex_length: "unhex s = Some bs \<Longrightarrow> length s = 2 * length bs"
  by (induction s arbitrary: bs rule: unhex.induct) (auto split: option.splits)

lemma length_lower_hex [simp]: "length (lower_hex bs) = 2 * length bs"
  by (induction bs) (simp_all add: lower_hex_def)

lemma parse_key_entries_get:
  assumes "parse_key_entries dec es m = Inr m'" and "distinct (map fst es)"
  shows "hm_get m' rel = (case hm_get es rel of
      Some hex \<Rightarrow> (case parse_db_key dec hex of Inr k \<Rightarrow> Some k | Inl _ \<Rightarrow> None) | None \<Rightarrow> hm_get m rel)"
  using assms
proof (induction dec es m rule: parse_key_entries.induct)
  case (2 dec rel' hex rest m)
  then obtain k where k: "parse_db_key dec hex = Inr k" by (cases "parse_db_key dec hex") auto
  have "rel' \<notin> set (map fst rest)" using 2 by simp
  then have "hm_get rest rel' = None" by (simp add: map_of_eq_None_iff)
  with 2 k show ?case by (auto simp: hm_simps split: option.splits)
qed simp

lemma parse_key_entries_ok_iff:
  "(\<exists>m'. parse_key_entries dec es m = Inr m') \<longleftrightarrow> list_all (\<lambda>(_, hex). \<exists>k. parse_db_key dec hex = Inr k) es"
  by (induction dec es m rule: parse_key_entries.induct) (auto split: sum.splits)

text \<open>
  Per-file keys: a map given as text is accepted exactly when every entry parses, and
  afterwards each file finds its parsed key, under its own path or under the same path written
  with backslashes, the exact spelling first.
\<close>

theorem key_map_lookup:
  assumes "hm_ok es" and "key_map_from_parts hex_decode None (Some es) = Inr km"
  shows "list_all (\<lambda>(_, hex). \<exists>k. parse_db_key hex_decode hex = Inr k) es
    \<and> key_for km rel = (case hm_get es rel of
          Some hex \<Rightarrow> Some (projr (parse_db_key hex_decode hex))
        | None \<Rightarrow> map_option (\<lambda>hex. projr (parse_db_key hex_decode hex)) (hm_get es (backslashed rel)))"
proof -
  from assms(2) obtain ks where ks: "parse_key_entries hex_decode es [] = Inr ks" and km: "km = Key_Map ks"
    by (auto simp: key_map_from_parts_def split: sum.splits)
  have all: "list_all (\<lambda>(_, hex). \<exists>k. parse_db_key hex_decode hex = Inr k) es"
    using parse_key_entries_ok_iff [of hex_decode es "[]"] ks by auto
  have get: "hm_get ks r = map_option (\<lambda>hex. projr (parse_db_key hex_decode hex)) (hm_get es r)" for r
    using parse_key_entries_get [OF ks, of r] assms(1) all
    by (cases "hm_get es r") (auto simp: hm_ok_def list_all_iff dest!: map_of_SomeD)
  show ?thesis
    using all by (auto simp: km get split: option.splits)
qed

theorem key_map_lookup_witness:
  "let es = [(''message'' @ [CHR 0x5C] @ ''a.db'', lower_hex (replicate 32 7))]
   in hm_ok es \<and> (\<exists>km. key_map_from_parts unhex None (Some es) = Inr km
        \<and> key_for km ''message/a.db'' = Some (replicate 32 7))"
proof -
  let ?es = "[(''message'' @ [CHR 0x5C] @ ''a.db'', lower_hex (replicate 32 7))]"
  have ok: "hm_ok ?es" by (simp add: hm_ok_def)
  have p: "parse_db_key unhex (lower_hex (replicate 32 7)) = Inr (replicate 32 7)" by code_simp
  have km: "key_map_from_parts unhex None (Some ?es)
      = Inr (Key_Map [(''message'' @ [CHR 0x5C] @ ''a.db'', replicate 32 7)])"
    unfolding key_map_from_parts_def by (simp only: option.case parse_key_entries.simps p sum.case hm_insert_empty)
  have b: "backslashed ''message/a.db'' = ''message'' @ [CHR 0x5C] @ ''a.db''"
    by code_simp
  show ?thesis
    using key_map_lookup [OF ok km, of "''message/a.db''"] ok km
    by (simp only: Let_def b) (simp add: p)
qed

text \<open>
  Textual keys: the hexadecimal form of a 32-byte key, with any surrounding white space, is
  read back as that key; whatever is accepted is a 32-byte key; any other length is refused
  with nothing but its length in the error.
\<close>

theorem parse_db_key_correct:
  assumes dec: "\<And>bs. hex_decode (hex_encode bs) = Some bs"
    and len: "\<And>s bs. hex_decode s = Some bs \<Longrightarrow> length s = 2 * length bs"
    and ascii: "trim raw = hex_encode k" and k: "length k = 32"
  shows "parse_db_key hex_decode raw = Inr k
    \<and> (\<forall>s k'. parse_db_key hex_decode s = Inr k' \<longrightarrow> length k' = 32)
    \<and> (\<forall>s. length (trim s) \<noteq> 64 \<longrightarrow> parse_db_key hex_decode s = Inl (Bad_Key_Length (length (trim s))))"
proof -
  have "length (hex_encode k) = 64" using len [OF dec [of k]] k by simp
  then have "parse_db_key hex_decode raw = Inr k"
    using ascii dec by (simp add: parse_db_key_def Let_def)
  moreover have "length k' = 32" if "parse_db_key hex_decode s = Inr k'" for s k'
    using that by (auto simp: parse_db_key_def Let_def split: if_splits option.splits dest: len)
  ultimately show ?thesis by (auto simp: parse_db_key_def Let_def)
qed

theorem parse_db_key_correct_witness:
  "parse_db_key unhex ('' '' @ lower_hex (replicate 32 7) @ '' '') = Inr (replicate 32 7)"
proof -
  have t: "trim ('' '' @ lower_hex (replicate 32 7) @ '' '') = lower_hex (replicate 32 7)" by code_simp
  show ?thesis
    using parse_db_key_correct [of unhex lower_hex, OF unhex_lower_hex unhex_length t] by simp
qed

end
