(* ===== verification/Dat.thy ===== *)
theory Dat
  imports Keystore
begin

text \<open>
  The encrypted image files of \<open>src/media/mod.rs\<close>: detection of the three formats and
  their decryption. The AES-128 block function is an argument (\<open>dec_block\<close>), MD5 and the
  hexadecimal encoder too. Slices and sums of 32-bit sizes are on \<open>usize\<close> with
  \<open>checked_add\<close>.
\<close>

definition magic_v1 :: bytes where "magic_v1 = [0x07, 0x08, 0x56, 0x31, 0x08, 0x07]"
definition magic_v2 :: bytes where "magic_v2 = [0x07, 0x08, 0x56, 0x32, 0x08, 0x07]"

definition v1_fixed_aes_key :: bytes where
  "v1_fixed_aes_key = as_bytes ''cfcd208495d565ef''"

datatype dat_format = V1 | V2 | LegacyXor

definition detect_format :: "bytes \<Rightarrow> dat_format option" where
  "detect_format d = (if 6 \<le> length d \<and> take 6 d = magic_v1 then Some V1
     else if 6 \<le> length d \<and> take 6 d = magic_v2 then Some V2
     else if 1 < length d then Some LegacyXor
     else None)"

text \<open>\<open>chunks_mut(16)\<close>: whole blocks are decrypted, a shorter rest stays as it is.\<close>

function aes128_ecb_decrypt :: "(bytes \<Rightarrow> bytes \<Rightarrow> bytes) \<Rightarrow> bytes \<Rightarrow> bytes \<Rightarrow> bytes" where
  "aes128_ecb_decrypt dec_block key ct = (if length ct < 16 then ct
     else dec_block key (take 16 ct) @ aes128_ecb_decrypt dec_block key (drop 16 ct))"
  by pat_completeness auto
termination
  by (relation "measure (\<lambda>(_, _, ct). length ct)") auto

declare aes128_ecb_decrypt.simps [simp del]

definition checked_add :: "nat \<Rightarrow> nat \<Rightarrow> nat option" where
  "checked_add a b = (if a + b \<le> usize_max then Some (a + b) else None)"

definition pkcs7_ct_len :: "nat \<Rightarrow> nat option" where
  "pkcs7_ct_len n = checked_add n (16 - n mod 16)"

definition decrypt_dat_payload :: "(bytes \<Rightarrow> bytes \<Rightarrow> bytes) \<Rightarrow> bytes \<Rightarrow> bytes \<Rightarrow> byte \<Rightarrow> bytes option" where
  "decrypt_dat_payload dec_block d aes_key xk = (if length d < 15 then None else
     let aes_size = read_le (slice 6 10 d);
         xor_size = read_le (slice 10 14 d);
         payload = drop 15 d
     in case pkcs7_ct_len aes_size of None \<Rightarrow> None | Some ct_len \<Rightarrow>
        (case checked_add ct_len xor_size of None \<Rightarrow> None | Some need \<Rightarrow>
           if need > length payload then None else
           let xor_start = length payload - xor_size;
               aes_pt = aes128_ecb_decrypt dec_block aes_key (take ct_len payload)
           in Some (take (min aes_size (length aes_pt)) aes_pt
                    @ slice ct_len xor_start payload
                    @ map (\<lambda>b. b XOR xk) (drop xor_start payload))))"

definition decrypt_dat_legacy :: "bytes \<Rightarrow> byte \<Rightarrow> bytes" where
  "decrypt_dat_legacy d xk = map (\<lambda>b. b XOR xk) d"

definition decrypt_dat :: "(bytes \<Rightarrow> bytes \<Rightarrow> bytes) \<Rightarrow> (bytes \<Rightarrow> bytes) \<Rightarrow> (bytes \<Rightarrow> string)
    \<Rightarrow> bytes \<Rightarrow> string option \<Rightarrow> string \<Rightarrow> (bytes \<times> dat_format) option" where
  "decrypt_dat dec_block md5 hex_encode d img_code wxid = (case detect_format d of
       None \<Rightarrow> None
     | Some V2 \<Rightarrow> (case img_code of None \<Rightarrow> None | Some code \<Rightarrow>
          let key = as_bytes (aes_key_hex md5 hex_encode code wxid) in
          if length key \<noteq> 16 then None
          else map_option (\<lambda>b. (b, V2)) (decrypt_dat_payload dec_block d key (xor_key code)))
     | Some V1 \<Rightarrow> map_option (\<lambda>b. (b, V1)) (decrypt_dat_payload dec_block d v1_fixed_aes_key 0)
     | Some LegacyXor \<Rightarrow> (case img_code of None \<Rightarrow> None | Some code \<Rightarrow>
          Some (decrypt_dat_legacy d (xor_key code), LegacyXor)))"

section \<open>The file format\<close>

text \<open>
  What a V1/V2 file holds: the magic, the plaintext lengths of the AES and XOR segments, a
  flag byte, the AES segment with its PKCS7 padding, the raw middle, the XOR segment.
\<close>

definition pkcs7_pad :: "bytes \<Rightarrow> bytes" where
  "pkcs7_pad pt = (let p = 16 - length pt mod 16 in pt @ replicate p (word_of_nat p))"

function ecb_encrypt :: "(bytes \<Rightarrow> bytes \<Rightarrow> bytes) \<Rightarrow> bytes \<Rightarrow> bytes \<Rightarrow> bytes" where
  "ecb_encrypt enc_block key pt = (if length pt < 16 then pt
     else enc_block key (take 16 pt) @ ecb_encrypt enc_block key (drop 16 pt))"
  by pat_completeness auto
termination
  by (relation "measure (\<lambda>(_, _, pt). length pt)") auto

declare ecb_encrypt.simps [simp del]

definition dat_file :: "(bytes \<Rightarrow> bytes \<Rightarrow> bytes) \<Rightarrow> bytes \<Rightarrow> bytes \<Rightarrow> byte \<Rightarrow> bytes \<Rightarrow> bytes \<Rightarrow> bytes \<Rightarrow> byte \<Rightarrow> bytes" where
  "dat_file enc_block magic key xk head mid tail flag = magic @ le_bytes32 (length head) @ le_bytes32 (length tail)
     @ [flag] @ ecb_encrypt enc_block key (pkcs7_pad head) @ mid @ map (\<lambda>b. b XOR xk) tail"

definition block_cipher_ok :: "(bytes \<Rightarrow> bytes \<Rightarrow> bytes) \<Rightarrow> (bytes \<Rightarrow> bytes \<Rightarrow> bytes) \<Rightarrow> bool" where
  "block_cipher_ok enc_block dec_block \<longleftrightarrow> (\<forall>k b. length b = 16 \<longrightarrow>
     length (enc_block k b) = 16 \<and> dec_block k (enc_block k b) = b)"

lemma ecb_roundtrip:
  assumes "block_cipher_ok enc dec"
  shows "aes128_ecb_decrypt dec key (ecb_encrypt enc key pt) = pt
    \<and> length (ecb_encrypt enc key pt) = length pt"
proof (induction "length pt" arbitrary: pt rule: less_induct)
  case less
  show ?case
  proof (cases "length pt < 16")
    case True
    then show ?thesis by (simp add: aes128_ecb_decrypt.simps [of dec key pt] ecb_encrypt.simps [of enc key pt])
  next
    case False
    let ?b = "enc key (take 16 pt)" and ?r = "ecb_encrypt enc key (drop 16 pt)"
    from False have IH: "aes128_ecb_decrypt dec key ?r = drop 16 pt" "length ?r = length (drop 16 pt)"
      using less [of "drop 16 pt"] by simp_all
    have b: "length ?b = 16" "dec key ?b = take 16 pt"
      using assms False by (simp_all add: block_cipher_ok_def)
    have enc: "ecb_encrypt enc key pt = ?b @ ?r"
      using False by (subst ecb_encrypt.simps) simp
    have "aes128_ecb_decrypt dec key (?b @ ?r) = dec key ?b @ aes128_ecb_decrypt dec key ?r"
      using b by (subst aes128_ecb_decrypt.simps) simp
    with enc IH b False show ?thesis by simp
  qed
qed

lemma length_pkcs7_pad: "length (pkcs7_pad pt) = length pt + (16 - length pt mod 16)"
  by (simp add: pkcs7_pad_def Let_def)

text \<open>
  Image files decrypt: for both header formats, the three segments come back in order
  whatever their lengths, the extra padding block of a head that fills its blocks included.
\<close>

theorem dat_payload_roundtrip:
  assumes bc: "block_cipher_ok enc dec"
    and sizes: "length head < 2 ^ 32" "length tail < 2 ^ 32" and magic: "length magic = 6"
  shows "decrypt_dat_payload dec (dat_file enc magic key xk head mid tail flag) key xk = Some (head @ mid @ tail)"
proof -
  define ct where "ct = ecb_encrypt enc key (pkcs7_pad head)"
  define xs where "xs = map (\<lambda>b. b XOR xk) tail"
  define n where "n = length head + (16 - length head mod 16)"
  have xs_len: "length xs = length tail" by (simp add: xs_def)
  have ct: "length ct = n" "aes128_ecb_decrypt dec key ct = pkcs7_pad head"
    using ecb_roundtrip [OF bc, of key "pkcs7_pad head"] by (simp_all add: ct_def length_pkcs7_pad n_def)
  define f where "f = dat_file enc magic key xk head mid tail flag"
  have f: "f = magic @ le_bytes32 (length head) @ le_bytes32 (length tail) @ [flag] @ ct @ mid @ xs"
    by (simp add: f_def dat_file_def ct_def xs_def)
  have fields: "read_le (slice 6 10 f) = length head" "read_le (slice 10 14 f) = length tail"
      "drop 15 f = ct @ mid @ xs" "\<not> length f < 15"
    using magic sizes by (simp_all add: f slice_def read_le_bytes32)
  have "n \<le> length head + 16" by (simp add: n_def)
  then have fits: "pkcs7_ct_len (length head) = Some n" "checked_add n (length tail) = Some (n + length tail)"
    using sizes by (simp_all add: pkcs7_ct_len_def checked_add_def usize_max_def n_def [symmetric])
  have "take (min (length head) (length (pkcs7_pad head))) (pkcs7_pad head) = head"
    by (simp add: pkcs7_pad_def Let_def)
  moreover have "slice n (n + length mid) (ct @ mid @ xs) = mid"
    using ct by (simp add: slice_def)
  moreover have "map (\<lambda>b. b XOR xk) xs = tail"
    by (simp add: xs_def comp_def xor_self_cancel)
  ultimately have "decrypt_dat_payload dec f key xk = Some (head @ mid @ tail)"
    unfolding decrypt_dat_payload_def Let_def fields(1-3) fits using fields(4) ct
    by (simp add: fits xs_len)
  then show ?thesis by (simp add: f_def)
qed

theorem dat_payload_roundtrip_witness:
  "decrypt_dat_payload (\<lambda>k b. rev b) (dat_file (\<lambda>k b. rev b) magic_v2 [1] 0x64 (replicate 32 9) [1, 2] [3] 1) [1] 0x64
   = Some (replicate 32 9 @ [1, 2] @ [3])"
proof -
  have bc: "block_cipher_ok (\<lambda>k b. rev b) (\<lambda>k b. rev b)" by (simp add: block_cipher_ok_def)
  show ?thesis by (rule dat_payload_roundtrip [OF bc]) (simp_all add: magic_v2_def)
qed

text \<open>
  Detection is exhaustive above one byte: a file is refused only when it has at most one
  byte, so no file that starts with an image signature is ever classified as plain.
\<close>

theorem detect_format_total:
  "(detect_format d = None \<longleftrightarrow> length d \<le> 1)
   \<and> (take 3 d = [0xFF, 0xD8, 0xFF] \<longrightarrow> detect_format d = Some LegacyXor)"
proof -
  have "detect_format d = Some LegacyXor" if "take 3 d = [0xFF, 0xD8, 0xFF]"
  proof -
    from that have "take 1 (take 3 d) = [0xFF]" "length (take 3 d) = 3" by simp_all
    then have h: "take 1 d = [0xFF]" "1 < length d" by (simp_all add: min_def split: if_splits)
    have "take 6 d \<noteq> m" if "take 1 m \<noteq> [0xFF]" for m
      using h that by (auto simp: min_def)
    with h show ?thesis
      by (simp add: detect_format_def magic_v1_def magic_v2_def)
  qed
  moreover have "detect_format d = None \<longleftrightarrow> length d \<le> 1"
    by (auto simp: detect_format_def)
  ultimately show ?thesis by blast
qed

theorem detect_format_total_witness:
  "detect_format [0xFF, 0xD8, 0xFF, 0xE0] = Some LegacyXor"
  using detect_format_total [of "[0xFF, 0xD8, 0xFF, 0xE0]"] by simp

end
