(* ===== verification/Api.thy ===== *)
theory Api
  imports Bytes Rust_Str
begin

text \<open>
  What every handler shares: the error envelope (\<open>server/error.rs\<close>), the merging of query
  and body parameters and their parsing (\<open>server/mod.rs\<close>, \<open>server/handlers/mod.rs\<close>) and
  the access check (\<open>server/auth.rs\<close>).
  Parameters are a hash map of strings. A JSON body is a \<open>json\<close> value; the text of a value
  that is not a string (\<open>Value::to_string\<close> of \<open>serde_json\<close>) is the argument \<open>show_json\<close>.
  \<open>chrono\<close>'s calendar is the argument \<open>midnight\<close>: the UTC time stamp of the start of a date,
  \<open>None\<close> for a date that does not exist.
  The \<open>Authorization\<close> header is an optional text, absent also when it is not visible ASCII.
\<close>

section \<open>The error envelope\<close>

record api_error =
  ae_status :: nat
  ae_message :: string

definition bad_request :: "string \<Rightarrow> api_error" where
  "bad_request msg = \<lparr>ae_status = 400, ae_message = msg\<rparr>"

definition unauthorized :: "string \<Rightarrow> api_error" where
  "unauthorized msg = \<lparr>ae_status = 401, ae_message = msg\<rparr>"

definition not_found :: "string \<Rightarrow> api_error" where
  "not_found msg = \<lparr>ae_status = 404, ae_message = msg\<rparr>"

definition service_unavailable :: "string \<Rightarrow> api_error" where
  "service_unavailable msg = \<lparr>ae_status = 503, ae_message = msg\<rparr>"

definition internal :: "string \<Rightarrow> api_error" where
  "internal msg = \<lparr>ae_status = 500, ae_message = msg\<rparr>"

definition method_not_allowed :: api_error where
  "method_not_allowed = \<lparr>ae_status = 405,
     ae_message = utf8 [230, 150, 185, 230, 179, 149, 228, 184, 141, 229, 133, 129, 232, 174, 184]\<rparr>"

record api_error_body =
  eb_success :: bool
  eb_code :: nat
  eb_message :: string

definition into_response :: "api_error \<Rightarrow> nat \<times> api_error_body" where
  "into_response e = (let code = ae_status e in
     (code, \<lparr>eb_success = False, eb_code = code, eb_message = ae_message e\<rparr>))"

section \<open>Parameters\<close>

datatype json = Null | Bool bool | Number string | String string | Array "json list"
  | Object "(string \<times> json) list"

type_synonym params = "(string, string) hashmap"

definition is_credential_key :: "string \<Rightarrow> bool" where
  "is_credential_key k \<longleftrightarrow> k = ''access_token'' \<or> k = ''token''"

definition param_text :: "(json \<Rightarrow> string) \<Rightarrow> json \<Rightarrow> string" where
  "param_text show_json v = (case v of String s \<Rightarrow> s | _ \<Rightarrow> show_json v)"

fun merge_entries :: "(json \<Rightarrow> string) \<Rightarrow> (string \<times> json) list \<Rightarrow> params \<Rightarrow> params" where
  "merge_entries show_json [] out = out"
| "merge_entries show_json ((k, v) # rest) out =
     (if is_credential_key k then merge_entries show_json rest out
      else merge_entries show_json rest (hm_insert k (param_text show_json v) out))"

definition merge_params :: "(json \<Rightarrow> string) \<Rightarrow> params \<Rightarrow> json option \<Rightarrow> params" where
  "merge_params show_json query body = (case body of
       Some (Object m) \<Rightarrow> merge_entries show_json m query
     | _ \<Rightarrow> query)"

text \<open>The typed variant: \<open>to_value\<close> serialises the body's type, and may fail.\<close>

definition extract_params :: "(json \<Rightarrow> string) \<Rightarrow> ('t \<Rightarrow> json option) \<Rightarrow> params \<Rightarrow> 't option \<Rightarrow> params" where
  "extract_params show_json to_value query body = (case body of
       None \<Rightarrow> query
     | Some b \<Rightarrow> (case to_value b of
           Some (Object m) \<Rightarrow> merge_entries show_json m query
         | _ \<Rightarrow> query))"

definition flex_bool :: "params \<Rightarrow> string \<Rightarrow> bool" where
  "flex_bool params key = (case hm_get params key of
       Some v \<Rightarrow> to_ascii_lowercase v \<in> {''1'', ''true'', ''yes'', ''on''}
     | None \<Rightarrow> False)"

definition parse_limit :: "params \<Rightarrow> string \<Rightarrow> nat \<Rightarrow> nat \<Rightarrow> nat" where
  "parse_limit params key dflt mx =
     clamp_nat (opt_or (Option.bind (hm_get params key) parse_usize) dflt) 1 mx"

definition parse_offset :: "params \<Rightarrow> string \<Rightarrow> nat" where
  "parse_offset params key = opt_or (Option.bind (hm_get params key) parse_usize) 0"

definition parse_time_bound_inner :: "(nat \<Rightarrow> nat \<Rightarrow> nat \<Rightarrow> int option) \<Rightarrow> string \<Rightarrow> bool \<Rightarrow> int option" where
  "parse_time_bound_inner midnight s0 end_of_day = (let s = trim s0 in
     if length s = 8 \<and> list_all is_ascii_digit s then
       (case (parse_dec (slice 0 4 s), parse_dec (slice 4 6 s), parse_dec (slice 6 8 s)) of
          (Some y, Some m, Some d) \<Rightarrow>
            map_option (\<lambda>t. if end_of_day then t + (23 * 3600 + 59 * 60 + 59) else t) (midnight y m d)
        | _ \<Rightarrow> None)
     else parse_i64 s)"

definition parse_time_bound :: "(nat \<Rightarrow> nat \<Rightarrow> nat \<Rightarrow> int option) \<Rightarrow> string \<Rightarrow> int option" where
  "parse_time_bound midnight s = parse_time_bound_inner midnight s False"

definition parse_time_bound_end :: "(nat \<Rightarrow> nat \<Rightarrow> nat \<Rightarrow> int option) \<Rightarrow> string \<Rightarrow> int option" where
  "parse_time_bound_end midnight s = parse_time_bound_inner midnight s True"

section \<open>Addresses and watching\<close>

definition derive_base_url :: "string \<Rightarrow> nat \<Rightarrow> string option \<Rightarrow> string" where
  "derive_base_url host port override_url = (case override_url of
       Some url \<Rightarrow> trim_end_matches (\<lambda>c. c = CHR ''/'') url
     | None \<Rightarrow> (let h = (if host = ''0.0.0.0'' \<or> host = ''::'' then ''127.0.0.1'' else host) in
         if CHR '':'' \<in> set h \<and> \<not> starts_with ''['' h
         then ''http://['' @ h @ '']:'' @ nat_to_dec port
         else ''http://'' @ h @ '':'' @ nat_to_dec port))"

record watch_config =
  wc_debounce :: nat
  wc_fallback :: "nat option"

definition watch_config_of :: "nat \<Rightarrow> nat \<Rightarrow> watch_config" where
  "watch_config_of watch_debounce_ms watch_fallback_ms =
     \<lparr>wc_debounce = watch_debounce_ms,
      wc_fallback = (if watch_fallback_ms > 0 then Some watch_fallback_ms else None)\<rparr>"

section \<open>Access\<close>

definition constant_time_eq :: "bytes \<Rightarrow> bytes \<Rightarrow> bool" where
  "constant_time_eq a b = (if length a \<noteq> length b then False
     else foldl (\<lambda>diff (x, y). diff OR (x XOR y)) 0 (zip a b) = 0)"

definition authorized :: "string \<Rightarrow> params \<Rightarrow> string option \<Rightarrow> bool" where
  "authorized token params authorization =
     (if is_some_and (\<lambda>v. is_some_and (\<lambda>t. constant_time_eq (as_bytes t) (as_bytes token))
           (strip_prefix ''Bearer '' v)) authorization then True
      else if is_some_and (\<lambda>t. constant_time_eq (as_bytes t) (as_bytes token))
           (hm_get params ''access_token'') then True
      else False)"

definition require_auth :: "string \<Rightarrow> params \<Rightarrow> string option \<Rightarrow> api_error + unit" where
  "require_auth token params authorization =
     (if \<not> authorized token params authorization
      then Inl (unauthorized ''invalid or missing access token'') else Inr ())"

section \<open>Properties\<close>

text \<open>The comparison is equality, whatever it reveals of the time it takes.\<close>

lemma or_xor_zero: "d OR (x XOR y) = (0 :: byte) \<longleftrightarrow> d = 0 \<and> x = y"
proof -
  have "x XOR y = 0 \<Longrightarrow> x = y"
    using xor_self_cancel [of x y] by simp
  then show ?thesis by (auto simp: or_eq_0_iff)
qed

lemma or_fold_zero:
  "foldl (\<lambda>diff (x, y). diff OR (x XOR y)) (d :: byte) ps = 0 \<longleftrightarrow> d = 0 \<and> (\<forall>(x, y) \<in> set ps. x = y)"
proof (induction ps arbitrary: d)
  case (Cons p ps)
  obtain x y where p: "p = (x, y)" by (cases p)
  with Cons show ?case by (auto simp: or_xor_zero)
qed simp

lemma constant_time_eq_iff [simp]: "constant_time_eq a b \<longleftrightarrow> a = b"
proof (cases "length a = length b")
  case True
  then have "(\<forall>(x, y) \<in> set (zip a b). x = y) \<longleftrightarrow> a = b"
    by (induction a b rule: list_induct2) auto
  with True show ?thesis by (simp add: constant_time_eq_def or_fold_zero)
qed (auto simp: constant_time_eq_def)

lemma authorized_iff:
  "authorized token params auth \<longleftrightarrow>
     auth = Some (''Bearer '' @ token) \<or> hm_get params ''access_token'' = Some token"
  unfolding authorized_def
  by (cases auth; cases "hm_get params ''access_token''")
    (auto simp: is_some_and_def strip_prefix_Some [of "''Bearer ''", simplified] split: option.splits)

text \<open>
  A merged body wins over the query under every name but the credentials', which it never
  sets; a body that is no object changes nothing.
\<close>

lemma merge_entries_lookup:
  "hm_get (merge_entries sj m q) k =
     (if is_credential_key k then hm_get q k
      else case map_of (rev m) k of Some v \<Rightarrow> Some (param_text sj v) | None \<Rightarrow> hm_get q k)"
proof (induction sj m q rule: merge_entries.induct)
  case (2 sj k' v rest out)
  then show ?case by (auto simp: hm_simps map_add_def split: option.splits)
qed simp

lemma merge_params_credential:
  "is_credential_key k \<Longrightarrow> hm_get (merge_params sj q body) k = hm_get q k"
  by (simp add: merge_params_def merge_entries_lookup split: option.split json.split)

lemma extract_params_credential:
  "is_credential_key k \<Longrightarrow> hm_get (extract_params sj tv q body) k = hm_get q k"
  by (simp add: extract_params_def merge_entries_lookup split: option.split json.split)

text \<open>
  C31. Who is let in: exactly the requests that carry the whole token in the bearer header or
  under \<open>access_token\<close> in the query string. A request body, typed or not, opens nothing:
  whatever it holds, the decision is the one made on the query alone.
\<close>

theorem auth_by_header_or_query_only:
  "(require_auth token (merge_params sj query body) auth = Inr () \<longleftrightarrow>
      auth = Some (''Bearer '' @ token) \<or> hm_get query ''access_token'' = Some token)
   \<and> (require_auth token (extract_params sj tv query typed) auth = Inr () \<longleftrightarrow>
      auth = Some (''Bearer '' @ token) \<or> hm_get query ''access_token'' = Some token)
   \<and> (\<not> authorized token query auth \<longleftrightarrow>
      (\<exists>e. require_auth token query auth = Inl e \<and> fst (into_response e) = 401))"
proof -
  have k: "is_credential_key ''access_token''" by (simp add: is_credential_key_def)
  show ?thesis
    by (auto simp: require_auth_def authorized_iff merge_params_credential [OF k]
        extract_params_credential [OF k] into_response_def unauthorized_def)
qed

text \<open>Limits stay in their range and offsets are read as they are written.\<close>

lemma parse_limit_range: "1 \<le> mx \<Longrightarrow> 1 \<le> parse_limit p k d mx \<and> parse_limit p k d mx \<le> mx"
  by (simp add: parse_limit_def clamp_nat_range)

lemma parse_limit_given:
  "hm_get p k = Some (nat_to_dec n) \<Longrightarrow> 1 \<le> n \<Longrightarrow> n \<le> mx \<Longrightarrow> usize_ok n \<Longrightarrow> parse_limit p k d mx = n"
  by (simp add: parse_limit_def parse_usize_def usize_ok_def parse_unsigned_to_dec clamp_nat_id)

lemma parse_limit_default: "hm_get p k = None \<Longrightarrow> 1 \<le> d \<Longrightarrow> d \<le> mx \<Longrightarrow> parse_limit p k d mx = d"
  by (simp add: parse_limit_def clamp_nat_id)

lemma parse_offset_given:
  "hm_get p k = Some (nat_to_dec n) \<Longrightarrow> usize_ok n \<Longrightarrow> parse_offset p k = n"
  by (simp add: parse_offset_def parse_usize_def usize_ok_def parse_unsigned_to_dec)

text \<open>
  A calendar for the witnesses: the number of days since 1970-01-01 in the proleptic
  Gregorian calendar, for the dates that exist.
\<close>

definition leap_year :: "nat \<Rightarrow> bool" where
  "leap_year y \<longleftrightarrow> 4 dvd y \<and> (\<not> 100 dvd y \<or> 400 dvd y)"

definition month_days :: "nat \<Rightarrow> nat \<Rightarrow> nat" where
  "month_days y m = (if m = 2 then (if leap_year y then 29 else 28)
     else if m \<in> {4, 6, 9, 11} then 30 else if 1 \<le> m \<and> m \<le> 12 then 31 else 0)"

definition days_before_year :: "nat \<Rightarrow> int" where
  "days_before_year y = (let p = int y - 1 in 365 * int y + p div 4 - p div 100 + p div 400)"

definition gregorian_midnight :: "nat \<Rightarrow> nat \<Rightarrow> nat \<Rightarrow> int option" where
  "gregorian_midnight y m d = (if 1 \<le> d \<and> d \<le> month_days y m
     then Some (86400 * (days_before_year y - days_before_year 1970
       + int (sum_list (map (month_days y) [1..<m])) + int d - 1)) else None)"

text \<open>
  A date given as eight digits covers its day: the bound at its start and the bound at
  its end exist together, and a time stamp lies between them exactly when it falls on that day.
\<close>

theorem date_bounds_cover_the_day:
  assumes "\<forall>y m d t. midnight y m d = Some t \<longrightarrow> 86400 dvd t"
    and "length (trim s) = 8" and "list_all is_ascii_digit (trim s)"
    and "parse_time_bound midnight s = Some t"
  shows "\<exists>e. parse_time_bound_end midnight s = Some e
     \<and> (\<forall>ts. t \<le> ts \<and> ts \<le> e \<longleftrightarrow> ts div 86400 = t div 86400)"
proof -
  from assms(2-4) obtain y m d where "midnight y m d = Some t"
      and e: "parse_time_bound_end midnight s = Some (t + 86399)"
    by (auto simp: parse_time_bound_def parse_time_bound_end_def parse_time_bound_inner_def Let_def
        split: option.splits)
  with assms(1) have "86400 dvd t" by blast
  then obtain q where "t = 86400 * q" by blast
  then have "t \<le> ts \<and> ts \<le> t + 86399 \<longleftrightarrow> ts div 86400 = t div 86400" for ts
    by simp linarith
  with e show ?thesis by blast
qed

theorem date_bounds_cover_the_day_witness:
  "parse_time_bound gregorian_midnight '' 20240229 '' = Some 1709164800
   \<and> parse_time_bound_end gregorian_midnight '' 20240229 '' = Some 1709251199
   \<and> (\<forall>ts. 1709164800 \<le> ts \<and> ts \<le> 1709251199 \<longleftrightarrow> ts div 86400 = (19782 :: int))"
proof -
  have l: "\<forall>y m d t. gregorian_midnight y m d = Some t \<longrightarrow> 86400 dvd t"
    by (simp add: gregorian_midnight_def)
  have c: "length (trim '' 20240229 '') = 8" "list_all is_ascii_digit (trim '' 20240229 '')"
    "parse_time_bound gregorian_midnight '' 20240229 '' = Some 1709164800"
    "parse_time_bound_end gregorian_midnight '' 20240229 '' = Some 1709251199"
    by code_simp+
  have "(1709164800 :: int) div 86400 = 19782" by simp
  with date_bounds_cover_the_day [OF l c(1,2,3)] c(3,4) show ?thesis by (auto simp del: One_nat_def)
qed

end
