(* ===== verification/Scan.thy ===== *)
theory Scan
  imports Rust_Str
begin

text \<open>
  Finding accounts and database files on disk (\<open>src/db/scan.rs\<close>). The file system is a tree
  of directories and files as one walk sees it: entries in the order \<open>read_dir\<close> gives, with
  the modification time of directories in nanoseconds since the epoch (\<open>None\<close> when metadata
  cannot be read). Names are bytes; \<open>to_string_lossy\<close> and \<open>to_str\<close> are as in \<open>Rust_Str\<close>.
\<close>

section \<open>The file system as seen\<close>

datatype fs = Dir "int option" "(string \<times> fs) list" | File

fun entries :: "fs \<Rightarrow> (string \<times> fs) list" where
  "entries (Dir _ es) = es"
| "entries File = []"

fun is_dir :: "fs \<Rightarrow> bool" where
  "is_dir (Dir _ _) = True"
| "is_dir File = False"

fun at_path :: "fs \<Rightarrow> string list \<Rightarrow> fs option" where
  "at_path t [] = Some t"
| "at_path t (n # ns) = Option.bind (map_of (entries t) n) (\<lambda>s. at_path s ns)"

definition dir_at :: "fs \<Rightarrow> string list \<Rightarrow> bool" where
  "dir_at t p \<longleftrightarrow> is_some_and is_dir (at_path t p)"

definition file_at :: "fs \<Rightarrow> string list \<Rightarrow> bool" where
  "file_at t p \<longleftrightarrow> is_some_and (\<lambda>n. \<not> is_dir n) (at_path t p)"

definition modified :: "fs \<Rightarrow> int" where
  "modified t = (case t of Dir (Some m) _ \<Rightarrow> m | _ \<Rightarrow> 0)"

section \<open>Accounts\<close>

record account_info =
  ai_wxid :: string
  ai_dir :: "string list"
  ai_db_storage :: "string list"
  ai_session_db :: "string list option"

definition clean_wxid :: "string \<Rightarrow> string" where
  "clean_wxid dir_name = (if length dir_name > 5 \<and> dir_name ! (length dir_name - 5) = CHR ''_''
       \<and> list_all is_ascii_digit (drop (length dir_name - 4) dir_name)
     then take (length dir_name - 5) dir_name else dir_name)"

definition looks_like_account_dir :: "fs \<Rightarrow> bool" where
  "looks_like_account_dir d \<longleftrightarrow> dir_at d [''db_storage''] \<or> dir_at d [''FileStorage'', ''Image'']
     \<or> dir_at d [''FileStorage'', ''Image2'']"

definition find_session_db :: "fs \<Rightarrow> string list option" where
  "find_session_db d = (if file_at d [''db_storage'', ''session'', ''session.db'']
       then Some [''db_storage'', ''session'', ''session.db'']
     else if file_at d [''db_storage'', ''session.db''] then Some [''db_storage'', ''session.db'']
     else None)"

definition candidates :: "fs \<Rightarrow> (string \<times> string \<times> fs) list" where
  "candidates root = List.map_filter (\<lambda>(n, d).
     let name = from_utf8_lossy n in
     if is_dir d \<and> looks_like_account_dir d \<and> \<not> starts_with ''.'' name
     then Some (clean_wxid name, n, d) else None) (entries root)"

definition score :: "string \<Rightarrow> fs \<Rightarrow> bool \<times> int \<times> bool" where
  "score n d = (find_session_db d \<noteq> None, modified d, CHR ''_'' \<in> set (from_utf8_lossy n))"

fun best_of :: "bool \<times> int \<times> bool \<Rightarrow> (string \<times> fs) option \<Rightarrow> (string \<times> fs) list \<Rightarrow> (string \<times> fs) option" where
  "best_of best_score best [] = best"
| "best_of best_score best ((n, d) # rest) =
     (if score n d > best_score then best_of (score n d) (Some (n, d)) rest
      else best_of best_score best rest)"

definition account_of :: "string \<Rightarrow> string \<times> fs \<Rightarrow> account_info" where
  "account_of w nd = (case nd of (n, d) \<Rightarrow>
     \<lparr>ai_wxid = w, ai_dir = [n],
      ai_db_storage = (if dir_at d [''db_storage''] then [n, ''db_storage''] else [n]),
      ai_session_db = map_option (\<lambda>p. n # p) (find_session_db d)\<rparr>)"

definition scan_root :: "fs option \<Rightarrow> account_info list" where
  "scan_root root = (case root of
       Some (Dir m es) \<Rightarrow> (let cs = candidates (Dir m es) in
         List.map_filter (\<lambda>w. map_option (account_of w)
             (best_of (False, 0, False) None (map snd (filter (\<lambda>c. fst c = w) cs))))
           (sorted_list_of_set (set (map fst cs))))
     | _ \<Rightarrow> [])"

fun scan_all_from :: "string set \<Rightarrow> account_info list \<Rightarrow> account_info list" where
  "scan_all_from seen [] = []"
| "scan_all_from seen (acc # rest) = (if ai_wxid acc \<in> seen then scan_all_from seen rest
     else acc # scan_all_from (insert (ai_wxid acc) seen) rest)"

definition scan_all :: "fs option list \<Rightarrow> account_info list" where
  "scan_all roots = scan_all_from {} (concat (map scan_root roots))"

section \<open>Database files\<close>

datatype db_kind = Session | Message | Contact | ContactFts | Media | Sns | OtherDb

record db_file =
  df_rel :: string
  df_abs :: "string list"
  df_wal :: "string list option"
  df_kind :: db_kind

definition classify_rel :: "string \<Rightarrow> db_kind" where
  "classify_rel rel = (let lower = to_ascii_lowercase rel in
     if lower = ''migrate'' \<or> starts_with ''migrate/'' lower then OtherDb
     else if starts_with ''session'' lower \<or> contains_sub ''session.db'' lower then Session
     else if starts_with ''message'' lower \<or> contains_sub ''msg'' lower then Message
     else if contains_sub ''contact_fts'' lower then ContactFts
     else if starts_with ''contact'' lower then Contact
     else if starts_with ''media'' lower then Media
     else if starts_with ''sns'' lower then Sns
     else OtherDb)"

definition rel_text :: "string list \<Rightarrow> string" where
  "rel_text p = replace_char (CHR 0x5C) ''/'' (from_utf8_lossy (join_with ''/'' p))"

definition db_file_name :: "string \<Rightarrow> bool" where
  "db_file_name n \<longleftrightarrow> utf8_valid n
     \<and> \<not> (ends_with ''-wal'' n \<or> ends_with ''-shm'' n \<or> ends_with ''-journal'' n)
     \<and> ends_with ''.db'' n"

definition db_file_at :: "(string \<times> fs) list \<Rightarrow> string list \<Rightarrow> string \<Rightarrow> db_file" where
  "db_file_at siblings prefix n = (let p = prefix @ [n] in
     \<lparr>df_rel = rel_text p, df_abs = p,
      df_wal = (if file_at (Dir None siblings) [n @ ''-wal''] then Some (prefix @ [n @ ''-wal'']) else None),
      df_kind = classify_rel (rel_text p)\<rparr>)"

text \<open>The walk: \<open>siblings\<close> are all entries of the directory that is being read.\<close>

fun walk :: "(string \<times> fs) list \<Rightarrow> string list \<Rightarrow> string \<times> fs \<Rightarrow> db_file list" where
  "walk siblings prefix (n, Dir m es) =
     (if n = ''migrate'' then [] else concat (map (walk es (prefix @ [n])) es))"
| "walk siblings prefix (n, File) =
     (if db_file_name n then [db_file_at siblings prefix n] else [])"

definition enum_db_files :: "fs option \<Rightarrow> db_file list" where
  "enum_db_files storage = (case storage of
       Some (Dir m es) \<Rightarrow> sort_key df_rel (concat (map (walk es []) es))
     | _ \<Rightarrow> [])"

section \<open>Properties\<close>

lemma best_of_max:
  assumes "best_of s b xs = Some r"
  shows "(b = Some r \<and> (\<forall>(n, d) \<in> set xs. score n d \<le> s))
    \<or> (r \<in> set xs \<and> s < score (fst r) (snd r) \<and> (\<forall>(n, d) \<in> set xs. score n d \<le> score (fst r) (snd r)))"
  using assms
proof (induction s b xs rule: best_of.induct)
  case (2 s b n d rest)
  show ?case
  proof (cases "score n d > s")
    case True
    with 2 show ?thesis by fastforce
  next
    case False
    with 2 have "score n d \<le> s" by simp
    with 2 False show ?thesis by fastforce
  qed
qed simp

lemma best_of_exists: "\<exists>(n, d) \<in> set xs. score n d > s \<Longrightarrow> best_of s b xs \<noteq> None"
proof (induction s b xs rule: best_of.induct)
  case (2 s b n d rest)
  have some: "best_of s' (Some r) ys \<noteq> None" for s' r ys
    by (induction s' "Some r" ys arbitrary: r rule: best_of.induct) auto
  with 2 show ?case by auto
qed simp

lemma scan_root_members:
  "acc \<in> set (scan_root (Some t)) \<longleftrightarrow> is_dir t \<and> (\<exists>w r. w \<in> fst ` set (candidates t)
     \<and> best_of (False, 0, False) None (map snd (filter (\<lambda>c. fst c = w) (candidates t))) = Some r
     \<and> acc = account_of w r)"
  by (cases t) (auto simp: scan_root_def Let_def set_map_filter_iff)

lemma account_wxid [simp]: "ai_wxid (account_of w r) = w"
  by (simp add: account_of_def split: prod.split)

text \<open>
  The account listing: one entry per account, in the order of the ids; each is a directory of
  that account with the highest score (a session database before a newer directory before a
  suffixed name), and an account with a session database anywhere is listed.
\<close>

theorem scan_root_best:
  "sorted (map ai_wxid (scan_root (Some t))) \<and> distinct (map ai_wxid (scan_root (Some t)))
   \<and> list_all (\<lambda>acc. \<exists>n d. (ai_wxid acc, n, d) \<in> set (candidates t) \<and> acc = account_of (ai_wxid acc) (n, d)
        \<and> list_all (\<lambda>(w, n', d'). w \<noteq> ai_wxid acc \<or> score n' d' \<le> score n d) (candidates t)) (scan_root (Some t))
   \<and> list_all (\<lambda>(w, n, d). find_session_db d = None \<or> \<not> is_dir t \<or> w \<in> ai_wxid ` set (scan_root (Some t))) (candidates t)"
proof -
  have srt: "sorted (map ai_wxid (scan_root (Some t))) \<and> distinct (map ai_wxid (scan_root (Some t)))"
  proof (cases t)
    case (Dir m es)
    let ?f = "\<lambda>w. map_option (account_of w)
      (best_of (False, 0, False) None (map snd (filter (\<lambda>c. fst c = w) (candidates (Dir m es)))))"
    have "sorted (map ai_wxid (List.map_filter ?f (sorted_list_of_set (set (map fst (candidates (Dir m es)))))))
      \<and> distinct (map ai_wxid (List.map_filter ?f (sorted_list_of_set (set (map fst (candidates (Dir m es)))))))"
      by (rule sorted_map_filter) auto
    then show ?thesis by (simp only: Dir scan_root_def Let_def option.case fs.case)
  qed (simp add: scan_root_def)
  have best: "\<exists>n d. (ai_wxid acc, n, d) \<in> set (candidates t) \<and> acc = account_of (ai_wxid acc) (n, d)
      \<and> list_all (\<lambda>(w, n', d'). w \<noteq> ai_wxid acc \<or> score n' d' \<le> score n d) (candidates t)"
    if "acc \<in> set (scan_root (Some t))" for acc
  proof -
    from that obtain w r where r: "acc = account_of w r"
        "best_of (False, 0, False) None (map snd (filter (\<lambda>c. fst c = w) (candidates t))) = Some r"
      by (auto simp: scan_root_members)
    obtain n d where nd: "r = (n, d)" by (cases r)
    from best_of_max [OF r(2)] nd have "(w, n, d) \<in> set (candidates t)"
        and "\<forall>(n', d') \<in> set (map snd (filter (\<lambda>c. fst c = w) (candidates t))). score n' d' \<le> score n d"
      by auto
    with r(1) nd show ?thesis by (fastforce simp: list_all_iff)
  qed
  have complete: "w \<in> ai_wxid ` set (scan_root (Some t))"
    if "(w, n, d) \<in> set (candidates t)" and "find_session_db d \<noteq> None" and "is_dir t" for w n d
  proof -
    have "score n d > (False, 0, False)" using that(2) by (simp add: score_def)
    with that(1) have "\<exists>(n, d) \<in> set (map snd (filter (\<lambda>c. fst c = w) (candidates t))). score n d > (False, 0, False)"
      by force
    then obtain r where "best_of (False, 0, False) None (map snd (filter (\<lambda>c. fst c = w) (candidates t))) = Some r"
      using best_of_exists by blast
    moreover have "w \<in> fst ` set (candidates t)" using that(1) by force
    ultimately have "account_of w r \<in> set (scan_root (Some t))"
      using that(3) unfolding scan_root_members by blast
    then show ?thesis by (metis account_wxid image_eqI)
  qed
  have cmp: "list_all (\<lambda>(w, n, d). find_session_db d = None \<or> \<not> is_dir t
      \<or> w \<in> ai_wxid ` set (scan_root (Some t))) (candidates t)"
    using complete unfolding list_all_iff by blast
  have "list_all (\<lambda>acc. \<exists>n d. (ai_wxid acc, n, d) \<in> set (candidates t) \<and> acc = account_of (ai_wxid acc) (n, d)
      \<and> list_all (\<lambda>(w, n', d'). w \<noteq> ai_wxid acc \<or> score n' d' \<le> score n d) (candidates t)) (scan_root (Some t))"
    using best unfolding list_all_iff [of _ "scan_root (Some t)"] by blast
  with srt cmp show ?thesis by blast
qed

definition two_dirs :: fs where
  "two_dirs = Dir None [(''wxid_abc_1234'', Dir (Some 9) [(''db_storage'', Dir None [(''session'', Dir None [(''session.db'', File)])])]),
     (''wxid_abc'', Dir (Some 5) [(''db_storage'', Dir None [])])]"

theorem scan_root_best_witness:
  "list_ex (\<lambda>(w, n, d). n = ''wxid_abc_1234'' \<and> w \<in> ai_wxid ` set (scan_root (Some two_dirs))) (candidates two_dirs)"
proof -
  have h: "is_dir two_dirs" by code_simp
  have ex: "list_ex (\<lambda>(w, n, d). n = ''wxid_abc_1234'' \<and> find_session_db d \<noteq> None) (candidates two_dirs)"
    by code_simp
  have "list_all (\<lambda>(w, n, d). find_session_db d = None \<or> \<not> is_dir two_dirs
      \<or> w \<in> ai_wxid ` set (scan_root (Some two_dirs))) (candidates two_dirs)"
    using scan_root_best [of two_dirs] by (elim conjE) assumption
  then have all: "\<forall>c \<in> set (candidates two_dirs). case c of (w, n, d) \<Rightarrow> find_session_db d = None \<or> \<not> is_dir two_dirs
      \<or> w \<in> ai_wxid ` set (scan_root (Some two_dirs))" by (simp only: list_all_iff)
  from ex obtain w n d where "(w, n, d) \<in> set (candidates two_dirs)" "n = ''wxid_abc_1234''" "find_session_db d \<noteq> None"
    by (auto simp: list_ex_iff)
  with all h show ?thesis by (force simp: list_ex_iff simp del: set_map)
qed

text \<open>Directories hold each name once.\<close>

fun fs_ok :: "fs \<Rightarrow> bool" where
  "fs_ok (Dir m es) \<longleftrightarrow> distinct (map fst es) \<and> list_all (\<lambda>(n, t). fs_ok t) es"
| "fs_ok File \<longleftrightarrow> True"

definition db_path :: "fs \<Rightarrow> string list \<Rightarrow> bool" where
  "db_path t p \<longleftrightarrow> p \<noteq> [] \<and> file_at t p \<and> ''migrate'' \<notin> set (butlast p) \<and> db_file_name (last p)"

lemma file_at_Dir:
  assumes "distinct (map fst es)"
  shows "file_at (Dir m es) q \<longleftrightarrow> (\<exists>n d q'. q = n # q' \<and> (n, d) \<in> set es \<and> file_at d q')"
proof (cases q)
  case (Cons n q')
  have iff: "(n, d) \<in> set es \<longleftrightarrow> map_of es n = Some d" for d
    using map_of_eq_Some_iff [OF assms] by blast
  show ?thesis
    by (cases "map_of es n") (simp_all add: Cons file_at_def iff)
qed (simp add: file_at_def)

lemma walk_paths:
  "fs_ok (snd e) \<Longrightarrow> p \<in> df_abs ` set (walk sib pre e) \<longleftrightarrow>
     (\<exists>q. p = pre @ fst e # q \<and> file_at (snd e) q \<and> ''migrate'' \<notin> set (butlast (fst e # q))
        \<and> db_file_name (last (fst e # q)))"
proof (induction sib pre e arbitrary: p rule: walk.induct)
  case (1 sib pre n m es)
  have at: "file_at (Dir m es) q \<longleftrightarrow> (\<exists>n' d' q'. q = n' # q' \<and> (n', d') \<in> set es \<and> file_at d' q')" for q
    using "1.prems" by (intro file_at_Dir) simp
  show ?case
  proof (cases "n = ''migrate''")
    case True
    then show ?thesis by (auto simp: at)
  next
    case False
    have "p \<in> df_abs ` set (walk es (pre @ [n]) (n', d')) \<longleftrightarrow>
        (\<exists>q. p = pre @ n # n' # q \<and> file_at d' q \<and> ''migrate'' \<notin> set (butlast (n' # q))
           \<and> db_file_name (last (n' # q)))" if "(n', d') \<in> set es" for n' d'
    proof -
      have "fs_ok (snd (n', d'))" using "1.prems" that by (auto simp: list_all_iff)
      from "1.IH" [OF False that this] show ?thesis by simp
    qed
    note sub = this
    have "p \<in> df_abs ` set (walk sib pre (n, Dir m es)) \<longleftrightarrow>
        (\<exists>(n', d') \<in> set es. p \<in> df_abs ` set (walk es (pre @ [n]) (n', d')))"
      using False by (simp add: image_Union) (simp add: split_beta)?
    also have "\<dots> \<longleftrightarrow> (\<exists>(n', d') \<in> set es. \<exists>q. p = pre @ n # n' # q \<and> file_at d' q
        \<and> ''migrate'' \<notin> set (butlast (n' # q)) \<and> db_file_name (last (n' # q)))"
      by (rule bex_cong [OF refl]) (use sub in \<open>force simp only: split_paired_all prod.case\<close>)
    also have "\<dots> \<longleftrightarrow> (\<exists>q. p = pre @ n # q \<and> file_at (Dir m es) q
        \<and> ''migrate'' \<notin> set (butlast (n # q)) \<and> db_file_name (last (n # q)))"
      unfolding at using False by fastforce
    finally show ?thesis by simp
  qed
next
  case (2 sib pre n)
  have "file_at File q \<longleftrightarrow> q = []" for q
    by (cases q) (auto simp: file_at_def)
  moreover have "df_abs (db_file_at sib pre n) = pre @ [n]"
    unfolding db_file_at_def Let_def by simp
  ultimately show ?case by (cases "db_file_name n") simp_all
qed

lemma walk_kinds: "f \<in> set (walk sib pre e) \<Longrightarrow> df_rel f = rel_text (df_abs f) \<and> df_kind f = classify_rel (df_rel f)"
proof (induction sib pre e rule: walk.induct)
  case (1 sib pre n m es)
  then obtain x where "n \<noteq> ''migrate''" "x \<in> set es" "f \<in> set (walk es (pre @ [n]) x)"
    by (auto split: if_split_asm)
  then show ?case by (rule "1.IH")
next
  case (2 sib pre n)
  then have "f = db_file_at sib pre n" by (simp split: if_split_asm)
  then show ?case unfolding db_file_at_def Let_def by simp
qed

text \<open>
  The database listing is complete and clean: exactly the \<open>.db\<close> files below the
  storage directory outside every \<open>migrate\<close> directory, sorted by relative name, each classified by it.
\<close>

theorem enum_db_files_complete:
  assumes "fs_ok t" and "is_dir t"
  shows "df_abs ` set (enum_db_files (Some t)) = {p. db_path t p}
    \<and> sorted (map df_rel (enum_db_files (Some t)))
    \<and> list_all (\<lambda>f. df_rel f = rel_text (df_abs f) \<and> df_kind f = classify_rel (df_rel f)) (enum_db_files (Some t))"
proof -
  obtain m es where t: "t = Dir m es" using assms(2) by (cases t) auto
  have at: "file_at t q \<longleftrightarrow> (\<exists>n' d' q'. q = n' # q' \<and> (n', d') \<in> set es \<and> file_at d' q')" for q
    using assms(1) unfolding t by (intro file_at_Dir) simp
  have "p \<in> df_abs ` set (walk es [] (n, d)) \<longleftrightarrow> (\<exists>q. p = n # q \<and> file_at d q
      \<and> ''migrate'' \<notin> set (butlast (n # q)) \<and> db_file_name (last (n # q)))" if "(n, d) \<in> set es" for p n d
  proof -
    have "fs_ok (snd (n, d))" using assms(1) that by (auto simp: t list_all_iff)
    from walk_paths [OF this, of p es "[]"] show ?thesis by simp
  qed
  note sub = this
  have "p \<in> df_abs ` set (enum_db_files (Some t)) \<longleftrightarrow> db_path t p" for p
  proof -
    have "p \<in> df_abs ` set (enum_db_files (Some t)) \<longleftrightarrow> (\<exists>(n, d) \<in> set es. p \<in> df_abs ` set (walk es [] (n, d)))"
      by (simp add: enum_db_files_def t image_Union split_beta)
    also have "\<dots> \<longleftrightarrow> (\<exists>(n, d) \<in> set es. \<exists>q. p = n # q \<and> file_at d q
        \<and> ''migrate'' \<notin> set (butlast (n # q)) \<and> db_file_name (last (n # q)))"
      by (rule bex_cong [OF refl]) (use sub in \<open>force simp only: split_paired_all prod.case\<close>)
    also have "\<dots> \<longleftrightarrow> db_path t p"
      unfolding db_path_def at by fastforce
    finally show ?thesis .
  qed
  then show ?thesis
    using walk_kinds by (auto simp: enum_db_files_def t list_all_iff)
qed

theorem enum_db_files_complete_witness:
  "(let t = Dir None [(''message'', Dir None [(''message_0.db'', File), (''message_0.db-wal'', File)]),
        (''migrate'', Dir None [(''unspportmsg.db'', File)])]
    in [''message'', ''message_0.db''] \<in> df_abs ` set (enum_db_files (Some t))
      \<and> [''migrate'', ''unspportmsg.db''] \<notin> df_abs ` set (enum_db_files (Some t)))"
proof -
  let ?t = "Dir None [(''message'', Dir None [(''message_0.db'', File), (''message_0.db-wal'', File)]),
        (''migrate'', Dir None [(''unspportmsg.db'', File)])]"
  have h: "fs_ok ?t" "is_dir ?t" "db_path ?t [''message'', ''message_0.db'']"
    "\<not> db_path ?t [''migrate'', ''unspportmsg.db'']" by code_simp+
  show ?thesis using enum_db_files_complete [OF h(1,2)] h(3,4) by (simp only: Let_def) blast
qed

end
