(* ===== verification/Live.thy ===== *)
theory Live
  imports Scan Keystore
begin

text \<open>
  Long-lived read-only connections (\<open>src/db/live.rs\<close>): opening with a key, the pool that keeps
  one connection per file, the memory of files without a working key, and the
  \<open>data_version\<close> baseline by which the poll loop notices foreign commits.
  A connection is a value of type \<open>'c\<close>; what the operating system and SQLCipher answer at a
  given moment is an argument of the operation: \<open>open_ro\<close> (what \<open>open_read_only\<close> returns) and
  \<open>version\<close> (\<open>PRAGMA data_version\<close>, \<open>None\<close> on error). \<open>hex::encode\<close> is \<open>hex_encode\<close>.
\<close>

datatype acquire_error = WrongKey | Missing | Io string

definition map_open_error :: "(string \<Rightarrow> string) \<Rightarrow> string \<Rightarrow> acquire_error" where
  "map_open_error to_lowercase msg =
     (if contains_sub ''file is not a database'' msg \<or> contains_sub ''not a database'' msg
         \<or> contains_sub ''HMAC'' msg \<or> contains_sub ''key'' (to_lowercase msg) then WrongKey
      else if contains_sub ''unable to open database file'' msg then Missing
      else Io msg)"

text \<open>
  What the system answers while opening: whether the path is a file, the connection or an
  error message, and for the later calls on the connection an error message or success.
\<close>

record 'c open_answers =
  op_is_file :: bool
  op_open :: "string + 'c"
  op_busy_timeout :: "string option"
  op_batch :: "string \<Rightarrow> string option"
  op_probe :: "string option"

definition open_read_only :: "(string \<Rightarrow> string) \<Rightarrow> 'c open_answers \<Rightarrow> string \<Rightarrow> acquire_error + 'c" where
  "open_read_only lower os key_hex64 =
     (if \<not> op_is_file os then Inl Missing
      else (case op_open os of Inl e \<Rightarrow> Inl (Io e) | Inr conn \<Rightarrow>
        (case op_busy_timeout os of Some e \<Rightarrow> Inl (Io e) | None \<Rightarrow>
          (case op_batch os (''PRAGMA key = \"x'' @ [CHR 0x27] @ key_hex64 @ [CHR 0x27] @ ''\";'') of
             Some e \<Rightarrow> Inl (map_open_error lower e)
           | None \<Rightarrow> (case op_batch os ''PRAGMA query_only = ON;'' of
               Some e \<Rightarrow> Inl (map_open_error lower e)
             | None \<Rightarrow> (case op_probe os of
                 Some e \<Rightarrow> Inl (map_open_error lower e)
               | None \<Rightarrow> Inr conn))))))"

section \<open>One database\<close>

record 'c live_db =
  ld_path :: "string list"
  ld_key_hex64 :: string
  ld_conn :: "'c option"
  ld_data_version :: "int option"

definition live_db_new :: "string list \<Rightarrow> string \<Rightarrow> 'c live_db" where
  "live_db_new path key = \<lparr>ld_path = path, ld_key_hex64 = key, ld_conn = None, ld_data_version = None\<rparr>"

definition live_is_open :: "'c live_db \<Rightarrow> bool" where
  "live_is_open d \<longleftrightarrow> ld_conn d \<noteq> None"

definition live_open :: "(string list \<Rightarrow> string \<Rightarrow> acquire_error + 'c) \<Rightarrow> ('c \<Rightarrow> int option) \<Rightarrow> 'c live_db
    \<Rightarrow> 'c live_db \<times> (acquire_error + unit)" where
  "live_open open_ro version d = (case open_ro (ld_path d) (ld_key_hex64 d) of
       Inl e \<Rightarrow> (d, Inl e)
     | Inr conn \<Rightarrow> (d\<lparr>ld_data_version := version conn, ld_conn := Some conn\<rparr>, Inr ()))"

definition live_close :: "'c live_db \<Rightarrow> 'c live_db" where
  "live_close d = d\<lparr>ld_conn := None, ld_data_version := None\<rparr>"

definition live_acquire :: "(string list \<Rightarrow> string \<Rightarrow> acquire_error + 'c) \<Rightarrow> ('c \<Rightarrow> int option) \<Rightarrow> 'c live_db
    \<Rightarrow> 'c live_db \<times> (acquire_error + 'c)" where
  "live_acquire open_ro version d = (case ld_conn d of
       Some conn \<Rightarrow> (d, Inr conn)
     | None \<Rightarrow> (case live_open open_ro version d of
           (d', Inl e) \<Rightarrow> (d', Inl e)
         | (d', Inr _) \<Rightarrow> (case ld_conn d' of Some conn \<Rightarrow> (d', Inr conn) | None \<Rightarrow> (d', Inl Missing))))"

section \<open>The pool\<close>

record 'c live_pool =
  lp_pool :: "(string, 'c live_db) hashmap"
  lp_keyless :: "string set"

definition pool_new :: "'c live_pool" where
  "pool_new = \<lparr>lp_pool = [], lp_keyless = {}\<rparr>"

definition mark_keyless :: "string \<Rightarrow> 'c live_pool \<Rightarrow> 'c live_pool" where
  "mark_keyless rel p = p\<lparr>lp_keyless := insert rel (lp_keyless p)\<rparr>"

definition is_keyless :: "'c live_pool \<Rightarrow> string \<Rightarrow> bool" where
  "is_keyless p rel \<longleftrightarrow> rel \<in> lp_keyless p"

definition get_or_open :: "(bytes \<Rightarrow> string) \<Rightarrow> (string list \<Rightarrow> string \<Rightarrow> acquire_error + 'c) \<Rightarrow> ('c \<Rightarrow> int option)
    \<Rightarrow> db_file \<Rightarrow> db_key \<Rightarrow> 'c live_pool \<Rightarrow> 'c live_pool \<times> (acquire_error + 'c)" where
  "get_or_open hex_encode open_ro version f key p = (let incoming = hex_encode key; rel = df_rel f in
     if is_keyless p rel
        \<and> is_none_or (\<lambda>e. \<not> live_is_open e \<and> ld_key_hex64 e = incoming) (hm_get (lp_pool p) rel)
     then (p, Inl WrongKey)
     else (let entry = opt_or (hm_get (lp_pool p) rel) (live_db_new (df_abs f) incoming);
               (entry', res) = live_acquire open_ro version (entry\<lparr>ld_key_hex64 := incoming\<rparr>)
           in (p\<lparr>lp_keyless := lp_keyless p - {rel}, lp_pool := hm_insert rel entry' (lp_pool p)\<rparr>, res)))"

definition pool_is_open :: "'c live_pool \<Rightarrow> string \<Rightarrow> bool" where
  "pool_is_open p rel \<longleftrightarrow> is_some_and live_is_open (hm_get (lp_pool p) rel)"

definition pool_close :: "string \<Rightarrow> 'c live_pool \<Rightarrow> 'c live_pool" where
  "pool_close rel p = (case hm_get (lp_pool p) rel of
       Some e \<Rightarrow> p\<lparr>lp_pool := hm_insert rel (live_close e) (lp_pool p)\<rparr> | None \<Rightarrow> p)"

definition foreign_commit_pending :: "('c \<Rightarrow> int option) \<Rightarrow> 'c live_pool \<Rightarrow> string \<Rightarrow> bool option" where
  "foreign_commit_pending version p rel = (case hm_get (lp_pool p) rel of None \<Rightarrow> None | Some e \<Rightarrow>
     (case ld_conn e of None \<Rightarrow> None | Some conn \<Rightarrow>
       (case version conn of None \<Rightarrow> None | Some now \<Rightarrow> Some (ld_data_version e \<noteq> Some now))))"

definition advance_data_version :: "('c \<Rightarrow> int option) \<Rightarrow> string \<Rightarrow> 'c live_pool \<Rightarrow> 'c live_pool" where
  "advance_data_version version rel p = (case hm_get (lp_pool p) rel of None \<Rightarrow> p | Some e \<Rightarrow>
     (case ld_conn e of None \<Rightarrow> p | Some conn \<Rightarrow>
       (case version conn of None \<Rightarrow> p | Some now \<Rightarrow>
         p\<lparr>lp_pool := hm_insert rel (e\<lparr>ld_data_version := Some now\<rparr>) (lp_pool p)\<rparr>)))"

section \<open>Properties\<close>

lemma live_acquire_open:
  "ld_conn d = Some conn \<Longrightarrow> live_acquire open_ro version d = (d, Inr conn)"
  by (simp add: live_acquire_def)

lemma live_acquire_closed:
  "ld_conn d = None \<Longrightarrow> live_acquire open_ro version d = (case open_ro (ld_path d) (ld_key_hex64 d) of
     Inl e \<Rightarrow> (d, Inl e)
   | Inr conn \<Rightarrow> (d\<lparr>ld_data_version := version conn, ld_conn := Some conn\<rparr>, Inr conn))"
  by (simp add: live_acquire_def live_open_def split: sum.split)

lemma live_acquire_result: "live_acquire open_ro version d = (e, Inr conn) \<Longrightarrow> ld_conn e = Some conn"
proof (cases "ld_conn d")
  case None
  assume "live_acquire open_ro version d = (e, Inr conn)"
  with None show ?thesis
    by (cases "open_ro (ld_path d) (ld_key_hex64 d)") (auto simp: live_acquire_closed)
qed (simp add: live_acquire_open)

lemma live_acquire_failed:
  "live_acquire open_ro version d = (e, Inl err) \<Longrightarrow> e = d \<and> ld_conn d = None"
proof (cases "ld_conn d")
  case None
  assume "live_acquire open_ro version d = (e, Inl err)"
  with None show ?thesis
    by (cases "open_ro (ld_path d) (ld_key_hex64 d)") (auto simp: live_acquire_closed)
qed (simp add: live_acquire_open)

text \<open>
  One connection per file: an answer of the pool is kept, so asking again gives the same
  connection whatever opening would now answer; a file whose key was found wrong is not
  touched again while the key stays, and a corrected key clears the mark and opens it.
\<close>

theorem pool_one_connection:
  assumes "get_or_open hx open_ro version f key p = (p', r)"
  shows "(case r of
      Inr conn \<Rightarrow> pool_is_open p' (df_rel f) \<and> \<not> is_keyless p' (df_rel f)
        \<and> (get_or_open hx open_ro' version' f key' p') =
            (p'\<lparr>lp_pool := hm_insert (df_rel f) ((the (hm_get (lp_pool p') (df_rel f)))\<lparr>ld_key_hex64 := hx key'\<rparr>) (lp_pool p')\<rparr>, Inr conn)
    | Inl e \<Rightarrow>
        get_or_open hx open_ro' version' f key (mark_keyless (df_rel f) p') = (mark_keyless (df_rel f) p', Inl WrongKey)
        \<and> (hx key' \<noteq> hx key \<and> hm_contains (lp_pool p') (df_rel f) \<longrightarrow>
             snd (get_or_open hx open_ro' version' f key' (mark_keyless (df_rel f) p')) =
               open_ro' (ld_path (the (hm_get (lp_pool p') (df_rel f)))) (hx key')))"
proof (cases r)
  case (Inr conn)
  with assms obtain e d where e: "live_acquire open_ro version d = (e, Inr conn)"
      and p': "lp_keyless p' = lp_keyless p - {df_rel f}" "hm_get (lp_pool p') (df_rel f) = Some e"
    by (auto simp: get_or_open_def Let_def hm_simps split: if_splits prod.splits)
  have c: "ld_conn e = Some conn"
    using e by (rule live_acquire_result)
  have k: "\<not> is_keyless p' (df_rel f)" using p'(1) by (simp add: is_keyless_def)
  have "p'\<lparr>lp_keyless := lp_keyless p' - {df_rel f}\<rparr> = p'"
    using k by (cases p') (simp add: is_keyless_def)
  moreover have "live_acquire open_ro' version' (e\<lparr>ld_key_hex64 := hx key'\<rparr>) = (e\<lparr>ld_key_hex64 := hx key'\<rparr>, Inr conn)"
    using c by (simp add: live_acquire_open)
  moreover have "p'\<lparr>lp_keyless := lp_keyless p' - {df_rel f}, lp_pool := m\<rparr> = p'\<lparr>lp_pool := m\<rparr>" for m
    using calculation(1) by (cases p') simp
  ultimately have "get_or_open hx open_ro' version' f key' p' =
      (p'\<lparr>lp_pool := hm_insert (df_rel f) (e\<lparr>ld_key_hex64 := hx key'\<rparr>) (lp_pool p')\<rparr>, Inr conn)"
    using k p'(2) by (simp only: get_or_open_def Let_def opt_or_simps simp_thms if_False prod.case)
  with k c p'(2) Inr show ?thesis by (simp add: pool_is_open_def live_is_open_def)
next
  case (Inl err)
  have none: "is_none_or (\<lambda>e. \<not> live_is_open e \<and> ld_key_hex64 e = hx key) (hm_get (lp_pool p') (df_rel f))"
  proof (cases "is_keyless p (df_rel f)
      \<and> is_none_or (\<lambda>e. \<not> live_is_open e \<and> ld_key_hex64 e = hx key) (hm_get (lp_pool p) (df_rel f))")
    case True
    with assms show ?thesis by (simp add: get_or_open_def Let_def)
  next
    case False
    let ?d = "opt_or (hm_get (lp_pool p) (df_rel f)) (live_db_new (df_abs f) (hx key))\<lparr>ld_key_hex64 := hx key\<rparr>"
    obtain e where e: "live_acquire open_ro version ?d = (e, Inl err)"
        and p': "hm_get (lp_pool p') (df_rel f) = Some e"
      using assms False Inl
      by (cases "live_acquire open_ro version ?d") (auto simp: get_or_open_def Let_def hm_simps)
    from live_acquire_failed [OF e] p' show ?thesis by (simp add: live_is_open_def)
  qed
  have again: "snd (get_or_open hx open_ro' version' f key' (mark_keyless (df_rel f) p')) =
      open_ro' (ld_path e) (hx key')"
    if "hx key' \<noteq> hx key" and e: "hm_get (lp_pool p') (df_rel f) = Some e" for e
  proof -
    have "ld_conn e = None" and "ld_key_hex64 e \<noteq> hx key'"
      using none e that(1) by (auto simp: live_is_open_def)
    with e show ?thesis
      by (simp add: get_or_open_def mark_keyless_def Let_def live_acquire_closed split: sum.split)
  qed
  show ?thesis
    using none again Inl by (auto simp: get_or_open_def mark_keyless_def is_keyless_def hm_contains_def)
qed

text \<open>
  No foreign commit is lost between two polls: asking does not consume it, so it stays
  pending until the baseline is advanced, and after that only a later commit is pending.
\<close>

theorem commits_stay_pending:
  assumes "hm_get (lp_pool p) rel = Some e" and "ld_conn e = Some conn" and "version conn = Some now"
    and "version' conn = Some later"
  shows "foreign_commit_pending version p rel = Some (ld_data_version e \<noteq> Some now)
    \<and> foreign_commit_pending version' (advance_data_version version rel p) rel = Some (later \<noteq> now)
    \<and> (rel' \<noteq> rel \<longrightarrow> foreign_commit_pending version' (advance_data_version version rel p) rel'
         = foreign_commit_pending version' p rel')
    \<and> foreign_commit_pending version' (pool_close rel p) rel = None"
  using assms
  by (auto simp: foreign_commit_pending_def advance_data_version_def pool_close_def live_close_def hm_simps)

theorem commits_stay_pending_witness:
  "(let p = \<lparr>lp_pool = [(''m.db'', \<lparr>ld_path = [''m.db''], ld_key_hex64 = ''00'', ld_conn = Some (5 :: nat),
         ld_data_version = Some 1\<rparr>)], lp_keyless = {}\<rparr>
    in foreign_commit_pending (\<lambda>_. Some 2) p ''m.db'' = Some True
      \<and> foreign_commit_pending (\<lambda>_. Some 2) (advance_data_version (\<lambda>_. Some 2) ''m.db'' p) ''m.db'' = Some False)"
  using commits_stay_pending [of "\<lparr>lp_pool = [(''m.db'', \<lparr>ld_path = [''m.db''], ld_key_hex64 = ''00'',
      ld_conn = Some (5 :: nat), ld_data_version = Some 1\<rparr>)], lp_keyless = {}\<rparr>" "''m.db''" _ 5
      "\<lambda>_. Some 2" 2 "\<lambda>_. Some 2" 2]
  by (simp add: Let_def)

theorem pool_one_connection_witness:
  "(let f = \<lparr>df_rel = ''m.db'', df_abs = [''m.db''], df_wal = None, df_kind = Message\<rparr>;
        (p1, r1) = get_or_open (map (\<lambda>_. CHR ''0'')) (\<lambda>_ _. Inr (5 :: nat)) (\<lambda>_. Some 1) f [0] pool_new
    in r1 = Inr 5 \<and> snd (get_or_open (map (\<lambda>_. CHR ''0'')) (\<lambda>_ _. Inl Missing) (\<lambda>_. None) f [0] p1) = Inr 5)"
proof -
  let ?f = "\<lparr>df_rel = ''m.db'', df_abs = [''m.db''], df_wal = None, df_kind = Message\<rparr>"
  let ?g = "get_or_open (map (\<lambda>_. CHR ''0'')) (\<lambda>_ _. Inr (5 :: nat)) (\<lambda>_. Some 1) ?f [0] pool_new"
  obtain p1 r1 where g: "?g = (p1, r1)" by (cases ?g)
  moreover have r: "r1 = Inr 5"
    using g by (auto simp: get_or_open_def Let_def is_keyless_def pool_new_def live_db_new_def
        live_acquire_closed)
  ultimately show ?thesis
    using pool_one_connection [OF g, of "\<lambda>_ _. Inl Missing" "\<lambda>_. None" "[0]"] by (simp add: Let_def)
qed

end
