(* ===== verification/Xml.thy ===== *)
theory Xml
  imports Bytes Rust_Str
begin

text \<open>
  The text accessors of \<open>src/parser/mod.rs\<close>: attributes, elements, CDATA and tag stripping by
  substring search, as the parser reads XML without a parser.
\<close>

definition attr :: "string \<Rightarrow> string \<Rightarrow> string option" where
  "attr xml name = (let needle = name @ ''=\"'' in
     case find_sub needle xml of None \<Rightarrow> None | Some i \<Rightarrow>
       (let start = i + length needle in
        case find_sub ''\"'' (drop start xml) of None \<Rightarrow> None | Some j \<Rightarrow> Some (slice start (j + start) xml)))"

definition open_tag :: "string \<Rightarrow> string" where
  "open_tag name = ''<'' @ name @ ''>''"

definition close_tag :: "string \<Rightarrow> string" where
  "close_tag name = ''</'' @ name @ ''>''"

definition strip_elem :: "string \<Rightarrow> string \<Rightarrow> string" where
  "strip_elem xml name = (case find_sub (open_tag name) xml of
       None \<Rightarrow> xml
     | Some s \<Rightarrow> (case find_sub (close_tag name) (drop s xml) of
           None \<Rightarrow> xml
         | Some e \<Rightarrow> take s xml @ drop (s + e + length (close_tag name)) xml))"

definition xml_text_between :: "string \<Rightarrow> string \<Rightarrow> string \<Rightarrow> string option" where
  "xml_text_between xml opn cls = (case find_sub opn xml of None \<Rightarrow> None | Some i \<Rightarrow>
     (let start = i + length opn in
      case find_sub cls (drop start xml) of None \<Rightarrow> None | Some j \<Rightarrow> Some (slice start (j + start) xml)))"

definition elem_text :: "string \<Rightarrow> string \<Rightarrow> string option" where
  "elem_text xml name = xml_text_between xml (open_tag name) (close_tag name)"

definition xml_text :: "string \<Rightarrow> string \<Rightarrow> string option" where
  "xml_text xml tag = xml_text_between xml (open_tag tag) (close_tag tag)"

lemma xml_text_elem_text: "xml_text = elem_text"
  by (simp add: fun_eq_iff xml_text_def elem_text_def)

definition elem_text_unwrapped :: "string \<Rightarrow> string \<Rightarrow> string option" where
  "elem_text_unwrapped xml name = (case elem_text xml name of None \<Rightarrow> None | Some raw \<Rightarrow>
     (let t = trim raw;
          inner = trim (opt_or (Option.bind (strip_prefix ''<![CDATA['' t) (strip_suffix '']]>'')) t)
      in if inner = [] then None else Some inner))"

text \<open>\<open>xml_elem_text\<close> also accepts attributes in the opening tag.\<close>

definition xml_elem_text :: "string \<Rightarrow> string \<Rightarrow> string option" where
  "xml_elem_text xml tag_name = (case find_sub (''<'' @ tag_name) xml of None \<Rightarrow> None | Some start \<Rightarrow>
     (case find_sub ''>'' (drop start xml) of None \<Rightarrow> None | Some gt_rel \<Rightarrow>
       (let gt = start + gt_rel in
        case find_sub (close_tag tag_name) (drop gt xml) of None \<Rightarrow> None
        | Some end_rel \<Rightarrow> Some (slice (gt + 1) (gt + end_rel) xml))))"

text \<open>The loop of \<open>strip_tags\<close>: the output, whether inside a tag, and the pending segment.\<close>

record strip_state =
  st_out :: string
  st_in_tag :: bool
  st_seg :: string

definition strip_char :: "strip_state \<Rightarrow> string \<Rightarrow> strip_state" where
  "strip_char st c =
     (if c = ''<'' then
        \<lparr>st_out = (if trim (st_seg st) \<noteq> [] then st_out st @ trim (st_seg st) @ '' '' else st_out st),
         st_in_tag = True, st_seg = []\<rparr>
      else if c = ''>'' then st\<lparr>st_in_tag := False\<rparr>
      else if \<not> st_in_tag st then st\<lparr>st_seg := st_seg st @ c\<rparr>
      else st)"

definition strip_tags :: "string \<Rightarrow> string" where
  "strip_tags xml = (let st = foldl strip_char \<lparr>st_out = [], st_in_tag = False, st_seg = []\<rparr> (utf8_chars xml)
     in trim (if trim (st_seg st) \<noteq> [] then st_out st @ trim (st_seg st) else st_out st))"

definition is_xml :: "string \<Rightarrow> bool" where
  "is_xml s \<longleftrightarrow> starts_with ''<'' (trim_start s)"

section \<open>Facts about the accessors\<close>

lemma open_tag_shape: "open_tag name = CHR ''<'' # name @ ''>''"
  by (simp add: open_tag_def)

lemma close_tag_shape: "close_tag name = CHR ''<'' # CHR ''/'' # name @ ''>''"
  by (simp add: close_tag_def)

text \<open>
  A name of an element: no angle brackets, so neither tag overlaps itself, and no leading
  slash, so a closing tag cannot begin inside an opening one.
\<close>

definition tag_name_ok :: "string \<Rightarrow> bool" where
  "tag_name_ok name \<longleftrightarrow> CHR ''<'' \<notin> set name \<and> CHR ''>'' \<notin> set name \<and> \<not> starts_with ''/'' name"

lemma find_open_tag:
  assumes "tag_name_ok name" and "\<not> contains_sub (open_tag name) a"
  shows "find_sub (open_tag name) (a @ open_tag name @ b) = Some (length a)"
  using assms by (intro find_sub_after [OF _ open_tag_shape]) (auto simp: tag_name_ok_def)

lemma find_close_tag:
  assumes "tag_name_ok name" and "\<not> contains_sub (close_tag name) a"
  shows "find_sub (close_tag name) (a @ close_tag name @ b) = Some (length a)"
  using assms by (intro find_sub_after [OF _ close_tag_shape]) (auto simp: tag_name_ok_def)

text \<open>An element whose body does not hold its own closing tag is read back.\<close>

lemma elem_text_hit:
  assumes "tag_name_ok name" and "\<not> contains_sub (open_tag name) a"
    and "\<not> contains_sub (close_tag name) v"
  shows "elem_text (a @ open_tag name @ v @ close_tag name @ b) name = Some v"
proof -
  have "drop (length a + length (open_tag name)) (a @ open_tag name @ v @ close_tag name @ b)
      = v @ close_tag name @ b" by simp
  then show ?thesis
    using find_open_tag [OF assms(1,2), of "v @ close_tag name @ b"] find_close_tag [OF assms(1,3), of b]
    by (simp add: elem_text_def xml_text_between_def Let_def slice_def)
qed

lemma close_not_in_open:
  assumes "tag_name_ok name" and "\<not> contains_sub (close_tag name) v"
  shows "\<not> contains_sub (close_tag name) (open_tag name @ v)"
proof
  assume "contains_sub (close_tag name) (open_tag name @ v)"
  then obtain x y where xy: "open_tag name @ v = x @ close_tag name @ y"
    by (auto simp: str_simps)
  have "\<not> length (open_tag name) \<le> length x"
  proof
    assume "length (open_tag name) \<le> length x"
    with xy obtain z where "x = open_tag name @ z"
      by (metis append_eq_append_conv_if append_take_drop_id)
    with xy have "v = z @ close_tag name @ y" by simp
    with assms(2) show False by (auto simp: str_simps)
  qed
  then have len: "length x < length (open_tag name)" by simp
  have "(open_tag name @ v) ! length x = CHR ''<''"
    by (simp add: xy close_tag_shape)
  with len have "open_tag name ! length x = CHR ''<''" by (simp add: nth_append)
  with len assms(1) have "x = []"
    by (cases x) (auto simp: open_tag_shape nth_append tag_name_ok_def nth_Cons' less_Suc_eq
        split: if_splits dest!: nth_mem)
  with xy have "name @ ''>'' @ v = CHR ''/'' # name @ ''>'' @ y"
    by (simp add: open_tag_shape close_tag_shape)
  with assms(1) show False
    by (cases name) (auto simp: tag_name_ok_def starts_with_def)
qed

text \<open>Stripping an element takes out exactly the element.\<close>

lemma strip_elem_hit:
  assumes "tag_name_ok name" and "\<not> contains_sub (open_tag name) a"
    and "\<not> contains_sub (close_tag name) v"
  shows "strip_elem (a @ open_tag name @ v @ close_tag name @ b) name = a @ b"
proof -
  have "find_sub (close_tag name) ((open_tag name @ v) @ close_tag name @ b)
      = Some (length (open_tag name @ v))"
    using assms by (intro find_close_tag close_not_in_open)
  then show ?thesis
    using find_open_tag [OF assms(1,2), of "v @ close_tag name @ b"]
    by (simp add: strip_elem_def)
qed

text \<open>Whether a text reads as XML is decided by what precedes its first tag.\<close>

lemma lt_not_whitespace: "\<not> is_whitespace (CHR ''<'' # t)"
  by (auto simp: is_whitespace_def char_code_def split: list.splits)

lemma is_xml_at_tag:
  "is_xml (a @ CHR ''<'' # b) \<longleftrightarrow>
     starts_with ''<'' (concat (dropWhile is_whitespace (utf8_chars a)) @ ''<'')"
proof -
  have nc: "\<not> is_cont (CHR ''<'')" by (simp add: is_cont_def)
  let ?u = "utf8_chars (CHR ''<'' # b)"
  have u: "concat ?u = CHR ''<'' # b" by (rule concat_utf8_chars)
  have "dropWhile is_whitespace (cs @ ?u) = dropWhile is_whitespace cs @ ?u" for cs
    by (induction cs) (simp_all add: lt_not_whitespace)
  then have "trim_start (a @ CHR ''<'' # b) = concat (dropWhile is_whitespace (utf8_chars a)) @ CHR ''<'' # b"
    by (simp only: trim_start_def utf8_chars_append [OF nc] concat_append u)
  moreover have "starts_with ''<'' (w @ CHR ''<'' # b) = starts_with ''<'' (w @ ''<'')" for w
    by (cases w) (simp_all add: starts_with_def)
  ultimately show ?thesis by (simp only: is_xml_def)
qed

lemma is_xml_prefix:
  "is_xml (a @ CHR ''<'' # b) \<longleftrightarrow> is_xml (a @ CHR ''<'' # b')"
  by (simp add: is_xml_at_tag)

end
