(* ===== verification/Parser.thy ===== *)
theory Parser
  imports Xml Pathsafe
begin

text \<open>
  The message parser of \<open>src/parser/mod.rs\<close>: from the packed \<open>local_type\<close> and the stored
  content to display text, media hint, quotation and recall. \<open>zstd\<close>'s decoder is the
  argument \<open>decode_all\<close>. Display texts outside ASCII are written as their UTF-8 bytes.
\<close>

section \<open>Data\<close>

datatype media_kind = Image | Voice | Video | Emoji | File

fun media_kind_str :: "media_kind \<Rightarrow> string" where
  "media_kind_str Image = ''image''"
| "media_kind_str Voice = ''voice''"
| "media_kind_str Video = ''video''"
| "media_kind_str Emoji = ''emoji''"
| "media_kind_str File = ''file''"

record media_hint =
  mh_kind :: media_kind
  mh_file_name :: string
  mh_md5 :: "string option"
  mh_aes_key :: "string option"

record quote_info =
  qi_platform_message_id :: string
  qi_sender :: string
  qi_content :: string
  qi_msg_type :: int

record revoke_info =
  rv_msg_id :: "string option"
  rv_new_msg_id :: "string option"
  rv_replace_msg :: "string option"

record parsed_msg =
  pm_display :: string
  pm_raw_content :: string
  pm_parsed_text :: string
  pm_media :: "media_hint option"
  pm_reply_to :: "string option"
  pm_quote :: "quote_info option"
  pm_revoke :: "revoke_info option"

section \<open>Message types\<close>

definition split_local_type :: "int \<Rightarrow> int \<times> int option" where
  "split_local_type local_type = (if local_type < 0 then (local_type, None)
     else let base = local_type AND 0xFFFFFFFF;
              high = drop_bit 32 local_type
          in (base, if high \<noteq> 0 \<and> base = 49 then Some high else None))"

definition appmsg_type :: "string \<Rightarrow> int option" where
  "appmsg_type xml = (let own = strip_elem xml ''refermsg'' in
     Option.bind (opt_else (elem_text own ''type'') (attr own ''type'')) (\<lambda>s. parse_i64 (trim s)))"

definition subtype_of :: "int \<Rightarrow> string \<Rightarrow> int option" where
  "subtype_of local_type xml = (case snd (split_local_type local_type) of
       Some p \<Rightarrow> Some p | None \<Rightarrow> appmsg_type xml)"

definition placeholder_for :: "int \<Rightarrow> string option" where
  "placeholder_for lt = (let local_type = fst (split_local_type lt) in
     if local_type = 1 then None
     else if local_type = 3 then Some (utf8 [91, 229, 155, 190, 231, 137, 135, 93])
     else if local_type = 34 then Some (utf8 [91, 232, 175, 173, 233, 159, 179, 93])
     else if local_type = 43 then Some (utf8 [91, 232, 167, 134, 233, 162, 145, 93])
     else if local_type = 47 then Some (utf8 [91, 232, 161, 168, 230, 131, 133, 93])
     else if local_type = 42 then Some (utf8 [91, 229, 144, 141, 231, 137, 135, 93])
     else if local_type = 48 then Some (utf8 [91, 228, 189, 141, 231, 189, 174, 93])
     else if local_type = 49 then
       Some (utf8 [91, 233, 147, 190, 230, 142, 165, 47, 230, 150, 135, 228, 187, 182, 93])
     else if local_type = 50 then Some (utf8 [91, 232, 167, 134, 233, 162, 145, 229, 143, 183, 93])
     else if local_type = 10000 \<or> local_type = 10002 then None
     else Some (utf8 [91, 230, 182, 136, 230, 129, 175, 93]))"

section \<open>Stored content\<close>

definition newline :: char where "newline = char_of (10 :: nat)"

definition strip_sender_prefix :: "string \<Rightarrow> string \<Rightarrow> string" where
  "strip_sender_prefix body sender_username = (case split_once [newline] body of
       None \<Rightarrow> body
     | Some (first, rest) \<Rightarrow> (case strip_suffix '':'' first of
           None \<Rightarrow> body
         | Some ident \<Rightarrow>
             if starts_with ''<'' (trim_start rest) then trim_start rest
             else if sender_username \<noteq> [] \<and> ident = sender_username then rest
             else body))"

definition zstd_magic :: bytes where "zstd_magic = [0x28, 0xB5, 0x2F, 0xFD]"

definition zstd_decompress :: "(bytes \<Rightarrow> bytes option) \<Rightarrow> bytes \<Rightarrow> string option" where
  "zstd_decompress decode_all d =
     (case List.find (\<lambda>i. i + 4 \<le> length d \<and> slice i (i + 4) d = zstd_magic) [0..<16] of
        None \<Rightarrow> None
      | Some start \<Rightarrow> Option.bind (decode_all (drop start d)) from_utf8)"

definition decode_content :: "(bytes \<Rightarrow> bytes option) \<Rightarrow> bytes option \<Rightarrow> bytes option \<Rightarrow> string \<Rightarrow> string option" where
  "decode_content decode_all compress_content message_content sender_username =
     (case Option.bind compress_content (zstd_decompress decode_all) of
        Some xml \<Rightarrow> Some (strip_sender_prefix xml sender_username)
      | None \<Rightarrow> (case message_content of
          None \<Rightarrow> None
        | Some mc \<Rightarrow> (case zstd_decompress decode_all mc of
            Some xml \<Rightarrow> Some (strip_sender_prefix xml sender_username)
          | None \<Rightarrow> Some (strip_sender_prefix (from_utf8_lossy (from_bytes mc)) sender_username))))"

section \<open>Extraction\<close>

definition image_ext :: "string \<Rightarrow> string" where
  "image_ext xml = (if attr xml ''type'' = Some ''2'' then ''png''
     else if attr xml ''type'' = Some ''3'' then ''gif''
     else if attr xml ''type'' = Some ''4'' then ''webp''
     else ''jpg'')"

definition clean_char :: "string \<Rightarrow> string" where
  "clean_char c = (if c \<in> {''<'', ''>'', '':'', ''\"'', ''/'', [CHR 0x5C], ''|'', ''?'', ''*''} \<or> is_control c
     then ''_'' else c)"

definition sanitize_file_name :: "string \<Rightarrow> string" where
  "sanitize_file_name name = (let cleaned = concat (map clean_char (utf8_chars name));
       trimmed = trim_end_matches (\<lambda>c. c = CHR ''.'') (trim cleaned)
     in if trimmed = [] then ''file'' else trimmed)"

definition extract_revoke :: "string \<Rightarrow> revoke_info option" where
  "extract_revoke xml = (if \<not> (contains_sub ''revokemsg'' xml \<or> contains_sub ''replacemsg'' xml
        \<or> contains_sub ''revoke'' xml \<or> contains_sub (utf8 [230, 146, 164, 229, 155, 158]) xml) then None
     else let msg_id = opt_else (elem_text xml ''msgid'') (attr xml ''msgid'');
              new_msg_id = opt_else (elem_text xml ''newmsgid'') (attr xml ''newmsgid'');
              replace_msg = opt_else (elem_text xml ''replacemsg'') (attr xml ''replacemsg'')
          in if msg_id = None \<and> new_msg_id = None \<and> replace_msg = None then None
             else Some \<lparr>rv_msg_id = msg_id, rv_new_msg_id = new_msg_id, rv_replace_msg = replace_msg\<rparr>)"

definition parse_system_text :: "string \<Rightarrow> string" where
  "parse_system_text xml = (case extract_revoke xml of
       Some r \<Rightarrow> (case rv_replace_msg r of
           Some rm \<Rightarrow> rm
         | None \<Rightarrow> utf8 [230, 146, 164, 229, 155, 158, 228, 186, 134, 228, 184, 128, 230, 157, 161, 230, 182, 136, 230, 129, 175])
     | None \<Rightarrow> (case elem_text xml ''content_template'' of
           Some t \<Rightarrow> t
         | None \<Rightarrow> (case elem_text xml ''template'' of
               Some t \<Rightarrow> t
             | None \<Rightarrow> (let text = strip_tags xml in
                 if text = [] then concat (take 64 (utf8_chars xml)) else text))))"

definition extract_refermsg :: "string \<Rightarrow> quote_info option" where
  "extract_refermsg xml = (case find_sub ''<refermsg>'' xml of None \<Rightarrow> None | Some i \<Rightarrow>
     (let s = i + length ''<refermsg>'' in
      case find_sub ''</refermsg>'' (drop s xml) of None \<Rightarrow> None | Some j \<Rightarrow>
       (let inner = slice s (j + s) xml
        in Some \<lparr>qi_platform_message_id = opt_or (opt_else (elem_text inner ''svrid'') (attr inner ''svrid'')) [],
                 qi_sender = opt_or (opt_else (elem_text inner ''chatusr'') (attr inner ''chatusr'')) [],
                 qi_content = strip_tags (opt_or (elem_text inner ''content'') []),
                 qi_msg_type = opt_or (Option.bind (elem_text inner ''type'') parse_i64) 0\<rparr>)))"

section \<open>The parser\<close>

definition image_hint :: "int \<Rightarrow> string \<Rightarrow> media_hint" where
  "image_hint local_id content = (let
       md5 = opt_else (attr content ''md5'') (attr content ''cdnthumbmd5'');
       ext = image_ext content
     in \<lparr>mh_kind = Image,
         mh_file_name = (case md5 of Some m \<Rightarrow> m @ ''.'' @ ext
           | None \<Rightarrow> ''img_'' @ int_to_dec local_id @ ''.'' @ ext),
         mh_md5 = md5, mh_aes_key = attr content ''aeskey''\<rparr>)"

definition voice_hint :: "int \<Rightarrow> string \<Rightarrow> media_hint" where
  "voice_hint server_id content =
     \<lparr>mh_kind = Voice, mh_file_name = ''voice_'' @ int_to_dec server_id @ ''.silk'',
      mh_md5 = attr content ''md5'', mh_aes_key = attr content ''aeskey''\<rparr>"

definition video_hint :: "int \<Rightarrow> string \<Rightarrow> media_hint" where
  "video_hint local_id content = (let md5 = opt_else (attr content ''md5'') (attr content ''cdnvideomd5'')
     in \<lparr>mh_kind = Video,
         mh_file_name = (case md5 of Some m \<Rightarrow> m @ ''.mp4''
           | None \<Rightarrow> ''video_'' @ int_to_dec local_id @ ''.mp4''),
         mh_md5 = md5, mh_aes_key = attr content ''aeskey''\<rparr>)"

definition emoji_hint :: "int \<Rightarrow> string \<Rightarrow> media_hint" where
  "emoji_hint local_id content = (let md5 = attr content ''md5''
     in \<lparr>mh_kind = Emoji,
         mh_file_name = (case md5 of Some m \<Rightarrow> m @ ''.gif''
           | None \<Rightarrow> ''emoji_'' @ int_to_dec local_id @ ''.gif''),
         mh_md5 = md5, mh_aes_key = None\<rparr>)"

definition file_hint :: "int \<Rightarrow> string \<Rightarrow> media_hint" where
  "file_hint local_id content = (let own = strip_elem content ''refermsg'';
       title = opt_else (elem_text_unwrapped own ''title'') (attr own ''title'')
     in \<lparr>mh_kind = File,
         mh_file_name = (case title of Some t \<Rightarrow> sanitize_file_name t
           | None \<Rightarrow> ''file_'' @ int_to_dec local_id),
         mh_md5 = opt_else (elem_text_unwrapped own ''md5'') (attr own ''md5''),
         mh_aes_key = opt_else (elem_text_unwrapped own ''aeskey'') (attr own ''aeskey'')\<rparr>)"

definition parse_message :: "int \<Rightarrow> int \<Rightarrow> int \<Rightarrow> string \<Rightarrow> parsed_msg" where
  "parse_message local_type server_id local_id content = (let
       base = fst (split_local_type local_type);
       parsed_text0 = (if is_xml content then strip_tags content else content);
       display = (case placeholder_for local_type of
           Some p \<Rightarrow> p
         | None \<Rightarrow> if base = 1 then parsed_text0
             else if base = 10000 \<or> base = 10002 then parse_system_text content
             else parsed_text0);
       parsed_text = (if base = 10000 \<or> base = 10002 then display else parsed_text0);
       xml = is_xml content;
       media = (if \<not> xml then None
         else if base = 3 then Some (image_hint local_id content)
         else if base = 34 then Some (voice_hint server_id content)
         else if base = 43 then Some (video_hint local_id content)
         else if base = 47 then Some (emoji_hint local_id content)
         else if base = 49 \<and> subtype_of local_type content = Some 6 then Some (file_hint local_id content)
         else None);
       quote = (if xml \<and> base = 49 then extract_refermsg content else None);
       revoke = (if xml \<and> (base = 10000 \<or> base = 10002) then extract_revoke content else None)
     in \<lparr>pm_display = display, pm_raw_content = content, pm_parsed_text = parsed_text,
         pm_media = media, pm_reply_to = map_option qi_platform_message_id quote,
         pm_quote = quote, pm_revoke = revoke\<rparr>)"

text \<open>The ChatLab message type of a parsed message (\<open>server/handlers/mod.rs\<close>).\<close>

definition chatlab_type :: "int \<Rightarrow> parsed_msg \<Rightarrow> int" where
  "chatlab_type local_type parsed = (let base = fst (split_local_type local_type) in
     if base = 1 then 0
     else if base = 3 then 1
     else if base = 34 then 2
     else if base = 43 then 3
     else if base = 47 then 5
     else if base = 42 then 27
     else if base = 48 then 8
     else if base = 50 then 24
     else if base = 49 then
       (if pm_reply_to parsed \<noteq> None then 25
        else if subtype_of local_type (pm_raw_content parsed) = Some 6 then 4
        else 7)
     else if base = 10000 \<or> base = 10002 then (if pm_revoke parsed \<noteq> None then 81 else 80)
     else 99)"

section \<open>Properties\<close>

lemma split_packed:
  assumes "0 \<le> b" and "b < 2 ^ 32" and "0 \<le> h"
  shows "split_local_type (h * 2 ^ 32 + b) = (b, if h \<noteq> 0 \<and> b = 49 then Some h else None)"
proof -
  have m: "x AND 0xFFFFFFFF = x mod 2 ^ 32" for x :: int
    using take_bit_eq_mask [of 32 x] by (simp add: take_bit_eq_mod mask_eq_exp_minus_1)
  have "(h * 2 ^ 32 + b) mod 2 ^ 32 = b" using assms by simp
  moreover have "drop_bit 32 (h * 2 ^ 32 + b) = h" using assms by (simp add: drop_bit_eq_div)
  moreover have "\<not> h * 2 ^ 32 + b < 0" using assms by simp
  ultimately show ?thesis
    unfolding split_local_type_def m Let_def by auto
qed

text \<open>
  The two halves of \<open>local_type\<close> are separated whatever the high half is: every table
  keyed by the type sees the base type alone, the high half is the subtype exactly for
  base 49, it wins over the XML, and without one the XML's own type decides.
\<close>

theorem packed_type_split:
  assumes "0 \<le> b" and "b < 2 ^ 32" and "0 \<le> h"
  shows "placeholder_for (h * 2 ^ 32 + b) = placeholder_for b
    \<and> subtype_of (h * 2 ^ 32 + b) xml = (if h \<noteq> 0 \<and> b = 49 then Some h else appmsg_type xml)
    \<and> (b \<noteq> 49 \<longrightarrow> chatlab_type (h * 2 ^ 32 + b) m = chatlab_type b m
        \<and> parse_message (h * 2 ^ 32 + b) sid lid xml = parse_message b sid lid xml)"
proof -
  have s: "split_local_type (h * 2 ^ 32 + b) = (b, if h \<noteq> 0 \<and> b = 49 then Some h else None)"
    using assms by (rule split_packed)
  have s0: "split_local_type b = (b, None)"
    using split_packed [of b 0] assms by simp
  have p: "placeholder_for (h * 2 ^ 32 + b) = placeholder_for b"
    by (simp only: placeholder_for_def s s0 fst_conv)
  have x: "subtype_of (h * 2 ^ 32 + b) xml = (if h \<noteq> 0 \<and> b = 49 then Some h else appmsg_type xml)"
    by (simp only: subtype_of_def s snd_conv) simp
  have c: "chatlab_type (h * 2 ^ 32 + b) m = chatlab_type b m" if "b \<noteq> 49"
    using that by (simp only: chatlab_type_def Let_def s s0 fst_conv if_False)
  have q: "parse_message (h * 2 ^ 32 + b) sid lid xml = parse_message b sid lid xml" if "b \<noteq> 49"
    using that by (simp only: parse_message_def Let_def s s0 fst_conv p if_False simp_thms)
  from p x c q show ?thesis by blast
qed

theorem packed_type_split_witness:
  "placeholder_for 25769803825 = placeholder_for 49
   \<and> subtype_of 25769803825 ''<type>5</type>'' = Some 6
   \<and> placeholder_for 73014455032 = placeholder_for 11000"
  using packed_type_split [of 49 6 "''<type>5</type>''"] packed_type_split [of 11000 17 "[]"] by simp

text \<open>A message that quotes another: the quoted one stands in \<open><refermsg>\<close>.\<close>

definition quoting :: "string \<Rightarrow> string \<Rightarrow> string \<Rightarrow> string" where
  "quoting before inner after = before @ open_tag ''refermsg'' @ inner @ close_tag ''refermsg'' @ after"

lemma refermsg_ok: "tag_name_ok ''refermsg''"
  by (simp add: tag_name_ok_def starts_with_def)

lemma strip_quoting:
  assumes "\<not> contains_sub ''<refermsg>'' a" and "\<not> contains_sub ''</refermsg>'' v"
  shows "strip_elem (quoting a v b) ''refermsg'' = a @ b"
  using strip_elem_hit [OF refermsg_ok, of a v b] assms
  by (simp add: quoting_def open_tag_def close_tag_def)

lemma is_xml_quoting: "is_xml (quoting a v b) = is_xml (quoting a v' b)"
  unfolding quoting_def open_tag_shape append_Cons by (rule is_xml_prefix)

lemma extract_refermsg_elem:
  "extract_refermsg xml = map_option (\<lambda>inner.
     \<lparr>qi_platform_message_id = opt_or (opt_else (elem_text inner ''svrid'') (attr inner ''svrid'')) [],
      qi_sender = opt_or (opt_else (elem_text inner ''chatusr'') (attr inner ''chatusr'')) [],
      qi_content = strip_tags (opt_or (elem_text inner ''content'') []),
      qi_msg_type = opt_or (Option.bind (elem_text inner ''type'') parse_i64) 0\<rparr>)
     (elem_text xml ''refermsg'')"
  by (simp add: extract_refermsg_def elem_text_def xml_text_between_def open_tag_def close_tag_def
      Let_def split: option.split)

lemma elem_text_quoting:
  assumes "\<not> contains_sub ''<refermsg>'' a" and "\<not> contains_sub ''</refermsg>'' v"
  shows "elem_text (quoting a v b) ''refermsg'' = Some v"
  using elem_text_hit [OF refermsg_ok, of a v b] assms
  by (simp add: quoting_def open_tag_def close_tag_def)

text \<open>
  C33. A quotation never speaks for the message that quotes: the media hint, hence the file
  a client is offered, is the same for every quoted message, and the message is a reply to
  the quoted message's server number.
\<close>

theorem quote_does_not_leak:
  assumes "\<not> contains_sub ''<refermsg>'' a"
    and "\<not> contains_sub ''</refermsg>'' v" and "\<not> contains_sub ''</refermsg>'' v'"
    and "fst (split_local_type lt) = 49"
  shows "pm_media (parse_message lt sid lid (quoting a v b)) = pm_media (parse_message lt sid lid (quoting a v' b))
    \<and> (is_xml (quoting a v b) \<longrightarrow> pm_reply_to (parse_message lt sid lid (quoting a v b)) =
         Some (opt_or (opt_else (elem_text v ''svrid'') (attr v ''svrid'')) []))"
proof -
  have own: "strip_elem (quoting a v b) ''refermsg'' = strip_elem (quoting a v' b) ''refermsg''"
    using assms by (simp add: strip_quoting)
  then have "appmsg_type (quoting a v b) = appmsg_type (quoting a v' b)"
    and h: "file_hint lid (quoting a v b) = file_hint lid (quoting a v' b)"
    by (simp_all add: appmsg_type_def file_hint_def)
  then have "subtype_of lt (quoting a v b) = subtype_of lt (quoting a v' b)"
    by (simp add: subtype_of_def split: option.split)
  with h is_xml_quoting [of a v b v'] assms(4) show ?thesis
    by (simp add: parse_message_def Let_def extract_refermsg_elem elem_text_quoting [OF assms(1,2)])
qed

theorem quote_does_not_leak_witness:
  "(let reply = ''<msg><type>57</type>''; file = ''<type>6</type><title>q.xls</title><svrid>7</svrid>'';
        m = parse_message 49 1 2 (quoting reply file ''</msg>'')
    in pm_media m = None \<and> pm_reply_to m = Some ''7'')"
proof -
  have a: "\<not> contains_sub ''<refermsg>'' ''<msg><type>57</type>''" by code_simp
  have v: "\<not> contains_sub ''</refermsg>'' ''<type>6</type><title>q.xls</title><svrid>7</svrid>''" by code_simp
  have v': "\<not> contains_sub ''</refermsg>'' []" by code_simp
  have t: "fst (split_local_type 49) = 49" by code_simp
  have x: "is_xml (quoting ''<msg><type>57</type>'' ''<type>6</type><title>q.xls</title><svrid>7</svrid>'' ''</msg>'')"
    and n: "pm_media (parse_message 49 1 2 (quoting ''<msg><type>57</type>'' [] ''</msg>'')) = None"
    and r: "opt_or (opt_else (elem_text ''<type>6</type><title>q.xls</title><svrid>7</svrid>'' ''svrid'')
       (attr ''<type>6</type><title>q.xls</title><svrid>7</svrid>'' ''svrid'')) [] = ''7''"
    by code_simp+
  show ?thesis
    using quote_does_not_leak [OF a v v' t, of 1 2 "''</msg>''"] x n r unfolding Let_def by metis
qed

text \<open>The stored body of a group message: the sender's id, a colon, a newline, the text.\<close>

definition prefixed :: "string \<Rightarrow> string \<Rightarrow> string" where
  "prefixed ident text = ident @ '':'' @ newline # text"

lemma strip_sender_prefixed:
  assumes "newline \<notin> set ident"
  shows "strip_sender_prefix (prefixed ident text) sender =
    (if is_xml text then trim_start text
     else if sender \<noteq> [] \<and> ident = sender then text else prefixed ident text)"
proof -
  have n: "newline \<notin> set (ident @ '':'')"
    using assms by (simp add: newline_def char_of_def)
  have "split_once [newline] ((ident @ '':'') @ [newline] @ text) = Some (ident @ '':'', text)"
    using find_sub_fresh_head [OF n, of "[]" "text"] by (simp add: split_once_def)
  moreover have "strip_suffix '':'' (ident @ '':'') = Some ident"
    by (simp add: str_simps)
  ultimately show ?thesis
    by (simp add: strip_sender_prefix_def prefixed_def is_xml_def newline_def)
qed

text \<open>
  Reading a stored body: compressed or not, the group prefix is taken off when the
  rest is XML or the id is the sender's own, and a text that merely looks like a prefix
  (another id, no sender known) is kept whole.
\<close>

theorem content_sender_prefix:
  assumes "newline \<notin> set ident" and "utf8_valid (prefixed ident text)"
    and "zstd_decompress dec (as_bytes (prefixed ident text)) = None"
    and "zstd_decompress dec frame = Some (prefixed ident text)"
  shows "decode_content dec None (Some (as_bytes (prefixed ident text))) sender =
      Some (if is_xml text then trim_start text
        else if sender \<noteq> [] \<and> ident = sender then text else prefixed ident text)
    \<and> decode_content dec None (Some frame) sender =
      decode_content dec None (Some (as_bytes (prefixed ident text))) sender
    \<and> decode_content dec (Some frame) column sender =
      decode_content dec None (Some (as_bytes (prefixed ident text))) sender"
  using assms by (simp add: decode_content_def strip_sender_prefixed lossy_valid_id)

theorem content_sender_prefix_witness:
  "(let dec = (\<lambda>b. if 4 < length b then Some (drop 4 b) else None);
        body = prefixed ''wxid_a'' ''hello: there''
    in decode_content dec None (Some (as_bytes body)) ''wxid_a'' = Some ''hello: there''
      \<and> decode_content dec (Some (zstd_magic @ as_bytes body)) None ''wxid_b'' = Some body)"
proof -
  let ?dec = "\<lambda>b :: bytes. if 4 < length b then Some (drop 4 b) else None"
  let ?body = "prefixed ''wxid_a'' ''hello: there''"
  have h: "newline \<notin> set ''wxid_a''" "utf8_valid ?body"
    "zstd_decompress ?dec (as_bytes ?body) = None"
    "zstd_decompress ?dec (zstd_magic @ as_bytes ?body) = Some ?body"
    by code_simp+
  have x: "\<not> is_xml ''hello: there''" by code_simp
  show ?thesis
    using content_sender_prefix [OF h, of "''wxid_a''" None] content_sender_prefix [OF h, of "''wxid_b''" None] x
    by (simp add: Let_def)
qed

text \<open>File names: no unit of a sanitised name is a separator, a reserved sign or a control.\<close>

lemma trim_dots:
  obtains k where "s = trim_end_matches (\<lambda>c. c = CHR ''.'') s @ replicate k (CHR ''.'')"
proof -
  have "rev s = takeWhile (\<lambda>c. c = CHR ''.'') (rev s) @ dropWhile (\<lambda>c. c = CHR ''.'') (rev s)" by simp
  moreover have "takeWhile (\<lambda>c. c = CHR ''.'') (rev s) =
      replicate (length (takeWhile (\<lambda>c. c = CHR ''.'') (rev s))) (CHR ''.'')"
    by (rule replicate_length_same [symmetric]) (auto dest: set_takeWhileD)
  ultimately have "s = rev (dropWhile (\<lambda>c. c = CHR ''.'') (rev s)) @
      replicate (length (takeWhile (\<lambda>c. c = CHR ''.'') (rev s))) (CHR ''.'')"
    by (metis rev_append rev_replicate rev_rev_ident)
  with that show ?thesis by (simp add: trim_end_matches_def)
qed

lemma trim_dots_chars: "set (utf8_chars (trim_end_matches (\<lambda>c. c = CHR ''.'') s)) \<subseteq> set (utf8_chars s)"
proof -
  obtain k where k: "s = trim_end_matches (\<lambda>c. c = CHR ''.'') s @ replicate k (CHR ''.'')"
    by (rule trim_dots)
  let ?t = "trim_end_matches (\<lambda>c. c = CHR ''.'') s"
  have "set (utf8_chars ?t) \<subseteq> set (utf8_chars (?t @ replicate k (CHR ''.'')))"
  proof (cases k)
    case (Suc j)
    have "\<not> is_cont (CHR ''.'')" by (simp add: is_cont_def)
    then show ?thesis using utf8_chars_append [of "CHR ''.''" ?t "replicate j (CHR ''.'')"] Suc by auto
  qed simp
  with k show ?thesis by metis
qed

lemma clean_char_unit: "unit_ok u \<Longrightarrow> \<not> is_cont (hd u) \<Longrightarrow> unit_ok (clean_char u) \<and> \<not> is_cont (hd (clean_char u))"
  by (auto simp: clean_char_def unit_ok_def is_cont_def)

lemma sanitize_chars:
  assumes "utf8_valid name" and "u \<in> set (utf8_chars (sanitize_file_name name))"
  shows "u \<in> clean_char ` set (utf8_chars name) \<or> u \<in> {''f'', ''i'', ''l'', ''e''}"
proof -
  let ?us = "map clean_char (utf8_chars name)"
  have ok: "units_ok ?us"
    using units_ok_valid [OF assms(1)] by (auto simp: units_ok_def list_all_iff clean_char_unit)
  obtain vs where vs: "trim (concat ?us) = concat vs" "set vs \<subseteq> set ?us" "units_ok vs"
    using trim_units [OF ok] by blast
  let ?t = "trim_end_matches (\<lambda>c. c = CHR ''.'') (concat vs)"
  have t: "set (utf8_chars ?t) \<subseteq> set vs"
    using trim_dots_chars [of "concat vs"] utf8_chars_units [OF vs(3)] by simp
  have f: "utf8_chars ''file'' = [''f'', ''i'', ''l'', ''e'']"
    by (subst utf8_chars_ascii) (simp_all add: is_ascii_def)
  have "sanitize_file_name name = (if ?t = [] then ''file'' else ?t)"
    unfolding sanitize_file_name_def Let_def vs(1) ..
  with assms(2) t vs(2) f show ?thesis by (auto split: if_splits)
qed

lemma clean_char_bytes:
  assumes "utf8_valid name" and "u \<in> set (utf8_chars name)"
    and "b \<in> {CHR ''/'', CHR 0x5C, CHR '':''}"
  shows "b \<notin> set (clean_char u)"
proof
  assume b: "b \<in> set (clean_char u)"
  with assms(3) have u: "clean_char u = u" "u \<notin> {''/'', [CHR 0x5C], '':''}"
    by (auto simp: clean_char_def split: if_splits)
  have ok: "unit_ok u" "\<not> is_cont (hd u)"
    using units_ok_valid [OF assms(1)] assms(2) by (simp_all add: units_ok_def list_all_iff)
  have nb: "\<not> is_cont b" "is_ascii b" using assms(3) by (auto simp: is_cont_def is_ascii_def)
  with b u(1) ok have "hd u = b" by (cases u) (auto simp: unit_ok_def list_all_iff)
  with utf8_chars_valid_ascii [OF assms(1,2)] nb have "u = [b]" by (cases u) auto
  with u(2) assms(3) show False by auto
qed

lemma sanitize_bytes:
  assumes "utf8_valid name" and "b \<in> {CHR ''/'', CHR 0x5C, CHR '':''}"
  shows "b \<notin> set (sanitize_file_name name)"
proof
  assume "b \<in> set (sanitize_file_name name)"
  then obtain u where u: "u \<in> set (utf8_chars (sanitize_file_name name))" "b \<in> set u"
    using concat_utf8_chars [of "sanitize_file_name name"] by (metis UN_E set_concat)
  from sanitize_chars [OF assms(1) u(1)] u(2) clean_char_bytes [OF assms(1) _ assms(2)] assms(2)
  show False by auto
qed

lemma sanitize_no_control:
  "utf8_valid name \<Longrightarrow> u \<in> set (utf8_chars (sanitize_file_name name)) \<Longrightarrow> \<not> is_control u"
  by (drule (1) sanitize_chars) (auto simp: clean_char_def is_control_def char_code_def split: if_splits)

lemma sanitize_no_dot: "\<not> ends_with ''.'' (sanitize_file_name name)"
proof -
  have "\<not> ends_with ''.'' (trim_end_matches (\<lambda>c. c = CHR ''.'') s)" for s
  proof
    assume "ends_with ''.'' (trim_end_matches (\<lambda>c. c = CHR ''.'') s)"
    then obtain r where "rev (dropWhile (\<lambda>c. c = CHR ''.'') (rev s)) = r @ ''.''"
      by (auto simp: trim_end_matches_def str_simps)
    then have "dropWhile (\<lambda>c. c = CHR ''.'') (rev s) = CHR ''.'' # rev r" by (simp add: rev_swap)
    then show False by (metis (mono_tags, lifting) dropWhile_eq_Cons_conv)
  qed
  moreover have "\<not> ends_with ''.'' ''file''" by (simp add: ends_with_def strip_suffix_def)
  ultimately show ?thesis
    unfolding sanitize_file_name_def Let_def by (cases "trim_end_matches (\<lambda>c. c = CHR ''.'') (trim (concat (map clean_char (utf8_chars name)))) = []") simp_all
qed

text \<open>
  File names offered to clients: whatever title a message carries, the sanitised name has
  no separator, colon or control character and is none of the relative names; what can still
  keep it from the gate is its length, a trailing space and a device name.
\<close>

theorem sanitized_name_and_gate:
  assumes "utf8_valid title"
  shows "safe_segment (sanitize_file_name title) \<longleftrightarrow>
    length (sanitize_file_name title) \<le> max_segment
    \<and> \<not> ends_with '' '' (sanitize_file_name title)
    \<and> \<not> is_reserved_device (sanitize_file_name title)"
proof -
  have "sanitize_file_name title \<noteq> []"
    by (simp add: sanitize_file_name_def Let_def)
  moreover have "sanitize_file_name title \<noteq> ''.''" "sanitize_file_name title \<noteq> ''..''"
    using sanitize_no_dot [of title] by (auto simp: ends_with_def strip_suffix_def)
  moreover have "\<not> list_ex is_control (utf8_chars (sanitize_file_name title))"
    using sanitize_no_control [OF assms] by (auto simp: list_ex_iff)
  ultimately show ?thesis
    using sanitize_bytes [OF assms] sanitize_no_dot [of title] by (auto simp: safe_segment_def)
qed

theorem sanitized_name_and_gate_witness:
  "safe_segment (sanitize_file_name ''../../q3: report.xls'') \<and> \<not> safe_segment (sanitize_file_name ''a .'')"
proof -
  have v: "utf8_valid ''../../q3: report.xls''" "utf8_valid ''a .''" by code_simp+
  have c: "length (sanitize_file_name ''../../q3: report.xls'') \<le> max_segment"
    "\<not> ends_with '' '' (sanitize_file_name ''../../q3: report.xls'')"
    "\<not> is_reserved_device (sanitize_file_name ''../../q3: report.xls'')"
    "ends_with '' '' (sanitize_file_name ''a .'')" by code_simp+
  show ?thesis
    using sanitized_name_and_gate [OF v(1)] sanitized_name_and_gate [OF v(2)] c by simp
qed

end
