(* ===== verification/Sqlite.thy ===== *)
theory Sqlite
  imports Rust_Str
begin

text \<open>
  What the sources see of SQLite through \<open>rusqlite\<close>, and the probing helpers of
  \<open>src/db/open.rs\<close>. A connection is its answers: for a query text and its integer parameters
  \<open>None\<close> when preparing or starting it fails, otherwise the rows stepped through and whether
  stepping ended in an error. A row is the bundle of its typed getters, each \<open>None\<close> where
  \<open>Row::get\<close> is an error. SQLite itself is thus a parameter of everything built on a
  connection; the theorems that need its documented filtering and ordering state that as a
  hypothesis on the answers. \<open>row_of\<close> builds rows for the concrete instances.
\<close>

record sql_row =
  row_i64 :: "nat \<Rightarrow> int option"
  row_str :: "nat \<Rightarrow> string option"
  row_opt_str :: "nat \<Rightarrow> string option option"
  row_opt_blob :: "nat \<Rightarrow> byte list option option"
  row_bytes :: "nat \<Rightarrow> byte list option"

type_synonym conn = "string \<Rightarrow> int list \<Rightarrow> (sql_row list \<times> bool) option"

section \<open>Probing\<close>

text \<open>\<open>rows.collect::<Result<Vec<_>>>\<close>: all rows convert and stepping ends well, or nothing.\<close>

definition collect_rows :: "(sql_row \<Rightarrow> 'a option) \<Rightarrow> (sql_row list \<times> bool) option \<Rightarrow> 'a list option" where
  "collect_rows f res = (case res of
       Some (rows, False) \<Rightarrow> those (map f rows)
     | _ \<Rightarrow> None)"

definition table_columns :: "conn \<Rightarrow> string \<Rightarrow> string list" where
  "table_columns c table =
     opt_or (collect_rows (\<lambda>r. row_str r 1) (c (''PRAGMA table_info('' @ table @ '')'') [])) []"

definition table_names_query :: string where
  "table_names_query = ''SELECT name FROM sqlite_master WHERE type='' @ [CHR 0x27] @ ''table'' @ [CHR 0x27]
     @ '' ORDER BY name LIMIT ?1''"

definition table_names :: "conn \<Rightarrow> nat \<Rightarrow> string list" where
  "table_names c limit = opt_or (collect_rows (\<lambda>r. row_str r 0) (c table_names_query [int limit])) []"

definition quick_check_query :: string where
  "quick_check_query = ''SELECT count(*) FROM sqlite_master WHERE type='' @ [CHR 0x27] @ ''table'' @ [CHR 0x27]"

datatype sql_error = Query_Failed | No_Tables

definition quick_check :: "conn \<Rightarrow> sql_error + unit" where
  "quick_check c = (case c quick_check_query [] of
       Some (r # _, _) \<Rightarrow> (case row_i64 r 0 of
           Some n \<Rightarrow> if n = 0 then Inl No_Tables else Inr ()
         | None \<Rightarrow> Inl Query_Failed)
     | _ \<Rightarrow> Inl Query_Failed)"

section \<open>Getters\<close>

definition get_opt_str :: "sql_row \<Rightarrow> nat \<Rightarrow> string option" where
  "get_opt_str row idx = (case row_opt_str row idx of Some (Some s) \<Rightarrow> Some (trim s) | _ \<Rightarrow> None)"

definition get_i64 :: "sql_row \<Rightarrow> nat \<Rightarrow> int" where
  "get_i64 row idx = opt_or (row_i64 row idx) 0"

definition get_opt_blob :: "sql_row \<Rightarrow> nat \<Rightarrow> bytes option" where
  "get_opt_blob row idx = (case row_opt_blob row idx of Some b \<Rightarrow> b | None \<Rightarrow> None)"

definition get_opt_bytes :: "sql_row \<Rightarrow> nat \<Rightarrow> bytes option" where
  "get_opt_bytes row idx = row_bytes row idx"

text \<open>\<open>query_map(..)\<close> followed by \<open>filter_map(Result::ok)\<close>: rows that do not convert are dropped.\<close>

definition query_ok_rows :: "conn \<Rightarrow> string \<Rightarrow> (sql_row \<Rightarrow> 'a option) \<Rightarrow> 'a list option" where
  "query_ok_rows c q f = map_option (\<lambda>(rows, _). List.map_filter f rows) (c q [])"

text \<open>A row of values by column position: each getter answers for the value it accepts.\<close>

datatype sql_value = SNull | SInt int | SText string | SBlob bytes

definition row_of :: "sql_value list \<Rightarrow> sql_row" where
  "row_of vs = (let at = (\<lambda>i. if i < length vs then vs ! i else SNull) in
     \<lparr>row_i64 = (\<lambda>i. case at i of SInt n \<Rightarrow> Some n | _ \<Rightarrow> None),
      row_str = (\<lambda>i. case at i of SText s \<Rightarrow> Some s | _ \<Rightarrow> None),
      row_opt_str = (\<lambda>i. case at i of SNull \<Rightarrow> Some None | SText s \<Rightarrow> Some (Some s) | _ \<Rightarrow> None),
      row_opt_blob = (\<lambda>i. case at i of SNull \<Rightarrow> Some None | SBlob b \<Rightarrow> Some (Some b) | _ \<Rightarrow> None),
      row_bytes = (\<lambda>i. case at i of SText s \<Rightarrow> Some (as_bytes s) | SBlob b \<Rightarrow> Some b | _ \<Rightarrow> None)\<rparr>)"

end
