(* ===== verification/Store.thy ===== *)
theory Store
  imports Parser Sqlite
begin

text \<open>
  The in-memory index of \<open>src/store/mod.rs\<close>: sessions, conversations, contacts, group cards
  and rosters, moments, and the lookups the endpoints share (who is known, under which name).
  Loading of the group metadata is \<open>src/store/group_meta.rs\<close>. Floating point coordinates are
  kept as their 64-bit patterns.
\<close>

section \<open>Data\<close>

type_synonym f64 = "64 word"

datatype session_kind = Private | Group | Official | Other

fun session_kind_str :: "session_kind \<Rightarrow> string" where
  "session_kind_str Private = ''private''"
| "session_kind_str Group = ''group''"
| "session_kind_str Official = ''official''"
| "session_kind_str Other = ''other''"

definition classify :: "string \<Rightarrow> session_kind" where
  "classify username = (if ends_with ''@chatroom'' username then Group
     else if starts_with ''gh_'' username then Official
     else Private)"

record session =
  ss_username :: string
  ss_display_name :: string
  ss_kind :: session_kind
  ss_last_timestamp :: int
  ss_last_msg_type :: "int option"
  ss_summary :: "string option"
  ss_unread_count :: int
  ss_message_count :: nat

record contact =
  ct_username :: string
  ct_remark :: "string option"
  ct_nickname :: "string option"
  ct_alias :: "string option"
  ct_avatar_url :: "string option"
  ct_kind :: session_kind

definition contact_display_name :: "contact \<Rightarrow> string" where
  "contact_display_name c = opt_or (opt_else (opt_filter (\<lambda>s. s \<noteq> []) (ct_remark c))
     (opt_filter (\<lambda>s. s \<noteq> []) (ct_nickname c))) (ct_username c)"

record message_record =
  mr_local_id :: int
  mr_server_id :: int
  mr_local_type :: int
  mr_create_time :: int
  mr_sort_seq :: int
  mr_is_send :: bool
  mr_sender_username :: string
  mr_sender_name :: string
  mr_parsed :: parsed_msg

record watermark =
  wm_create_time :: int
  wm_sort_seq :: int
  wm_local_id :: int

definition watermark_default :: watermark where
  "watermark_default = \<lparr>wm_create_time = 0, wm_sort_seq = 0, wm_local_id = 0\<rparr>"

type_synonym group_cards = "(string, (string, string) hashmap) hashmap"

record sns_person =
  sp_username :: string
  sp_nickname :: string
  sp_create_time :: int

record sns_comment =
  sc_username :: string
  sc_nickname :: string
  sc_create_time :: int
  sc_content :: string

record sns_media =
  sm_kind :: string
  sm_md5 :: "string option"
  sm_url :: string
  sm_thumb :: "string option"
  sm_width :: int
  sm_height :: int
  sm_token :: "string option"
  sm_key :: "string option"
  sm_enc_idx :: "string option"

record sns_feed =
  sf_feed_id :: string
  sf_user_name :: string
  sf_object_id :: string
  sf_nickname :: string
  sf_create_time :: int
  sf_content_desc :: string
  sf_kind :: string
  sf_content_type :: string
  sf_media :: "sns_media list"
  sf_comment_count :: nat
  sf_likes :: "sns_person list"
  sf_comments :: "sns_comment list"
  sf_latitude :: f64
  sf_longitude :: f64
  sf_raw_xml :: string

record store =
  st_my_wxid :: string
  st_sessions :: "(string, session) hashmap"
  st_convs :: "(string, message_record list) hashmap"
  st_contacts :: "(string, contact) hashmap"
  st_group_cards :: group_cards
  st_chatroom_owner :: "(string, string) hashmap"
  st_chatroom_roster :: "(string, string list) hashmap"
  st_index_built_at_ms :: int
  st_watermarks :: "(string, watermark) hashmap"
  st_sns_feeds :: "sns_feed list"

definition store_default :: store where
  "store_default = \<lparr>st_my_wxid = [], st_sessions = [], st_convs = [], st_contacts = [],
     st_group_cards = [], st_chatroom_owner = [], st_chatroom_roster = [],
     st_index_built_at_ms = 0, st_watermarks = [], st_sns_feeds = []\<rparr>"

section \<open>Lookups\<close>

definition store_is_empty :: "store \<Rightarrow> bool" where
  "store_is_empty st \<longleftrightarrow> st_convs st = [] \<and> st_sessions st = []"

definition conversation_known :: "store \<Rightarrow> string \<Rightarrow> bool" where
  "conversation_known st ident \<longleftrightarrow> hm_contains (st_sessions st) ident
     \<or> hm_contains (st_convs st) ident \<or> hm_contains (st_chatroom_roster st) ident"

text \<open>The wall clock in milliseconds; \<open>None\<close> for a clock before the epoch.\<close>

definition mark_index_built :: "nat option \<Rightarrow> store \<Rightarrow> store" where
  "mark_index_built now_ms st = st\<lparr>st_index_built_at_ms := int (opt_or now_ms 0)\<rparr>"

definition session_display_opt :: "store \<Rightarrow> string \<Rightarrow> string option" where
  "session_display_opt st username = (case opt_filter (\<lambda>s. ss_display_name s \<noteq> []) (hm_get (st_sessions st) username) of
       Some s \<Rightarrow> Some (ss_display_name s)
     | None \<Rightarrow> opt_filter (\<lambda>s. s \<noteq> [] \<and> s \<noteq> username)
         (map_option contact_display_name (hm_get (st_contacts st) username)))"

definition session_display :: "store \<Rightarrow> string \<Rightarrow> string" where
  "session_display st username = opt_or (session_display_opt st username) username"

definition room_card :: "store \<Rightarrow> string option \<Rightarrow> string \<Rightarrow> string option" where
  "room_card st chatroom sender = opt_filter (\<lambda>s. s \<noteq> [])
     (Option.bind (Option.bind chatroom (hm_get (st_group_cards st))) (\<lambda>cards. hm_get cards sender))"

definition sender_display :: "store \<Rightarrow> string option \<Rightarrow> string \<Rightarrow> string \<Rightarrow> string" where
  "sender_display st chatroom sender fallback = (case room_card st chatroom sender of
       Some nm \<Rightarrow> nm
     | None \<Rightarrow> opt_or (opt_filter (\<lambda>d. d \<noteq> sender)
         (map_option contact_display_name (hm_get (st_contacts st) sender))) fallback)"

definition group_card :: "store \<Rightarrow> string option \<Rightarrow> string \<Rightarrow> string" where
  "group_card st chatroom sender = opt_or (room_card st chatroom sender) []"

definition conv_count :: "store \<Rightarrow> string \<Rightarrow> nat" where
  "conv_count st username = (case hm_get (st_convs st) username of Some v \<Rightarrow> length v | None \<Rightarrow> 0)"

definition total_messages :: "store \<Rightarrow> nat" where
  "total_messages st = sum_list (map length (hm_values (st_convs st)))"

section \<open>Group metadata\<close>

text \<open>
  \<open>entry(k).or_default()\<close> followed by a change of the value: \<open>hm_modify\<close>.
  The maps \<open>name2id\<close> are the database's own \<open>rowid\<close> to username.
\<close>

definition hm_modify :: "'k \<Rightarrow> 'v \<Rightarrow> ('v \<Rightarrow> 'v) \<Rightarrow> ('k, 'v) hashmap \<Rightarrow> ('k, 'v) hashmap" where
  "hm_modify k d f m = hm_insert k (f (opt_or (hm_get m k) d)) m"

lemma hm_get_modify [hm_simps]:
  "hm_get (hm_modify k d f m) k' = (if k' = k then Some (f (opt_or (hm_get m k) d)) else hm_get m k')"
  by (simp add: hm_modify_def hm_simps)

lemma hm_ok_modify [simp]: "hm_ok m \<Longrightarrow> hm_ok (hm_modify k d f m)"
  by (simp add: hm_modify_def)

text \<open>\<open>store/index.rs\<close>: the id table of a database, and its \<open>rowid\<close> to username map.\<close>

definition name2id_table :: "conn \<Rightarrow> string option" where
  "name2id_table c = List.find (\<lambda>t. starts_with ''name2id'' (to_ascii_lowercase t))
     (rev (sort (table_names c 500)))"

definition load_uid_map :: "conn \<Rightarrow> string option \<Rightarrow> (int, string) hashmap" where
  "load_uid_map c name2id = (case name2id of None \<Rightarrow> [] | Some t \<Rightarrow>
     (let cols = table_columns c t in
      case List.find (\<lambda>x. x \<in> set cols) [''user_name'', ''username''] of None \<Rightarrow> [] | Some col \<Rightarrow>
        (case c (''SELECT rowid, \"'' @ col @ ''\" FROM \"'' @ t @ ''\"'') [] of
           None \<Rightarrow> []
         | Some (rows, _) \<Rightarrow> fold (\<lambda>r m. case (row_i64 r 0, row_str r 1) of
               (Some i, Some nm) \<Rightarrow> hm_insert i nm m | _ \<Rightarrow> m) rows [])))"

definition uid_map :: "conn \<Rightarrow> (int, string) hashmap" where
  "uid_map c = load_uid_map c (name2id_table c)"

definition add_owner :: "string option \<times> string option \<Rightarrow> store \<Rightarrow> store" where
  "add_owner row st = (case row of
       (Some room, Some owner) \<Rightarrow>
         if room \<noteq> [] \<and> owner \<noteq> []
         then st\<lparr>st_chatroom_owner := hm_insert room owner (st_chatroom_owner st)\<rparr> else st
     | _ \<Rightarrow> st)"

definition add_member :: "(int, string) hashmap \<Rightarrow> int \<times> int \<Rightarrow> store \<Rightarrow> store" where
  "add_member name2id row st = (case (hm_get name2id (fst row), hm_get name2id (snd row)) of
       (Some room, Some member) \<Rightarrow>
         st\<lparr>st_chatroom_roster := hm_modify room []
           (\<lambda>roster. if member \<in> set roster then roster else roster @ [member]) (st_chatroom_roster st)\<rparr>
     | _ \<Rightarrow> st)"

definition load_chatroom_meta :: "conn \<Rightarrow> store \<Rightarrow> store" where
  "load_chatroom_meta c st = (let name2id = uid_map c in
     if name2id = [] then st else
     let st1 = (case query_ok_rows c ''SELECT username, owner FROM chat_room''
           (\<lambda>r. case (row_opt_str r 0, row_opt_str r 1) of (Some a, Some b) \<Rightarrow> Some (a, b) | _ \<Rightarrow> None) of
         Some rows \<Rightarrow> fold add_owner rows st | None \<Rightarrow> st)
     in (case query_ok_rows c ''SELECT room_id, member_id FROM chatroom_member''
           (\<lambda>r. case (row_i64 r 0, row_i64 r 1) of (Some a, Some b) \<Rightarrow> Some (a, b) | _ \<Rightarrow> None) of
         Some rows \<Rightarrow> fold (add_member name2id) rows st1 | None \<Rightarrow> st1))"

definition add_card :: "(int, string) hashmap \<Rightarrow> int \<times> int \<times> string option \<Rightarrow> group_cards \<Rightarrow> group_cards" where
  "add_card name2id row cards = (case row of (room_id, member_id, text) \<Rightarrow>
     (case (opt_filter (\<lambda>c. c \<noteq> []) text, hm_get name2id room_id, hm_get name2id member_id) of
        (Some nm, Some room, Some member) \<Rightarrow> hm_modify room [] (hm_insert member nm) cards
      | _ \<Rightarrow> cards))"

definition group_cards_query :: string where
  "group_cards_query = ''SELECT a.room_id, a.member_id, c.c0 FROM chatroom_member_fts_v3_aux a ''
     @ ''JOIN chatroom_member_fts_v3_content c ON c.rowid = a.rowid''"

definition load_group_cards :: "conn \<Rightarrow> store \<Rightarrow> store" where
  "load_group_cards c st = (let name2id = uid_map c in
     if name2id = [] then st else
     (case query_ok_rows c group_cards_query
           (\<lambda>r. case (row_i64 r 0, row_i64 r 1, row_opt_str r 2) of
              (Some a, Some b, Some d) \<Rightarrow> Some (a, b, d) | _ \<Rightarrow> None) of
        None \<Rightarrow> st
      | Some rows \<Rightarrow> (let cards = fold (add_card name2id) rows [] in
          if cards \<noteq> [] then st\<lparr>st_group_cards := cards\<rparr> else st)))"

end
