(* ===== verification/Sns_Feed.thy ===== *)
theory Sns_Feed
  imports Store
begin

text \<open>
  The moments parser of \<open>src/parser/mod.rs\<close> (\<open>parse_sns_feed\<close>): one row of the timeline
  table to a feed with its media, likes and comments. \<open>str::parse::<f64>\<close> is the argument
  \<open>parse_f64\<close>.
\<close>

definition parse_user_comment :: "string \<Rightarrow> sns_comment option" where
  "parse_user_comment block = (let username = opt_or (xml_text block ''username'') [] in
     if username = [] then None
     else Some \<lparr>sc_username = username,
       sc_nickname = opt_or (xml_text block ''nickname'') [],
       sc_create_time = opt_or (Option.bind (xml_text block ''create_time'') parse_i64) 0,
       sc_content = opt_or (xml_text block ''content'') []\<rparr>)"

text \<open>The part of a block before its closing tag; a block without one is skipped.\<close>

definition closed_block :: "string \<Rightarrow> string \<Rightarrow> string option" where
  "closed_block close block = map_option (\<lambda>e. take e block) (find_sub close block)"

definition parse_media_block :: "string \<Rightarrow> sns_media option" where
  "parse_media_block block0 = (case closed_block ''</media>'' block0 of None \<Rightarrow> None | Some block \<Rightarrow>
     (let mtype = opt_or (xml_text block ''type'') [];
          url = opt_or (xml_elem_text block ''url'') [];
          thumb = xml_elem_text block ''thumb''
      in if url = [] \<and> thumb = None then None
         else Some \<lparr>sm_kind = (if mtype = ''6'' then ''video'' else ''image''),
           sm_md5 = attr block ''md5'', sm_url = url, sm_thumb = thumb,
           sm_width = opt_or (Option.bind (attr block ''width'') parse_i64) 0,
           sm_height = opt_or (Option.bind (attr block ''height'') parse_i64) 0,
           sm_token = attr block ''token'', sm_key = attr block ''key'',
           sm_enc_idx = attr block ''enc_idx''\<rparr>))"

definition comment_blocks :: "string \<Rightarrow> sns_comment list" where
  "comment_blocks xml = List.map_filter
     (\<lambda>b. Option.bind (closed_block ''</user_comment>'' b) parse_user_comment) (tl (split_on ''<user_comment'' xml))"

definition person_of :: "sns_comment \<Rightarrow> sns_person" where
  "person_of c = \<lparr>sp_username = sc_username c, sp_nickname = sc_nickname c, sp_create_time = sc_create_time c\<rparr>"

definition parse_sns_feed :: "(string \<Rightarrow> f64 option) \<Rightarrow> string \<Rightarrow> string \<Rightarrow> string \<Rightarrow> sns_feed" where
  "parse_sns_feed parse_f64 user_name tid xml = (let
       content_desc = opt_or (xml_text xml ''contentDesc'') [];
       media = List.map_filter parse_media_block (tl (split_on ''<media>'' xml));
       people = comment_blocks xml;
       comments = filter (\<lambda>c. sc_content c \<noteq> []) people;
       likes = map person_of (filter (\<lambda>c. sc_content c = []) people)
     in \<lparr>sf_feed_id = tid, sf_user_name = user_name,
         sf_object_id = opt_or (xml_text xml ''id'') [],
         sf_nickname = opt_or (xml_text xml ''nickname'') [],
         sf_create_time = opt_or (Option.bind (xml_text xml ''createTime'') parse_i64) 0,
         sf_content_desc = trim content_desc,
         sf_kind = (if media \<noteq> [] then (if list_ex (\<lambda>m. sm_kind m = ''video'') media then ''video'' else ''image'')
           else if trim content_desc \<noteq> [] then ''text'' else ''other''),
         sf_content_type = opt_or (xml_text_between xml ''<ContentObject><type>'' ''</type>'') [],
         sf_media = media, sf_comment_count = length comments,
         sf_likes = likes, sf_comments = comments,
         sf_latitude = opt_or (Option.bind (attr xml ''latitude'') parse_f64) 0,
         sf_longitude = opt_or (Option.bind (attr xml ''longitude'') parse_f64) 0,
         sf_raw_xml = xml\<rparr>)"

end
