(* ===== verification/Index.thy ===== *)
theory Index
  imports Store Sns_Feed Live
begin

text \<open>
  Building the index (\<open>src/store/index.rs\<close>): column probing with aliases, the loaders of the
  session, contact and message tables, progress counting, the full build and the incremental
  read. The connection pool is a state of type \<open>'p\<close> with the operation \<open>open_db\<close>; the MD5 hex
  text of a username is the argument \<open>md5_hex\<close>, zstd's decoder is \<open>dec\<close>.
\<close>

section \<open>Columns\<close>

definition session_columns :: "string list list" where
  "session_columns = [
    [''user_name'', ''username'', ''userName'', ''talker'', ''talker_id'', ''session_id''],
    [''display_name'', ''displayName'', ''nick_name'', ''nickname'', ''name''],
    [''sort_timestamp'', ''sortTimestamp'', ''sort_time'', ''last_msg_time''],
    [''last_timestamp'', ''lastTimestamp'', ''last_msg_time'', ''lastTime''],
    [''summary'', ''digest'', ''last_msg'', ''lastMsg'', ''last_message''],
    [''last_msg_type'', ''lastMsgType'', ''last_type'', ''lastType''],
    [''unread_count'', ''unreadCount'', ''unread'', ''total_count''],
    [''type'', ''session_type'', ''sessionType'']]"

definition contact_columns :: "string list list" where
  "contact_columns = [
    [''user_name'', ''username'', ''userName''],
    [''remark'', ''remark_name'', ''remarkName''],
    [''nick_name'', ''nickname'', ''nickName''],
    [''alias'', ''wx_id'', ''wxid'', ''alias_name''],
    [''avatar_url'', ''avatar'', ''head_img_url'', ''headImageUrl''],
    [''local_type'', ''localType'', ''type'', ''user_type'', ''userType'']]"

definition msg_columns :: "string list list" where
  "msg_columns = [
    [''local_id'', ''localId'', ''id''],
    [''server_id'', ''serverId'', ''msg_svr_id'', ''msgSvrId''],
    [''local_type'', ''localType'', ''type'', ''msg_type'', ''msgType''],
    [''create_time'', ''createTime'', ''msg_create_time'', ''timestamp''],
    [''sort_seq'', ''sortSeq'', ''seq'', ''msg_seq''],
    [''sender_username'', ''senderUsername'', ''talker'', ''from_username''],
    [''real_sender_id'', ''realSenderId'', ''sender_rowid'', ''send_id'']]"

fun pick :: "string list \<Rightarrow> string list \<Rightarrow> string option" where
  "pick cols [] = None"
| "pick cols (alias # aliases) = (case List.find (\<lambda>c. eq_ignore_ascii_case c alias) cols of
     Some c \<Rightarrow> Some c | None \<Rightarrow> pick cols aliases)"

definition opt_list :: "'a option list \<Rightarrow> 'a list" where
  "opt_list xs = List.map_filter (\<lambda>x. x) xs"

text \<open>The position of the \<open>n\<close>-th optional column among the selected ones.\<close>

definition opt_pos :: "'a option list \<Rightarrow> nat \<Rightarrow> nat" where
  "opt_pos has n = 1 + length (filter (\<lambda>b. b \<noteq> None) (take n has))"

datatype index_error = No_Local_Id | No_Time_Column string | Sql_Failed

section \<open>Sessions and contacts\<close>

definition session_of_row :: "string option list \<Rightarrow> sql_row \<Rightarrow> store \<Rightarrow> store" where
  "session_of_row cols row st = (let
       username = opt_or (get_opt_str row 0) [];
       present = (\<lambda>n. cols ! n \<noteq> None);
       pos = opt_pos cols;
       type_raw = (if present 5 then get_i64 row (pos 5) else 0)
     in if username = [] then st
        else st\<lparr>st_sessions := hm_insert username
          \<lparr>ss_username = username,
           ss_display_name = (if present 0 then opt_or (get_opt_str row (pos 0)) [] else []),
           ss_kind = (if type_raw = 2 then Group else if type_raw = 3 then Official else classify username),
           ss_last_timestamp = (if present 1 then get_i64 row (pos 1) else 0),
           ss_last_msg_type = (if present 3 then Some (get_i64 row (pos 3)) else None),
           ss_summary = (if present 2 then get_opt_str row (pos 2) else None),
           ss_unread_count = (if present 4 then get_i64 row (pos 4) else 0),
           ss_message_count = 0\<rparr> (st_sessions st)\<rparr>)"

definition load_sessions_from :: "conn \<Rightarrow> string \<Rightarrow> store \<Rightarrow> store \<times> (index_error + unit)" where
  "load_sessions_from c table st = (let cols = table_columns c table in
     case pick cols (session_columns ! 0) of None \<Rightarrow> (st, Inr ()) | Some c_username \<Rightarrow>
       (let opts = [pick cols (session_columns ! 1), pick cols (session_columns ! 3),
              pick cols (session_columns ! 4), pick cols (session_columns ! 5),
              pick cols (session_columns ! 6), pick cols (session_columns ! 7)];
            selected = opt_list (Some c_username # opts)
        in case c (''SELECT '' @ join_with '', '' selected @ '' FROM \"'' @ table @ ''\"'') [] of
             None \<Rightarrow> (st, Inl Sql_Failed)
           | Some (rows, err) \<Rightarrow>
               (fold (session_of_row opts) rows st, if err then Inl Sql_Failed else Inr ())))"

definition load_sessions :: "conn \<Rightarrow> store \<Rightarrow> store \<times> (index_error + unit)" where
  "load_sessions c st =
     (if table_columns c ''SessionTable'' = [] then
        (let names = table_names c 50; named = (\<lambda>n. List.find (\<lambda>t. eq_ignore_ascii_case t n) names) in
         case opt_else (named ''SessionTable'') (opt_else (named ''Session'') (named ''session_table'')) of
           Some t \<Rightarrow> load_sessions_from c t st
         | None \<Rightarrow> (st, Inr ()))
      else load_sessions_from c ''SessionTable'' st)"

definition contact_of_row :: "string option list \<Rightarrow> sql_row \<Rightarrow> store \<Rightarrow> store" where
  "contact_of_row cols row st = (let
       username = opt_or (get_opt_str row 0) [];
       present = (\<lambda>n. cols ! n \<noteq> None);
       pos = opt_pos cols;
       str = (\<lambda>n. if present n then opt_filter (\<lambda>s. s \<noteq> []) (get_opt_str row (pos n)) else None);
       type_raw = (if present 4 then get_i64 row (pos 4) else 0)
     in if username = [] then st
        else st\<lparr>st_contacts := hm_insert username
          \<lparr>ct_username = username, ct_remark = str 0, ct_nickname = str 1, ct_alias = str 2,
           ct_avatar_url = str 3,
           ct_kind = (if type_raw = 1 then Private else if type_raw = 2 then Group
             else if type_raw = 3 then Official else classify username)\<rparr> (st_contacts st)\<rparr>)"

definition load_contacts :: "conn \<Rightarrow> store \<Rightarrow> store \<times> (index_error + unit)" where
  "load_contacts c st = (let cols = table_columns c ''contact'' in
     case pick cols (contact_columns ! 0) of None \<Rightarrow> (st, Inr ()) | Some c_username \<Rightarrow>
       (let opts = [pick cols (contact_columns ! 1), pick cols (contact_columns ! 2),
              pick cols (contact_columns ! 3), pick cols (contact_columns ! 4),
              pick cols (contact_columns ! 5)];
            selected = opt_list (Some c_username # opts)
        in case c (''SELECT '' @ join_with '', '' selected @ '' FROM contact'') [] of
             None \<Rightarrow> (st, Inl Sql_Failed)
           | Some (rows, err) \<Rightarrow>
               (fold (contact_of_row opts) rows st, if err then Inl Sql_Failed else Inr ())))"

section \<open>Message tables\<close>

definition message_tables :: "conn \<Rightarrow> (string \<times> string) list" where
  "message_tables c = List.map_filter (\<lambda>t. case strip_prefix ''msg_'' (to_ascii_lowercase t) of
       Some rest \<Rightarrow> if (length rest = 32 \<or> length rest = 16) \<and> list_all is_ascii_hexdigit rest
         then Some (t, rest) else None
     | None \<Rightarrow> None) (table_names c 1000)"

text \<open>Suffixes come from \<open>message_tables\<close>, so lowering them is ASCII lowering.\<close>

definition table_session :: "(string \<Rightarrow> string) \<Rightarrow> string \<Rightarrow> store \<Rightarrow> string" where
  "table_session md5_hex md5_suffix st = (let suffix_lower = to_ascii_lowercase md5_suffix in
     opt_or (List.find (\<lambda>username. starts_with suffix_lower (md5_hex username)) (hm_keys (st_sessions st))) md5_suffix)"

record msg_cols =
  mc_local :: string
  mc_server :: "string option"
  mc_kind :: "string option"
  mc_time :: "string option"
  mc_seq :: "string option"
  mc_sender :: "string option"
  mc_real :: "string option"
  mc_content :: "string option"
  mc_compress :: "string option"
  mc_selected :: "string list"

definition add_selected :: "string list \<Rightarrow> string list \<Rightarrow> string list" where
  "add_selected start cs = foldl (\<lambda>sel c. if c \<in> set sel then sel else sel @ [c]) start cs"

fun position_of :: "'a list \<Rightarrow> 'a \<Rightarrow> nat" where
  "position_of [] x = 0"
| "position_of (y # ys) x = (if y = x then 0 else Suc (position_of ys x))"

text \<open>The stored positions \<open>pos_*\<close> are a function of the column and the selection.\<close>

definition col_pos :: "msg_cols \<Rightarrow> string option \<Rightarrow> nat" where
  "col_pos mc col = (case col of Some c \<Rightarrow> position_of (mc_selected mc) c | None \<Rightarrow> 0)"

definition probe :: "conn \<Rightarrow> string \<Rightarrow> msg_cols option" where
  "probe c table = (let cols = table_columns c table in
     case pick cols (msg_columns ! 0) of None \<Rightarrow> None | Some local \<Rightarrow>
       (let server = pick cols (msg_columns ! 1); kind = pick cols (msg_columns ! 2);
            time = pick cols (msg_columns ! 3); seq = pick cols (msg_columns ! 4);
            sender = pick cols (msg_columns ! 5); real_id = pick cols (msg_columns ! 6);
            content = List.find (\<lambda>x. eq_ignore_ascii_case x ''message_content'') cols;
            compress = List.find (\<lambda>x. eq_ignore_ascii_case x ''compress_content'') cols
        in Some \<lparr>mc_local = local, mc_server = server, mc_kind = kind, mc_time = time, mc_seq = seq,
            mc_sender = sender, mc_real = real_id, mc_content = content, mc_compress = compress,
            mc_selected = add_selected [local]
              (opt_list [server, kind, time, seq, sender, real_id, content, compress])\<rparr>))"

record owned_msg_row =
  om_local_id :: int
  om_server_id :: int
  om_local_type :: int
  om_create_time :: int
  om_sort_seq :: int
  om_sender_username :: string
  om_content :: "bytes option"
  om_compress :: "bytes option"

definition extract_row :: "msg_cols \<Rightarrow> sql_row \<Rightarrow> (int, string) hashmap \<Rightarrow> owned_msg_row" where
  "extract_row mc row name2id = (let
       num = (\<lambda>col. if col \<noteq> None then get_i64 row (col_pos mc col) else 0);
       sender0 = (if mc_sender mc \<noteq> None
         then opt_or (opt_filter (\<lambda>s. s \<noteq> []) (get_opt_str row (col_pos mc (mc_sender mc)))) [] else []);
       sender = (if sender0 = [] \<and> mc_real mc \<noteq> None
         then opt_or (hm_get name2id (get_i64 row (col_pos mc (mc_real mc)))) [] else sender0)
     in \<lparr>om_local_id = get_i64 row 0, om_server_id = num (mc_server mc), om_local_type = num (mc_kind mc),
         om_create_time = num (mc_time mc), om_sort_seq = num (mc_seq mc), om_sender_username = sender,
         om_content = (if mc_content mc \<noteq> None then get_opt_bytes row (col_pos mc (mc_content mc)) else None),
         om_compress = (if mc_compress mc \<noteq> None then get_opt_blob row (col_pos mc (mc_compress mc)) else None)\<rparr>)"

definition row_to_record :: "(bytes \<Rightarrow> bytes option) \<Rightarrow> owned_msg_row \<Rightarrow> string \<Rightarrow> (string, contact) hashmap \<Rightarrow> message_record" where
  "row_to_record dec row my_wxid contacts = (let
       content_str = opt_or (decode_content dec (om_compress row) (om_content row) (om_sender_username row))
         (from_utf8_lossy (from_bytes (opt_or (om_content row) [])))
     in \<lparr>mr_local_id = om_local_id row, mr_server_id = om_server_id row, mr_local_type = om_local_type row,
         mr_create_time = om_create_time row, mr_sort_seq = om_sort_seq row,
         mr_is_send = (om_sender_username row \<noteq> [] \<and> om_sender_username row = my_wxid),
         mr_sender_username = om_sender_username row,
         mr_sender_name = opt_or (opt_filter (\<lambda>s. s \<noteq> [] \<and> s \<noteq> om_sender_username row)
           (map_option contact_display_name (hm_get contacts (om_sender_username row)))) (om_sender_username row),
         mr_parsed = parse_message (om_local_type row) (om_server_id row) (om_local_id row) content_str\<rparr>)"

section \<open>Moments\<close>

text \<open>Newest first: by time, then by feed id, both descending; \<open>sort_by\<close> is stable.\<close>

definition newest_first :: "sns_feed list \<Rightarrow> sns_feed list" where
  "newest_first feeds = rev (sort_key (\<lambda>f. (sf_create_time f, sf_feed_id f)) (rev feeds))"

definition load_sns :: "(string \<Rightarrow> f64 option) \<Rightarrow> conn \<Rightarrow> store \<Rightarrow> store" where
  "load_sns parse_f64 c st = (case c ''SELECT tid, user_name, content FROM SnsTimeLine'' [] of
       None \<Rightarrow> st
     | Some (rows, _) \<Rightarrow> st\<lparr>st_sns_feeds := newest_first (map (\<lambda>r.
         parse_sns_feed parse_f64 (opt_or (row_str r 1) []) (int_to_dec (opt_or (row_i64 r 0) 0))
           (opt_or (row_str r 2) [])) rows)\<rparr>)"

section \<open>Progress\<close>

record index_progress =
  ip_tables_done :: nat
  ip_tables_total :: nat
  ip_messages_indexed :: nat

definition progress_default :: index_progress where
  "progress_default = \<lparr>ip_tables_done = 0, ip_tables_total = 0, ip_messages_indexed = 0\<rparr>"

definition set_tables_total :: "nat \<Rightarrow> index_progress \<Rightarrow> index_progress" where
  "set_tables_total n p = p\<lparr>ip_tables_total := n, ip_tables_done := 0, ip_messages_indexed := 0\<rparr>"

definition row_indexed :: "index_progress \<Rightarrow> index_progress" where
  "row_indexed p = p\<lparr>ip_messages_indexed := ip_messages_indexed p + 1\<rparr>"

definition rollback_rows :: "nat \<Rightarrow> index_progress \<Rightarrow> index_progress" where
  "rollback_rows n p = p\<lparr>ip_messages_indexed := ip_messages_indexed p - n\<rparr>"

definition finish_table :: "index_progress \<Rightarrow> index_progress" where
  "finish_table p = p\<lparr>ip_tables_done := ip_tables_done p + 1\<rparr>"

section \<open>Loading a message table\<close>

definition wm_key :: "watermark \<Rightarrow> int \<times> int \<times> int" where
  "wm_key w = (wm_create_time w, wm_sort_seq w, wm_local_id w)"

definition max_watermark :: "watermark \<Rightarrow> watermark \<Rightarrow> watermark" where
  "max_watermark a b = (if wm_key b > wm_key a then b else a)"

definition owned_watermark :: "owned_msg_row \<Rightarrow> watermark" where
  "owned_watermark r = \<lparr>wm_create_time = om_create_time r, wm_sort_seq = om_sort_seq r, wm_local_id = om_local_id r\<rparr>"

record load_state =
  ls_records :: "message_record list"
  ls_watermark :: watermark
  ls_counted :: nat
  ls_progress :: index_progress

definition load_row :: "(bytes \<Rightarrow> bytes option) \<Rightarrow> msg_cols \<Rightarrow> (int, string) hashmap \<Rightarrow> (string, contact) hashmap
    \<Rightarrow> string \<Rightarrow> sql_row \<Rightarrow> load_state \<Rightarrow> load_state" where
  "load_row dec mc uids contacts my_wxid row ls = (let r = extract_row mc row uids in
     ls\<lparr>ls_records := ls_records ls @ [row_to_record dec r my_wxid contacts],
        ls_watermark := max_watermark (ls_watermark ls) (owned_watermark r),
        ls_counted := ls_counted ls + 1,
        ls_progress := row_indexed (ls_progress ls)\<rparr>)"

definition full_query :: "msg_cols \<Rightarrow> string \<Rightarrow> string" where
  "full_query mc table = ''SELECT '' @ join_with '', '' (mc_selected mc) @ '' FROM \"'' @ table @ ''\" ORDER BY ''
     @ join_with '', '' [opt_or (mc_time mc) (mc_local mc), opt_or (mc_seq mc) (mc_local mc), mc_local mc]"

definition load_message_table :: "(bytes \<Rightarrow> bytes option) \<Rightarrow> conn \<Rightarrow> string \<Rightarrow> (int, string) hashmap
    \<Rightarrow> (string, contact) hashmap \<Rightarrow> string \<Rightarrow> index_progress
    \<Rightarrow> index_progress \<times> (index_error + message_record list \<times> watermark)" where
  "load_message_table dec c table uids contacts my_wxid progress = (case probe c table of
       None \<Rightarrow> (progress, Inl No_Local_Id)
     | Some mc \<Rightarrow> (case c (full_query mc table) [] of
           None \<Rightarrow> (progress, Inl Sql_Failed)
         | Some (rows, err) \<Rightarrow>
             (let ls = fold (load_row dec mc uids contacts my_wxid) rows
                   \<lparr>ls_records = [], ls_watermark = watermark_default, ls_counted = 0, ls_progress = progress\<rparr>
              in if err then (rollback_rows (ls_counted ls) (ls_progress ls), Inl Sql_Failed)
                 else (ls_progress ls, Inr (ls_records ls, ls_watermark ls)))))"

section \<open>The full build\<close>

type_synonym 'p opener = "'p \<Rightarrow> db_file \<Rightarrow> db_key \<Rightarrow> 'p \<times> (acquire_error + conn)"

text \<open>
  The first file of a kind: no such file goes on, a file without a key ends the build with
  what there is (\<open>False\<close>), a file that does not open goes on without it.
\<close>

definition with_first :: "'p opener \<Rightarrow> key_map \<Rightarrow> db_file list \<Rightarrow> db_kind \<Rightarrow> (conn \<Rightarrow> store \<Rightarrow> store)
    \<Rightarrow> 'p \<Rightarrow> store \<Rightarrow> 'p \<times> store \<times> bool" where
  "with_first open_db keys db_files kind load pool st =
     (case List.find (\<lambda>f. df_kind f = kind) db_files of
        None \<Rightarrow> (pool, st, True)
      | Some f \<Rightarrow> (case key_for keys (df_rel f) of
          None \<Rightarrow> (pool, st, False)
        | Some key \<Rightarrow> (case open_db pool f key of
            (pool', Inr c) \<Rightarrow> (pool', load c st, True)
          | (pool', Inl _) \<Rightarrow> (pool', st, True))))"

fun count_tables :: "'p opener \<Rightarrow> key_map \<Rightarrow> db_file list \<Rightarrow> 'p \<Rightarrow> 'p \<times> nat" where
  "count_tables open_db keys [] pool = (pool, 0)"
| "count_tables open_db keys (f # fs) pool = (case key_for keys (df_rel f) of
       None \<Rightarrow> count_tables open_db keys fs pool
     | Some key \<Rightarrow> (case open_db pool f key of
         (pool', Inr c) \<Rightarrow> (case count_tables open_db keys fs pool' of
             (p, n) \<Rightarrow> (p, length (message_tables c) + n))
       | (pool', Inl _) \<Rightarrow> count_tables open_db keys fs pool'))"

definition watermark_key :: "string \<Rightarrow> string \<Rightarrow> string" where
  "watermark_key rel table = rel @ '':'' @ table"

definition index_table :: "(bytes \<Rightarrow> bytes option) \<Rightarrow> (string \<Rightarrow> string) \<Rightarrow> string \<Rightarrow> conn \<Rightarrow> (int, string) hashmap
    \<Rightarrow> (string, contact) hashmap \<Rightarrow> string \<Rightarrow> string \<times> string \<Rightarrow> store \<times> index_progress \<Rightarrow> store \<times> index_progress" where
  "index_table dec md5_hex rel c uids contacts my_wxid tbl sp = (case (tbl, sp) of ((table, md5_suffix), (st, progress)) \<Rightarrow>
     (case load_message_table dec c table uids contacts my_wxid progress of
        (progress', Inl _) \<Rightarrow> (st, progress')
      | (progress', Inr (records, wm)) \<Rightarrow>
          (let session = table_session md5_hex md5_suffix st;
               key = watermark_key rel table;
               current = opt_or (hm_get (st_watermarks st) key) watermark_default
           in (st\<lparr>st_convs := hm_modify session [] (\<lambda>conv. conv @ records) (st_convs st),
                  st_watermarks := hm_insert key (max_watermark current wm) (st_watermarks st)\<rparr>,
               finish_table progress'))))"

fun index_files :: "(bytes \<Rightarrow> bytes option) \<Rightarrow> (string \<Rightarrow> string) \<Rightarrow> 'p opener \<Rightarrow> key_map \<Rightarrow> (string, contact) hashmap
    \<Rightarrow> string \<Rightarrow> db_file list \<Rightarrow> 'p \<Rightarrow> store \<Rightarrow> index_progress \<Rightarrow> 'p \<times> store \<times> index_progress" where
  "index_files dec md5_hex open_db keys contacts my_wxid [] pool st progress = (pool, st, progress)"
| "index_files dec md5_hex open_db keys contacts my_wxid (f # fs) pool st progress =
     (case key_for keys (df_rel f) of
        None \<Rightarrow> index_files dec md5_hex open_db keys contacts my_wxid fs pool st progress
      | Some key \<Rightarrow> (case open_db pool f key of
          (pool', Inl _) \<Rightarrow> index_files dec md5_hex open_db keys contacts my_wxid fs pool' st progress
        | (pool', Inr c) \<Rightarrow>
            (let (st', progress') = fold (index_table dec md5_hex (df_rel f) c (uid_map c) contacts my_wxid)
                   (message_tables c) (st, progress)
             in index_files dec md5_hex open_db keys contacts my_wxid fs pool' st' progress')))"

definition fill_counts :: "store \<Rightarrow> store" where
  "fill_counts st = st\<lparr>st_sessions := map (\<lambda>(username, s). (username, s\<lparr>ss_message_count := conv_count st username\<rparr>))
     (st_sessions st)\<rparr>"

text \<open>The moments step and the counts: a moments file without a key skips the counts.\<close>

definition finish_build :: "(string \<Rightarrow> f64 option) \<Rightarrow> 'p opener \<Rightarrow> key_map \<Rightarrow> db_file list \<Rightarrow> 'p \<Rightarrow> store \<Rightarrow> 'p \<times> store" where
  "finish_build parse_f64 open_db keys db_files pool st =
     (case with_first open_db keys db_files Sns (load_sns parse_f64) pool st of
        (pool', st', go_on) \<Rightarrow> (pool', if go_on then fill_counts st' else st'))"

definition build_all_live_inner :: "(bytes \<Rightarrow> bytes option) \<Rightarrow> (string \<Rightarrow> string) \<Rightarrow> (string \<Rightarrow> f64 option) \<Rightarrow> 'p opener
    \<Rightarrow> key_map \<Rightarrow> string \<Rightarrow> db_file list \<Rightarrow> 'p \<Rightarrow> index_progress \<Rightarrow> 'p \<times> store \<times> index_progress" where
  "build_all_live_inner dec md5_hex parse_f64 open_db keys my_wxid db_files pool0 progress0 =
     (let st0 = store_default\<lparr>st_my_wxid := my_wxid\<rparr>;
          (pool1, st1, go1) = with_first open_db keys db_files Session (\<lambda>c st. fst (load_sessions c st)) pool0 st0
      in if \<not> go1 then (pool1, st1, progress0) else
      (let (pool2, st2, go2) = with_first open_db keys db_files Contact
             (\<lambda>c st. load_chatroom_meta c (fst (load_contacts c st))) pool1 st1
       in if \<not> go2 then (pool2, st2, progress0) else
       (let (pool3, st3, _) = with_first open_db keys db_files ContactFts load_group_cards pool2 st2;
            message_files = filter (\<lambda>f. df_kind f = Message) db_files;
            (pool4, total_tables) = count_tables open_db keys message_files pool3;
            (pool5, st5, progress5) = index_files dec md5_hex open_db keys (st_contacts st3) my_wxid
              message_files pool4 st3 (set_tables_total total_tables progress0);
            (pool6, st6) = finish_build parse_f64 open_db keys db_files pool5 st5
        in (pool6, st6, progress5))))"

definition build_all_live :: "(bytes \<Rightarrow> bytes option) \<Rightarrow> (string \<Rightarrow> string) \<Rightarrow> (string \<Rightarrow> f64 option) \<Rightarrow> nat option \<Rightarrow> 'p opener
    \<Rightarrow> key_map \<Rightarrow> string \<Rightarrow> db_file list \<Rightarrow> 'p \<Rightarrow> index_progress \<Rightarrow> 'p \<times> store \<times> index_progress" where
  "build_all_live dec md5_hex parse_f64 now_ms open_db keys my_wxid db_files pool progress =
     (case build_all_live_inner dec md5_hex parse_f64 open_db keys my_wxid db_files pool progress of
        (pool', st, progress') \<Rightarrow> (pool', mark_index_built now_ms st, progress'))"

section \<open>Incremental reading\<close>

definition read_page :: nat where "read_page = 5000"

definition increment_query :: "msg_cols \<Rightarrow> string \<Rightarrow> string \<Rightarrow> string" where
  "increment_query mc time table = (let seq = opt_or (mc_seq mc) (mc_local mc) in
     ''SELECT '' @ join_with '', '' (mc_selected mc) @ '' FROM \"'' @ table @ ''\" WHERE (''
     @ join_with '', '' [time, seq, mc_local mc] @ '') > (?1, ?2, ?3) ORDER BY ''
     @ join_with '', '' [time, seq, mc_local mc] @ '' LIMIT '' @ nat_to_dec read_page)"

definition read_new :: "(bytes \<Rightarrow> bytes option) \<Rightarrow> conn \<Rightarrow> string \<Rightarrow> watermark \<Rightarrow> string option
    \<Rightarrow> index_error + message_record list" where
  "read_new dec c table wm name2id = (case probe c table of
       None \<Rightarrow> Inl No_Local_Id
     | Some mc \<Rightarrow> (case mc_time mc of
         None \<Rightarrow> Inl (No_Time_Column table)
       | Some time \<Rightarrow>
           (let uids = load_uid_map c name2id in
            case c (increment_query mc time table) [wm_create_time wm, wm_sort_seq wm, wm_local_id wm] of
              None \<Rightarrow> Inl Sql_Failed
            | Some (rows, err) \<Rightarrow> if err then Inl Sql_Failed
                else Inr (map (\<lambda>r. row_to_record dec (extract_row mc r uids) [] []) rows))))"

section \<open>Columns are read by name\<close>

lemma pick_member: "pick cols aliases = Some c \<Longrightarrow> c \<in> set cols"
  by (induction cols aliases rule: pick.induct) (auto split: option.splits simp: find_Some_iff)

lemma find_member: "List.find P xs = Some c \<Longrightarrow> c \<in> set xs"
  by (auto simp: find_Some_iff)

lemma add_selected_step: "add_selected sel (c # cs) = add_selected (if c \<in> set sel then sel else sel @ [c]) cs"
  by (simp add: add_selected_def)

lemma add_selected_shape:
  "set (add_selected sel cs) = set sel \<union> set cs \<and> (distinct sel \<longrightarrow> distinct (add_selected sel cs))
   \<and> (\<exists>t. add_selected sel cs = sel @ t)"
proof (induction cs arbitrary: sel)
  case (Cons c cs)
  show ?case
    using Cons [of "if c \<in> set sel then sel else sel @ [c]"]
    by (auto simp: add_selected_step)
qed (simp add: add_selected_def)

lemma position_of_nth: "x \<in> set xs \<Longrightarrow> position_of xs x < length xs \<and> xs ! position_of xs x = x"
  by (induction xs x rule: position_of.induct) auto

lemma row_of_getters:
  assumes "i < length vs"
  shows "get_i64 (row_of vs) i = get_i64 (row_of [vs ! i]) 0"
    and "get_opt_str (row_of vs) i = get_opt_str (row_of [vs ! i]) 0"
    and "get_opt_bytes (row_of vs) i = get_opt_bytes (row_of [vs ! i]) 0"
    and "get_opt_blob (row_of vs) i = get_opt_blob (row_of [vs ! i]) 0"
  using assms
  by (simp_all add: row_of_def Let_def get_i64_def get_opt_str_def get_opt_bytes_def get_opt_blob_def)

lemma row_of_named:
  assumes "x \<in> set sel"
  shows "get_i64 (row_of (map v sel)) (position_of sel x) = get_i64 (row_of [v x]) 0"
    and "get_opt_str (row_of (map v sel)) (position_of sel x) = get_opt_str (row_of [v x]) 0"
    and "get_opt_bytes (row_of (map v sel)) (position_of sel x) = get_opt_bytes (row_of [v x]) 0"
    and "get_opt_blob (row_of (map v sel)) (position_of sel x) = get_opt_blob (row_of [v x]) 0"
  using position_of_nth [OF assms] row_of_getters [of "position_of sel x" "map v sel"] by simp_all

text \<open>The row as its columns' names say, a missing column as the default.\<close>

definition named_i64 :: "(string \<Rightarrow> sql_value) \<Rightarrow> string option \<Rightarrow> int" where
  "named_i64 v col = (case col of Some x \<Rightarrow> get_i64 (row_of [v x]) 0 | None \<Rightarrow> 0)"

definition named_sender :: "(string \<Rightarrow> sql_value) \<Rightarrow> msg_cols \<Rightarrow> (int, string) hashmap \<Rightarrow> string" where
  "named_sender v mc uids = (let s = opt_or (Option.bind (mc_sender mc) (\<lambda>x. get_opt_str (row_of [v x]) 0)) [] in
     if s \<noteq> [] \<or> mc_real mc = None then s else opt_or (hm_get uids (named_i64 v (mc_real mc))) [])"

definition named_row :: "(string \<Rightarrow> sql_value) \<Rightarrow> msg_cols \<Rightarrow> (int, string) hashmap \<Rightarrow> owned_msg_row" where
  "named_row v mc uids = \<lparr>om_local_id = named_i64 v (Some (mc_local mc)),
     om_server_id = named_i64 v (mc_server mc), om_local_type = named_i64 v (mc_kind mc),
     om_create_time = named_i64 v (mc_time mc), om_sort_seq = named_i64 v (mc_seq mc),
     om_sender_username = named_sender v mc uids,
     om_content = Option.bind (mc_content mc) (\<lambda>x. get_opt_bytes (row_of [v x]) 0),
     om_compress = Option.bind (mc_compress mc) (\<lambda>x. get_opt_blob (row_of [v x]) 0)\<rparr>"

definition cols_of :: "msg_cols \<Rightarrow> string option list" where
  "cols_of mc = [mc_server mc, mc_kind mc, mc_time mc, mc_seq mc, mc_sender mc, mc_real mc, mc_content mc, mc_compress mc]"

lemma probe_selected:
  assumes "probe c table = Some mc"
  shows "mc_selected mc = add_selected [mc_local mc] (opt_list (cols_of mc))"
    and "mc_local mc \<in> set (table_columns c table)"
    and "\<And>x. Some x \<in> set (cols_of mc) \<Longrightarrow> x \<in> set (table_columns c table)"
proof -
  let ?cols = "table_columns c table"
  from assms obtain l where l: "pick ?cols (msg_columns ! 0) = Some l"
    by (cases "pick ?cols (msg_columns ! 0)") (simp_all add: probe_def Let_def)
  note mc = assms [unfolded probe_def Let_def l option.case option.inject, symmetric]
  show "mc_selected mc = add_selected [mc_local mc] (opt_list (cols_of mc))"
    by (simp add: mc cols_of_def)
  show "mc_local mc \<in> set ?cols"
    using l by (simp add: mc pick_member)
  show "x \<in> set ?cols" if "Some x \<in> set (cols_of mc)" for x
  proof -
    have c: "cols_of mc = map (\<lambda>n. pick ?cols (msg_columns ! n)) [1, 2, 3, 4, 5, 6]
        @ [List.find (\<lambda>x. eq_ignore_ascii_case x ''message_content'') ?cols,
           List.find (\<lambda>x. eq_ignore_ascii_case x ''compress_content'') ?cols]"
      by (simp add: mc cols_of_def)
    from that show ?thesis
      unfolding c by (auto dest!: pick_member [OF sym] find_member [OF sym] simp del: List.find.simps)
  qed
qed

lemma in_opt_list: "x \<in> set (opt_list xs) \<longleftrightarrow> Some x \<in> set xs"
  by (auto simp: opt_list_def set_map_filter_iff)

text \<open>
  C25. Message columns are found by name, whatever the table's layout: the selection holds each
  column once, all of them columns of the table, and every field of a row is the value of the
  column probed for it, also when two fields share a column.
\<close>

theorem columns_read_by_name:
  assumes "probe c table = Some mc"
  shows "distinct (mc_selected mc) \<and> set (mc_selected mc) \<subseteq> set (table_columns c table)
    \<and> extract_row mc (row_of (map v (mc_selected mc))) uids = named_row v mc uids"
proof -
  note sel = probe_selected [OF assms]
  have shape: "set (mc_selected mc) = {mc_local mc} \<union> set (opt_list (cols_of mc))" "distinct (mc_selected mc)"
      "\<exists>t. mc_selected mc = [mc_local mc] @ t"
    unfolding sel(1) using add_selected_shape [of "[mc_local mc]" "opt_list (cols_of mc)"] by auto
  let ?row = "row_of (map v (mc_selected mc))"
  have mem: "x \<in> set (mc_selected mc)" if "Some x \<in> set (cols_of mc)" for x
    using that shape(1) by (simp add: in_opt_list)
  have local: "get_i64 ?row 0 = named_i64 v (Some (mc_local mc))"
    using shape(3) row_of_getters(1) [of 0 "map v (mc_selected mc)"] by (auto simp: named_i64_def)
  have num: "(if col \<noteq> None then get_i64 ?row (col_pos mc col) else 0) = named_i64 v col" if "col \<in> set (cols_of mc)" for col
    by (cases col) (use that in \<open>simp_all add: named_i64_def col_pos_def row_of_named(1) [OF mem]\<close>)
  have strs: "(if col \<noteq> None then opt_or (opt_filter (\<lambda>s. s \<noteq> []) (get_opt_str ?row (col_pos mc col))) [] else [])
      = opt_or (Option.bind col (\<lambda>x. get_opt_str (row_of [v x]) 0)) []" if "col \<in> set (cols_of mc)" for col
    by (cases col) (use that in \<open>simp_all add: col_pos_def row_of_named(2) [OF mem] opt_filter_def
      opt_or_def split: option.split\<close>)
  have bytes: "(if col \<noteq> None then get_opt_bytes ?row (col_pos mc col) else None)
        = Option.bind col (\<lambda>x. get_opt_bytes (row_of [v x]) 0)"
    "(if col \<noteq> None then get_opt_blob ?row (col_pos mc col) else None)
        = Option.bind col (\<lambda>x. get_opt_blob (row_of [v x]) 0)" if "col \<in> set (cols_of mc)" for col
    by (cases col; use that in \<open>simp add: col_pos_def row_of_named(3,4) [OF mem]\<close>)+
  have rid: "get_i64 ?row (col_pos mc (Some y)) = named_i64 v (Some y)" if "mc_real mc = Some y" for y
    using num [of "mc_real mc"] that by (simp add: cols_of_def)
  have ex: "extract_row mc ?row uids = named_row v mc uids"
    by (simp only: extract_row_def Let_def local num strs bytes cols_of_def list.set insert_iff simp_thms
        named_row_def named_sender_def)
      (auto simp: rid)
  have "set (mc_selected mc) \<subseteq> set (table_columns c table)"
    using shape(1) sel(2,3) by (auto simp: in_opt_list)
  with shape(2) ex show ?thesis by blast
qed

text \<open>A database with one message table, for the witnesses.\<close>

definition demo_table :: string where
  "demo_table = ''Msg_0123456789abcdef0123456789abcdef''"

definition demo_columns :: "string list" where
  "demo_columns = [''local_id'', ''create_time'', ''timestamp'', ''sort_seq'', ''message_content'']"

definition demo_rows :: "sql_value list list" where
  "demo_rows = [[SInt 1, SInt 100, SInt 1, SText ''hi''], [SInt 2, SInt 100, SInt 2, SText ''there'']]"

definition demo_conn :: "bool \<Rightarrow> conn" where
  "demo_conn err q ps =
     (if starts_with ''PRAGMA'' q then Some (map (\<lambda>n. row_of [SInt 0, SText n]) demo_columns, False)
      else if q = table_names_query then Some ([row_of [SText demo_table]], False)
      else if starts_with ''SELECT local_id'' q then Some (map row_of demo_rows, err)
      else None)"

definition demo_cols :: msg_cols where
  "demo_cols = \<lparr>mc_local = ''local_id'', mc_server = None, mc_kind = None, mc_time = Some ''create_time'',
     mc_seq = Some ''sort_seq'', mc_sender = None, mc_real = None, mc_content = Some ''message_content'',
     mc_compress = None, mc_selected = [''local_id'', ''create_time'', ''sort_seq'', ''message_content'']\<rparr>"

lemma demo_probe: "probe (demo_conn err) demo_table = Some demo_cols"
  by code_simp

theorem columns_read_by_name_witness:
  "mr_create_time (row_to_record (\<lambda>_. None) (extract_row demo_cols
     (row_of (map (\<lambda>n. if n = ''create_time'' then SInt 100 else SNull) (mc_selected demo_cols))) []) [] []) = 100"
proof -
  let ?v = "\<lambda>n. if n = ''create_time'' then SInt 100 else SNull"
  have "named_i64 ?v (mc_time demo_cols) = 100" by code_simp
  then show ?thesis
    using columns_read_by_name [OF demo_probe [of False], of ?v "[]"]
    by (simp add: row_to_record_def named_row_def Let_def)
qed

section \<open>What a table contributes\<close>

lemma wm_key_eq [simp]: "wm_key a = wm_key b \<longleftrightarrow> a = b"
  by (cases a; cases b) (simp add: wm_key_def)

lemma max_watermark_ge: "wm_key a \<le> wm_key (max_watermark a b)" "wm_key b \<le> wm_key (max_watermark a b)"
  by (auto simp: max_watermark_def)

lemma max_watermark_cases: "max_watermark a b = a \<or> max_watermark a b = b"
  by (simp add: max_watermark_def)

definition record_key :: "message_record \<Rightarrow> int \<times> int \<times> int" where
  "record_key r = (mr_create_time r, mr_sort_seq r, mr_local_id r)"

lemma record_key_row [simp]: "record_key (row_to_record dec r my cs) = wm_key (owned_watermark r)"
  by (simp add: record_key_def row_to_record_def owned_watermark_def wm_key_def Let_def)

lemma load_rows:
  "fold (load_row dec mc uids cs my) rows ls = (let os = map (\<lambda>r. extract_row mc r uids) rows in
     \<lparr>ls_records = ls_records ls @ map (\<lambda>r. row_to_record dec r my cs) os,
      ls_watermark = fold (\<lambda>r w. max_watermark w (owned_watermark r)) os (ls_watermark ls),
      ls_counted = ls_counted ls + length rows,
      ls_progress = (ls_progress ls)\<lparr>ip_messages_indexed := ip_messages_indexed (ls_progress ls) + length rows\<rparr>\<rparr>)"
  by (induction rows arbitrary: ls) (simp_all add: load_row_def row_indexed_def Let_def)

lemma fold_max_watermark:
  "let w' = fold (\<lambda>r w. max_watermark w (owned_watermark r)) os w in
     wm_key w \<le> wm_key w' \<and> (\<forall>r\<in>set os. wm_key (owned_watermark r) \<le> wm_key w')
     \<and> (w' = w \<or> w' \<in> owned_watermark ` set os)"
proof (induction os arbitrary: w)
  case (Cons r os)
  let ?m = "max_watermark w (owned_watermark r)"
  show ?case
    using Cons [of ?m] max_watermark_ge(1) [of w "owned_watermark r"]
      max_watermark_ge(2) [of "owned_watermark r" w] max_watermark_cases [of w "owned_watermark r"]
    by (auto simp: Let_def intro: order_trans)
qed simp

lemma load_message_table_result:
  "case load_message_table dec c table uids cs my p of
     (p', Inr (records, wm)) \<Rightarrow>
       p' = p\<lparr>ip_messages_indexed := ip_messages_indexed p + length records\<rparr>
       \<and> list_all (\<lambda>r. record_key r \<le> wm_key wm) records
       \<and> (wm = watermark_default \<or> wm_key wm \<in> record_key ` set records)
   | (p', Inl _) \<Rightarrow> p' = p"
proof (cases "probe c table")
  case (Some mc)
  show ?thesis
  proof (cases "c (full_query mc table) []")
    case (Some res)
    obtain rows err where res: "res = (rows, err)" by (cases res)
    let ?os = "map (\<lambda>r. extract_row mc r uids) rows"
    let ?w = "fold (\<lambda>r w. max_watermark w (owned_watermark r)) ?os watermark_default"
    have w: "\<forall>r\<in>set ?os. wm_key (owned_watermark r) \<le> wm_key ?w"
        "?w = watermark_default \<or> ?w \<in> owned_watermark ` set ?os"
      using fold_max_watermark [of ?os watermark_default] by (simp_all add: Let_def)
    from w(2) have "?w = watermark_default \<or> wm_key ?w \<in> record_key ` set (map (\<lambda>r. row_to_record dec r my cs) ?os)"
      by (auto simp: image_image)
    with w(1) \<open>probe c table = Some mc\<close> Some res show ?thesis
      by (cases err) (simp_all add: load_message_table_def load_rows Let_def rollback_rows_def list_all_iff)
  qed (use Some in \<open>simp add: load_message_table_def\<close>)
qed (simp add: load_message_table_def)

text \<open>
  Loading a table is all or nothing for the progress counter, and its watermark is its last
  row: on success one count per record, and the greatest position among the records (or the
  initial one); on an error the counts of the rows already read are taken back.
\<close>

theorem load_message_table_accounts:
  "case load_message_table dec c table uids cs my p of
     (p', Inr (records, wm)) \<Rightarrow>
       p' = p\<lparr>ip_messages_indexed := ip_messages_indexed p + length records\<rparr>
       \<and> list_all (\<lambda>r. record_key r \<le> wm_key wm) records
       \<and> (wm = watermark_default \<or> wm_key wm \<in> record_key ` set records)
   | (p', Inl _) \<Rightarrow> p' = p"
  by (rule load_message_table_result)

section \<open>What the build leaves\<close>

lemma total_messages_insert:
  "sum_list (map length (hm_values (hm_modify k [] (\<lambda>conv. conv @ rs) m))) = sum_list (map length (hm_values m)) + length rs"
  unfolding hm_modify_def hm_insert_def hm_values_def by (induction m) auto

lemma index_table_step:
  assumes "index_table dec md5 rel c uids cs my t (st, p) = (st', p')"
  shows "st_sessions st' = st_sessions st"
    and "\<exists>n. total_messages st' = total_messages st + n \<and> ip_messages_indexed p' = ip_messages_indexed p + n"
    and "ip_tables_done p' \<le> Suc (ip_tables_done p) \<and> ip_tables_total p' = ip_tables_total p"
proof -
  obtain table sfx where t: "t = (table, sfx)" by (cases t)
  obtain p1 r where l: "load_message_table dec c table uids cs my p = (p1, r)"
    by (cases "load_message_table dec c table uids cs my p")
  note acc = load_message_table_result [where dec = dec and c = c and table = table and uids = uids
      and cs = cs and my = my and p = p, unfolded l prod.case]
  show "st_sessions st' = st_sessions st"
    and "\<exists>n. total_messages st' = total_messages st + n \<and> ip_messages_indexed p' = ip_messages_indexed p + n"
    and "ip_tables_done p' \<le> Suc (ip_tables_done p) \<and> ip_tables_total p' = ip_tables_total p"
    using assms acc unfolding t index_table_def
    by (auto simp: l total_messages_def total_messages_insert finish_table_def Let_def split: sum.splits prod.splits)
qed

lemma index_tables_steps:
  "fold (index_table dec md5 rel c uids cs my) ts (st, p) = (st', p') \<Longrightarrow>
     st_sessions st' = st_sessions st
     \<and> (\<exists>n. total_messages st' = total_messages st + n \<and> ip_messages_indexed p' = ip_messages_indexed p + n)
     \<and> ip_tables_done p' \<le> length ts + ip_tables_done p \<and> ip_tables_total p' = ip_tables_total p"
proof (induction ts arbitrary: st p)
  case (Cons t ts)
  obtain st1 p1 where s: "index_table dec md5 rel c uids cs my t (st, p) = (st1, p1)"
    by (cases "index_table dec md5 rel c uids cs my t (st, p)")
  from index_table_step [OF s] Cons.IH [of st1 p1] Cons.prems s show ?case by fastforce
qed simp

lemma index_files_steps:
  assumes "\<And>p f k. snd (open_db p f k) = answer f k"
  shows "index_files dec md5 open_db keys cs my fs pool st p = (pool', st', p') \<Longrightarrow>
     st_sessions st' = st_sessions st
     \<and> (\<exists>n. total_messages st' = total_messages st + n \<and> ip_messages_indexed p' = ip_messages_indexed p + n)
     \<and> ip_tables_done p' \<le> snd (count_tables open_db keys fs pool0) + ip_tables_done p
     \<and> ip_tables_total p' = ip_tables_total p"
proof (induction fs arbitrary: pool st p pool0)
  case (Cons f fs)
  show ?case
  proof (cases "key_for keys (df_rel f)")
    case (Some key)
    obtain q r where o1: "open_db pool f key = (q, r)" by (cases "open_db pool f key")
    obtain q0 r0 where o2: "open_db pool0 f key = (q0, r0)" by (cases "open_db pool0 f key")
    have same: "r0 = r" using assms [of pool f key] assms [of pool0 f key] by (simp add: o1 o2)
    show ?thesis
    proof (cases r)
      case (Inl e)
      with Cons.IH [of q st p q0] Cons.prems Some o1 o2 same show ?thesis by simp
    next
      case (Inr c)
      obtain st1 p1 where s: "fold (index_table dec md5 (df_rel f) c (uid_map c) cs my) (message_tables c) (st, p) = (st1, p1)"
        by (cases "fold (index_table dec md5 (df_rel f) c (uid_map c) cs my) (message_tables c) (st, p)")
      have rest: "index_files dec md5 open_db keys cs my fs q st1 p1 = (pool', st', p')"
        using Cons.prems Some o1 Inr s by simp
      have cnt: "snd (count_tables open_db keys (f # fs) pool0) = length (message_tables c) + snd (count_tables open_db keys fs q0)"
        using Some o2 same Inr by (simp split: prod.split)
      from index_tables_steps [OF s] Cons.IH [OF rest, of q0] cnt show ?thesis by fastforce
    qed
  qed (use Cons in simp)
qed simp

text \<open>The loaders before the messages leave no conversation and count nothing.\<close>

definition fresh :: "store \<Rightarrow> bool" where
  "fresh st \<longleftrightarrow> st_convs st = [] \<and> list_all (\<lambda>(u, s). ss_message_count s = 0) (st_sessions st)"

definition same_core :: "store \<Rightarrow> store \<Rightarrow> bool" where
  "same_core st st' \<longleftrightarrow> st_convs st' = st_convs st \<and> st_sessions st' = st_sessions st"

lemma fresh_same_core: "fresh st \<Longrightarrow> same_core st st' \<Longrightarrow> fresh st'"
  by (simp add: fresh_def same_core_def)

lemma same_core_trans: "same_core a b \<Longrightarrow> same_core b c \<Longrightarrow> same_core a c"
  by (simp add: same_core_def)

lemma fold_same_core: "(\<And>x s. same_core s (f x s)) \<Longrightarrow> same_core st (fold f xs st)"
  by (induction xs arbitrary: st) (auto simp: same_core_def)

lemma fold_fresh: "(\<And>x s. fresh s \<Longrightarrow> fresh (f x s)) \<Longrightarrow> fresh st \<Longrightarrow> fresh (fold f xs st)"
  by (induction xs arbitrary: st) auto

lemma session_of_row_fresh: "fresh st \<Longrightarrow> fresh (session_of_row cols row st)"
proof -
  have upd: "list_all P (AList.update k v m)" if "list_all P m" and "P (k, v)" for P and m :: "('a \<times> 'b) list" and k v
    using that by (induction m) auto
  show "fresh st \<Longrightarrow> fresh (session_of_row cols row st)"
    unfolding session_of_row_def fresh_def Let_def hm_insert_def
    by (cases "opt_or (get_opt_str row 0) [] = []") (simp_all add: upd)
qed

lemma load_sessions_fresh: "fresh st \<Longrightarrow> fresh (fst (load_sessions c st))"
proof -
  have "fresh (fst (load_sessions_from c t st))" if "fresh st" for t
    using that by (auto simp: load_sessions_from_def Let_def intro!: fold_fresh session_of_row_fresh
        split: option.split prod.split)
  then show "fresh st \<Longrightarrow> fresh (fst (load_sessions c st))"
    by (simp add: load_sessions_def Let_def split: option.split)
qed

lemma contact_loaders_core:
  "same_core st (fst (load_contacts c st))" "same_core st (load_chatroom_meta c st)"
  "same_core st (load_group_cards c st)" "same_core st (load_sns pf c st)"
proof -
  have "same_core s (contact_of_row cols row s)" for cols row s
    by (simp add: contact_of_row_def Let_def same_core_def)
  then show "same_core st (fst (load_contacts c st))"
    using fold_same_core [of "contact_of_row cols" for cols]
    by (auto simp: load_contacts_def Let_def same_core_def split: option.split prod.split)
  have "same_core s (add_owner row s)" for row s
    by (auto simp: add_owner_def same_core_def split: prod.split option.split)
  then have o: "same_core s (fold add_owner rows s)" for rows s
    by (rule fold_same_core)
  have "same_core s (add_member ids row s)" for ids row s
    by (auto simp: add_member_def same_core_def split: prod.split option.split)
  then have m: "same_core s (fold (add_member ids) rows s)" for ids rows s
    by (rule fold_same_core)
  have "same_core s s" for s by (simp add: same_core_def)
  moreover have "same_core s (fold (add_member ids) mrows (fold add_owner rows s))" for ids mrows rows s
    by (rule same_core_trans [OF o m])
  ultimately show "same_core st (load_chatroom_meta c st)"
    using o m by (simp add: load_chatroom_meta_def Let_def split: option.split)
  show "same_core st (load_group_cards c st)" "same_core st (load_sns pf c st)"
    by (auto simp: load_group_cards_def load_sns_def Let_def same_core_def split: option.split prod.split)
qed

lemma contact_loaders_fresh:
  "fresh s \<Longrightarrow> fresh (load_chatroom_meta c (fst (load_contacts c s)))"
  "fresh s \<Longrightarrow> fresh (load_group_cards c s)"
  by (erule fresh_same_core [OF fresh_same_core [OF _ contact_loaders_core(1)] contact_loaders_core(2)])
    (erule fresh_same_core [OF _ contact_loaders_core(3)])

lemma with_first_induct:
  assumes "with_first open_db keys fs kind load pool st = (pool', st', go_on)"
    and "P st" and "\<And>c s. P s \<Longrightarrow> P (load c s)"
  shows "P st'"
  using assms by (auto simp: with_first_def split: option.splits prod.splits sum.splits)

lemma conv_count_core: "st_convs st' = st_convs st \<Longrightarrow> conv_count st' = conv_count st"
  by (simp add: conv_count_def fun_eq_iff)

lemma indexing_accounts:
  assumes "\<And>p f k. snd (open_db p f k) = answer f k" and "fresh st3"
    and "count_tables open_db keys fs pool3 = (pool4, n)"
    and "index_files dec md5 open_db keys contacts my fs pool4 st3 (set_tables_total n p0) = (pool5, st5, p5)"
  shows "ip_messages_indexed p5 = total_messages st5 \<and> ip_tables_done p5 \<le> ip_tables_total p5"
proof -
  have "total_messages st3 = 0" using assms(2) by (simp add: fresh_def total_messages_def hm_values_def)
  then show ?thesis using index_files_steps [OF assms(1,4), of pool3] assms(3) by (auto simp: set_tables_total_def)
qed

lemma finish_build_accounts:
  assumes "finish_build pf open_db keys files pool5 st5 = (pool6, st)"
  shows "st_convs st = st_convs st5"
    and "list_all (\<lambda>(u, s). ss_message_count s = conv_count st u) (st_sessions st)
       \<or> list_ex (\<lambda>f. df_kind f = Sns \<and> key_for keys (df_rel f) = None) files"
proof -
  obtain pool6' st6 go6 where w6: "with_first open_db keys files Sns (load_sns pf) pool5 st5 = (pool6', st6, go6)"
    by (rule prod_cases3)
  have c6: "same_core st5 st6"
    using w6 by (rule with_first_induct) (simp add: same_core_def, rule same_core_trans [OF _ contact_loaders_core(4)])
  have st: "st = (if go6 then fill_counts st6 else st6)" using assms w6 by (simp add: finish_build_def)
  show "st_convs st = st_convs st5" using st c6 by (simp add: same_core_def fill_counts_def)
  have "list_all (\<lambda>(u, s). ss_message_count s = conv_count st u) (st_sessions st)" if go6
    using that st conv_count_core [of "fill_counts st6" st6] by (auto simp: fill_counts_def list_all_iff)
  moreover have "list_ex (\<lambda>f. df_kind f = Sns \<and> key_for keys (df_rel f) = None) files" if "\<not> go6"
    using w6 that by (auto simp: with_first_def list_ex_iff find_Some_iff split: option.splits prod.splits sum.splits)
  ultimately show "list_all (\<lambda>(u, s). ss_message_count s = conv_count st u) (st_sessions st)
       \<or> list_ex (\<lambda>f. df_kind f = Sns \<and> key_for keys (df_rel f) = None) files" by blast
qed


definition demo_file :: "db_kind \<Rightarrow> db_file" where
  "demo_file k = \<lparr>df_rel = ''message/message_0.db'', df_abs = [''message'', ''message_0.db''], df_wal = None, df_kind = k\<rparr>"

definition demo_build :: "unit \<times> store \<times> index_progress" where
  "demo_build = build_all_live_inner (\<lambda>_. None) (\<lambda>_. ''0'') (\<lambda>_. None) (\<lambda>p f k. (p, Inr (demo_conn False)))
     (Single [0]) ''me'' [demo_file Message] () progress_default"


end
