(* ===== verification/Sync.thy ===== *)
theory Sync
  imports Index History
begin

text \<open>
  The sync engine of one account (\<open>src/sync/mod.rs\<close>): the full build, the classification of
  changed files, and one incremental poll in its four phases. The engine's state is a record;
  what the world answers during one pass is the record \<open>sync_env\<close>: the scan of the storage
  directory, the file stamps, what opening gives, \<open>data_version\<close>, the databases behind the
  connections, the clock, and the deregistration flag at each point where the code reads it.
  Connections are handles of type \<open>'c\<close>; the event bus is a state \<open>'b\<close> with the operation \<open>pub\<close>.
\<close>

section \<open>Events\<close>

definition kind_dir_for :: "media_kind \<Rightarrow> string option" where
  "kind_dir_for kind = (case kind of Image \<Rightarrow> Some ''images'' | Voice \<Rightarrow> Some ''voices''
     | Video \<Rightarrow> Some ''videos'' | Emoji \<Rightarrow> Some ''emojis'' | _ \<Rightarrow> None)"

record push_media =
  pu_kind :: string
  pu_kind_dir :: "string option"
  pu_file_name :: string
  pu_md5 :: "string option"

definition push_media_from :: "media_hint \<Rightarrow> push_media" where
  "push_media_from m = \<lparr>pu_kind = media_kind_str (mh_kind m), pu_kind_dir = kind_dir_for (mh_kind m),
     pu_file_name = mh_file_name m, pu_md5 = mh_md5 m\<rparr>"

record new_message_event =
  ne_session_id :: string
  ne_session_type :: string
  ne_rawid :: string
  ne_source_name :: string
  ne_group_name :: "string option"
  ne_content :: string
  ne_timestamp :: int
  ne_media :: "push_media option"

record revoke_event =
  re_session_id :: string
  re_session_type :: string
  re_rawid :: string
  re_source_name :: string
  re_group_name :: "string option"
  re_content :: string
  re_timestamp :: int

datatype event = Sync_Event "(string \<times> watermark) list" | New_Event new_message_event | Revoke_Event revoke_event

section \<open>State\<close>

record src_stamp =
  ss_mtime_ns :: int
  ss_size :: nat

record db_stamps =
  dbs_main :: "src_stamp option"
  dbs_wal :: "src_stamp option"

datatype work = Messages db_file | Sessions db_file | SnsWork db_file | Contacts db_file | GroupMeta db_file

fun work_file :: "work \<Rightarrow> db_file" where
  "work_file (Messages f) = f"
| "work_file (Sessions f) = f"
| "work_file (SnsWork f) = f"
| "work_file (Contacts f) = f"
| "work_file (GroupMeta f) = f"

record ('c, 'b) account_sync =
  as_wxid :: string
  as_store :: store
  as_bus :: 'b
  as_pool :: "'c live_pool"
  as_keys :: key_map
  as_last_files :: "db_file list"
  as_stamps :: "(string, db_stamps) hashmap"
  as_progress :: index_progress

record 'c sync_env =
  se_files :: "db_file list"
  se_stamp :: "string list \<Rightarrow> src_stamp option"
  se_stamp_after :: "string list \<Rightarrow> src_stamp option"
  se_open :: "string list \<Rightarrow> string \<Rightarrow> acquire_error + 'c"
  se_version :: "'c \<Rightarrow> int option"
  se_version_after :: "'c \<Rightarrow> int option"
  se_db :: "'c \<Rightarrow> conn"
  se_now_ms :: "nat option"
  se_stopped_start :: bool
  se_stopped_apply :: bool
  se_stopped_reload :: "nat \<Rightarrow> bool"

definition read_max_pages :: nat where "read_max_pages = 64"

definition account_sync_new :: "string \<Rightarrow> key_map \<Rightarrow> store \<Rightarrow> 'b \<Rightarrow> ('c, 'b) account_sync" where
  "account_sync_new wxid keys st bus = \<lparr>as_wxid = wxid, as_store = st, as_bus = bus, as_pool = pool_new,
     as_keys = keys, as_last_files = [], as_stamps = [], as_progress = progress_default\<rparr>"

text \<open>Draining the embedder's queue, by the answers of \<open>try_recv\<close>.\<close>

datatype recv = Received event | Lagged | Finished

fun drain_events :: "recv list \<Rightarrow> event list" where
  "drain_events (Received e # rest) = e # drain_events rest"
| "drain_events (Lagged # rest) = drain_events rest"
| "drain_events (Finished # rest) = []"
| "drain_events [] = []"

text \<open>Opening a database through the pool, as the loaders of \<open>Index\<close> see it.\<close>

definition env_open :: "(bytes \<Rightarrow> string) \<Rightarrow> 'c sync_env \<Rightarrow> 'c live_pool opener" where
  "env_open hx env p f key = (case get_or_open hx (se_open env) (se_version env) f key p of
     (p', r) \<Rightarrow> (p', map_sum id (se_db env) r))"

section \<open>The full build\<close>

definition stamp_pair :: "(string list \<Rightarrow> src_stamp option) \<Rightarrow> db_file \<Rightarrow> db_stamps" where
  "stamp_pair stamp f = \<lparr>dbs_main = stamp (df_abs f), dbs_wal = Option.bind (df_wal f) stamp\<rparr>"

definition seed_stamp :: "(string list \<Rightarrow> src_stamp option) \<Rightarrow> db_file \<Rightarrow> db_stamps" where
  "seed_stamp stamp f = (stamp_pair stamp f)\<lparr>dbs_main :=
     Some (opt_or (stamp (df_abs f)) \<lparr>ss_mtime_ns = 0, ss_size = 0\<rparr>)\<rparr>"

definition full_sync :: "(bytes \<Rightarrow> bytes option) \<Rightarrow> (string \<Rightarrow> string) \<Rightarrow> (bytes \<Rightarrow> string) \<Rightarrow> (string \<Rightarrow> f64 option)
    \<Rightarrow> 'c sync_env \<Rightarrow> ('c, 'b) account_sync \<Rightarrow> ('c, 'b) account_sync \<times> nat" where
  "full_sync dec md5_hex hx parse_f64 env s0 = (let
       files = se_files env;
       s = s0\<lparr>as_last_files := files\<rparr>;
       (pool, st, progress) = build_all_live dec md5_hex parse_f64 (se_now_ms env) (env_open hx env)
         (as_keys s) (as_wxid s) files (as_pool s) (as_progress s);
       s1 = s\<lparr>as_pool := pool, as_progress := progress\<rparr>
     in if se_stopped_apply env then (s1, length files)
        else (s1\<lparr>as_store := mark_index_built (se_now_ms env) st,
                 as_stamps := fold (\<lambda>f m. if pool_is_open pool (df_rel f)
                   then hm_insert (df_rel f) (seed_stamp (se_stamp env) f) m else m) files []\<rparr>,
              length files))"

section \<open>What changed\<close>

definition file_changed :: "'c sync_env \<Rightarrow> ('c, 'b) account_sync \<Rightarrow> db_file \<Rightarrow> bool" where
  "file_changed env s f = (if pool_is_open (as_pool s) (df_rel f)
     then opt_or (foreign_commit_pending (se_version env) (as_pool s) (df_rel f)) True
     else hm_get (as_stamps s) (df_rel f) \<noteq> Some (stamp_pair (se_stamp env) f))"

definition work_of :: "db_file \<Rightarrow> work option" where
  "work_of f = (case df_kind f of
       Message \<Rightarrow> Some (Messages f)
     | Session \<Rightarrow> Some (Sessions f)
     | Sns \<Rightarrow> Some (SnsWork f)
     | Contact \<Rightarrow> Some (Contacts f)
     | ContactFts \<Rightarrow> Some (GroupMeta f)
     | _ \<Rightarrow> None)"

definition classify_changed :: "'c sync_env \<Rightarrow> ('c, 'b) account_sync \<Rightarrow> ('c, 'b) account_sync \<times> work list" where
  "classify_changed env s = (let files = se_files env in
     (s\<lparr>as_last_files := files\<rparr>, List.map_filter work_of (filter (file_changed env s) files)))"

section \<open>Phase 1: reading\<close>

definition row_watermark :: "message_record \<Rightarrow> watermark" where
  "row_watermark r = \<lparr>wm_create_time = mr_create_time r, wm_sort_seq = mr_sort_seq r, wm_local_id = mr_local_id r\<rparr>"

definition last_watermark :: "message_record list \<Rightarrow> watermark \<Rightarrow> watermark" where
  "last_watermark rows wm = (if rows = [] then wm else row_watermark (last rows))"

text \<open>The drain loop of one table with \<open>n\<close> pages left; the flag says whether it is drained.\<close>

fun drain_table :: "(watermark \<Rightarrow> index_error + message_record list) \<Rightarrow> nat \<Rightarrow> watermark
    \<Rightarrow> index_error + message_record list \<times> bool" where
  "drain_table read 0 wm = Inr ([], False)"
| "drain_table read (Suc n) wm = (case read wm of
       Inl e \<Rightarrow> Inl e
     | Inr rows \<Rightarrow>
         if length rows < read_page then Inr (rows, True)
         else if n = 0 then Inr (rows, False)
         else (case drain_table read n (last_watermark rows wm) of
             Inl e \<Rightarrow> Inl e
           | Inr (rest, drained) \<Rightarrow> Inr (rows @ rest, drained)))"

record 'c read_state =
  rs_pool :: "'c live_pool"
  rs_new :: "(string \<times> message_record) list"
  rs_watermarks :: "(string \<times> watermark) list"
  rs_revoke :: "(string \<times> message_record) list"
  rs_done :: "string list"

definition is_revoke_row :: "message_record \<Rightarrow> bool" where
  "is_revoke_row row \<longleftrightarrow> fst (split_local_type (mr_local_type row)) \<in> {10000, 10002}
     \<or> pm_revoke (mr_parsed row) \<noteq> None"

definition take_rows :: "string \<Rightarrow> string \<Rightarrow> message_record list \<Rightarrow> 'c read_state \<Rightarrow> 'c read_state" where
  "take_rows session key rows rs = rs\<lparr>
     rs_new := rs_new rs @ map (Pair session) (filter (\<lambda>r. \<not> is_revoke_row r) rows),
     rs_revoke := rs_revoke rs @ map (Pair session) (filter is_revoke_row rows),
     rs_watermarks := rs_watermarks rs @ map (\<lambda>r. (key, row_watermark r)) rows\<rparr>"

fun read_tables :: "(bytes \<Rightarrow> bytes option) \<Rightarrow> (string \<Rightarrow> string) \<Rightarrow> store \<Rightarrow> string \<Rightarrow> conn \<Rightarrow> string option
    \<Rightarrow> (string \<times> string) list \<Rightarrow> 'c read_state \<Rightarrow> index_error + 'c read_state \<times> bool" where
  "read_tables dec md5_hex st rel c name2id [] rs = Inr (rs, True)"
| "read_tables dec md5_hex st rel c name2id ((table, sfx) # rest) rs = (let key = watermark_key rel table in
     case drain_table (\<lambda>wm. read_new dec c table wm name2id) read_max_pages
         (opt_or (hm_get (st_watermarks st) key) watermark_default) of
       Inl e \<Rightarrow> Inl e
     | Inr (rows, drained) \<Rightarrow>
         (case read_tables dec md5_hex st rel c name2id rest
             (take_rows (table_session md5_hex sfx st) key rows rs) of
            Inl e \<Rightarrow> Inl e
          | Inr (rs', drained') \<Rightarrow> Inr (rs', drained \<and> drained')))"

fun read_phase :: "(bytes \<Rightarrow> bytes option) \<Rightarrow> (string \<Rightarrow> string) \<Rightarrow> (bytes \<Rightarrow> string) \<Rightarrow> 'c sync_env \<Rightarrow> key_map \<Rightarrow> store
    \<Rightarrow> work list \<Rightarrow> 'c read_state \<Rightarrow> 'c read_state \<times> index_error option" where
  "read_phase dec md5_hex hx env keys st [] rs = (rs, None)"
| "read_phase dec md5_hex hx env keys st (w # ws) rs = (case w of
       Messages f \<Rightarrow> (case key_for keys (df_rel f) of
           None \<Rightarrow> read_phase dec md5_hex hx env keys st ws rs
         | Some key \<Rightarrow> (case env_open hx env (rs_pool rs) f key of
             (p, Inl WrongKey) \<Rightarrow>
               read_phase dec md5_hex hx env keys st ws (rs\<lparr>rs_pool := mark_keyless (df_rel f) p\<rparr>)
           | (p, Inl _) \<Rightarrow> read_phase dec md5_hex hx env keys st ws (rs\<lparr>rs_pool := p\<rparr>)
           | (p, Inr c) \<Rightarrow>
               (case read_tables dec md5_hex st (df_rel f) c (name2id_table c) (message_tables c) (rs\<lparr>rs_pool := p\<rparr>) of
                  Inl e \<Rightarrow> (rs\<lparr>rs_pool := p\<rparr>, Some e)
                | Inr (rs', drained) \<Rightarrow> read_phase dec md5_hex hx env keys st ws
                    (if drained then rs'\<lparr>rs_done := rs_done rs' @ [df_rel f]\<rparr> else rs'))))
     | _ \<Rightarrow> read_phase dec md5_hex hx env keys st ws rs)"

section \<open>Phase 2: applying\<close>

text \<open>
  The original of a recall: the newest other row with one of the announced server numbers,
  else the nearest earlier incoming row of the last 300 seconds.
\<close>

fun original_by_id :: "string list \<Rightarrow> int \<Rightarrow> message_record list \<Rightarrow> message_record option" where
  "original_by_id ids lid [] = None"
| "original_by_id ids lid (m # ms) =
     (if mr_local_id m = lid then original_by_id ids lid ms
      else if int_to_dec (mr_server_id m) \<in> set ids then Some m
      else original_by_id ids lid ms)"

fun original_nearby :: "int \<Rightarrow> int \<Rightarrow> message_record list \<Rightarrow> message_record option" where
  "original_nearby lid time [] = None"
| "original_nearby lid time (m # ms) =
     (if mr_local_id m \<ge> lid then original_nearby lid time ms
      else if time - mr_create_time m > 300 then None
      else if \<not> mr_is_send m \<and> pm_display (mr_parsed m) \<noteq> utf8 [91, 230, 182, 136, 230, 129, 175, 93] then Some m
      else original_nearby lid time ms)"

definition find_original :: "store \<Rightarrow> string \<Rightarrow> message_record \<Rightarrow> message_record option" where
  "find_original st session revoke = (case pm_revoke (mr_parsed revoke) of
       None \<Rightarrow> None
     | Some rv \<Rightarrow> (let ids = opt_list [rv_msg_id rv, rv_new_msg_id rv] in
         case hm_get (st_convs st) session of
           None \<Rightarrow> None
         | Some conv \<Rightarrow> (case original_by_id ids (mr_local_id revoke) (rev conv) of
               Some m \<Rightarrow> Some m
             | None \<Rightarrow> original_nearby (mr_local_id revoke) (mr_create_time revoke) (rev conv))))"

definition event_session_type :: "store \<Rightarrow> string \<Rightarrow> string" where
  "event_session_type st session = (case hm_get (st_sessions st) session of
     Some s \<Rightarrow> session_kind_str (ss_kind s) | None \<Rightarrow> ''other'')"

definition event_group_name :: "store \<Rightarrow> string \<Rightarrow> string option" where
  "event_group_name st session = map_option (\<lambda>s. if session_kind_str (ss_kind s) = ''group''
     then opt_or (session_display_opt st session) [] else []) (hm_get (st_sessions st) session)"

text \<open>The row as it enters the store: its sender resolved, and whether the account sent it.\<close>

definition resolve_row :: "store \<Rightarrow> message_record \<Rightarrow> message_record" where
  "resolve_row st row = row\<lparr>
     mr_is_send := (mr_sender_username row \<noteq> [] \<and> mr_sender_username row = st_my_wxid st),
     mr_sender_name := opt_or (opt_filter (\<lambda>s. s \<noteq> [] \<and> s \<noteq> mr_sender_username row)
       (map_option contact_display_name (hm_get (st_contacts st) (mr_sender_username row)))) (mr_sender_username row)\<rparr>"

definition new_event :: "store \<Rightarrow> string \<Rightarrow> message_record \<Rightarrow> new_message_event" where
  "new_event st session r = \<lparr>ne_session_id = session, ne_session_type = event_session_type st session,
     ne_rawid = int_to_dec (mr_server_id r), ne_source_name = mr_sender_name r,
     ne_group_name = event_group_name st session, ne_content = pm_display (mr_parsed r),
     ne_timestamp = mr_create_time r, ne_media = map_option push_media_from (pm_media (mr_parsed r))\<rparr>"

definition apply_new :: "(event \<Rightarrow> 'b \<Rightarrow> 'b) \<Rightarrow> string \<times> message_record \<Rightarrow> store \<times> 'b \<times> nat \<Rightarrow> store \<times> 'b \<times> nat" where
  "apply_new pub sr acc = (case (sr, acc) of ((session, row), (st, bus, n)) \<Rightarrow>
     (let r = resolve_row st row;
          st' = st\<lparr>st_convs := hm_modify session [] (\<lambda>conv. conv @ [r]) (st_convs st)\<rparr>
      in if mr_is_send r then (st', bus, n)
         else (st', pub (New_Event (new_event st' session r)) bus, n + 1)))"

definition revoke_rawid :: "store \<Rightarrow> string \<Rightarrow> message_record \<Rightarrow> string" where
  "revoke_rawid st session row = (case find_original st session row of
       Some m \<Rightarrow> int_to_dec (mr_server_id m)
     | None \<Rightarrow> opt_or (Option.bind (pm_revoke (mr_parsed row)) rv_msg_id) [])"

definition revoke_content :: "store \<Rightarrow> string \<Rightarrow> message_record \<Rightarrow> string" where
  "revoke_content st session row = (let
       original_content = (case find_original st session row of
         Some m \<Rightarrow> pm_display (mr_parsed m) | None \<Rightarrow> [])
     in if original_content = [] then opt_or (Option.bind (pm_revoke (mr_parsed row)) rv_replace_msg)
          (utf8 [229, 175, 185, 230, 150, 185, 230, 146, 164, 229, 155, 158, 228, 186, 134, 228, 184, 128,
                 230, 157, 161, 230, 182, 136, 230, 129, 175])
        else utf8 [229, 175, 185, 230, 150, 185, 230, 146, 164, 229, 155, 158, 228, 186, 134, 228, 184, 128,
                   230, 157, 161, 230, 182, 136, 230, 129, 175, 239, 188, 136, 114, 97, 119, 105, 100, 239, 188, 154]
             @ revoke_rawid st session row
             @ utf8 [239, 188, 137, 32, 229, 134, 133, 229, 174, 185, 228, 184, 186, 34]
             @ original_content @ ''\"'')"

definition apply_revoke :: "(event \<Rightarrow> 'b \<Rightarrow> 'b) \<Rightarrow> store \<Rightarrow> string \<times> message_record \<Rightarrow> 'b \<times> nat \<Rightarrow> 'b \<times> nat" where
  "apply_revoke pub st sr acc = (case (sr, acc) of ((session, row), (bus, n)) \<Rightarrow>
     (if pm_revoke (mr_parsed row) = None \<or> mr_create_time row = 0 then (bus, n)
      else (pub (Revoke_Event \<lparr>re_session_id = session, re_session_type = event_session_type st session,
              re_rawid = revoke_rawid st session row, re_source_name = mr_sender_name row,
              re_group_name = event_group_name st session, re_content = revoke_content st session row,
              re_timestamp = mr_create_time row\<rparr>) bus, n + 1)))"

definition apply_phase :: "(event \<Rightarrow> 'b \<Rightarrow> 'b) \<Rightarrow> 'c read_state \<Rightarrow> store \<Rightarrow> 'b \<Rightarrow> store \<times> 'b \<times> nat \<times> nat" where
  "apply_phase pub rs st bus = (let
       st1 = st\<lparr>st_watermarks := fold (\<lambda>(k, w) m. hm_insert k w m) (rs_watermarks rs) (st_watermarks st)\<rparr>;
       (st2, bus2, applied_new) = fold (apply_new pub) (rs_new rs) (st1, bus, 0);
       (bus3, applied_revoke) = fold (apply_revoke pub st2) (rs_revoke rs) (bus2, 0)
     in (st2, bus3, applied_new, applied_revoke))"

section \<open>Phases 3 and 4: reloading and remembering\<close>

text \<open>The section a file's change reloads; message files reload none.\<close>

definition reload_of :: "(string \<Rightarrow> f64 option) \<Rightarrow> work \<Rightarrow> (conn \<Rightarrow> store \<Rightarrow> store) option" where
  "reload_of parse_f64 w = (case w of
       Sessions _ \<Rightarrow> Some (\<lambda>c st. fst (load_sessions c st))
     | Contacts _ \<Rightarrow> Some (\<lambda>c st. load_chatroom_meta c (fst (load_contacts c st)))
     | GroupMeta _ \<Rightarrow> Some load_group_cards
     | SnsWork _ \<Rightarrow> Some (load_sns parse_f64)
     | Messages _ \<Rightarrow> None)"

definition reload_item :: "(string \<Rightarrow> f64 option) \<Rightarrow> (bytes \<Rightarrow> string) \<Rightarrow> 'c sync_env \<Rightarrow> key_map \<Rightarrow> work
    \<Rightarrow> 'c live_pool \<times> store \<Rightarrow> 'c live_pool \<times> store" where
  "reload_item parse_f64 hx env keys w ps = (case reload_of parse_f64 w of
       None \<Rightarrow> ps
     | Some load \<Rightarrow> (case key_for keys (df_rel (work_file w)) of
         None \<Rightarrow> ps
       | Some k \<Rightarrow> (case env_open hx env (fst ps) (work_file w) k of
           (p, Inr c) \<Rightarrow> (p, load c (snd ps))
         | (p, Inl _) \<Rightarrow> (p, snd ps))))"

text \<open>The flag is read before every item; \<open>False\<close> when the loop was left early.\<close>

fun reload_phase :: "(string \<Rightarrow> f64 option) \<Rightarrow> (bytes \<Rightarrow> string) \<Rightarrow> 'c sync_env \<Rightarrow> key_map \<Rightarrow> nat \<Rightarrow> work list
    \<Rightarrow> 'c live_pool \<times> store \<Rightarrow> ('c live_pool \<times> store) \<times> bool" where
  "reload_phase parse_f64 hx env keys i [] ps = (ps, True)"
| "reload_phase parse_f64 hx env keys i (w # ws) ps = (if se_stopped_reload env i then (ps, False)
     else reload_phase parse_f64 hx env keys (Suc i) ws (reload_item parse_f64 hx env keys w ps))"

definition remember :: "'c sync_env \<Rightarrow> string list \<Rightarrow> work \<Rightarrow> ('c, 'b) account_sync \<Rightarrow> ('c, 'b) account_sync" where
  "remember env read_done w s = (let f = work_file w in
     if df_rel f \<notin> set read_done then s
     else s\<lparr>as_stamps := hm_insert (df_rel f) (stamp_pair (se_stamp_after env) f) (as_stamps s),
            as_pool := advance_data_version (se_version_after env) (df_rel f) (as_pool s)\<rparr>)"

section \<open>One poll\<close>

definition poll_once :: "(bytes \<Rightarrow> bytes option) \<Rightarrow> (string \<Rightarrow> string) \<Rightarrow> (bytes \<Rightarrow> string) \<Rightarrow> (string \<Rightarrow> f64 option)
    \<Rightarrow> (event \<Rightarrow> 'b \<Rightarrow> 'b) \<Rightarrow> 'c sync_env \<Rightarrow> ('c, 'b) account_sync \<Rightarrow> ('c, 'b) account_sync \<times> (index_error + nat \<times> nat)" where
  "poll_once dec md5_hex hx parse_f64 pub env s = (if se_stopped_start env then (s, Inr (0, 0)) else
     (let (s1, work) = classify_changed env s in
      if work = [] then (s1, Inr (0, 0)) else
      (let (rs, failed) = read_phase dec md5_hex hx env (as_keys s1) (as_store s1) work
             \<lparr>rs_pool = as_pool s1, rs_new = [], rs_watermarks = [], rs_revoke = [], rs_done = []\<rparr>;
           s2 = s1\<lparr>as_pool := rs_pool rs\<rparr>
       in case failed of Some e \<Rightarrow> (s2, Inl e) | None \<Rightarrow>
        if se_stopped_apply env then (s2, Inr (0, 0)) else
        (let (st, bus, applied_new, applied_revoke) = apply_phase pub rs (as_store s2) (as_bus s2);
             ((pool, st'), finished) = reload_phase parse_f64 hx env (as_keys s2) 0 work (as_pool s2, st);
             s3 = s2\<lparr>as_store := st', as_bus := bus, as_pool := pool\<rparr>
         in if \<not> finished then (s3, Inr (applied_new, applied_revoke))
            else (let s4 = fold (remember env (rs_done rs)) work s3
                  in (s4\<lparr>as_store := mark_index_built (se_now_ms env) (as_store s4)\<rparr>,
                      Inr (applied_new, applied_revoke)))))))"

section \<open>The drain loop\<close>

lemma wm_key_row_watermark [simp]: "wm_key (row_watermark r) = record_key r"
  by (simp add: wm_key_def row_watermark_def record_key_def)

definition above :: "watermark \<Rightarrow> message_record list \<Rightarrow> message_record list" where
  "above wm rows = filter (\<lambda>r. wm_key wm < record_key r) rows"

lemma last_watermark_append: "last_watermark (xs @ ys) wm = last_watermark ys (last_watermark xs wm)"
  by (simp add: last_watermark_def)

lemma sorted_filter_above:
  assumes "sorted_wrt (<) (map k ys)" and "j < length ys"
  shows "filter (\<lambda>r. k (ys ! j) < (k r :: 'k :: linorder)) ys = drop (Suc j) ys"
proof -
  have lt: "a < b \<Longrightarrow> b < length ys \<Longrightarrow> k (ys ! a) < k (ys ! b)" for a b
    using sorted_wrt_nth_less [OF assms(1), of a b] by simp
  have "filter (\<lambda>r. k (ys ! j) < k r) (take (Suc j) ys) = []"
  proof -
    have "\<not> k (ys ! j) < k r" if "r \<in> set (take (Suc j) ys)" for r
    proof -
      from that obtain i where "i < Suc j" "r = ys ! i" using assms(2) by (auto simp: in_set_conv_nth)
      then show ?thesis using lt [of i j] assms(2) by (cases "i = j") (auto simp: not_less less_Suc_eq)
    qed
    then show ?thesis by (simp add: filter_empty_conv)
  qed
  moreover have "filter (\<lambda>r. k (ys ! j) < k r) (drop (Suc j) ys) = drop (Suc j) ys"
  proof -
    have "k (ys ! j) < k r" if r: "r \<in> set (drop (Suc j) ys)" for r
    proof -
      from r obtain i where i: "i < length ys - Suc j" "r = drop (Suc j) ys ! i"
        by (auto simp: in_set_conv_nth)
      then have "r = ys ! (Suc j + i)" "Suc j + i < length ys" by simp_all
      then show ?thesis using lt [of j "Suc j + i"] by simp
    qed
    then show ?thesis by (simp add: filter_id_conv)
  qed
  ultimately show ?thesis
    by (metis append_Nil append_take_drop_id filter_append)
qed

lemma above_page:
  assumes "sorted_wrt (<) (map record_key rows)" and "0 < n"
  shows "above (last_watermark (take n (above wm rows)) wm) rows = drop n (above wm rows)"
proof (cases "above wm rows = []")
  case False
  define ys where "ys = above wm rows"
  define j where "j = min n (length ys) - 1"
  have srt: "sorted_wrt (<) (map record_key ys)"
    using assms(1) unfolding ys_def above_def sorted_wrt_map by (rule sorted_wrt_filter)
  have ne: "ys \<noteq> []" using False by (simp add: ys_def)
  then have j: "j < length ys" "last (take n ys) = ys ! j" "take n ys \<noteq> []"
    using assms(2) by (auto simp: j_def last_conv_nth min_def)
  have wx: "wm_key wm < record_key (ys ! j)" using j(1) nth_mem [of j ys] by (auto simp: ys_def above_def)
  have "above (last_watermark (take n ys) wm) rows = filter (\<lambda>r. record_key (ys ! j) < record_key r) ys"
    using wx j by (auto simp: last_watermark_def above_def ys_def filter_filter intro!: filter_cong)
  also have "\<dots> = drop (Suc j) ys" by (rule sorted_filter_above [OF srt j(1)])
  also have "\<dots> = drop n ys" using ne assms(2) by (cases "n \<le> length ys") (auto simp: j_def)
  finally show ?thesis by (simp add: ys_def)
qed (simp add: last_watermark_def)

lemma drain_table_ordered:
  assumes srt: "sorted_wrt (<) (map record_key rows)"
    and read: "\<And>wm. read wm = Inr (take read_page (above wm rows))"
  shows "\<exists>got drained. drain_table read n wm = Inr (got, drained)
    \<and> got @ above (last_watermark got wm) rows = above wm rows
    \<and> (drained \<longrightarrow> above (last_watermark got wm) rows = [])
    \<and> (length (above wm rows) < n * read_page \<longrightarrow> drained)"
proof (induction n arbitrary: wm)
  case (Suc n)
  let ?p = "take read_page (above wm rows)" and ?w = "last_watermark (take read_page (above wm rows)) wm"
  have pos: "0 < read_page" by (simp add: read_page_def)
  note rest = above_page [OF srt pos, of wm]
  have all: "?p @ above ?w rows = above wm rows" by (simp add: rest)
  show ?case
  proof (cases "length (above wm rows) < read_page")
    case True
    with rest read show ?thesis by auto
  next
    case full: False
    show ?thesis
    proof (cases "n = 0")
      case True
      with full read all show ?thesis
        by (intro exI [of _ ?p] exI [of _ False]) simp
    next
      case False
      obtain got drained where IH: "drain_table read n ?w = Inr (got, drained)"
          "got @ above (last_watermark got ?w) rows = above ?w rows"
          "drained \<longrightarrow> above (last_watermark got ?w) rows = []"
          "length (above ?w rows) < n * read_page \<longrightarrow> drained"
        using Suc.IH [of ?w] by blast
      have "length (above ?w rows) = length (above wm rows) - read_page" by (simp add: rest)
      then have left: "length (above wm rows) < Suc n * read_page \<longrightarrow> drained" using IH(4) full by auto
      have "drain_table read (Suc n) wm = Inr (?p @ got, drained)"
        using IH(1) full False by (simp add: read)
      moreover have "(?p @ got) @ above (last_watermark (?p @ got) wm) rows = above wm rows"
        using IH(2) all by (simp add: last_watermark_append)
      moreover have "drained \<longrightarrow> above (last_watermark (?p @ got) wm) rows = []"
        using IH(3) by (simp add: last_watermark_append)
      ultimately show ?thesis using left by blast
    qed
  qed
qed (auto simp: last_watermark_def)


text \<open>A connection that answers the increment query of the demonstration table as documented.\<close>

definition sql_key :: "sql_value list \<Rightarrow> int \<times> int \<times> int" where
  "sql_key vs = (case vs of SInt l # SInt t # SInt s # _ \<Rightarrow> (t, s, l) | _ \<Rightarrow> (0, 0, 0))"

definition demo_increment :: conn where
  "demo_increment q ps = (if q = increment_query demo_cols ''create_time'' demo_table
     then (case ps of [t, s, l] \<Rightarrow> Some (map row_of (take read_page (filter (\<lambda>vs. (t, s, l) < sql_key vs) demo_rows)), False) | _ \<Rightarrow> None)
     else demo_conn False q ps)"

definition demo_record :: "sql_value list \<Rightarrow> message_record" where
  "demo_record vs = row_to_record (\<lambda>_. None) (extract_row demo_cols (row_of vs) []) [] []"

lemma demo_increment_reads:
  "read_new (\<lambda>_. None) demo_increment demo_table w None = Inr (take read_page (above w (map demo_record demo_rows)))"
proof -
  have p: "probe demo_increment demo_table = Some demo_cols" by code_simp
  have t: "mc_time demo_cols = Some ''create_time''" by (simp add: demo_cols_def)
  have k: "list_all (\<lambda>vs. record_key (demo_record vs) = sql_key vs) demo_rows" by code_simp
  then have f: "above w (map demo_record demo_rows) = map demo_record (filter (\<lambda>vs. wm_key w < sql_key vs) demo_rows)"
    unfolding above_def filter_map o_def list_all_iff by (metis (mono_tags, lifting) filter_cong)
  have u: "load_uid_map demo_increment None = []" by (simp add: load_uid_map_def)
  show ?thesis
    unfolding read_new_def p option.case t Let_def u f
    by (simp add: demo_increment_def wm_key_def take_map demo_record_def o_def)
qed


section \<open>What a poll changes\<close>

text \<open>
  C17. A poll that fails while reading, or finds its account deregistered before applying, leaves
  the store, the bus and the remembered stamps exactly as they were: nothing is half applied,
  and nothing is published for an account that is gone.
\<close>

theorem failed_poll_changes_nothing:
  assumes "poll_once dec md5_hex hx pf pub env s = (s', r)"
    and "(\<exists>e. r = Inl e) \<or> se_stopped_start env \<or> se_stopped_apply env"
  shows "as_store s' = as_store s \<and> as_bus s' = as_bus s \<and> as_stamps s' = as_stamps s"
  using assms
  by (auto simp: poll_once_def classify_changed_def Let_def split: if_splits prod.splits option.splits)

text \<open>The events of a poll: one per incoming row, then one per recall that can be told.\<close>

definition new_events :: "store \<Rightarrow> (string \<times> message_record) list \<Rightarrow> event list" where
  "new_events st rows = map (\<lambda>(session, row). New_Event (new_event st session (resolve_row st row)))
     (filter (\<lambda>(session, row). \<not> mr_is_send (resolve_row st row)) rows)"

definition revoke_events :: "store \<Rightarrow> (string \<times> message_record) list \<Rightarrow> event list" where
  "revoke_events st rows = map (\<lambda>(session, row). Revoke_Event
       \<lparr>re_session_id = session, re_session_type = event_session_type st session,
        re_rawid = revoke_rawid st session row, re_source_name = mr_sender_name row,
        re_group_name = event_group_name st session, re_content = revoke_content st session row,
        re_timestamp = mr_create_time row\<rparr>)
     (filter (\<lambda>(session, row). pm_revoke (mr_parsed row) \<noteq> None \<and> mr_create_time row \<noteq> 0) rows)"

lemma apply_revokes:
  "fold (apply_revoke pub st) rows (bus, n) = (fold pub (revoke_events st rows) bus, n + length (revoke_events st rows))"
proof (induction rows arbitrary: bus n)
  case (Cons sr rows)
  then show ?case by (cases sr) (auto simp: apply_revoke_def revoke_events_def)
qed (simp add: revoke_events_def)

text \<open>Everything an event says of a row but the conversations.\<close>

definition same_names :: "store \<Rightarrow> store \<Rightarrow> bool" where
  "same_names a b \<longleftrightarrow> st_sessions a = st_sessions b \<and> st_contacts a = st_contacts b \<and> st_my_wxid a = st_my_wxid b"

lemma same_names_events:
  assumes "same_names a b"
  shows "resolve_row a = resolve_row b" and "new_event a = new_event b" and "new_events a = new_events b"
proof -
  show r: "resolve_row a = resolve_row b"
    using assms by (simp add: same_names_def resolve_row_def fun_eq_iff)
  have d: "session_display_opt a = session_display_opt b"
    using assms by (auto simp: same_names_def session_display_opt_def fun_eq_iff split: option.split)
  have g: "st_sessions a = st_sessions b" using assms by (simp add: same_names_def)
  have "event_session_type a = event_session_type b" "event_group_name a = event_group_name b"
    by (rule ext, simp add: event_session_type_def event_group_name_def g d cong: if_cong)+
  then show n: "new_event a = new_event b"
    by (simp add: new_event_def fun_eq_iff)
  show "new_events a = new_events b"
    by (simp add: new_events_def r n fun_eq_iff)
qed

lemma apply_news:
  "fold (apply_new pub) rows (st, bus, n) = (st', bus', n') \<Longrightarrow>
     same_names st st' \<and> st_watermarks st' = st_watermarks st
     \<and> bus' = fold pub (new_events st rows) bus \<and> n' = n + length (new_events st rows)
     \<and> opt_or (hm_get (st_convs st') x) [] = opt_or (hm_get (st_convs st) x) []
         @ map (\<lambda>sr. resolve_row st (snd sr)) (filter (\<lambda>sr. fst sr = x) rows)"
proof (induction rows arbitrary: st bus n)
  case (Cons sr rows)
  obtain session row where sr: "sr = (session, row)" by (cases sr)
  let ?r = "resolve_row st row"
  let ?st = "st\<lparr>st_convs := hm_modify session [] (\<lambda>conv. conv @ [?r]) (st_convs st)\<rparr>"
  have nm: "same_names st ?st" by (simp add: same_names_def)
  note ev = same_names_events [OF nm]
  let ?acc = "if mr_is_send ?r then (?st, bus, n) else (?st, pub (New_Event (new_event ?st session ?r)) bus, n + 1)"
  have step: "apply_new pub sr (st, bus, n) = ?acc"
    by (simp add: apply_new_def sr Let_def)
  obtain b1 n1 where acc: "?acc = (?st, b1, n1)" by (cases "mr_is_send ?r") auto
  have "fold (apply_new pub) rows (?st, b1, n1) = (st', bus', n')"
    using Cons.prems step acc by simp
  note IH = Cons.IH [OF this]
  have one: "fold pub (new_events st (sr # rows)) bus = fold pub (new_events st rows) b1"
      "n + length (new_events st (sr # rows)) = n1 + length (new_events st rows)"
    using acc by (auto simp: new_events_def sr ev(2) [symmetric] split: if_splits)
  have conv: "opt_or (hm_get (st_convs ?st) x) [] = opt_or (hm_get (st_convs st) x) [] @ (if session = x then [?r] else [])"
    by (simp add: hm_simps)
  have "same_names st st'" using IH nm by (simp add: same_names_def)
  with IH one conv show ?case
    by (simp add: sr ev(1) [symmetric] ev(3) [symmetric])
qed (simp add: same_names_def new_events_def)

lemma read_tables_news:
  "read_tables dec md5 st rel c n2i ts rs = Inr (rs', d) \<Longrightarrow>
     \<forall>sr\<in>set (rs_new rs). \<not> is_revoke_row (snd sr) \<Longrightarrow> \<forall>sr\<in>set (rs_new rs'). \<not> is_revoke_row (snd sr)"
proof (induction dec md5 st rel c n2i ts rs arbitrary: rs' d rule: read_tables.induct)
  case (2 dec md5 st rel c n2i table sfx rest rs)
  let ?key = "watermark_key rel table"
  from "2.prems"(1) obtain rows d1 d2 where
      dr: "drain_table (\<lambda>wm. read_new dec c table wm n2i) read_max_pages
        (opt_or (hm_get (st_watermarks st) ?key) watermark_default) = Inr (rows, d1)"
      and rd: "read_tables dec md5 st rel c n2i rest (take_rows (table_session md5 sfx st) ?key rows rs) = Inr (rs', d2)"
    by (auto simp: Let_def split: sum.splits prod.splits)
  have "\<forall>sr\<in>set (rs_new (take_rows (table_session md5 sfx st) ?key rows rs)). \<not> is_revoke_row (snd sr)"
    using "2.prems"(2) by (auto simp: take_rows_def)
  with "2.IH" [OF refl dr refl rd] show ?case .
qed simp

lemma apply_phase_convs:
  assumes "apply_phase pub rs st bus = (st', bus', a, b)"
  shows "opt_or (hm_get (st_convs st') x) [] = opt_or (hm_get (st_convs st) x) []
        @ map (\<lambda>sr. resolve_row st (snd sr)) (filter (\<lambda>sr. fst sr = x) (rs_new rs))"
    and "bus' = fold pub (new_events st (rs_new rs) @ revoke_events st' (rs_revoke rs)) bus"
    and "a = length (new_events st (rs_new rs))" and "b = length (revoke_events st' (rs_revoke rs))"
    and "same_names st st'"
    and "st_watermarks st' = fold (\<lambda>(k, w) m. hm_insert k w m) (rs_watermarks rs) (st_watermarks st)"
proof -
  let ?st = "st\<lparr>st_watermarks := fold (\<lambda>(k, w) m. hm_insert k w m) (rs_watermarks rs) (st_watermarks st)\<rparr>"
  have nm: "same_names st ?st" by (simp add: same_names_def)
  obtain st2 bus2 n where f: "fold (apply_new pub) (rs_new rs) (?st, bus, 0) = (st2, bus2, n)"
    by (rule prod_cases3)
  have e: "st' = st2" "a = n" "bus' = fold pub (revoke_events st2 (rs_revoke rs)) bus2"
      "b = length (revoke_events st2 (rs_revoke rs))"
    using assms f by (auto simp: apply_phase_def apply_revokes)
  note news = apply_news [OF f, of x] and ev = same_names_events [OF nm]
  show "opt_or (hm_get (st_convs st') x) [] = opt_or (hm_get (st_convs st) x) []
        @ map (\<lambda>sr. resolve_row st (snd sr)) (filter (\<lambda>sr. fst sr = x) (rs_new rs))"
    and "bus' = fold pub (new_events st (rs_new rs) @ revoke_events st' (rs_revoke rs)) bus"
    and "a = length (new_events st (rs_new rs))" and "b = length (revoke_events st' (rs_revoke rs))"
    and "same_names st st'"
    and "st_watermarks st' = fold (\<lambda>(k, w) m. hm_insert k w m) (rs_watermarks rs) (st_watermarks st)"
    using news e ev by (simp_all add: same_names_def)
qed


lemma fold_insert_last:
  "hm_get (fold (\<lambda>(k, w) m. hm_insert k w m) (map (\<lambda>r. (key, f r)) rows) m) key =
     (if rows = [] then hm_get m key else Some (f (last rows)))"
  by (induction rows arbitrary: m) (auto simp: hm_simps)

text \<open>
  What an incremental read of a table leaves in the store: its conversation takes in the rows
  that are no system rows (base types 10000 and 10002, or recall details), and the watermark
  moves past all of them, so a system row read by a poll is in the store only after a rebuild.
\<close>

theorem system_rows_pass_but_are_not_stored:
  assumes "drain_table (\<lambda>w. read_new dec c table w n2i) read_max_pages
      (opt_or (hm_get (st_watermarks st) (watermark_key rel table)) watermark_default) = Inr (rows, drained)"
  shows "\<exists>rs'. read_tables dec md5 st rel c n2i [(table, sfx)]
        \<lparr>rs_pool = p, rs_new = [], rs_watermarks = [], rs_revoke = [], rs_done = []\<rparr> = Inr (rs', drained)
    \<and> (let st' = fst (apply_phase pub rs' st bus); session = table_session md5 sfx st in
         opt_or (hm_get (st_convs st') session) [] = opt_or (hm_get (st_convs st) session) []
           @ map (resolve_row st) (filter (\<lambda>r. \<not> is_revoke_row r) rows)
         \<and> hm_get (st_watermarks st') (watermark_key rel table) =
             (if rows = [] then hm_get (st_watermarks st) (watermark_key rel table)
              else Some (row_watermark (last rows))))"
proof -
  let ?rs0 = "\<lparr>rs_pool = p, rs_new = [], rs_watermarks = [], rs_revoke = [], rs_done = []\<rparr>"
  let ?session = "table_session md5 sfx st" and ?key = "watermark_key rel table"
  let ?rs = "take_rows ?session ?key rows ?rs0"
  obtain st' bus' a b where ap: "apply_phase pub ?rs st bus = (st', bus', a, b)" by (rule prod_cases4)
  have conv: "opt_or (hm_get (st_convs st') ?session) [] = opt_or (hm_get (st_convs st) ?session) []
      @ map (resolve_row st) (filter (\<lambda>r. \<not> is_revoke_row r) rows)"
    using apply_phase_convs(1) [OF ap, of ?session] by (simp add: take_rows_def filter_map o_def)
  have "hm_get (st_watermarks st') ?key = (if rows = [] then hm_get (st_watermarks st) ?key else Some (row_watermark (last rows)))"
    using apply_phase_convs(6) [OF ap] by (simp add: take_rows_def fold_insert_last)
  with conv ap assms show ?thesis
    by (intro exI [of _ ?rs]) (simp add: Let_def)
qed

section \<open>Baselines of the other databases\<close>

text \<open>An open connection and its baseline survive every pool operation but the advance.\<close>

definition kept :: "string \<Rightarrow> 'c live_pool \<Rightarrow> 'c live_pool \<Rightarrow> bool" where
  "kept rel p p' \<longleftrightarrow> (\<forall>e conn. hm_get (lp_pool p) rel = Some e \<and> ld_conn e = Some conn \<longrightarrow>
     (\<exists>e'. hm_get (lp_pool p') rel = Some e' \<and> ld_conn e' = Some conn \<and> ld_data_version e' = ld_data_version e))"

lemma kept_refl: "kept rel p p"
  by (simp add: kept_def)

lemma kept_trans: "kept rel p q \<Longrightarrow> kept rel q r \<Longrightarrow> kept rel p r"
  unfolding kept_def by metis

lemma kept_mark: "kept rel p q \<Longrightarrow> kept rel p (mark_keyless x q)"
  by (simp add: kept_def mark_keyless_def)

lemma kept_get_or_open: "kept rel p (fst (get_or_open hx open_ro version f key p))"
proof (cases "df_rel f = rel")
  case True
  show ?thesis
    unfolding kept_def
  proof (intro allI impI, elim conjE)
    fix e conn
    assume e: "hm_get (lp_pool p) rel = Some e" "ld_conn e = Some conn"
    then have "live_acquire open_ro version (e\<lparr>ld_key_hex64 := hx key\<rparr>) = (e\<lparr>ld_key_hex64 := hx key\<rparr>, Inr conn)"
      by (simp add: live_acquire_open)
    with e True show "\<exists>e'. hm_get (lp_pool (fst (get_or_open hx open_ro version f key p))) rel = Some e'
        \<and> ld_conn e' = Some conn \<and> ld_data_version e' = ld_data_version e"
      by (auto simp: get_or_open_def Let_def hm_simps live_is_open_def)
  qed
next
  case False
  then show ?thesis
    by (auto simp: kept_def get_or_open_def Let_def hm_simps split: prod.split)
qed

lemma kept_env_open: "env_open hx env p f key = (p', r) \<Longrightarrow> kept rel p p'"
  using kept_get_or_open [of rel p hx "se_open env" "se_version env" f key]
  by (auto simp: env_open_def split: prod.splits)

lemma read_tables_frame:
  "read_tables dec md5 st rel c n2i ts rs = Inr (rs', d) \<Longrightarrow> rs_pool rs' = rs_pool rs \<and> rs_done rs' = rs_done rs"
proof (induction dec md5 st rel c n2i ts rs arbitrary: rs' d rule: read_tables.induct)
  case (2 dec md5 st rel c n2i table sfx rest rs)
  let ?key = "watermark_key rel table"
  from "2.prems"(1) obtain rows d1 d2 where
      dr: "drain_table (\<lambda>wm. read_new dec c table wm n2i) read_max_pages
        (opt_or (hm_get (st_watermarks st) ?key) watermark_default) = Inr (rows, d1)"
      and rd: "read_tables dec md5 st rel c n2i rest (take_rows (table_session md5 sfx st) ?key rows rs) = Inr (rs', d2)"
    by (auto simp: Let_def split: sum.splits prod.splits)
  from "2.IH" [OF refl dr refl rd] show ?case by (simp add: take_rows_def)
qed simp

lemma read_phase_frame:
  "read_phase dec md5 hx env keys st ws rs = (rs', err) \<Longrightarrow>
     kept rel (rs_pool rs) (rs_pool rs')
     \<and> set (rs_done rs') \<subseteq> set (rs_done rs) \<union> {df_rel f |f. Messages f \<in> set ws}"
proof (induction ws arbitrary: rs)
  case (Cons w ws)
  show ?case
  proof (cases "\<exists>f. w = Messages f")
    case True
    then obtain f where w: "w = Messages f" by blast
    show ?thesis
    proof (cases "key_for keys (df_rel f)")
      case None
      with Cons w show ?thesis by auto
    next
      case (Some key)
      obtain p r where o: "env_open hx env (rs_pool rs) f key = (p, r)" by (cases "env_open hx env (rs_pool rs) f key")
      note k = kept_env_open [OF o, of rel]
      show ?thesis
      proof (cases r)
        case (Inl e)
        then obtain q where q: "kept rel (rs_pool rs) q" and rec: "read_phase dec md5 hx env keys st ws (rs\<lparr>rs_pool := q\<rparr>) = (rs', err)"
          using Cons.prems w Some o k kept_mark [OF k] by (cases e) auto
        from Cons.IH [OF rec] q show ?thesis by (auto intro: kept_trans)
      next
        case (Inr c)
        show ?thesis
        proof (cases "read_tables dec md5 st (df_rel f) c (name2id_table c) (message_tables c) (rs\<lparr>rs_pool := p\<rparr>)")
          case (Inl e)
          with Cons.prems w Some o \<open>r = Inr c\<close> k show ?thesis by auto
        next
          case (Inr res)
          obtain rs1 d where res: "res = (rs1, d)" by (cases res)
          with Inr have fr: "rs_pool rs1 = p" "rs_done rs1 = rs_done rs" using read_tables_frame by fastforce+
          from Cons.prems w Some o \<open>r = Inr c\<close> Inr res
          have "read_phase dec md5 hx env keys st ws (if d then rs1\<lparr>rs_done := rs_done rs1 @ [df_rel f]\<rparr> else rs1) = (rs', err)"
            by simp
          from Cons.IH [OF this] fr k w show ?thesis by (auto intro: kept_trans split: if_splits)
        qed
      qed
    qed
  next
    case False
    with Cons show ?thesis by (cases w) auto
  qed
qed (simp add: kept_refl)

lemma reload_phase_kept:
  "reload_phase pf hx env keys i ws ps = (ps', fin) \<Longrightarrow> kept rel (fst ps) (fst ps')"
proof (induction ws arbitrary: i ps)
  case (Cons w ws)
  show ?case
  proof (cases "se_stopped_reload env i")
    case True
    with Cons.prems show ?thesis by (simp add: kept_refl)
  next
    case False
    have "kept rel (fst ps) (fst (reload_item pf hx env keys w ps))"
    proof (cases "key_for keys (df_rel (work_file w))")
      case (Some k)
      obtain p r where o: "env_open hx env (fst ps) (work_file w) k = (p, r)"
        by (cases "env_open hx env (fst ps) (work_file w) k")
      from kept_env_open [OF o, of rel] Some o show ?thesis
        by (cases r) (auto simp: reload_item_def kept_refl split: option.split)
    qed (simp add: reload_item_def kept_refl split: option.split)
    moreover have "kept rel (fst (reload_item pf hx env keys w ps)) (fst ps')"
      using Cons.prems False by (intro Cons.IH [of "Suc i"]) simp
    ultimately show ?thesis by (rule kept_trans)
  qed
qed (simp add: kept_refl)

lemma work_of_Messages: "work_of g = Some (Messages f) \<longleftrightarrow> df_kind g = Message \<and> f = g"
  by (cases "df_kind g") (auto simp: work_of_def)

lemma remember_kept: "rel \<notin> set done_files \<Longrightarrow> kept rel (as_pool s) (as_pool (fold (remember env done_files) ws s))"
proof (induction ws arbitrary: s)
  case (Cons w ws)
  have "kept rel (as_pool s) (as_pool (remember env done_files w s))"
    using Cons.prems
    by (auto simp: kept_def remember_def advance_data_version_def Let_def hm_simps split: option.split)
  with Cons show ?case by (auto intro: kept_trans)
qed (simp add: kept_refl)

lemma poll_once_kept:
  assumes "poll_once dec md5 hx pf pub env s = (s', r)"
    and "\<And>f. f \<in> set (se_files env) \<Longrightarrow> df_rel f = rel \<Longrightarrow> df_kind f \<noteq> Message"
  shows "kept rel (as_pool s) (as_pool s')"
proof (cases "se_stopped_start env")
  case True
  with assms(1) show ?thesis by (simp add: poll_once_def kept_refl)
next
  case start: False
  obtain s1 work where cl: "classify_changed env s = (s1, work)" by (cases "classify_changed env s")
  then have s1: "as_pool s1 = as_pool s" by (auto simp: classify_changed_def Let_def)
  have nomsg: "rel \<notin> {df_rel f |f. Messages f \<in> set work}"
    using cl assms(2) by (auto simp: classify_changed_def Let_def set_map_filter_iff work_of_Messages)
  show ?thesis
  proof (cases "work = []")
    case True
    with assms(1) cl start s1 show ?thesis by (simp add: poll_once_def kept_refl)
  next
    case False
    let ?rs0 = "\<lparr>rs_pool = as_pool s1, rs_new = [], rs_watermarks = [], rs_revoke = [], rs_done = []\<rparr>"
    obtain rs failed where rp: "read_phase dec md5 hx env (as_keys s1) (as_store s1) work ?rs0 = (rs, failed)"
      by (cases "read_phase dec md5 hx env (as_keys s1) (as_store s1) work ?rs0")
    from read_phase_frame [OF rp, of rel] nomsg s1 have k1: "kept rel (as_pool s) (rs_pool rs)" and d: "rel \<notin> set (rs_done rs)"
      by auto
    show ?thesis
    proof (cases "failed = None \<and> \<not> se_stopped_apply env")
      case False
      with assms(1) cl start \<open>work \<noteq> []\<close> rp k1 show ?thesis
        by (auto simp: poll_once_def Let_def split: if_splits option.splits)
    next
      case True
      obtain st bus a b where ap: "apply_phase pub rs (as_store s1) (as_bus s1) = (st, bus, a, b)" by (rule prod_cases4)
      obtain pool st' fin where rl: "reload_phase pf hx env (as_keys s1) 0 work (rs_pool rs, st) = ((pool, st'), fin)"
        by (metis prod.exhaust)
      from reload_phase_kept [OF rl, of rel] k1 have k2: "kept rel (as_pool s) pool" by (auto intro: kept_trans)
      let ?s3 = "s1\<lparr>as_pool := rs_pool rs\<rparr>\<lparr>as_store := st', as_bus := bus, as_pool := pool\<rparr>"
      have "as_pool s' = (if fin then as_pool (fold (remember env (rs_done rs)) work ?s3) else pool)"
        using assms(1) cl start \<open>work \<noteq> []\<close> rp True ap rl by (auto simp: poll_once_def Let_def)
      with k2 remember_kept [OF d, of ?s3 env work] show ?thesis by (auto intro: kept_trans)
    qed
  qed
qed


text \<open>
  A message table without a sequence column is read again and again: the query compares the
  watermark's sequence, always 0 there, with the local id, so a row whose local id is
  positive lies above the watermark it leaves itself, and every poll of the table returns it.
\<close>

theorem no_seq_column_rereads:
  assumes "probe c table = Some mc" and "mc_time mc = Some time" and "mc_seq mc = None"
    and "\<forall>w. c (increment_query mc time table) [wm_create_time w, wm_sort_seq w, wm_local_id w]
      = Some (take read_page (filter (\<lambda>row. let o' = extract_row mc row [] in
          wm_key w < (om_create_time o', om_local_id o', om_local_id o')) rows), False)"
    and "row \<in> set rows" and "length rows \<le> read_page" and "0 < om_local_id (extract_row mc row [])"
  shows "\<exists>recs. read_new dec c table (owned_watermark (extract_row mc row [])) name2id = Inr recs
    \<and> row_to_record dec (extract_row mc row (load_uid_map c name2id)) [] [] \<in> set recs"
proof -
  let ?o = "extract_row mc row []"
  have seq: "om_sort_seq ?o = 0" using assms(3) by (simp add: extract_row_def Let_def)
  have "wm_key (owned_watermark ?o) < (om_create_time ?o, om_local_id ?o, om_local_id ?o)"
    using assms(7) by (simp add: wm_key_def owned_watermark_def seq)
  with assms(5) have m: "row \<in> set (filter (\<lambda>row. let o' = extract_row mc row [] in
      wm_key (owned_watermark ?o) < (om_create_time o', om_local_id o', om_local_id o')) rows)"
    by (simp add: Let_def)
  have "length (filter P rows) \<le> read_page" for P
    using assms(6) length_filter_le [of P rows] by linarith
  then have "take read_page (filter P rows) = filter P rows" for P by simp
  with assms(1,2,4) m show ?thesis
    by (auto simp: read_new_def Let_def)
qed

section \<open>Concrete runs\<close>

text \<open>A table without a sequence column, with one system row, answering as documented.\<close>

definition plain_cols :: msg_cols where
  "plain_cols = \<lparr>mc_local = ''local_id'', mc_server = None, mc_kind = Some ''local_type'', mc_time = Some ''create_time'',
     mc_seq = None, mc_sender = None, mc_real = None, mc_content = None, mc_compress = None,
     mc_selected = [''local_id'', ''local_type'', ''create_time'']\<rparr>"

definition plain_rows :: "sql_row list" where
  "plain_rows = map row_of [[SInt 1, SInt 10000, SInt 100], [SInt 2, SInt 1, SInt 100]]"

definition plain_conn :: conn where
  "plain_conn q ps =
     (if starts_with ''PRAGMA'' q
        then Some (map (\<lambda>n. row_of [SInt 0, SText n]) [''local_id'', ''local_type'', ''create_time''], False)
      else if q = table_names_query then Some ([row_of [SText demo_table]], False)
      else if q = increment_query plain_cols ''create_time'' demo_table then (case ps of
          [t, s, l] \<Rightarrow> Some (take read_page (filter (\<lambda>row. let o' = extract_row plain_cols row [] in
             (t, s, l) < (om_create_time o', om_local_id o', om_local_id o')) plain_rows), False)
        | _ \<Rightarrow> None)
      else None)"

theorem no_seq_column_rereads_witness:
  "\<exists>recs. read_new (\<lambda>_. None) plain_conn demo_table \<lparr>wm_create_time = 100, wm_sort_seq = 0, wm_local_id = 2\<rparr> None = Inr recs
     \<and> 2 \<in> mr_local_id ` set recs"
proof -
  let ?row = "row_of [SInt 2, SInt 1, SInt 100]"
  have h: "probe plain_conn demo_table = Some plain_cols" by code_simp
  have "\<not> starts_with ''PRAGMA'' (increment_query plain_cols ''create_time'' demo_table)"
    "increment_query plain_cols ''create_time'' demo_table \<noteq> table_names_query" by code_simp+
  then have law: "\<forall>w. plain_conn (increment_query plain_cols ''create_time'' demo_table)
        [wm_create_time w, wm_sort_seq w, wm_local_id w]
      = Some (take read_page (filter (\<lambda>row. let o' = extract_row plain_cols row [] in
          wm_key w < (om_create_time o', om_local_id o', om_local_id o')) plain_rows), False)"
    by (simp add: plain_conn_def wm_key_def)
  have m: "?row \<in> set plain_rows" by (simp add: plain_rows_def)
  have e: "length plain_rows \<le> read_page" "0 < om_local_id (extract_row plain_cols ?row [])"
    "owned_watermark (extract_row plain_cols ?row []) = \<lparr>wm_create_time = 100, wm_sort_seq = 0, wm_local_id = 2\<rparr>"
    by code_simp+
  have u: "load_uid_map plain_conn None = []" by (simp add: load_uid_map_def)
  have l: "mr_local_id (row_to_record (\<lambda>_. None) (extract_row plain_cols ?row []) [] []) = 2" by code_simp
  obtain recs where "read_new (\<lambda>_. None) plain_conn demo_table \<lparr>wm_create_time = 100, wm_sort_seq = 0, wm_local_id = 2\<rparr> None = Inr recs"
      "row_to_record (\<lambda>_. None) (extract_row plain_cols ?row []) [] [] \<in> set recs"
    using no_seq_column_rereads [OF h _ _ law m e(1,2), of "\<lambda>_. None" None] e(3) u
    by (auto simp: plain_cols_def)
  with l show ?thesis by force
qed

theorem system_rows_pass_but_are_not_stored_witness:
  "\<exists>rs' :: nat read_state. read_tables (\<lambda>_. None) (\<lambda>_. ''0'') store_default ''m.db'' plain_conn None [(demo_table, ''01'')]
        \<lparr>rs_pool = pool_new, rs_new = [], rs_watermarks = [], rs_revoke = [], rs_done = []\<rparr> = Inr (rs', True)
    \<and> map mr_local_id (opt_or (hm_get (st_convs (fst (apply_phase (#) rs' store_default []))) ''01'') []) = [2]"
proof -
  let ?drain = "drain_table (\<lambda>w. read_new (\<lambda>_. None) plain_conn demo_table w None) read_max_pages
      (opt_or (hm_get (st_watermarks store_default) (watermark_key ''m.db'' demo_table)) watermark_default)"
  obtain rows where d: "?drain = Inr (rows, True)"
      and r: "map mr_local_id (map (resolve_row store_default) (filter (\<lambda>r. \<not> is_revoke_row r) rows)) = [2]"
  proof -
    have "case ?drain of Inr (rows, d) \<Rightarrow> d \<and> map mr_local_id (map (resolve_row store_default)
        (filter (\<lambda>r. \<not> is_revoke_row r) rows)) = [2] | Inl _ \<Rightarrow> False" by code_simp
    then show ?thesis using that by (auto split: sum.splits)
  qed
  have s: "table_session (\<lambda>_. ''0'') ''01'' store_default = ''01''" and n: "st_convs store_default = []" by code_simp+
  show ?thesis
    using system_rows_pass_but_are_not_stored [OF d, of "\<lambda>_. ''0''" "''01''" "pool_new :: nat live_pool" "(#)" "[]"] r
    by (auto simp: Let_def s n)
qed

definition demo_env :: "db_kind \<Rightarrow> conn \<Rightarrow> nat sync_env" where
  "demo_env kind db = \<lparr>se_files = [demo_file kind], se_stamp = (\<lambda>_. None), se_stamp_after = (\<lambda>_. None),
     se_open = (\<lambda>_ _. Inr 0), se_version = (\<lambda>_. Some 2), se_version_after = (\<lambda>_. Some 2), se_db = (\<lambda>_. db),
     se_now_ms = Some 7, se_stopped_start = False, se_stopped_apply = False, se_stopped_reload = (\<lambda>_. False)\<rparr>"

definition demo_sync :: "(nat, event list) account_sync" where
  "demo_sync = account_sync_new ''me'' (Single [0]) store_default []"

definition demo_poll :: "nat sync_env \<Rightarrow> (nat, event list) account_sync \<Rightarrow> (nat, event list) account_sync \<times> (index_error + nat \<times> nat)" where
  "demo_poll env s = poll_once (\<lambda>_. None) (\<lambda>_. ''0'') (\<lambda>_. ''00'') (\<lambda>_. None) (\<lambda>e b. b @ [e]) env s"

definition timeless_conn :: conn where
  "timeless_conn q ps = (if starts_with ''PRAGMA'' q then Some ([row_of [SInt 0, SText ''local_id'']], False)
     else if q = table_names_query then Some ([row_of [SText demo_table]], False) else None)"

theorem failed_poll_changes_nothing_witness:
  "snd (demo_poll (demo_env Message timeless_conn) demo_sync) = Inl (No_Time_Column demo_table)
   \<and> as_store (fst (demo_poll (demo_env Message timeless_conn) demo_sync)) = store_default"
proof -
  let ?p = "demo_poll (demo_env Message timeless_conn) demo_sync"
  have e: "snd ?p = Inl (No_Time_Column demo_table)" by code_simp
  have p: "?p = (fst ?p, snd ?p)" by simp
  from failed_poll_changes_nothing [OF p [unfolded demo_poll_def]] e show ?thesis
    by (simp add: demo_poll_def demo_sync_def account_sync_new_def)
qed



end
