(* ===== verification/Accounts.thy ===== *)
theory Accounts
  imports Sync Api Wcdb
begin

text \<open>
  The account registry of \<open>src/server/mod.rs\<close>: the application state, registration, the steps
  of the background index task, deregistration, and the account lookups of the handlers.
  Account handles are shared (\<open>Arc\<close>) and outlive their registration, so the state holds a
  list of every handle ever made; an address is an index into it, and the registry maps ids to
  addresses. A handle carries its engine; the event bus is one shared object of the state, and
  the engine's own bus field is only meaningful while the engine runs. The watch task of a
  handle is named by the handle's address; \<open>ap_watching\<close> are the watch tasks that run.
\<close>

section \<open>State\<close>

datatype account_status = Awaiting_Key | Indexing | Ready | Error

definition is_ready :: "account_status \<Rightarrow> bool" where
  "is_ready s \<longleftrightarrow> s = Ready"

datatype account_phase = Phase_Unregistered | Phase_Indexing | Phase_Ready | Phase_Error

fun phase_from :: "account_status \<Rightarrow> account_phase" where
  "phase_from Awaiting_Key = Phase_Unregistered"
| "phase_from Indexing = Phase_Indexing"
| "phase_from Ready = Phase_Ready"
| "phase_from Error = Phase_Error"

type_synonym 'ch bus = "(event, 'ch) event_bus"

record ('c, 'ch) account_handle =
  ah_info :: account_info
  ah_status :: nat
  ah_error :: "string option"
  ah_sync :: "('c, 'ch bus) account_sync"
  ah_media_keys :: "image_keys option"
  ah_watcher :: "nat option"
  ah_stopped :: bool

record ('c, 'ch) app_state =
  ap_token :: string
  ap_base_url :: string
  ap_media_dir :: string
  ap_handles :: "('c, 'ch) account_handle list"
  ap_accounts :: "(string, nat) hashmap"
  ap_discovered :: "account_info list"
  ap_bus :: "'ch bus"
  ap_generation :: nat
  ap_watching :: "nat list"

definition status_of :: "('c, 'ch) account_handle \<Rightarrow> account_status" where
  "status_of h = (if ah_status h = 1 then Indexing else if ah_status h = 2 then Ready
     else if ah_status h = 3 then Error else Awaiting_Key)"

fun status_code :: "account_status \<Rightarrow> nat" where
  "status_code Awaiting_Key = 0"
| "status_code Indexing = 1"
| "status_code Ready = 2"
| "status_code Error = 3"

definition set_status :: "account_status \<Rightarrow> ('c, 'ch) account_handle \<Rightarrow> ('c, 'ch) account_handle" where
  "set_status s h = h\<lparr>ah_status := status_code s\<rparr>"

abbreviation handle_wxid :: "('c, 'ch) account_handle \<Rightarrow> string" where
  "handle_wxid h \<equiv> ai_wxid (ah_info h)"

abbreviation handle_store :: "('c, 'ch) account_handle \<Rightarrow> store" where
  "handle_store h \<equiv> as_store (ah_sync h)"

definition set_store :: "store \<Rightarrow> ('c, 'ch) account_handle \<Rightarrow> ('c, 'ch) account_handle" where
  "set_store st h = h\<lparr>ah_sync := (ah_sync h)\<lparr>as_store := st\<rparr>\<rparr>"

definition event_bus_capacity :: nat where "event_bus_capacity = 1024"

text \<open>\<open>GENERATION\<close> starts at 1; \<open>new_channel\<close> makes the broadcast channel of a capacity.\<close>

definition app_new :: "(nat \<Rightarrow> 'ch) \<Rightarrow> string \<Rightarrow> nat \<Rightarrow> string option \<Rightarrow> string \<Rightarrow> string \<Rightarrow> ('c, 'ch) app_state" where
  "app_new new_channel host port url media_dir token =
     \<lparr>ap_token = token, ap_base_url = derive_base_url host port url, ap_media_dir = media_dir,
      ap_handles = [], ap_accounts = [], ap_discovered = [],
      ap_bus = \<lparr>history = history_default, tx = new_channel event_bus_capacity\<rparr>,
      ap_generation = 1, ap_watching = []\<rparr>"

definition set_discovered :: "account_info list \<Rightarrow> ('c, 'ch) app_state \<Rightarrow> ('c, 'ch) app_state" where
  "set_discovered found app = app\<lparr>ap_discovered := found\<rparr>"

definition bump_generation :: "('c, 'ch) app_state \<Rightarrow> ('c, 'ch) app_state" where
  "bump_generation app = app\<lparr>ap_generation := ap_generation app + 1\<rparr>"

abbreviation handle_at :: "('c, 'ch) app_state \<Rightarrow> nat \<Rightarrow> ('c, 'ch) account_handle" where
  "handle_at app a \<equiv> ap_handles app ! a"

definition on_handle :: "nat \<Rightarrow> (('c, 'ch) account_handle \<Rightarrow> ('c, 'ch) account_handle)
    \<Rightarrow> ('c, 'ch) app_state \<Rightarrow> ('c, 'ch) app_state" where
  "on_handle a f app = app\<lparr>ap_handles := (ap_handles app)[a := f (handle_at app a)]\<rparr>"

section \<open>Lookups\<close>

definition bound_account :: "(string, nat) hashmap \<Rightarrow> nat option" where
  "bound_account accounts = (case hm_values accounts of [] \<Rightarrow> None | a # _ \<Rightarrow> Some a)"

definition account_phase :: "('c, 'ch) app_state \<Rightarrow> account_phase \<times> bool" where
  "account_phase app = (case map_option (\<lambda>a. status_of (handle_at app a)) (bound_account (ap_accounts app)) of
       Some s \<Rightarrow> (phase_from s, is_ready s)
     | None \<Rightarrow> (Phase_Unregistered, False))"

record index_progress_dto =
  pd_messages_indexed :: nat
  pd_tables_done :: nat
  pd_tables_total :: nat

definition progress_dto :: "index_progress \<Rightarrow> index_progress_dto" where
  "progress_dto p = \<lparr>pd_messages_indexed = ip_messages_indexed p, pd_tables_done = ip_tables_done p,
     pd_tables_total = ip_tables_total p\<rparr>"

definition indexing_progress :: "('c, 'ch) account_handle \<Rightarrow> index_progress_dto option" where
  "indexing_progress h = (if status_of h = Indexing then Some (progress_dto (as_progress (ah_sync h))) else None)"

text \<open>Paths are component lists; \<open>to_string_lossy\<close> of one joins them.\<close>

definition path_text :: "string list \<Rightarrow> string" where
  "path_text p = from_utf8_lossy (join_with ''/'' p)"

record account_state_view =
  av_db_storage :: string
  av_error :: "string option"
  av_message_count :: nat
  av_progress :: "index_progress_dto option"
  av_state :: account_status
  av_wxid :: string

definition handle_view :: "('c, 'ch) account_handle \<Rightarrow> account_state_view" where
  "handle_view h = \<lparr>av_db_storage = path_text (ai_db_storage (ah_info h)), av_error = ah_error h,
     av_message_count = total_messages (handle_store h), av_progress = indexing_progress h,
     av_state = status_of h, av_wxid = handle_wxid h\<rparr>"

definition discovered_view :: "account_info \<Rightarrow> account_state_view" where
  "discovered_view i = \<lparr>av_db_storage = path_text (ai_db_storage i), av_error = None, av_message_count = 0,
     av_progress = None, av_state = Awaiting_Key, av_wxid = ai_wxid i\<rparr>"

definition account_views :: "('c, 'ch) app_state \<Rightarrow> account_state_view list" where
  "account_views app = (let
       views = map (\<lambda>a. handle_view (handle_at app a)) (hm_values (ap_accounts app));
       registered = set (map av_wxid views)
     in sort_key av_wxid (views @ map discovered_view
          (filter (\<lambda>i. ai_wxid i \<notin> registered) (ap_discovered app))))"

definition not_registered_text :: string where
  "not_registered_text = ''no account registered/ready; register via POST /api/v1/accounts''"

definition ready_account :: "('c, 'ch) app_state \<Rightarrow> params \<Rightarrow> api_error + nat" where
  "ready_account app params = (case (case hm_get params ''wxid'' of
         Some w \<Rightarrow> hm_get (ap_accounts app) w
       | None \<Rightarrow> bound_account (ap_accounts app)) of
       None \<Rightarrow> Inl (service_unavailable not_registered_text)
     | Some a \<Rightarrow> if \<not> is_ready (status_of (handle_at app a))
         then Inl (service_unavailable ''account not ready (indexing or error)'')
         else Inr a)"

definition current_watermarks :: "('c, 'ch) app_state \<Rightarrow> (string \<times> watermark) list" where
  "current_watermarks app = concat (map (\<lambda>a. st_watermarks (handle_store (handle_at app a)))
     (filter (\<lambda>a. is_ready (status_of (handle_at app a))) (hm_values (ap_accounts app))))"

section \<open>Registration\<close>

datatype bind_outcome = Bound nat | Existing nat
  | Occupied string account_status "index_progress_dto option"

definition stop_handle :: "nat \<Rightarrow> ('c, 'ch) app_state \<Rightarrow> ('c, 'ch) app_state" where
  "stop_handle a = on_handle a (\<lambda>h. h\<lparr>ah_stopped := True\<rparr>)"

definition abort_watcher :: "nat \<Rightarrow> ('c, 'ch) app_state \<Rightarrow> ('c, 'ch) app_state" where
  "abort_watcher a app = (case ah_watcher (handle_at app a) of
       None \<Rightarrow> app
     | Some task \<Rightarrow> (on_handle a (\<lambda>h. h\<lparr>ah_watcher := None\<rparr>) app)
         \<lparr>ap_watching := removeAll task (ap_watching app)\<rparr>)"

definition new_handle :: "account_info \<Rightarrow> key_map \<Rightarrow> image_keys option \<Rightarrow> 'ch bus \<Rightarrow> ('c, 'ch) account_handle" where
  "new_handle info keys media_keys bus = \<lparr>ah_info = info, ah_status = 1, ah_error = None,
     ah_sync = account_sync_new (ai_wxid info) keys store_default bus,
     ah_media_keys = media_keys, ah_watcher = None, ah_stopped = False\<rparr>"

definition insert_handle :: "('c, 'ch) account_handle \<Rightarrow> ('c, 'ch) app_state \<Rightarrow> ('c, 'ch) app_state \<times> bind_outcome" where
  "insert_handle h app = (let
       a = length (ap_handles app);
       old = hm_get (ap_accounts app) (handle_wxid h);
       app1 = app\<lparr>ap_handles := ap_handles app @ [h],
                  ap_accounts := hm_insert (handle_wxid h) a (ap_accounts app)\<rparr>
     in ((case old of Some o' \<Rightarrow> abort_watcher o' (stop_handle o' app1) | None \<Rightarrow> app1), Bound a))"

definition register_account :: "account_info \<Rightarrow> key_map \<Rightarrow> image_keys option \<Rightarrow> ('c, 'ch) app_state
    \<Rightarrow> ('c, 'ch) app_state \<times> bind_outcome" where
  "register_account info keys media_keys app = (let h = new_handle info keys media_keys (ap_bus app) in
     case bound_account (ap_accounts app) of
       None \<Rightarrow> insert_handle h app
     | Some a \<Rightarrow> (let incumbent = handle_at app a in
         if handle_wxid incumbent \<noteq> handle_wxid h
         then (app, Occupied (handle_wxid incumbent) (status_of incumbent) (indexing_progress incumbent))
         else if status_of incumbent \<in> {Ready, Indexing} then (app, Existing a)
         else insert_handle h app))"

text \<open>
  \<open>start_account\<close>: everything before the registration can only refuse. What the machine answers
  is the record \<open>register_env\<close>: the tree at a path, the accounts the scan of the default roots
  found, the contents of a file, and the third-party functions on keys.
\<close>

record account_body =
  ab_wxid :: "string option"
  ab_key :: "string option"
  ab_keys :: "(string, string) hashmap option"
  ab_img_code :: "string option"
  ab_img_aes_key :: "string option"
  ab_img_xor_key :: "string option"
  ab_db_path :: "string option"

record register_env =
  rv_tree :: "string list \<Rightarrow> fs option"
  rv_scanned :: "account_info list"
  rv_read :: "string list \<Rightarrow> bytes option"
  rv_crypto :: crypto
  rv_hex_decode :: "string \<Rightarrow> bytes option"
  rv_md5 :: "bytes \<Rightarrow> bytes"
  rv_hex_encode :: "bytes \<Rightarrow> string"
  rv_key_error :: "key_error \<Rightarrow> string"

definition is_dir_path :: "register_env \<Rightarrow> string list \<Rightarrow> bool" where
  "is_dir_path env p = is_some_and is_dir (rv_tree env p)"

definition account_at :: "register_env \<Rightarrow> string \<Rightarrow> account_body \<Rightarrow> account_info option" where
  "account_at env wxid body = (case opt_filter (\<lambda>p. p \<noteq> []) (ab_db_path body) of
       Some p \<Rightarrow> Some \<lparr>ai_wxid = wxid, ai_dir = [p],
         ai_db_storage = (if is_dir_path env [p, ''db_storage''] then [p, ''db_storage''] else [p]),
         ai_session_db = map_option (\<lambda>q. p # q) (Option.bind (rv_tree env [p]) find_session_db)\<rparr>
     | None \<Rightarrow> List.find (\<lambda>i. ai_wxid i = wxid) (rv_scanned env))"

definition path_strip_prefix :: "string list \<Rightarrow> string list \<Rightarrow> string list option" where
  "path_strip_prefix pre p = (if take (length pre) p = pre then Some (drop (length pre) p) else None)"

definition session_rel :: "account_info \<Rightarrow> string" where
  "session_rel info = opt_or (map_option rel_text
     (Option.bind (ai_session_db info) (path_strip_prefix (ai_db_storage info)))) ''session/session.db''"

definition key_recovery_hint :: string where
  "key_recovery_hint = utf8 [231, 150, 145, 228, 188, 188, 229, 175, 134, 233, 146, 165, 229, 183, 178,
     232, 189, 174, 230, 141, 162, 227, 128, 129, 229, 143, 130, 230, 149, 176, 232, 191, 135, 230, 156, 159,
     230, 136, 150, 32, 107, 101, 121, 32, 233, 155, 134, 228, 184, 141, 229, 133, 168, 239, 188, 154,
     232, 175, 183, 233, 135, 141, 230, 150, 176, 230, 179, 168, 229, 134, 140, 229, 185, 182, 229, 184, 166,
     229, 133, 168, 32, 107, 101, 121, 32, 233, 155, 134, 239, 188, 136, 229, 144, 171, 229, 155, 190,
     231, 137, 135, 233, 148, 174, 239, 188, 137]"

text \<open>\<open>to_lowercase\<close> of the standard library is over all of Unicode; it is the argument \<open>lower\<close>.\<close>

definition with_key_recovery_hint :: "(string \<Rightarrow> string) \<Rightarrow> string \<Rightarrow> string" where
  "with_key_recovery_hint lower message = (let
       key_like = list_ex (\<lambda>needle. contains_sub needle (lower message))
         [''hmac'', utf8 [232, 167, 163, 229, 175, 134], ''cipher'', ''sqlcipher'', ''not a database'',
          ''encrypted'', ''no key'', utf8 [229, 175, 134, 233, 146, 165]]
     in if key_like \<and> \<not> contains_sub key_recovery_hint message
        then message @ utf8 [239, 188, 136] @ key_recovery_hint @ utf8 [239, 188, 137] else message)"

definition session_hmac_text :: string where
  "session_hmac_text = ''session.db '' @ utf8 [231, 154, 132, 233, 161, 181] @ '' 1 HMAC ''
     @ utf8 [230, 160, 161, 233, 170, 140, 229, 164, 177, 232, 180, 165, 239, 188, 154]"

text \<open>The key check: page 1 of the session database, when the file can be read.\<close>

definition check_session_key :: "register_env \<Rightarrow> account_info \<Rightarrow> key_map \<Rightarrow> api_error + unit" where
  "check_session_key env info key_map = (let
       session_path = opt_or (ai_session_db info) (ai_db_storage info @ [''session'', ''session.db'']);
       rel = session_rel info
     in case key_for key_map rel of
          None \<Rightarrow> Inl (bad_request (''no key for the session database ('' @ [CHR 0x27] @ rel @ [CHR 0x27] @ ''); provide it in `keys`''))
        | Some sk \<Rightarrow> (case rv_read env session_path of
            None \<Rightarrow> Inr ()
          | Some contents \<Rightarrow> if \<not> verify_page1 (rv_crypto env) sk (take 4096 contents)
              then Inl (bad_request (session_hmac_text @ key_recovery_hint)) else Inr ()))"

definition media_keys_from :: "register_env \<Rightarrow> account_info \<Rightarrow> account_body \<Rightarrow> api_error + image_keys option" where
  "media_keys_from env info body = (case (ab_img_aes_key body, ab_img_xor_key body) of
       (Some aes, Some xk) \<Rightarrow> (case image_keys_from_parts aes xk of
            Inl e \<Rightarrow> Inl (bad_request (rv_key_error env e)) | Inr k \<Rightarrow> Inr (Some k))
     | _ \<Rightarrow> Inr (map_option (\<lambda>code. image_keys_from_img_code (rv_md5 env) (rv_hex_encode env) code (ai_wxid info))
         (ab_img_code body)))"

definition key_map_of_body :: "register_env \<Rightarrow> account_body \<Rightarrow> api_error + key_map" where
  "key_map_of_body env body = (case (case ab_key body of None \<Rightarrow> Inr None
         | Some k \<Rightarrow> map_sum id Some (parse_db_key (rv_hex_decode env) k)) of
       Inl e \<Rightarrow> Inl (bad_request (rv_key_error env e))
     | Inr key \<Rightarrow> (case key_map_from_parts (rv_hex_decode env) key (ab_keys body) of
         Inl e \<Rightarrow> Inl (bad_request (rv_key_error env e))
       | Inr m \<Rightarrow> if key_map_is_empty m
           then Inl (bad_request ''provide `key` (uniform) or `keys` (per-db map)'') else Inr m))"

definition start_account :: "register_env \<Rightarrow> account_body \<Rightarrow> ('c, 'ch) app_state
    \<Rightarrow> ('c, 'ch) app_state \<times> (api_error + bind_outcome)" where
  "start_account env body app = (case ab_wxid body of
       None \<Rightarrow> (app, Inl (bad_request ''wxid required''))
     | Some wxid \<Rightarrow> (case account_at env wxid body of
         None \<Rightarrow> (app, Inl (bad_request (''account '' @ [CHR 0x27] @ wxid @ [CHR 0x27]
           @ '' not found; check xwechat_files or pass db_path'')))
       | Some info \<Rightarrow>
         if \<not> is_dir_path env (ai_db_storage info)
         then (app, Inl (bad_request (''db_storage not found at '' @ path_text (ai_db_storage info))))
         else (case key_map_of_body env body of
           Inl e \<Rightarrow> (app, Inl e)
         | Inr key_map \<Rightarrow> (case check_session_key env info key_map of
             Inl e \<Rightarrow> (app, Inl e)
           | Inr _ \<Rightarrow> (case media_keys_from env info body of
               Inl e \<Rightarrow> (app, Inl e)
             | Inr media_keys \<Rightarrow> (case register_account info key_map media_keys app of
                 (app', out) \<Rightarrow> (app', Inr out)))))))"

section \<open>The background index task\<close>

text \<open>
  The task \<open>start_account\<close> spawns, cut where another thread can run in between: the build and its
  commit, the first look at the retirement flag, the status, the baseline, the watcher.
\<close>

datatype index_outcome = Built nat | Build_Failed string | Build_Panicked string

text \<open>The bus is lent to the engine while it runs.\<close>

definition run_engine :: "nat \<Rightarrow> (('c, 'ch bus) account_sync \<Rightarrow> ('c, 'ch bus) account_sync \<times> 'r)
    \<Rightarrow> ('c, 'ch) app_state \<Rightarrow> ('c, 'ch) app_state \<times> 'r" where
  "run_engine a f app = (case f ((ah_sync (handle_at app a))\<lparr>as_bus := ap_bus app\<rparr>) of
     (s, r) \<Rightarrow> ((on_handle a (\<lambda>h. h\<lparr>ah_sync := s\<rparr>) app)\<lparr>ap_bus := as_bus s\<rparr>, r))"

text \<open>\<open>publish_watermark_baseline\<close>: the flag is read again inside the critical section of the store.\<close>

definition publish_watermark_baseline :: "('ch \<Rightarrow> nat \<times> event \<Rightarrow> 'ch) \<Rightarrow> nat \<Rightarrow> nat \<Rightarrow> ('c, 'ch) app_state
    \<Rightarrow> ('c, 'ch) app_state \<times> bool" where
  "publish_watermark_baseline send now a app = (if ah_stopped (handle_at app a) then (app, False)
     else (app\<lparr>ap_bus := snd (publish send now
            (Sync_Event (st_watermarks (handle_store (handle_at app a)))) (ap_bus app))\<rparr>, True))"

definition mark_ready :: "nat \<Rightarrow> ('c, 'ch) app_state \<Rightarrow> ('c, 'ch) app_state" where
  "mark_ready a = on_handle a (\<lambda>h. (set_status Ready h)\<lparr>ah_error := None\<rparr>)"

definition mark_failed :: "nat \<Rightarrow> string \<Rightarrow> ('c, 'ch) app_state \<Rightarrow> ('c, 'ch) app_state" where
  "mark_failed a message = on_handle a (\<lambda>h. (set_status Error h)\<lparr>ah_error := Some message\<rparr>)"

definition start_watch :: "nat \<Rightarrow> ('c, 'ch) app_state \<Rightarrow> ('c, 'ch) app_state" where
  "start_watch a app = app\<lparr>ap_watching := a # ap_watching app\<rparr>"

definition keep_watcher :: "nat \<Rightarrow> ('c, 'ch) app_state \<Rightarrow> ('c, 'ch) app_state" where
  "keep_watcher a = on_handle a (\<lambda>h. h\<lparr>ah_watcher := Some a\<rparr>)"

definition drop_watch :: "nat \<Rightarrow> ('c, 'ch) app_state \<Rightarrow> ('c, 'ch) app_state" where
  "drop_watch a app = app\<lparr>ap_watching := removeAll a (ap_watching app)\<rparr>"

definition settle_watcher :: "nat \<Rightarrow> ('c, 'ch) app_state \<Rightarrow> ('c, 'ch) app_state" where
  "settle_watcher a app = (if ah_stopped (handle_at app a) then drop_watch a app else keep_watcher a app)"

definition failure_text :: "(string \<Rightarrow> string) \<Rightarrow> index_outcome \<Rightarrow> string" where
  "failure_text lower out = (case out of Build_Failed e \<Rightarrow> with_key_recovery_hint lower e
     | Build_Panicked e \<Rightarrow> ''index task panicked: '' @ e | Built n \<Rightarrow> [])"

text \<open>The whole tail of the task, run without interruption.\<close>

definition finish_index :: "(string \<Rightarrow> string) \<Rightarrow> ('ch \<Rightarrow> nat \<times> event \<Rightarrow> 'ch) \<Rightarrow> nat \<Rightarrow> nat \<Rightarrow> index_outcome
    \<Rightarrow> ('c, 'ch) app_state \<Rightarrow> ('c, 'ch) app_state" where
  "finish_index lower send now a out app = (if ah_stopped (handle_at app a) then app else
     (case out of
        Built n \<Rightarrow> settle_watcher a (start_watch a (fst (publish_watermark_baseline send now a (mark_ready a app))))
      | _ \<Rightarrow> mark_failed a (failure_text lower out) app))"

section \<open>Deregistration\<close>

datatype deregister_outcome = Deregistered account_status bool nat | Not_Registered
  | Wxid_Mismatch string account_status

definition export_kinds :: "string list" where
  "export_kinds = [''images'', ''voices'', ''videos'', ''emojis'']"

text \<open>Removing the exported media: \<open>rm_all\<close> is \<open>remove_dir_all\<close> with whether it succeeded.\<close>

fun purge_kinds :: "(string list \<Rightarrow> 'f \<Rightarrow> 'f \<times> bool) \<Rightarrow> string list \<Rightarrow> string list \<Rightarrow> 'f \<Rightarrow> 'f \<times> nat" where
  "purge_kinds rm_all dir [] f = (f, 0)"
| "purge_kinds rm_all dir (kind # kinds) f = (case rm_all (dir @ [kind]) f of
     (f', ok) \<Rightarrow> (case purge_kinds rm_all dir kinds f' of (f'', n) \<Rightarrow> (f'', (if ok then 1 else 0) + n)))"

fun purge_exported_media :: "(string list \<Rightarrow> 'f \<Rightarrow> 'f \<times> bool) \<Rightarrow> (string list \<Rightarrow> 'f \<Rightarrow> 'f) \<Rightarrow> string
    \<Rightarrow> string list \<Rightarrow> 'f \<Rightarrow> 'f \<times> nat" where
  "purge_exported_media rm_all rm_dir root [] f = (f, 0)"
| "purge_exported_media rm_all rm_dir root (talker # talkers) f =
     (if \<not> safe_segment talker then purge_exported_media rm_all rm_dir root talkers f
      else (case purge_kinds rm_all [root, talker] export_kinds f of
        (f', n) \<Rightarrow> (case purge_exported_media rm_all rm_dir root talkers (rm_dir [root, talker] f') of
          (f'', m) \<Rightarrow> (f'', n + m))))"

definition unbind :: "string \<Rightarrow> ('c, 'ch) app_state \<Rightarrow> ('c, 'ch) app_state \<times> (deregister_outcome + nat)" where
  "unbind wxid app = (case bound_account (ap_accounts app) of
       None \<Rightarrow> (app, Inl Not_Registered)
     | Some b \<Rightarrow> if handle_wxid (handle_at app b) \<noteq> wxid
         then (app, Inl (Wxid_Mismatch (handle_wxid (handle_at app b)) (status_of (handle_at app b))))
         else (app\<lparr>ap_accounts := hm_remove wxid (ap_accounts app)\<rparr>, Inr b))"

definition drop_index :: "nat \<Rightarrow> bool \<Rightarrow> ('c, 'ch) app_state \<Rightarrow> ('c, 'ch) app_state \<times> string list \<times> bool" where
  "drop_index a purge_media app = (let st = handle_store (handle_at app a) in
     (on_handle a (set_store store_default) app,
      if purge_media then hm_keys (st_convs st) else [], \<not> store_is_empty st))"

definition clear_bus :: "('c, 'ch) app_state \<Rightarrow> ('c, 'ch) app_state" where
  "clear_bus app = app\<lparr>ap_bus := clear_history (ap_bus app)\<rparr>"

definition publish_current :: "('ch \<Rightarrow> nat \<times> event \<Rightarrow> 'ch) \<Rightarrow> nat \<Rightarrow> ('c, 'ch) app_state \<Rightarrow> ('c, 'ch) app_state" where
  "publish_current send now app =
     app\<lparr>ap_bus := snd (publish send now (Sync_Event (current_watermarks app)) (ap_bus app))\<rparr>"

definition deregister_account :: "('ch \<Rightarrow> nat \<times> event \<Rightarrow> 'ch) \<Rightarrow> (string list \<Rightarrow> 'f \<Rightarrow> 'f \<times> bool)
    \<Rightarrow> (string list \<Rightarrow> 'f \<Rightarrow> 'f) \<Rightarrow> nat \<Rightarrow> string \<Rightarrow> bool \<Rightarrow> 'f \<Rightarrow> ('c, 'ch) app_state
    \<Rightarrow> 'f \<times> ('c, 'ch) app_state \<times> deregister_outcome" where
  "deregister_account send rm_all rm_dir now wxid purge_media f app = (case unbind wxid app of
       (app1, Inl out) \<Rightarrow> (f, app1, out)
     | (app1, Inr a) \<Rightarrow> (let
           previous = status_of (handle_at app1 a);
           (app2, talkers, index_cleared) = drop_index a purge_media (abort_watcher a (stop_handle a app1));
           app3 = publish_current send now (bump_generation (clear_bus app2));
           (f', purged) = (if purge_media then purge_exported_media rm_all rm_dir (ap_media_dir app3) talkers f else (f, 0))
         in (f', app3, Deregistered previous index_cleared purged)))"

section \<open>The registry invariant\<close>

named_theorems app_simps \<open>the fields of the application state after an operation\<close>

lemma on_handle_fields [app_simps]:
  "ap_accounts (on_handle a f app) = ap_accounts app"
  "ap_bus (on_handle a f app) = ap_bus app"
  "ap_generation (on_handle a f app) = ap_generation app"
  "ap_watching (on_handle a f app) = ap_watching app"
  "ap_discovered (on_handle a f app) = ap_discovered app"
  "ap_token (on_handle a f app) = ap_token app"
  "ap_media_dir (on_handle a f app) = ap_media_dir app"
  "length (ap_handles (on_handle a f app)) = length (ap_handles app)"
  by (simp_all add: on_handle_def)

lemma handle_at_on_handle [app_simps]:
  "b < length (ap_handles app) \<Longrightarrow>
     handle_at (on_handle a f app) b = (if b = a then f (handle_at app a) else handle_at app b)"
  by (simp add: on_handle_def nth_list_update)

lemma status_of_set [simp]: "status_of (set_status s h) = s"
  by (cases s) (simp_all add: status_of_def set_status_def)

lemma set_status_fields [simp]:
  "ah_info (set_status s h) = ah_info h" "ah_sync (set_status s h) = ah_sync h"
  "ah_stopped (set_status s h) = ah_stopped h" "ah_watcher (set_status s h) = ah_watcher h"
  by (simp_all add: set_status_def)

lemma set_store_fields [simp]:
  "ah_info (set_store st h) = ah_info h" "ah_status (set_store st h) = ah_status h"
  "ah_stopped (set_store st h) = ah_stopped h" "ah_watcher (set_store st h) = ah_watcher h"
  "as_store (ah_sync (set_store st h)) = st"
  by (simp_all add: set_store_def)

text \<open>
  At most one account is registered, under its own id, with a handle that is not retired and not
  awaiting a key; a handle holds no watch task but its own.
\<close>

definition handle_ok :: "('c, 'ch) app_state \<Rightarrow> string \<Rightarrow> nat \<Rightarrow> bool" where
  "handle_ok app w a \<longleftrightarrow> a < length (ap_handles app) \<and> handle_wxid (handle_at app a) = w
     \<and> \<not> ah_stopped (handle_at app a) \<and> status_of (handle_at app a) \<noteq> Awaiting_Key"

definition registry_ok :: "('c, 'ch) app_state \<Rightarrow> bool" where
  "registry_ok app \<longleftrightarrow> (ap_accounts app = []
     \<or> (\<exists>w a. ap_accounts app = [(w, a)] \<and> handle_ok app w a))
     \<and> (\<forall>a<length (ap_handles app). ah_watcher (handle_at app a) \<in> {None, Some a})"

lemma registry_cases:
  assumes "registry_ok app"
  obtains (empty) "ap_accounts app = []" "bound_account (ap_accounts app) = None"
  | (bound) w a where "ap_accounts app = [(w, a)]" "bound_account (ap_accounts app) = Some a" "handle_ok app w a"
  using assms by (auto simp: registry_ok_def bound_account_def hm_values_def)

lemma registry_ok_new: "registry_ok (app_new new_channel host port url media_dir token)"
  by (simp add: registry_ok_def app_new_def)

lemma registry_ok_frame:
  assumes "registry_ok app" and "ap_accounts app' = ap_accounts app"
    and "length (ap_handles app') = length (ap_handles app)"
    and "\<And>a. a < length (ap_handles app) \<Longrightarrow> ah_info (handle_at app' a) = ah_info (handle_at app a)"
    and "\<And>w a. ap_accounts app = [(w, a)] \<Longrightarrow> ah_stopped (handle_at app' a) = ah_stopped (handle_at app a)"
    and "\<And>a. a < length (ap_handles app) \<Longrightarrow> status_of (handle_at app a) \<noteq> Awaiting_Key \<Longrightarrow> status_of (handle_at app' a) \<noteq> Awaiting_Key"
    and "\<And>a. a < length (ap_handles app) \<Longrightarrow> ah_watcher (handle_at app' a) \<in> {None, Some a, ah_watcher (handle_at app a)}"
  shows "registry_ok app'"
proof -
  have w: "\<forall>a<length (ap_handles app'). ah_watcher (handle_at app' a) \<in> {None, Some a}"
    using assms(1,3,7) unfolding registry_ok_def by fastforce
  have h: "ap_accounts app = [(w, a)] \<Longrightarrow> handle_ok app w a \<Longrightarrow> handle_ok app' w a" for w a
    using assms(3-6) by (simp add: handle_ok_def)
  show ?thesis
    using assms(1,2) h w unfolding registry_ok_def by metis
qed

lemma abort_watcher_fields [app_simps]:
  "ap_accounts (abort_watcher a app) = ap_accounts app"
  "ap_bus (abort_watcher a app) = ap_bus app"
  "ap_generation (abort_watcher a app) = ap_generation app"
  "ap_discovered (abort_watcher a app) = ap_discovered app"
  "ap_token (abort_watcher a app) = ap_token app"
  "ap_media_dir (abort_watcher a app) = ap_media_dir app"
  "length (ap_handles (abort_watcher a app)) = length (ap_handles app)"
  by (simp_all add: abort_watcher_def app_simps split: option.split)

lemma handle_at_abort [app_simps]:
  "b < length (ap_handles app) \<Longrightarrow> handle_at (abort_watcher a app) b =
     (if b = a then (handle_at app a)\<lparr>ah_watcher := None\<rparr> else handle_at app b)"
  by (auto simp: abort_watcher_def app_simps split: option.split)

lemma status_of_updates [simp]:
  "status_of (h\<lparr>ah_watcher := x\<rparr>) = status_of h" "status_of (h\<lparr>ah_stopped := y\<rparr>) = status_of h"
  "status_of (h\<lparr>ah_error := e\<rparr>) = status_of h" "status_of (h\<lparr>ah_sync := z\<rparr>) = status_of h"
  "status_of (set_store st h) = status_of h"
  by (simp_all add: status_of_def set_store_def)

lemma status_of_new [simp]: "status_of (new_handle info keys media bus) = Indexing"
  by (simp add: new_handle_def status_of_def)

lemma new_handle_fields [simp]:
  "ah_info (new_handle info keys media bus) = info" "ah_stopped (new_handle info keys media bus) = False"
  "ah_watcher (new_handle info keys media bus) = None"
  "as_store (ah_sync (new_handle info keys media bus)) = store_default"
  by (simp_all add: new_handle_def account_sync_new_def)

lemma register_account_shape:
  assumes ok: "registry_ok app" and reg: "register_account info keys media app = (app', out)"
  obtains (occupied) w s p where "app' = app" "out = Occupied w s p" "w \<noteq> ai_wxid info" "hm_get (ap_accounts app) w \<noteq> None"
  | (existing) a where "app' = app" "out = Existing a" "ap_accounts app = [(ai_wxid info, a)]"
      "status_of (handle_at app a) \<in> {Ready, Indexing}"
  | (inserted) "insert_handle (new_handle info keys media (ap_bus app)) app = (app', out)"
      "bound_account (ap_accounts app) = hm_get (ap_accounts app) (ai_wxid info)"
      "bound_account (ap_accounts app) = None
       \<or> (\<exists>a. bound_account (ap_accounts app) = Some a \<and> handle_wxid (handle_at app a) = ai_wxid info)"
  using ok
proof (cases rule: registry_cases)
  case empty
  show thesis
    by (rule inserted) (use reg empty in \<open>simp_all add: register_account_def Let_def\<close>)
next
  case (bound w a)
  from bound(3) have w: "handle_wxid (handle_at app a) = w" by (simp add: handle_ok_def)
  consider "w \<noteq> ai_wxid info" | "w = ai_wxid info" "status_of (handle_at app a) \<in> {Ready, Indexing}"
    | "w = ai_wxid info" "status_of (handle_at app a) \<notin> {Ready, Indexing}" by blast
  then show thesis
  proof cases
    case 1
    show thesis by (rule occupied) (use 1 reg bound w in \<open>auto simp: register_account_def Let_def\<close>)
  next
    case 2
    show thesis by (rule existing) (use 2 reg bound w in \<open>auto simp: register_account_def Let_def\<close>)
  next
    case 3
    show thesis by (rule inserted) (use 3 reg bound w in \<open>auto simp: register_account_def Let_def\<close>)
  qed
qed

text \<open>What a registration leaves: the new handle, and the previous one of the same id retired.\<close>

lemma insert_handle_result:
  assumes ok: "registry_ok app"
    and free: "bound_account (ap_accounts app) = None
      \<or> (\<exists>a. bound_account (ap_accounts app) = Some a \<and> handle_wxid (handle_at app a) = handle_wxid h)"
    and h: "\<not> ah_stopped h" "status_of h \<noteq> Awaiting_Key" "ah_watcher h = None"
    and ins: "insert_handle h app = (app', out)"
  shows "out = Bound (length (ap_handles app)) \<and> registry_ok app'
    \<and> ap_accounts app' = [(handle_wxid h, length (ap_handles app))]
    \<and> length (ap_handles app') = Suc (length (ap_handles app))
    \<and> handle_at app' (length (ap_handles app)) = h
    \<and> (\<forall>b<length (ap_handles app). handle_at app' b =
         (if bound_account (ap_accounts app) = Some b
          then (handle_at app b)\<lparr>ah_stopped := True, ah_watcher := None\<rparr> else handle_at app b))
    \<and> ap_bus app' = ap_bus app \<and> ap_generation app' = ap_generation app
    \<and> set (ap_watching app') \<subseteq> set (ap_watching app)"
  using ok
proof (cases rule: registry_cases)
  case empty
  with ins ok h show ?thesis
    by (auto simp: insert_handle_def Let_def registry_ok_def handle_ok_def nth_append less_Suc_eq) blast
next
  case (bound w a)
  with free have w: "w = handle_wxid h" by (auto simp: handle_ok_def)
  from bound(3) have a: "a < length (ap_handles app)" by (simp add: handle_ok_def)
  let ?n = "length (ap_handles app)"
  let ?app1 = "app\<lparr>ap_handles := ap_handles app @ [h], ap_accounts := [(handle_wxid h, ?n)]\<rparr>"
  have app': "app' = abort_watcher a (stop_handle a ?app1)" and out: "out = Bound ?n"
    using ins by (simp_all add: insert_handle_def Let_def bound(1) w hm_insert_def)
  have at: "handle_at app' b = (if b = a then (handle_at app a)\<lparr>ah_stopped := True, ah_watcher := None\<rparr>
      else (ap_handles app @ [h]) ! b)" if "b < Suc ?n" for b
    using that a by (simp add: app' stop_handle_def app_simps nth_append)
  have acc: "ap_accounts app' = [(handle_wxid h, ?n)]" "length (ap_handles app') = Suc ?n"
    "ap_bus app' = ap_bus app" "ap_generation app' = ap_generation app"
    "set (ap_watching app') \<subseteq> set (ap_watching app)"
    by (auto simp add: app' stop_handle_def app_simps abort_watcher_def split: option.split)
  have "registry_ok app'"
    using ok h a acc at by (auto simp: registry_ok_def handle_ok_def nth_append less_Suc_eq)
  then show ?thesis using out acc at a bound(2) by (auto simp: nth_append)
qed

text \<open>
  Registration: a different account that holds the binding refuses it and is left untouched; the
  same account, ready or indexing, is answered without a change; otherwise the new handle is the only
  registered one, indexing, with an empty store, and a failed predecessor is retired.
\<close>

theorem register_account_binds:
  assumes ok: "registry_ok app" and reg: "register_account info keys media app = (app', out)"
  shows "case out of
      Occupied w s p \<Rightarrow> app' = app \<and> w \<noteq> ai_wxid info \<and> hm_get (ap_accounts app) w \<noteq> None
    | Existing a \<Rightarrow> app' = app \<and> ap_accounts app = [(ai_wxid info, a)] \<and> status_of (handle_at app a) \<in> {Ready, Indexing}
    | Bound a \<Rightarrow> registry_ok app' \<and> a = length (ap_handles app) \<and> ap_accounts app' = [(ai_wxid info, a)]
        \<and> status_of (handle_at app' a) = Indexing \<and> handle_store (handle_at app' a) = store_default
        \<and> (\<forall>b<a. handle_at app' b = (if hm_get (ap_accounts app) (ai_wxid info) = Some b
             then (handle_at app b)\<lparr>ah_stopped := True, ah_watcher := None\<rparr> else handle_at app b))
        \<and> ap_bus app' = ap_bus app \<and> ap_generation app' = ap_generation app"
  using ok reg
proof (cases rule: register_account_shape)
  case inserted
  have "out = Bound (length (ap_handles app))"
    using insert_handle_result [OF ok _ _ _ _ inserted(1)] inserted(3) by simp
  then show ?thesis
    using insert_handle_result [OF ok _ _ _ _ inserted(1)] inserted(2,3) by simp
qed simp_all

definition demo_info :: "string \<Rightarrow> account_info" where
  "demo_info w = \<lparr>ai_wxid = w, ai_dir = [w], ai_db_storage = [w, ''db_storage''], ai_session_db = None\<rparr>"

definition demo_app :: "(nat, nat list) app_state" where
  "demo_app = app_new (\<lambda>_. []) ''127.0.0.1'' 8080 None ''/media'' ''secret''"

theorem register_account_binds_witness:
  "let r1 = register_account (demo_info ''wxid_a'') Empty None demo_app;
       r2 = register_account (demo_info ''wxid_b'') Empty None (fst r1)
   in ap_accounts (fst r1) = [(''wxid_a'', 0)] \<and> fst r2 = fst r1"
proof -
  let ?r1 = "register_account (demo_info ''wxid_a'') Empty None demo_app"
  have ok: "registry_ok demo_app" unfolding demo_app_def by (rule registry_ok_new)
  have o1: "snd ?r1 = Bound 0" by code_simp
  have f1: "registry_ok (fst ?r1)" "ap_accounts (fst ?r1) = [(''wxid_a'', 0)]"
    using register_account_binds [OF ok prod.collapse [symmetric, of ?r1]] unfolding o1
    by (simp_all add: demo_info_def)
  let ?r2 = "register_account (demo_info ''wxid_b'') Empty None (fst ?r1)"
  have o2: "snd ?r2 = Occupied ''wxid_a'' Indexing (Some \<lparr>pd_messages_indexed = 0, pd_tables_done = 0, pd_tables_total = 0\<rparr>)"
    by code_simp
  have "fst ?r2 = fst ?r1"
    using register_account_binds [OF f1(1) prod.collapse [symmetric, of ?r2]] unfolding o2 by simp
  with f1(2) show ?thesis by (simp add: Let_def)
qed

section \<open>Deregistration resets the server\<close>

text \<open>The removals go only below safe talker names and to the four export directories.\<close>

lemma purge_kinds_cong:
  assumes "\<And>k f. k \<in> set ks \<Longrightarrow> rm (dir @ [k]) f = rm' (dir @ [k]) f"
  shows "purge_kinds rm dir ks f = purge_kinds rm' dir ks f"
  using assms by (induction ks arbitrary: f) simp_all

lemma purge_kinds_count: "snd (purge_kinds rm dir ks f) \<le> length ks"
  by (induction ks arbitrary: f) (simp_all add: split_beta le_SucI)

lemma purge_cong:
  assumes "\<And>t k f. t \<in> set ts \<Longrightarrow> safe_segment t \<Longrightarrow> k \<in> set export_kinds \<Longrightarrow> rm [root, t, k] f = rm' [root, t, k] f"
    and "\<And>t f. t \<in> set ts \<Longrightarrow> safe_segment t \<Longrightarrow> rmd [root, t] f = rmd' [root, t] f"
  shows "purge_exported_media rm rmd root ts f = purge_exported_media rm' rmd' root ts f"
  using assms
proof (induction ts arbitrary: f)
  case (Cons t ts)
  then have ih: "purge_exported_media rm rmd root ts g = purge_exported_media rm' rmd' root ts g" for g by simp
  show ?case
  proof (cases "safe_segment t")
    case True
    have k: "purge_kinds rm [root, t] export_kinds f = purge_kinds rm' [root, t] export_kinds f"
      by (rule purge_kinds_cong) (use Cons.prems(1) True in simp)
    show ?thesis using True ih Cons.prems(2) by (simp add: k)
  qed (use ih in simp)
qed simp

lemma history_clear_append:
  "snd (append now ev (clear h)) = \<lparr>items = [\<lparr>hi_id = last_id h + 1, hi_at = now, hi_event = ev\<rparr>], last_id = last_id h + 1\<rparr>"
  by (simp add: append_def clear_def Let_def history_max_def)

lemma bound_account_sound: "registry_ok app \<Longrightarrow> bound_account (ap_accounts app) = Some a \<Longrightarrow>
    ap_accounts app = [(handle_wxid (handle_at app a), a)] \<and> handle_ok app (handle_wxid (handle_at app a)) a"
  by (erule registry_cases) (auto simp: handle_ok_def)

definition reset_history :: "nat \<Rightarrow> 'ch bus \<Rightarrow> event history_buf" where
  "reset_history now b = \<lparr>items = [\<lparr>hi_id = last_id (history b) + 1, hi_at = now, hi_event = Sync_Event []\<rparr>],
     last_id = last_id (history b) + 1\<rparr>"

text \<open>What the steps of a deregistration after the unbinding make of the state.\<close>

lemma torn_down:
  assumes a: "a < length (ap_handles app)"
    and app': "app' = publish_current send now (bump_generation (clear_bus (on_handle a (set_store store_default)
      (abort_watcher a (stop_handle a (app\<lparr>ap_accounts := []\<rparr>))))))"
  shows "b < length (ap_handles app) \<Longrightarrow> handle_at app' b = (if b = a
      then set_store store_default ((handle_at app a)\<lparr>ah_stopped := True, ah_watcher := None\<rparr>) else handle_at app b)"
    and "length (ap_handles app') = length (ap_handles app)" and "ap_accounts app' = []"
    and "ap_generation app' = ap_generation app + 1" and "ap_discovered app' = ap_discovered app"
    and "history (ap_bus app') = reset_history now (ap_bus app)"
proof -
  let ?app2 = "on_handle a (set_store store_default) (abort_watcher a (stop_handle a (app\<lparr>ap_accounts := []\<rparr>)))"
  have hs: "ap_handles app' = ap_handles ?app2"
    by (simp add: app' publish_current_def bump_generation_def clear_bus_def app_simps stop_handle_def)
  show "b < length (ap_handles app) \<Longrightarrow> handle_at app' b = (if b = a
      then set_store store_default ((handle_at app a)\<lparr>ah_stopped := True, ah_watcher := None\<rparr>) else handle_at app b)"
    and "length (ap_handles app') = length (ap_handles app)"
    using a by (simp_all add: hs app_simps stop_handle_def)
  show "ap_accounts app' = []" and "ap_generation app' = ap_generation app + 1" and "ap_discovered app' = ap_discovered app"
    by (simp_all add: app' publish_current_def bump_generation_def clear_bus_def app_simps stop_handle_def)
  have wm: "current_watermarks (bump_generation (clear_bus ?app2)) = []"
    by (simp add: current_watermarks_def bump_generation_def clear_bus_def app_simps stop_handle_def hm_values_def)
  show "history (ap_bus app') = reset_history now (ap_bus app)"
    unfolding app' publish_current_def wm
    by (simp add: publish_def split_beta clear_bus_def bump_generation_def clear_history_def history_clear_append
        app_simps stop_handle_def reset_history_def)
qed

text \<open>
  C16. Deregistration: with no account, or another one bound, nothing is touched, the files
  included. Otherwise the account is gone: every request is answered 503, its handle is retired
  with an empty index and no watcher, the replay buffer holds exactly the empty baseline under the next
  number, the generation has moved on, and without the purge flag no file is removed.
\<close>

theorem deregister_account_resets:
  assumes ok: "registry_ok app"
    and d: "deregister_account send rm_all rm_dir now wxid purge f app = (f', app', out)"
  shows "case out of
      Not_Registered \<Rightarrow> f' = f \<and> app' = app \<and> ap_accounts app = []
    | Wxid_Mismatch w s \<Rightarrow> f' = f \<and> app' = app \<and> w \<noteq> wxid \<and> hm_get (ap_accounts app) w \<noteq> None
    | Deregistered prev cleared n \<Rightarrow> (\<exists>a. ap_accounts app = [(wxid, a)] \<and> prev = status_of (handle_at app a)
        \<and> (cleared \<longleftrightarrow> \<not> store_is_empty (handle_store (handle_at app a)))
        \<and> ah_stopped (handle_at app' a) \<and> ah_watcher (handle_at app' a) = None
        \<and> handle_store (handle_at app' a) = store_default
        \<and> registry_ok app' \<and> (\<forall>params. ready_account app' params = Inl (service_unavailable not_registered_text))
        \<and> history (ap_bus app') = reset_history now (ap_bus app)
        \<and> ap_generation app' = ap_generation app + 1 \<and> ap_discovered app' = ap_discovered app
        \<and> (purge \<or> f' = f \<and> n = 0))"
  using ok
proof (cases rule: registry_cases)
  case empty
  with d show ?thesis by (auto simp: deregister_account_def unbind_def)
next
  case (bound w a)
  from bound(3) have a: "a < length (ap_handles app)" "handle_wxid (handle_at app a) = w"
    by (simp_all add: handle_ok_def)
  show ?thesis
  proof (cases "w = wxid")
    case False
    with d bound a show ?thesis by (auto simp: deregister_account_def unbind_def)
  next
    case True
    have ub: "unbind wxid app = (app\<lparr>ap_accounts := []\<rparr>, Inr a)"
      using bound a True by (simp add: unbind_def)
    have app': "app' = publish_current send now (bump_generation (clear_bus (on_handle a (set_store store_default)
        (abort_watcher a (stop_handle a (app\<lparr>ap_accounts := []\<rparr>))))))"
      and "\<exists>n. out = Deregistered (status_of (handle_at app a))
          (\<not> store_is_empty (handle_store (handle_at app a))) n \<and> (purge \<or> f' = f \<and> n = 0)"
      using d a by (auto simp: deregister_account_def ub drop_index_def Let_def app_simps stop_handle_def split: prod.splits if_splits)
    then obtain n where n: "out = Deregistered (status_of (handle_at app a)) (\<not> store_is_empty (handle_store (handle_at app a))) n"
      "purge \<or> f' = f \<and> n = 0" by blast
    note down = torn_down [OF a(1) app']
    have ready: "ready_account app' params = Inl (service_unavailable not_registered_text)" for params
      by (simp add: ready_account_def down(3) bound_account_def hm_values_def split: option.split)
    have reg: "registry_ok app'" using ok down by (auto simp: registry_ok_def)
    have top: "ah_stopped (handle_at app' a)" "ah_watcher (handle_at app' a) = None"
      "handle_store (handle_at app' a) = store_default"
      using down(1) [OF a(1)] by simp_all
    show ?thesis
      unfolding n(1) deregister_outcome.case
      using bound(1) True top reg ready down(4-6) n(2) by blast
  qed
qed

theorem deregister_account_resets_witness:
  "let app = fst (register_account (demo_info ''wxid_a'') Empty None demo_app);
       d = deregister_account (\<lambda>ch e. ch @ [fst e]) (\<lambda>p f. (f @ [p], True)) (\<lambda>p f. f) 7 ''wxid_a'' True [] app;
       e = deregister_account (\<lambda>ch e. ch @ [fst e]) (\<lambda>p f. (f @ [p], True)) (\<lambda>p f. f) 7 ''wxid_b'' True [] app
   in ap_accounts (fst (snd d)) = [] \<and> ap_generation (fst (snd d)) = 2
      \<and> ready_account (fst (snd d)) [] = Inl (service_unavailable not_registered_text)
      \<and> fst (snd e) = app"
proof -
  let ?r = "register_account (demo_info ''wxid_a'') Empty None demo_app"
  let ?s = "\<lambda>ch e. ch @ [fst e]" and ?m = "\<lambda>p f. (f @ [p], True)"
  have ok0: "registry_ok demo_app" unfolding demo_app_def by (rule registry_ok_new)
  have ok: "registry_ok (fst ?r)" and g: "ap_generation (fst ?r) = 1"
  proof -
    have "fst ?r = fst (insert_handle (new_handle (demo_info ''wxid_a'') Empty None (ap_bus demo_app)) demo_app)"
      by code_simp
    moreover have "bound_account (ap_accounts demo_app) = None" by code_simp
    ultimately show "registry_ok (fst ?r)"
      using insert_handle_result [OF ok0 _ _ _ _ prod.collapse [symmetric]] by simp
    show "ap_generation (fst ?r) = 1" by code_simp
  qed
  let ?d = "deregister_account ?s ?m (\<lambda>p f. f) 7 ''wxid_a'' True [] (fst ?r)"
  let ?e = "deregister_account ?s ?m (\<lambda>p f. f) 7 ''wxid_b'' True [] (fst ?r)"
  have od: "snd (snd ?d) = Deregistered Indexing False 0" by code_simp
  have oe: "snd (snd ?e) = Wxid_Mismatch ''wxid_a'' Indexing" by code_simp
  have d: "?d = (fst ?d, fst (snd ?d), snd (snd ?d))" and e: "?e = (fst ?e, fst (snd ?e), snd (snd ?e))" by simp_all
  have 1: "ready_account (fst (snd ?d)) [] = Inl (service_unavailable not_registered_text)
      \<and> ap_generation (fst (snd ?d)) = 2"
    using deregister_account_resets [OF ok d] unfolding od by (auto simp: g)
  have 2: "fst (snd ?e) = fst ?r"
    using deregister_account_resets [OF ok e] unfolding oe by simp
  have 3: "ap_accounts (fst (snd ?d)) = []" by code_simp
  from 1 2 3 show ?thesis by (simp add: Let_def)
qed

end
