(* ===== verification/Lifecycle.thy ===== *)
theory Lifecycle
  imports Accounts
begin

text \<open>
  The life of accounts under interleaving (\<open>src/server/mod.rs\<close> with \<open>src/sync/mod.rs\<close>).
  Registration and the removal from the registry are single critical sections. Everything else
  is an activity: the background index task, a poll, or the rest of a deregistration, cut into the
  stages between which other threads can run (a lock released, a flag read and acted on later).
  The stages apply the definitions of \<open>Accounts\<close> and \<open>Sync\<close>; what the environment decides
  at a stage (the databases of a build, what a poll read, the clock) is the record \<open>choice\<close>.
\<close>

section \<open>Activities\<close>

record lib =
  lib_dec :: "bytes \<Rightarrow> bytes option"
  lib_md5_hex :: "string \<Rightarrow> string"
  lib_hex :: "bytes \<Rightarrow> string"
  lib_f64 :: "string \<Rightarrow> f64 option"
  lib_lower :: "string \<Rightarrow> string"

record 'c choice =
  ch_env :: "'c sync_env"
  ch_read :: "'c read_state"
  ch_work :: "work list"
  ch_now :: nat
  ch_panic :: "string option"

datatype ('c, 'ch) activity =
    Building nat
  | Installing nat "('c, 'ch bus) account_sync" nat
  | Checking nat index_outcome
  | Marking nat
  | Failing nat index_outcome
  | Baselining nat
  | Spawning nat
  | Settling nat
  | Keeping nat
  | Polling nat
  | Reloading nat "work list"
  | Loading nat work "work list"
  | Stopping nat bool
  | Aborting nat bool
  | Dropping nat bool
  | Clearing
  | Bumping
  | Reading
  | Sending "(string \<times> watermark) list"

text \<open>The account whose own task it is, and the account that is being torn down.\<close>

fun owner :: "('c, 'ch) activity \<Rightarrow> nat option" where
  "owner (Building a) = Some a"
| "owner (Installing a s n) = Some a"
| "owner (Checking a r) = Some a"
| "owner (Marking a) = Some a"
| "owner (Failing a r) = Some a"
| "owner (Baselining a) = Some a"
| "owner (Spawning a) = Some a"
| "owner (Settling a) = Some a"
| "owner (Keeping a) = Some a"
| "owner (Polling a) = Some a"
| "owner (Reloading a ws) = Some a"
| "owner (Loading a w ws) = Some a"
| "owner t = None"

fun torn_down :: "('c, 'ch) activity \<Rightarrow> nat option" where
  "torn_down (Stopping a p) = Some a"
| "torn_down (Aborting a p) = Some a"
| "torn_down (Dropping a p) = Some a"
| "torn_down t = None"

definition engine_is :: "nat \<Rightarrow> ('c, 'ch bus) account_sync \<Rightarrow> ('c, 'ch) app_state \<Rightarrow> ('c, 'ch) app_state" where
  "engine_is a s = on_handle a (\<lambda>h. h\<lparr>ah_sync := s\<rparr>)"

definition build_result :: "lib \<Rightarrow> 'c choice \<Rightarrow> nat \<Rightarrow> ('c, 'ch) app_state \<Rightarrow> ('c, 'ch bus) account_sync \<times> nat" where
  "build_result l c a app = (let h = handle_at app a in
     full_sync (lib_dec l) (lib_md5_hex l) (lib_hex l) (lib_f64 l)
       ((ch_env c)\<lparr>se_stopped_apply := ah_stopped h\<rparr>) (ah_sync h))"

text \<open>
  One stage. The build reads the flag and installs later; the applying half of a poll reads it
  under the lock it writes under; a reload reads it before it takes the lock.
\<close>

fun act :: "lib \<Rightarrow> ('ch \<Rightarrow> nat \<times> event \<Rightarrow> 'ch) \<Rightarrow> 'c choice \<Rightarrow> ('c, 'ch) activity \<Rightarrow> ('c, 'ch) app_state
    \<Rightarrow> ('c, 'ch) app_state \<times> ('c, 'ch) activity list" where
  "act l send c (Building a) app = (case ch_panic c of
       Some e \<Rightarrow> (app, [Checking a (Build_Panicked e)])
     | None \<Rightarrow> (case build_result l c a app of (s, n) \<Rightarrow>
         if ah_stopped (handle_at app a) then (engine_is a s app, [Checking a (Built n)])
         else (app, [Installing a s n])))"
| "act l send c (Installing a s n) app = (engine_is a s app, [Checking a (Built n)])"
| "act l send c (Checking a out) app = (if ah_stopped (handle_at app a) then (app, [])
     else (app, [case out of Built n \<Rightarrow> Marking a | _ \<Rightarrow> Failing a out]))"
| "act l send c (Marking a) app = (mark_ready a app, [Baselining a])"
| "act l send c (Failing a out) app = (mark_failed a (failure_text (lib_lower l) out) app, [])"
| "act l send c (Baselining a) app = (fst (publish_watermark_baseline send (ch_now c) a app), [Spawning a])"
| "act l send c (Spawning a) app = (start_watch a app, [Settling a])"
| "act l send c (Settling a) app = (if ah_stopped (handle_at app a) then (drop_watch a app, []) else (app, [Keeping a]))"
| "act l send c (Keeping a) app = (keep_watcher a app, [])"
| "act l send c (Polling a) app = (if ah_stopped (handle_at app a) then (app, [])
     else (case apply_phase (\<lambda>e b. snd (publish send (ch_now c) e b)) (ch_read c)
             (handle_store (handle_at app a)) (ap_bus app) of
       (st, bus, _, _) \<Rightarrow> ((on_handle a (set_store st) app)\<lparr>ap_bus := bus\<rparr>, [Reloading a (ch_work c)])))"
| "act l send c (Reloading a []) app =
     (on_handle a (\<lambda>h. set_store (mark_index_built (se_now_ms (ch_env c)) (handle_store h)) h) app, [])"
| "act l send c (Reloading a (w # ws)) app = (if ah_stopped (handle_at app a) then (app, []) else (app, [Loading a w ws]))"
| "act l send c (Loading a w ws) app = (let s = ah_sync (handle_at app a) in
     case reload_item (lib_f64 l) (lib_hex l) (ch_env c) (as_keys s) w (as_pool s, as_store s) of
       (pool, st) \<Rightarrow> (engine_is a (s\<lparr>as_pool := pool, as_store := st\<rparr>) app, [Reloading a ws]))"
| "act l send c (Stopping a p) app = (stop_handle a app, [Aborting a p])"
| "act l send c (Aborting a p) app = (abort_watcher a app, [Dropping a p])"
| "act l send c (Dropping a p) app = (fst (drop_index a p app), [Clearing])"
| "act l send c Clearing app = (clear_bus app, [Bumping])"
| "act l send c Bumping app = (bump_generation app, [Reading])"
| "act l send c Reading app = (app, [Sending (current_watermarks app)])"
| "act l send c (Sending wms) app =
     (app\<lparr>ap_bus := snd (publish send (ch_now c) (Sync_Event wms) (ap_bus app))\<rparr>, [])"

section \<open>Steps\<close>

type_synonym ('c, 'ch) config = "('c, 'ch) app_state \<times> ('c, 'ch) activity list"

text \<open>The label of a step is the account whose task moved.\<close>

inductive step :: "lib \<Rightarrow> ('ch \<Rightarrow> nat \<times> event \<Rightarrow> 'ch) \<Rightarrow> ('c, 'ch) config \<Rightarrow> nat option \<Rightarrow> ('c, 'ch) config \<Rightarrow> bool"
  for l :: lib and send :: "'ch \<Rightarrow> nat \<times> event \<Rightarrow> 'ch" where
  register: "register_account info keys media app = (app', out) \<Longrightarrow>
     step l send (app, ts) None (app', (case out of Bound a \<Rightarrow> [Building a] | _ \<Rightarrow> []) @ ts)"
| deregister: "unbind wxid app = (app', Inr a) \<Longrightarrow> step l send (app, ts) None (app', Stopping a p # ts)"
| poll: "a \<in> set (ap_watching app) \<Longrightarrow> step l send (app, ts) (Some a) (app, Polling a # ts)"
| move: "act l send c t app = (app', ts') \<Longrightarrow> step l send (app, xs @ t # ys) (owner t) (app', xs @ ts' @ ys)"

inductive reachable :: "lib \<Rightarrow> ('ch \<Rightarrow> nat \<times> event \<Rightarrow> 'ch) \<Rightarrow> ('c, 'ch) app_state \<Rightarrow> ('c, 'ch) config \<Rightarrow> bool"
  for l :: lib and send :: "'ch \<Rightarrow> nat \<times> event \<Rightarrow> 'ch" and app0 :: "('c, 'ch) app_state" where
  boot: "reachable l send app0 (app0, [])"
| onward: "reachable l send app0 s \<Longrightarrow> step l send s who t \<Longrightarrow> reachable l send app0 t"

inductive_cases stepE: "step l send s who t"


section \<open>The invariant\<close>

lemma act_frame:
  assumes "act l send c t app = (app', ts')"
    and "\<And>a. owner t = Some a \<or> torn_down t = Some a \<Longrightarrow> a < length (ap_handles app)"
  shows "ap_accounts app' = ap_accounts app \<and> length (ap_handles app') = length (ap_handles app)
    \<and> (\<forall>b<length (ap_handles app). ah_info (handle_at app' b) = ah_info (handle_at app b)
        \<and> (ah_stopped (handle_at app' b) \<longleftrightarrow> ah_stopped (handle_at app b) \<or> (\<exists>p. t = Stopping b p))
        \<and> (status_of (handle_at app b) \<noteq> Awaiting_Key \<longrightarrow> status_of (handle_at app' b) \<noteq> Awaiting_Key)
        \<and> ah_watcher (handle_at app' b) \<in> {None, Some b, ah_watcher (handle_at app b)})"
  using assms
  by (cases "(l, send, c, t, app)" rule: act.cases)
    (auto simp: app_simps engine_is_def mark_ready_def mark_failed_def start_watch_def drop_watch_def keep_watcher_def
      stop_handle_def drop_index_def clear_bus_def bump_generation_def publish_watermark_baseline_def Let_def
      split: option.splits prod.splits if_splits)


lemma act_continues:
  assumes "act l send c t app = (app', ts')" and "t' \<in> set ts'"
  shows "(owner t' = None \<or> owner t' = owner t) \<and> (torn_down t' = None \<or> torn_down t' = torn_down t)"
  using assms
  by (cases "(l, send, c, t, app)" rule: act.cases)
    (auto simp: Let_def split: option.splits prod.splits if_splits index_outcome.splits)

lemma act_watching:
  assumes "act l send c t app = (app', ts')"
  shows "set (ap_watching app') \<subseteq> set (ap_watching app) \<union> {a. owner t = Some a}"
  using assms
  by (cases "(l, send, c, t, app)" rule: act.cases)
    (auto simp: app_simps engine_is_def mark_ready_def mark_failed_def start_watch_def drop_watch_def keep_watcher_def
      abort_watcher_def stop_handle_def drop_index_def clear_bus_def bump_generation_def publish_watermark_baseline_def Let_def
      split: option.splits prod.splits if_splits)

text \<open>The heart of it: a task of a retired account leaves the bus as it found it.\<close>

lemma act_bus_owner:
  assumes "act l send c t app = (app', ts')" and "owner t = Some a" and "ah_stopped (handle_at app a)"
  shows "ap_bus app' = ap_bus app"
  using assms
  by (cases "(l, send, c, t, app)" rule: act.cases)
    (auto simp: app_simps engine_is_def mark_ready_def mark_failed_def start_watch_def drop_watch_def keep_watcher_def
      publish_watermark_baseline_def Let_def split: option.splits prod.splits if_splits)

definition life_inv :: "('c, 'ch) config \<Rightarrow> bool" where
  "life_inv s \<longleftrightarrow> registry_ok (fst s)
     \<and> (\<forall>t\<in>set (snd s). \<forall>a. owner t = Some a \<or> torn_down t = Some a \<longrightarrow> a < length (ap_handles (fst s)))
     \<and> (\<forall>t\<in>set (snd s). \<forall>a. torn_down t = Some a \<longrightarrow> a \<notin> snd ` set (ap_accounts (fst s)))
     \<and> (\<forall>a\<in>set (ap_watching (fst s)). a < length (ap_handles (fst s)))"

lemma life_inv_boot: "life_inv (app_new new_channel host port url media_dir token, [])"
  by (simp add: life_inv_def registry_ok_new) (simp add: app_new_def)

lemma register_cases:
  assumes "registry_ok app" and "register_account info keys media app = (app', out)"
  obtains (same) "app' = app" "\<And>a. out \<noteq> Bound a"
  | (fresh) "out = Bound (length (ap_handles app))" "registry_ok app'"
      "ap_accounts app' = [(ai_wxid info, length (ap_handles app))]"
      "length (ap_handles app') = Suc (length (ap_handles app))" "set (ap_watching app') \<subseteq> set (ap_watching app)"
      "\<And>b. b < length (ap_handles app) \<Longrightarrow> ah_stopped (handle_at app b) \<Longrightarrow> ah_stopped (handle_at app' b)"
      "ap_bus app' = ap_bus app"
  using assms
proof (cases rule: register_account_shape)
  case inserted
  note r = insert_handle_result [OF assms(1) _ _ _ _ inserted(1)]
  show thesis by (rule fresh) (use r inserted(3) in \<open>auto simp: handle_ok_def registry_ok_def\<close>)
qed (use same in simp_all)


lemma unbind_bound:
  assumes "registry_ok app" and "unbind wxid app = (app', Inr a)"
  shows "ap_accounts app = [(wxid, a)]" "app' = app\<lparr>ap_accounts := []\<rparr>" "handle_ok app wxid a"
  using assms
  by (auto elim!: registry_cases simp: unbind_def handle_ok_def split: if_splits)

lemma life_invD:
  assumes "life_inv (app, ts)" and "t \<in> set ts"
  shows "owner t = Some a \<Longrightarrow> a < length (ap_handles app)" "torn_down t = Some a \<Longrightarrow> a < length (ap_handles app)"
    "torn_down t = Some a \<Longrightarrow> a \<notin> snd ` set (ap_accounts app)"
  using assms by (auto simp: life_inv_def)

lemma life_inv_act:
  assumes inv: "life_inv (app, xs @ t # ys)" and act: "act l send c t app = (app', ts')"
  shows "life_inv (app', xs @ ts' @ ys)"
proof -
  have in_range: "a < length (ap_handles app)" if "owner t = Some a \<or> torn_down t = Some a" for a
    using that life_invD [OF inv, of t] by auto
  note fr = act_frame [OF act in_range]
  have acc: "ap_accounts app' = ap_accounts app" and len: "length (ap_handles app') = length (ap_handles app)"
    using fr by blast+
  have "registry_ok app'"
  proof (rule registry_ok_frame [OF _ acc len])
    show "registry_ok app" using inv by (simp add: life_inv_def)
    fix w a assume one: "ap_accounts app = [(w, a)]"
    then have "a < length (ap_handles app)"
      using inv by (auto simp: life_inv_def registry_ok_def handle_ok_def)
    moreover have "t \<noteq> Stopping a p" for p
      using one life_invD(3) [OF inv, of t a] by auto
    ultimately show "ah_stopped (handle_at app' a) = ah_stopped (handle_at app a)" using fr by blast
  qed (use fr in blast)+
  moreover have "\<forall>a. owner t' = Some a \<or> torn_down t' = Some a \<longrightarrow> a < length (ap_handles app')"
    "\<forall>a. torn_down t' = Some a \<longrightarrow> a \<notin> snd ` set (ap_accounts app')" if "t' \<in> set (xs @ ts' @ ys)" for t'
  proof -
    have "t' \<in> set ts' \<or> t' \<in> set (xs @ t # ys)" using that by auto
    then have "(\<forall>a. owner t' = Some a \<or> torn_down t' = Some a \<longrightarrow> a < length (ap_handles app'))
      \<and> (\<forall>a. torn_down t' = Some a \<longrightarrow> a \<notin> snd ` set (ap_accounts app'))"
    proof
      assume 1: "t' \<in> set ts'"
      have "t \<in> set (xs @ t # ys)" by simp
      note d = life_invD [OF inv this]
      show ?thesis using act_continues [OF act 1] d unfolding acc len by (metis option.distinct(1))
    next
      assume 2: "t' \<in> set (xs @ t # ys)"
      with life_invD [OF inv 2] show ?thesis by (auto simp: acc len)
    qed
    then show "\<forall>a. owner t' = Some a \<or> torn_down t' = Some a \<longrightarrow> a < length (ap_handles app')"
      "\<forall>a. torn_down t' = Some a \<longrightarrow> a \<notin> snd ` set (ap_accounts app')" by blast+
  qed
  moreover have "\<forall>a\<in>set (ap_watching app'). a < length (ap_handles app')"
    using act_watching [OF act] in_range inv by (auto simp: life_inv_def len)
  ultimately show ?thesis by (simp add: life_inv_def)
qed

lemma step_inv:
  assumes "step l send s who t" and "life_inv s"
  shows "life_inv t"
  using assms(1)
proof (cases rule: step.cases)
  case (register info keys media app app' out ts)
  have ok: "registry_ok app" using assms(2) by (simp add: life_inv_def register(1))
  from ok register(4) show ?thesis
  proof (cases rule: register_cases)
    case same
    then have "(case out of Bound a \<Rightarrow> [Building a] | _ \<Rightarrow> []) @ ts = ts" by (simp add: same(2) split: bind_outcome.split)
    with same(1) assms(2) show ?thesis by (simp add: register)
  next
    case fresh
    have "t' \<in> set ts \<Longrightarrow> owner t' = Some a \<or> torn_down t' = Some a \<Longrightarrow> a < length (ap_handles app)" for t' a
      using assms(2) unfolding register(1) life_inv_def by auto
    moreover have "a \<in> set (ap_watching app') \<Longrightarrow> a < Suc (length (ap_handles app))" for a
      using fresh(5) assms(2) unfolding register(1) life_inv_def by fastforce
    ultimately show ?thesis
      using fresh(1-4) unfolding register(3) life_inv_def by (fastforce simp: less_Suc_eq)
  qed
next
  case (deregister wxid app app' a ts p)
  have ok: "registry_ok app" using assms(2) by (simp add: life_inv_def deregister(1))
  note u = unbind_bound [OF ok deregister(4)]
  show ?thesis
    using assms(2) u ok by (auto simp: deregister(1,3) life_inv_def registry_ok_def handle_ok_def)
next
  case (poll a app ts)
  then show ?thesis using assms(2) by (auto simp: life_inv_def)
next
  case (move c t' app app' ts' xs ys)
  show ?thesis
    using assms(2) life_inv_act [OF _ move(4)] by (simp add: move)
qed

lemma reachable_inv: "reachable l send app0 s \<Longrightarrow> life_inv (app0, []) \<Longrightarrow> life_inv s"
  by (induction rule: reachable.induct) (auto intro: step_inv)


section \<open>What holds in every interleaving\<close>

text \<open>A schedule drives the machine to a chosen state; it is how the concrete runs below are given.\<close>

datatype 'c directive = Do_Register string | Do_Deregister string | Do_Poll nat | Do_Move nat "'c choice"

fun exec :: "lib \<Rightarrow> ('ch \<Rightarrow> nat \<times> event \<Rightarrow> 'ch) \<Rightarrow> 'c directive \<Rightarrow> ('c, 'ch) config \<Rightarrow> ('c, 'ch) config" where
  "exec l send (Do_Register w) (app, ts) = (case register_account (demo_info w) Empty None app of
     (app', out) \<Rightarrow> (app', (case out of Bound a \<Rightarrow> [Building a] | _ \<Rightarrow> []) @ ts))"
| "exec l send (Do_Deregister w) (app, ts) = (case unbind w app of
     (app', Inr a) \<Rightarrow> (app', Stopping a False # ts) | _ \<Rightarrow> (app, ts))"
| "exec l send (Do_Poll a) (app, ts) = (if a \<in> set (ap_watching app) then (app, Polling a # ts) else (app, ts))"
| "exec l send (Do_Move i c) (app, ts) = (if i < length ts then (case act l send c (ts ! i) app of
     (app', ts') \<Rightarrow> (app', take i ts @ ts' @ drop (Suc i) ts)) else (app, ts))"

lemma exec_step: "exec l send d s = s \<or> (\<exists>who. step l send s who (exec l send d s))"
proof (cases "(l, send, d, s)" rule: exec.cases)
  case (1 l' send' w app ts)
  then show ?thesis by (auto split: prod.split intro!: step.register)
next
  case (2 l' send' w app ts)
  then show ?thesis by (auto split: prod.split sum.split intro: step.deregister)
next
  case (3 l' send' a app ts)
  then show ?thesis by (auto intro: step.poll)
next
  case (4 l' send' i c app ts)
  show ?thesis
  proof (cases "i < length ts")
    case True
    obtain app' ts' where r: "act l send c (ts ! i) app = (app', ts')" by fastforce
    have "step l send (app, take i ts @ ts ! i # drop (Suc i) ts) (owner (ts ! i)) (app', take i ts @ ts' @ drop (Suc i) ts)"
      by (rule step.move [OF r])
    with True r 4 show ?thesis by (simp add: id_take_nth_drop [symmetric]) blast
  qed (use 4 in simp)
qed

lemma schedule_reachable: "reachable l send app0 s \<Longrightarrow> reachable l send app0 (fold (exec l send) ds s)"
proof (induction ds arbitrary: s)
  case (Cons d ds)
  have "reachable l send app0 (exec l send d s)"
    using exec_step [of l send d s] Cons.prems by (auto intro: reachable.onward)
  then show ?case using Cons.IH by simp
qed simp

definition demo_lib :: lib where
  "demo_lib = \<lparr>lib_dec = (\<lambda>_. None), lib_md5_hex = id, lib_hex = (\<lambda>_. []), lib_f64 = (\<lambda>_. None), lib_lower = id\<rparr>"

definition demo_choice :: "nat choice" where
  "demo_choice = \<lparr>ch_env = \<lparr>se_files = [], se_stamp = (\<lambda>_. None), se_stamp_after = (\<lambda>_. None),
       se_open = (\<lambda>_ _. Inr 0), se_version = (\<lambda>_. None), se_version_after = (\<lambda>_. None), se_db = (\<lambda>_ _ _. None),
       se_now_ms = Some 5, se_stopped_start = False, se_stopped_apply = False, se_stopped_reload = (\<lambda>_. False)\<rparr>,
     ch_read = \<lparr>rs_pool = pool_new, rs_new = [],
       rs_watermarks = [(''k'', \<lparr>wm_create_time = 3, wm_sort_seq = 2, wm_local_id = 1\<rparr>)], rs_revoke = [], rs_done = []\<rparr>,
     ch_work = [], ch_now = 0, ch_panic = None\<rparr>"

definition demo_send :: "nat list \<Rightarrow> nat \<times> event \<Rightarrow> nat list" where
  "demo_send ch e = ch @ [fst e]"

definition moves :: "nat \<Rightarrow> nat directive list" where
  "moves n = replicate n (Do_Move 0 demo_choice)"

definition demo_run :: "nat directive list \<Rightarrow> (nat, nat list) config" where
  "demo_run ds = fold (exec demo_lib demo_send) ds (demo_app, [])"

lemma demo_reachable: "reachable demo_lib demo_send demo_app (demo_run ds)"
  unfolding demo_run_def by (rule schedule_reachable) (rule reachable.boot)

text \<open>
  C7. In every reachable state, whatever the threads did, at most one account is registered, under
  its own id; a request that is answered is answered from a handle that is registered, ready and
  not retired.
\<close>

theorem one_live_account:
  assumes "reachable l send (app_new new_channel host port url media_dir token) s"
  shows "length (ap_accounts (fst s)) \<le> 1
    \<and> (case ready_account (fst s) params of Inl e \<Rightarrow> ae_status e = 503
       | Inr a \<Rightarrow> (\<exists>w. ap_accounts (fst s) = [(w, a)] \<and> handle_wxid (handle_at (fst s) a) = w
            \<and> is_none_or (\<lambda>q. q = w) (hm_get params ''wxid''))
          \<and> status_of (handle_at (fst s) a) = Ready \<and> \<not> ah_stopped (handle_at (fst s) a))"
proof -
  from reachable_inv [OF assms life_inv_boot] have "registry_ok (fst s)" by (simp add: life_inv_def)
  then show ?thesis
  proof (cases rule: registry_cases)
    case empty
    then show ?thesis by (auto simp: ready_account_def service_unavailable_def split: option.split)
  next
    case (bound w a)
    then show ?thesis
      by (auto simp: ready_account_def service_unavailable_def handle_ok_def is_ready_def is_none_or_def split: option.splits)
  qed
qed

theorem one_live_account_witness:
  "let s = demo_run (Do_Register ''wxid_a'' # moves 8) in
     ready_account (fst s) [] = Inr 0 \<and> status_of (handle_at (fst s) 0) = Ready \<and> \<not> ah_stopped (handle_at (fst s) 0)"
proof -
  let ?s = "demo_run (Do_Register ''wxid_a'' # moves 8)"
  have r: "ready_account (fst ?s) [] = Inr 0" by code_simp
  show ?thesis
    using one_live_account [OF demo_reachable [unfolded demo_app_def], of "Do_Register ''wxid_a'' # moves 8" "[]"] r
    by (simp add: Let_def)
qed


text \<open>Runs with a log: who moved, and the bus before and after.\<close>

inductive run :: "lib \<Rightarrow> ('ch \<Rightarrow> nat \<times> event \<Rightarrow> 'ch) \<Rightarrow> ('c, 'ch) config
    \<Rightarrow> (nat option \<times> 'ch bus \<times> 'ch bus) list \<Rightarrow> ('c, 'ch) config \<Rightarrow> bool"
  for l :: lib and send :: "'ch \<Rightarrow> nat \<times> event \<Rightarrow> 'ch" where
  idle: "run l send s [] s"
| go: "step l send s who t \<Longrightarrow> run l send t log u \<Longrightarrow> run l send s ((who, ap_bus (fst s), ap_bus (fst t)) # log) u"

definition retired :: "nat \<Rightarrow> ('c, 'ch) config \<Rightarrow> bool" where
  "retired a s \<longleftrightarrow> a < length (ap_handles (fst s)) \<and> ah_stopped (handle_at (fst s) a)"

lemma retired_not_registered: "life_inv s \<Longrightarrow> retired a s \<Longrightarrow> a \<notin> set (hm_values (ap_accounts (fst s)))"
  by (auto simp: life_inv_def registry_ok_def handle_ok_def retired_def hm_values_def)

lemma step_retired:
  assumes "step l send s who t" and inv: "life_inv s" and ret: "retired a s"
  shows "retired a t \<and> (who = Some a \<longrightarrow> ap_bus (fst t) = ap_bus (fst s))"
  using assms(1)
proof (cases rule: step.cases)
  case (register info keys media app app' out ts)
  have ok: "registry_ok app" using inv by (simp add: life_inv_def register(1))
  from ok register(4) show ?thesis
  proof (cases rule: register_cases)
    case same
    with ret show ?thesis by (simp add: register retired_def)
  next
    case fresh
    with ret show ?thesis by (simp add: register retired_def)
  qed
next
  case (deregister wxid app app' b ts p)
  have ok: "registry_ok app" using inv by (simp add: life_inv_def deregister(1))
  with unbind_bound [OF ok deregister(4)] ret show ?thesis by (simp add: deregister retired_def)
next
  case (poll b app ts)
  with ret show ?thesis by (simp add: retired_def)
next
  case (move c t' app app' ts' xs ys)
  have range: "owner t' = Some b \<or> torn_down t' = Some b \<Longrightarrow> b < length (ap_handles app)" for b
    using life_invD [OF inv [unfolded move(1)], of t'] by auto
  from act_frame [OF move(4) range] act_bus_owner [OF move(4)] ret show ?thesis
    by (simp add: move retired_def)
qed

lemma run_retired:
  assumes "run l send s log t" and "life_inv s" and "retired a s"
  shows "retired a t \<and> life_inv t \<and> list_all (\<lambda>(who, b, b'). who \<noteq> Some a \<or> b' = b) log"
  using assms
proof (induction rule: run.induct)
  case (go s who t log u)
  have "life_inv t" using step_inv [OF go.hyps(1) go.prems(1)] .
  with step_retired [OF go.hyps(1) go.prems] go.IH show ?case by auto
qed simp

lemma exec_run: "\<exists>log. run l send s log (fold (exec l send) ds s)"
proof (induction ds arbitrary: s)
  case (Cons d ds)
  then obtain log where log: "run l send (exec l send d s) log (fold (exec l send) ds (exec l send d s))" by blast
  show ?case using exec_step [of l send d s]
  proof
    assume "exec l send d s = s"
    with log show ?thesis by auto
  next
    assume "\<exists>who. step l send s who (exec l send d s)"
    with log show ?thesis by (auto intro: run.go)
  qed
qed (auto intro: run.idle)



text \<open>
  C35. What the flag checks outside the store lock leave open, each with the run that reaches it: after
  everything has ended and nothing is registered, the store of a retired account can hold an index
  again, its watch task can still run, and the last event of the replay buffer can be a baseline with
  watermarks of an account that was deregistered.
\<close>

theorem teardown_races:
  "(\<exists>s. reachable demo_lib demo_send demo_app s \<and> snd s = [] \<and> ap_accounts (fst s) = []
      \<and> retired 0 s \<and> handle_store (handle_at (fst s) 0) \<noteq> store_default)
   \<and> (\<exists>s. reachable demo_lib demo_send demo_app s \<and> snd s = [] \<and> ap_accounts (fst s) = []
      \<and> retired 0 s \<and> 0 \<in> set (ap_watching (fst s)))
   \<and> (\<exists>s w. reachable demo_lib demo_send demo_app s \<and> snd s = [] \<and> ap_accounts (fst s) = []
      \<and> map hi_event (items (history (ap_bus (fst s)))) = [Sync_Event [], Sync_Event [(''k'', w)]])"
proof -
  let ?index = "[Do_Register ''wxid_a''] @ moves 1 @ [Do_Deregister ''wxid_a''] @ moves 9"
  let ?watch = "[Do_Register ''wxid_a''] @ moves 7 @ [Do_Deregister ''wxid_a''] @ moves 8"
  let ?ghost = "[Do_Register ''wxid_a'', Do_Deregister ''wxid_a''] @ moves 5 @ [Do_Register ''wxid_b''] @ moves 8
    @ [Do_Poll 1] @ moves 2 @ moves 1 @ [Do_Deregister ''wxid_b''] @ moves 7 @ moves 3"
  let ?w = "\<lparr>wm_create_time = 3, wm_sort_seq = 2, wm_local_id = 1\<rparr>"
  have 1: "snd (demo_run ?index) = [] \<and> ap_accounts (fst (demo_run ?index)) = [] \<and> retired 0 (demo_run ?index)"
    "st_my_wxid (handle_store (handle_at (fst (demo_run ?index)) 0)) = ''wxid_a''" by code_simp+
  have 2: "snd (demo_run ?watch) = [] \<and> ap_accounts (fst (demo_run ?watch)) = [] \<and> retired 0 (demo_run ?watch)
    \<and> ap_watching (fst (demo_run ?watch)) = [0]" by code_simp
  have 3: "snd (demo_run ?ghost) = [] \<and> ap_accounts (fst (demo_run ?ghost)) = []
    \<and> map hi_event (items (history (ap_bus (fst (demo_run ?ghost))))) = [Sync_Event [], Sync_Event [(''k'', ?w)]]"
    by code_simp
  have "handle_store (handle_at (fst (demo_run ?index)) 0) \<noteq> store_default"
    using 1(2) by (auto simp: store_default_def)
  with 1 have a: "snd (demo_run ?index) = [] \<and> ap_accounts (fst (demo_run ?index)) = []
    \<and> retired 0 (demo_run ?index) \<and> handle_store (handle_at (fst (demo_run ?index)) 0) \<noteq> store_default" by blast
  have b: "0 \<in> set (ap_watching (fst (demo_run ?watch)))" using 2 by simp
  note r = demo_reachable
  show ?thesis
  proof (intro conjI)
    show "\<exists>s. reachable demo_lib demo_send demo_app s \<and> snd s = [] \<and> ap_accounts (fst s) = []
        \<and> retired 0 s \<and> handle_store (handle_at (fst s) 0) \<noteq> store_default"
      using r [of ?index] a by blast
    show "\<exists>s. reachable demo_lib demo_send demo_app s \<and> snd s = [] \<and> ap_accounts (fst s) = []
        \<and> retired 0 s \<and> 0 \<in> set (ap_watching (fst s))"
      using r [of ?watch] 2 b by blast
    show "\<exists>s w. reachable demo_lib demo_send demo_app s \<and> snd s = [] \<and> ap_accounts (fst s) = []
        \<and> map hi_event (items (history (ap_bus (fst s)))) = [Sync_Event [], Sync_Event [(''k'', w)]]"
    proof (intro exI conjI)
      show "reachable demo_lib demo_send demo_app (demo_run ?ghost)" by (rule r)
      show "snd (demo_run ?ghost) = []" using 3 by (rule conjunct1)
      show "ap_accounts (fst (demo_run ?ghost)) = []" using 3 by (elim conjE)
      show "map hi_event (items (history (ap_bus (fst (demo_run ?ghost))))) = [Sync_Event [], Sync_Event [(''k'', ?w)]]"
        using 3 by (elim conjE)
    qed
  qed
qed

section \<open>Uninterrupted, the stages are the functions\<close>

fun drive :: "lib \<Rightarrow> ('ch \<Rightarrow> nat \<times> event \<Rightarrow> 'ch) \<Rightarrow> 'c choice \<Rightarrow> nat \<Rightarrow> ('c, 'ch) config \<Rightarrow> ('c, 'ch) config" where
  "drive l send c (Suc n) (app, t # ts) = (case act l send c t app of (app', ts') \<Rightarrow> drive l send c n (app', ts' @ ts))"
| "drive l send c n s = s"

text \<open>
  Run without interruption, the stages of the index task and of the teardown compute exactly
  what the sequential functions compute: the interleaving only adds what other threads do in between.
\<close>

theorem stages_are_the_functions:
  assumes u: "unbind wxid app = (app1, Inr b)"
  shows "drive l send c 6 (app', [Checking a out]) = (finish_index (lib_lower l) send (ch_now c) a out app', [])
    \<and> drive l send c 7 (app1, [Stopping b p])
       = (fst (snd (deregister_account send rm_all rm_dir (ch_now c) wxid p f app)), [])"
proof

  have six: "(6::nat) = Suc (Suc (Suc (Suc (Suc (Suc 0)))))" and seven: "(7::nat) = Suc (Suc (Suc (Suc (Suc (Suc (Suc 0))))))"
    by simp_all
  show "drive l send c 6 (app', [Checking a out]) = (finish_index (lib_lower l) send (ch_now c) a out app', [])"
    unfolding six finish_index_def settle_watcher_def by (cases out) simp_all
  show "drive l send c 7 (app1, [Stopping b p])
       = (fst (snd (deregister_account send rm_all rm_dir (ch_now c) wxid p f app)), [])"
    unfolding seven deregister_account_def u
    by (simp add: publish_current_def drop_index_def Let_def split_beta)
qed

theorem stages_are_the_functions_witness:
  "let app = fst (demo_run (Do_Register ''wxid_a'' # moves 8)) in
     drive demo_lib demo_send demo_choice 7 (fst (unbind ''wxid_a'' app), [Stopping 0 False])
       = (fst (snd (deregister_account demo_send (\<lambda>p f. (f, True)) (\<lambda>p f. f) 0 ''wxid_a'' False () app)), [])"
proof -
  let ?app = "fst (demo_run (Do_Register ''wxid_a'' # moves 8))"
  have "snd (unbind ''wxid_a'' ?app) = Inr 0" by code_simp
  then have u: "unbind ''wxid_a'' ?app = (fst (unbind ''wxid_a'' ?app), Inr 0)" by (metis prod.collapse)
  have now: "ch_now demo_choice = 0" by (simp add: demo_choice_def)
  show ?thesis
    using stages_are_the_functions [OF u, of demo_lib demo_send demo_choice ?app 0 "Built 0" False "\<lambda>p f. (f, True)" "\<lambda>p f. f" "()"]
    by (simp only: Let_def now)
qed

end
