(* ===== verification/Account_Api.thy ===== *)
theory Account_Api
  imports Accounts
begin

text \<open>
  The account endpoints (\<open>src/server/handlers/accounts.rs\<close>) with their response records
  (\<open>src/server/dto.rs\<close>). A response is the record that is serialised; \<open>parse_body\<close> is the
  JSON deserialisation of the request body (serde), \<open>show_json\<close> the rendering of a JSON value.
\<close>

section \<open>Responses\<close>

record account_conflict =
  ac_occupied_by :: string
  ac_occupied_status :: account_status
  ac_progress :: "index_progress_dto option"
  ac_state :: string
  ac_success :: bool
  ac_wxid :: string

record account_registered =
  ar_db_storage :: string
  ar_progress :: "index_progress_dto option"
  ar_state :: string
  ar_status :: account_status
  ar_success :: bool
  ar_wxid :: string

record account_deregistered =
  ad_index_cleared :: bool
  ad_previous_status :: account_status
  ad_purged_dirs :: nat
  ad_purged_media :: bool
  ad_state :: string
  ad_success :: bool
  ad_wxid :: string

record account_not_registered =
  an_index_cleared :: bool
  an_purged_dirs :: nat
  an_purged_media :: bool
  an_state :: string
  an_success :: bool
  an_wxid :: string

record account_wxid_mismatch =
  aw_index_cleared :: bool
  aw_occupied_by :: string
  aw_occupied_status :: account_status
  aw_purged_dirs :: nat
  aw_purged_media :: bool
  aw_state :: string
  aw_success :: bool
  aw_wxid :: string

record accounts_list =
  al_accounts :: "account_state_view list"
  al_success :: bool

datatype register_reply = Conflict account_conflict | Registered account_registered

datatype delete_reply = Removed account_deregistered | Nothing_Registered account_not_registered
  | Mismatch account_wxid_mismatch

section \<open>Registration\<close>

definition body_from_params :: "params \<Rightarrow> account_body" where
  "body_from_params params = \<lparr>ab_wxid = hm_get params ''wxid'', ab_key = hm_get params ''key'', ab_keys = None,
     ab_img_code = hm_get params ''img_code'', ab_img_aes_key = hm_get params ''img_aes_key'',
     ab_img_xor_key = hm_get params ''img_xor_key'', ab_db_path = hm_get params ''db_path''\<rparr>"

definition conflict_reply :: "string \<Rightarrow> account_status \<Rightarrow> index_progress_dto option \<Rightarrow> string \<Rightarrow> register_reply" where
  "conflict_reply by s p wxid = Conflict \<lparr>ac_occupied_by = by, ac_occupied_status = s, ac_progress = p,
     ac_state = ''account_conflict'', ac_success = True, ac_wxid = wxid\<rparr>"

definition registered_reply :: "('c, 'ch) account_handle \<Rightarrow> string \<Rightarrow> register_reply" where
  "registered_reply h state_name = Registered \<lparr>ar_db_storage = path_text (ai_db_storage (ah_info h)),
     ar_progress = indexing_progress h, ar_state = state_name, ar_status = status_of h,
     ar_success = True, ar_wxid = handle_wxid h\<rparr>"

definition register_handler :: "(json \<Rightarrow> string) \<Rightarrow> (json \<Rightarrow> string + account_body) \<Rightarrow> register_env \<Rightarrow> params
    \<Rightarrow> string option \<Rightarrow> json option \<Rightarrow> ('c, 'ch) app_state \<Rightarrow> ('c, 'ch) app_state \<times> (api_error + register_reply)" where
  "register_handler show_json parse_body env query authorization raw_body app = (let
       params = merge_params show_json query raw_body
     in case require_auth (ap_token app) params authorization of Inl e \<Rightarrow> (app, Inl e) | Inr _ \<Rightarrow>
       (case (case raw_body of Some v \<Rightarrow> parse_body v | None \<Rightarrow> Inr (body_from_params params)) of
          Inl e \<Rightarrow> (app, Inl (bad_request (''invalid body: '' @ e)))
        | Inr body \<Rightarrow> (case opt_filter (\<lambda>s. s \<noteq> []) (ab_wxid body) of
            None \<Rightarrow> (app, Inl (bad_request ''wxid required''))
          | Some wxid_in \<Rightarrow>
             (let start = (case start_account env body app of
                  (app', Inl e) \<Rightarrow> (app', Inl e)
                | (app', Inr (Bound h)) \<Rightarrow> (app', Inr (registered_reply (handle_at app' h) ''accepted''))
                | (app', Inr (Existing h)) \<Rightarrow> (app', Inr (registered_reply (handle_at app' h)
                    (if is_ready (status_of (handle_at app' h)) then ''already_ready'' else ''in_progress'')))
                | (app', Inr (Occupied w s p)) \<Rightarrow> (app', Inr (conflict_reply w s p wxid_in)))
              in case bound_account (ap_accounts app) of
                 None \<Rightarrow> start
               | Some b \<Rightarrow> (let h = handle_at app b in
                   if handle_wxid h \<noteq> wxid_in
                   then (app, Inr (conflict_reply (handle_wxid h) (status_of h) (indexing_progress h) wxid_in))
                   else (case status_of h of
                       Ready \<Rightarrow> (app, Inr (registered_reply h ''already_ready''))
                     | Indexing \<Rightarrow> (app, Inr (registered_reply h ''in_progress''))
                     | _ \<Rightarrow> start))))))"

definition list_handler :: "params \<Rightarrow> string option \<Rightarrow> ('c, 'ch) app_state \<Rightarrow> api_error + accounts_list" where
  "list_handler query authorization app = (case require_auth (ap_token app) query authorization of
       Inl e \<Rightarrow> Inl e
     | Inr _ \<Rightarrow> Inr \<lparr>al_accounts = account_views app, al_success = True\<rparr>)"

definition delete_reply_of :: "string \<Rightarrow> bool \<Rightarrow> deregister_outcome \<Rightarrow> delete_reply" where
  "delete_reply_of wxid purge_media out = (case out of
       Deregistered previous index_cleared purged_dirs \<Rightarrow> Removed \<lparr>ad_index_cleared = index_cleared,
         ad_previous_status = previous, ad_purged_dirs = purged_dirs, ad_purged_media = purge_media,
         ad_state = ''deregistered'', ad_success = True, ad_wxid = wxid\<rparr>
     | Not_Registered \<Rightarrow> Nothing_Registered \<lparr>an_index_cleared = False, an_purged_dirs = 0,
         an_purged_media = False, an_state = ''not_registered'', an_success = True, an_wxid = wxid\<rparr>
     | Wxid_Mismatch occupied_by status \<Rightarrow> Mismatch \<lparr>aw_index_cleared = False, aw_occupied_by = occupied_by,
         aw_occupied_status = status, aw_purged_dirs = 0, aw_purged_media = False, aw_state = ''wxid_mismatch'',
         aw_success = True, aw_wxid = wxid\<rparr>)"

definition delete_handler :: "(json \<Rightarrow> string) \<Rightarrow> ('ch \<Rightarrow> nat \<times> event \<Rightarrow> 'ch) \<Rightarrow> (string list \<Rightarrow> 'f \<Rightarrow> 'f \<times> bool)
    \<Rightarrow> (string list \<Rightarrow> 'f \<Rightarrow> 'f) \<Rightarrow> nat \<Rightarrow> string \<Rightarrow> params \<Rightarrow> string option \<Rightarrow> json option \<Rightarrow> 'f
    \<Rightarrow> ('c, 'ch) app_state \<Rightarrow> 'f \<times> ('c, 'ch) app_state \<times> (api_error + delete_reply)" where
  "delete_handler show_json send rm_all rm_dir now wxid query authorization body f app = (let
       params = merge_params show_json query body
     in case require_auth (ap_token app) params authorization of Inl e \<Rightarrow> (f, app, Inl e) | Inr _ \<Rightarrow>
       if wxid = [] then (f, app, Inl (bad_request ''wxid required''))
       else (let purge_media = flex_bool params ''purge_media''
         in case deregister_account send rm_all rm_dir now wxid purge_media f app of
           (f', app', out) \<Rightarrow> (f', app', Inr (delete_reply_of wxid purge_media out))))"

section \<open>Properties\<close>

text \<open>What \<open>start_account\<close> can do to the state: bind the named account, or nothing.\<close>

definition newly_bound :: "('c, 'ch) app_state \<Rightarrow> ('c, 'ch) app_state \<Rightarrow> string \<Rightarrow> nat \<Rightarrow> bool" where
  "newly_bound app app' w a \<longleftrightarrow> ap_accounts app' = [(w, a)] \<and> handle_wxid (handle_at app' a) = w
     \<and> status_of (handle_at app' a) = Indexing \<and> (ap_accounts app = [] \<or> map fst (ap_accounts app) = [w])"

lemma account_at_wxid: "account_at env w body = Some i \<Longrightarrow> ai_wxid i = w"
  by (auto simp: account_at_def find_Some_iff split: option.splits)

lemma register_account_state:
  assumes ok: "registry_ok app" and r: "register_account i k m app = (app', out)"
  shows "case out of Bound a \<Rightarrow> newly_bound app app' (ai_wxid i) a | _ \<Rightarrow> app' = app"
  using ok r
proof (cases rule: register_account_shape)
  case inserted
  note res = insert_handle_result [OF ok _ _ _ _ inserted(1)]
  have "ap_accounts app = [] \<or> map fst (ap_accounts app) = [ai_wxid i]"
    using ok inserted(3) by (auto elim!: registry_cases simp: handle_ok_def)
  moreover have "out = Bound (length (ap_handles app)) \<and> ap_accounts app' = [(ai_wxid i, length (ap_handles app))]
      \<and> handle_at app' (length (ap_handles app)) = new_handle i k m (ap_bus app)"
    using res inserted(3) by simp
  ultimately show ?thesis by (simp add: newly_bound_def)
qed simp_all

lemma start_account_state:
  assumes ok: "registry_ok app" and s: "start_account env body app = (app', r)"
  shows "case r of Inr (Bound a) \<Rightarrow> newly_bound app app' (opt_or (ab_wxid body) []) a | _ \<Rightarrow> app' = app"
proof -
  consider "app' = app" "\<forall>a. r \<noteq> Inr (Bound a)"
    | i k m out where "register_account i k m app = (app', out)" "r = Inr out" "ab_wxid body = Some (ai_wxid i)"
    using s unfolding start_account_def
    by (auto split: option.splits if_splits sum.splits prod.splits dest: account_at_wxid)
  then show ?thesis
  proof cases
    case 1
    then show ?thesis by (auto split: sum.split bind_outcome.split)
  next
    case 2
    with register_account_state [OF ok 2(1)] show ?thesis by (cases out) simp_all
  qed
qed

text \<open>
  C23. The registration endpoint changes the state only for an authorised request that names an account,
  while no other account is bound, and then the answer is \<open>accepted\<close> with the account indexing; every
  other answer (an error, a conflict, \<open>already_ready\<close>, \<open>in_progress\<close>) leaves the state untouched.
\<close>

theorem register_handler_changes_only_on_accept:
  assumes ok: "registry_ok app"
    and h: "register_handler show_json parse_body env query auth body app = (app', r)"
  shows "app' = app \<or> require_auth (ap_token app) (merge_params show_json query body) auth = Inr ()
      \<and> (\<exists>w a. newly_bound app app' w a \<and> r = Inr (registered_reply (handle_at app' a) ''accepted''))"
proof (cases "require_auth (ap_token app) (merge_params show_json query body) auth")
  case (Inl e)
  with h show ?thesis by (simp add: register_handler_def Let_def)
next
  case (Inr u)
  have start: "app1 = app \<or> (\<exists>w a. newly_bound app app1 w a \<and> q = Inr (registered_reply (handle_at app1 a) ''accepted''))"
    if "(case start_account env b app of
                  (app', Inl e) \<Rightarrow> (app', Inl e)
                | (app', Inr (Bound h)) \<Rightarrow> (app', Inr (registered_reply (handle_at app' h) ''accepted''))
                | (app', Inr (Existing h)) \<Rightarrow> (app', Inr (registered_reply (handle_at app' h)
                    (if is_ready (status_of (handle_at app' h)) then ''already_ready'' else ''in_progress'')))
                | (app', Inr (Occupied w s p)) \<Rightarrow> (app', Inr (conflict_reply w s p wxid_in))) = (app1, q)" for b wxid_in app1 q
    using that start_account_state [OF ok, of env b]
    by (cases "start_account env b app") (fastforce split: sum.splits bind_outcome.splits)
  show ?thesis
    using h Inr start unfolding register_handler_def Let_def
    by (auto split: sum.splits option.splits if_splits account_status.splits)
qed


definition register_demo_env :: register_env where
  "register_demo_env = \<lparr>rv_tree = (\<lambda>p. if p = [''/x'', ''db_storage''] then Some (Dir None []) else None), rv_scanned = [],
     rv_read = (\<lambda>_. None), rv_crypto = xor_crypto, rv_hex_decode = (\<lambda>_. Some (replicate 32 0)),
     rv_md5 = id, rv_hex_encode = lower_hex, rv_key_error = (\<lambda>_. [])\<rparr>"

definition demo_query :: "string \<Rightarrow> params" where
  "demo_query w = [(''access_token'', ''secret''), (''wxid'', w), (''db_path'', ''/x''), (''key'', replicate 64 (CHR ''0''))]"

theorem register_handler_changes_only_on_accept_witness:
  "let r1 = register_handler (\<lambda>_. []) (\<lambda>_. Inl []) register_demo_env (demo_query ''wxid_a'') None None demo_app;
       r2 = register_handler (\<lambda>_. []) (\<lambda>_. Inl []) register_demo_env (demo_query ''wxid_b'') None None (fst r1)
   in ap_accounts (fst r1) = [(''wxid_a'', 0)] \<and> fst r2 = fst r1"
proof -
  let ?r1 = "register_handler (\<lambda>_. []) (\<lambda>_. Inl []) register_demo_env (demo_query ''wxid_a'') None None demo_app"
  let ?r2 = "register_handler (\<lambda>_. []) (\<lambda>_. Inl []) register_demo_env (demo_query ''wxid_b'') None None (fst ?r1)"
  have ok: "registry_ok demo_app" unfolding demo_app_def by (rule registry_ok_new)
  have n1: "ap_accounts (fst ?r1) = [(''wxid_a'', 0)]" "length (ap_handles (fst ?r1)) = 1"
    "\<not> ah_stopped (handle_at (fst ?r1) 0)" "ah_watcher (handle_at (fst ?r1) 0) = None"
    "status_of (handle_at (fst ?r1) 0) = Indexing" "handle_wxid (handle_at (fst ?r1) 0) = ''wxid_a''" by code_simp+
  then have ok1: "registry_ok (fst ?r1)" by (simp add: registry_ok_def handle_ok_def)
  have r2: "case snd ?r2 of Inr (Conflict c) \<Rightarrow> True | _ \<Rightarrow> False" by code_simp
  have "fst ?r2 = fst ?r1"
    using register_handler_changes_only_on_accept [OF ok1 prod.collapse [symmetric, of ?r2]] r2
    by (auto simp: registered_reply_def)
  with n1(1) show ?thesis by (simp add: Let_def)
qed

end
