(* ===== verification/Media_Export.thy ===== *)
theory Media_Export
  imports Sync Dat Pathsafe
begin

text \<open>
  The media export of \<open>src/media/export.rs\<close>: finding the source file of a message's media,
  decrypting and checking it, writing it under the export root, and the handles under which it is
  served. The disk is a map from paths (component lists) to contents; directory listings, the
  outcome of each file operation, the auxiliary databases, MD5, AES and the external converter are
  the record \<open>export_env\<close>. Writing may fail and leave anything in the temporary file.
\<close>

section \<open>The world\<close>

type_synonym disk = "string list \<Rightarrow> bytes option"

record export_env =
  xe_read_dir :: "string list \<Rightarrow> (string \<times> bool) list option"
  xe_mkdir :: "string list \<Rightarrow> bool"
  xe_write :: "string list \<Rightarrow> bytes \<Rightarrow> bytes option \<times> bool"
  xe_rename :: "string list \<Rightarrow> string list \<Rightarrow> bool"
  xe_row :: "string \<Rightarrow> (string \<Rightarrow> string \<Rightarrow> string option) option"
  xe_voice :: "(int \<Rightarrow> bytes option list option) list"
  xe_md5_hex :: "bytes \<Rightarrow> string"
  xe_block :: "bytes \<Rightarrow> bytes \<Rightarrow> bytes"
  xe_png :: "bytes \<Rightarrow> bytes option"

definition is_file_at :: "disk \<Rightarrow> string list \<Rightarrow> bool" where
  "is_file_at d p \<longleftrightarrow> d p \<noteq> None"

section \<open>Names and handles\<close>

definition exported_media_url :: "string \<Rightarrow> string" where
  "exported_media_url file_name = ''/api/v1/media/'' @ file_name"

definition file_stem :: "string \<Rightarrow> string" where
  "file_stem name = (case rsplit_once (CHR ''.'') name of Some (s, _) \<Rightarrow> s | None \<Rightarrow> name)"

definition name_is_content_digest :: "string \<Rightarrow> bool" where
  "name_is_content_digest name \<longleftrightarrow> (let stem = file_stem name in
     length stem = 32 \<and> list_all is_ascii_hexdigit stem)"

record export_ctx =
  cx_account_dir :: "string list"
  cx_export_dir :: "string list"
  cx_media_keys :: "image_keys option"

record exported_media =
  em_file_name :: string
  em_kind_dir :: string
  em_local_path :: "string list"
  em_external_url :: "string option"
  em_digest_named :: bool

definition starts_bytes :: "bytes \<Rightarrow> bytes \<Rightarrow> bool" where
  "starts_bytes p d \<longleftrightarrow> take (length p) d = p"

definition jpg_magic :: bytes where "jpg_magic = [0xFF, 0xD8, 0xFF]"
definition png_magic :: bytes where "png_magic = 0x89 # as_bytes ''PNG''"

definition sniff_image_ext :: "bytes \<Rightarrow> string" where
  "sniff_image_ext d = (if starts_bytes (as_bytes ''wxgf'') d then ''wxgf''
     else if starts_bytes jpg_magic d then ''jpg''
     else if starts_bytes png_magic d then ''png''
     else if starts_bytes (as_bytes ''GIF8'') d then ''gif''
     else if length d > 12 \<and> slice 0 4 d = as_bytes ''RIFF'' \<and> slice 8 12 d = as_bytes ''WEBP'' then ''webp''
     else if starts_bytes (as_bytes ''BM'') d then ''bmp''
     else ''bin'')"

text \<open>The converter's output counts only when it is a PNG.\<close>

definition wxgf_to_png :: "export_env \<Rightarrow> bytes \<Rightarrow> bytes option" where
  "wxgf_to_png env d = opt_filter (starts_bytes png_magic) (xe_png env d)"

section \<open>Finding files\<close>

text \<open>Depth-bounded search for a file name, stopping at four hits.\<close>

fun walk_find :: "(string list \<Rightarrow> (string \<times> bool) list option) \<Rightarrow> string \<Rightarrow> nat \<Rightarrow> string list
      \<Rightarrow> string list list \<Rightarrow> string list list"
  and walk_entries :: "(string list \<Rightarrow> (string \<times> bool) list option) \<Rightarrow> string \<Rightarrow> nat \<Rightarrow> string list
      \<Rightarrow> (string \<times> bool) list \<Rightarrow> string list list \<Rightarrow> string list list" where
  "walk_find rd pat 0 root out = out"
| "walk_find rd pat (Suc depth) root out = (if length out \<ge> 4 then out else
     (case rd root of None \<Rightarrow> out | Some es \<Rightarrow> walk_entries rd pat depth root es out))"
| "walk_entries rd pat depth root [] out = out"
| "walk_entries rd pat depth root ((n, is_directory) # rest) out = (let
       out' = (if is_directory then walk_find rd pat depth (root @ [n]) out
               else if n = pat then out @ [root @ [n]] else out)
     in if length out' \<ge> 4 then out' else walk_entries rd pat depth root rest out')"

definition export_type_dirs :: "string list" where
  "export_type_dirs = [''images'', ''voices'', ''videos'', ''emojis'']"

text \<open>The digests under which a talker's exported files are served: the first file of a stem wins.\<close>

definition add_handle :: "disk \<Rightarrow> string list \<Rightarrow> string \<times> bool \<Rightarrow> (string, string) hashmap \<Rightarrow> (string, string) hashmap" where
  "add_handle d dir e out = (let name = fst e in
     if \<not> utf8_valid name \<or> \<not> is_file_at d (dir @ [name]) \<or> \<not> name_is_content_digest name then out
     else let stem = to_ascii_lowercase (file_stem name) in
       if hm_contains out stem then out else hm_insert stem name out)"

definition digest_handles :: "export_env \<Rightarrow> disk \<Rightarrow> string list \<Rightarrow> string \<Rightarrow> (string, string) hashmap" where
  "digest_handles env d export_dir talker = (if \<not> safe_segment talker then []
     else fold (\<lambda>kind out. case xe_read_dir env (export_dir @ [talker, kind]) of
         None \<Rightarrow> out
       | Some es \<Rightarrow> fold (add_handle d (export_dir @ [talker, kind])) es out) export_type_dirs [])"

definition fetchable_media_id :: "disk \<Rightarrow> string list \<Rightarrow> string \<Rightarrow> string \<Rightarrow> string \<Rightarrow> string option" where
  "fetchable_media_id d export_dir talker kind_dir file_name =
     (if \<not> safe_segment talker \<or> \<not> safe_segment file_name then None
      else if \<not> name_is_content_digest file_name then None
      else if is_file_at d (export_dir @ [talker, kind_dir, file_name]) then Some file_name else None)"

section \<open>Writing\<close>

text \<open>\<open>write_out\<close>: an identical file is kept; otherwise the contents go to a temporary file that replaces it.\<close>

definition disk_put :: "string list \<Rightarrow> bytes option \<Rightarrow> disk \<Rightarrow> disk" where
  "disk_put p c d = d(p := c)"

definition write_out :: "export_env \<Rightarrow> string list \<Rightarrow> string \<Rightarrow> string \<Rightarrow> string \<Rightarrow> bytes \<Rightarrow> bool \<Rightarrow> disk
    \<Rightarrow> disk \<times> exported_media option" where
  "write_out env export_dir talker kind_dir file_name contents digest_named d =
     (if \<not> safe_segment talker \<or> \<not> safe_segment file_name then (d, None) else
     (let dir = export_dir @ [talker, kind_dir]; path = dir @ [file_name];
          out = \<lparr>em_file_name = file_name, em_kind_dir = kind_dir, em_local_path = path,
                 em_external_url = None, em_digest_named = digest_named\<rparr>;
          tmp = dir @ [''.'' @ file_name @ ''.tmp'']
      in if \<not> xe_mkdir env dir then (d, None)
         else if d path = Some contents then (d, Some out)
         else (case xe_write env tmp contents of
             (left, False) \<Rightarrow> (disk_put tmp left d, None)
           | (_, True) \<Rightarrow>
              if xe_rename env tmp path then (disk_put path (Some contents) (disk_put tmp None d), Some out)
              else (disk_put tmp (Some contents) d, None))))"

section \<open>One message's media\<close>

definition image_hardlink_query :: string where
  "image_hardlink_query = ''SELECT file_name FROM image_hardlink_info_v4 WHERE md5 = ?1 LIMIT 1''"

definition video_hardlink_query :: string where
  "video_hardlink_query = ''SELECT file_name FROM video_hardlink_info_v4 WHERE md5 = ?1 LIMIT 1''"

definition hardlink_name :: "export_env \<Rightarrow> string \<Rightarrow> string \<Rightarrow> string option" where
  "hardlink_name env query md5 = Option.bind (xe_row env ''hardlink/hardlink.db'') (\<lambda>q. q query md5)"

definition image_candidates :: "export_env \<Rightarrow> disk \<Rightarrow> string list \<Rightarrow> string \<Rightarrow> string \<Rightarrow> string list list" where
  "image_candidates env d account_dir talker resolved = (let
       attach = account_dir @ [''msg'', ''attach''];
       scoped = attach @ [xe_md5_hex env (as_bytes talker)];
       direct = (case xe_read_dir env scoped of None \<Rightarrow> []
         | Some months \<Rightarrow> filter (is_file_at d) (map (\<lambda>(m, _). scoped @ [m, ''Img'', resolved]) months));
       found = (if direct = [] then walk_find (xe_read_dir env) resolved 4 scoped [] else direct)
     in if found = [] then walk_find (xe_read_dir env) resolved 4 attach [] else found)"

definition decode_image :: "export_env \<Rightarrow> image_keys option \<Rightarrow> bytes \<Rightarrow> bytes option" where
  "decode_image env media_keys raw = (case detect_format raw of
       Some V1 \<Rightarrow> decrypt_dat_payload (xe_block env) raw v1_fixed_aes_key 0
     | Some V2 \<Rightarrow> Option.bind media_keys (\<lambda>k. decrypt_dat_payload (xe_block env) raw (ik_aes k) (ik_xor k))
     | Some LegacyXor \<Rightarrow> map_option (\<lambda>k. decrypt_dat_legacy raw (ik_xor k)) media_keys
     | None \<Rightarrow> if starts_bytes jpg_magic raw \<or> starts_bytes png_magic raw \<or> starts_bytes (as_bytes ''GIF8'') raw
         then Some raw else None)"

definition eq_ignore_ascii_case :: "string \<Rightarrow> string \<Rightarrow> bool" where
  "eq_ignore_ascii_case a b \<longleftrightarrow> to_ascii_lowercase a = to_ascii_lowercase b"

definition checked_image :: "export_env \<Rightarrow> string \<Rightarrow> bytes \<Rightarrow> (bytes \<times> string) option" where
  "checked_image env img_md5 decoded = (if starts_bytes [0x28, 0xB5, 0x2F, 0xFD] decoded then None
     else if \<not> eq_ignore_ascii_case (xe_md5_hex env decoded) img_md5 then None
     else if starts_bytes (as_bytes ''wxgf'') decoded then (case wxgf_to_png env decoded of
         Some png \<Rightarrow> Some (png, ''png'') | None \<Rightarrow> Some (decoded, ''wxgf''))
     else Some (decoded, sniff_image_ext decoded))"

definition export_image :: "export_env \<Rightarrow> export_ctx \<Rightarrow> string \<Rightarrow> string option \<Rightarrow> disk \<Rightarrow> disk \<times> exported_media option" where
  "export_image env cx talker md5 d = (case md5 of None \<Rightarrow> (d, None) | Some img_md5 \<Rightarrow>
     (let resolved = opt_or (hardlink_name env image_hardlink_query img_md5) (img_md5 @ ''.dat'')
      in case image_candidates env d (cx_account_dir cx) talker resolved of [] \<Rightarrow> (d, None) | src # _ \<Rightarrow>
        (case Option.bind (Option.bind (d src) (decode_image env (cx_media_keys cx))) (checked_image env img_md5) of
           None \<Rightarrow> (d, None)
         | Some (contents, ext) \<Rightarrow>
             write_out env (cx_export_dir cx) talker ''images'' (img_md5 @ ''.'' @ ext) contents True d)))"

definition silk_from :: "bytes \<Rightarrow> bytes" where
  "silk_from frag = (case List.find (\<lambda>i. starts_bytes (as_bytes ''#!SILK'') (drop i frag)) [0..<length frag] of
     Some i \<Rightarrow> drop i frag | None \<Rightarrow> frag)"

fun voice_data :: "(int \<Rightarrow> bytes option list option) list \<Rightarrow> int \<Rightarrow> bytes option" where
  "voice_data [] svr_id = None"
| "voice_data (c # cs) svr_id = (case c svr_id of
       None \<Rightarrow> voice_data cs svr_id
     | Some frags \<Rightarrow> (let contents = concat (map silk_from (List.map_filter id frags)) in
         if frags = [] \<or> contents = [] then voice_data cs svr_id else Some contents))"

definition export_voice :: "export_env \<Rightarrow> export_ctx \<Rightarrow> string \<Rightarrow> int \<Rightarrow> disk \<Rightarrow> disk \<times> exported_media option" where
  "export_voice env cx talker server_id d = (case voice_data (xe_voice env) server_id of
       None \<Rightarrow> (d, None)
     | Some contents \<Rightarrow> write_out env (cx_export_dir cx) talker ''voices''
         (''voice_'' @ int_to_dec server_id @ ''.silk'') contents False d)"

definition export_video :: "export_env \<Rightarrow> export_ctx \<Rightarrow> string \<Rightarrow> string option \<Rightarrow> disk \<Rightarrow> disk \<times> exported_media option" where
  "export_video env cx talker md5 d = (case md5 of None \<Rightarrow> (d, None) | Some video_md5 \<Rightarrow>
     (let (fname, digest_named) = (case hardlink_name env video_hardlink_query video_md5 of
            Some name \<Rightarrow> (name, False) | None \<Rightarrow> (video_md5 @ ''.mp4'', True))
      in case walk_find (xe_read_dir env) fname 3 (cx_account_dir cx @ [''msg'', ''video'']) [] of
           [] \<Rightarrow> (d, None)
         | src # _ \<Rightarrow> (case d src of None \<Rightarrow> (d, None) | Some contents \<Rightarrow>
             if starts_bytes magic_v1 contents \<or> starts_bytes magic_v2 contents then (d, None)
             else write_out env (cx_export_dir cx) talker ''videos'' fname contents digest_named d)))"

definition emoji_query :: "string \<Rightarrow> string" where
  "emoji_query table = ''SELECT cdn_url FROM \"'' @ table @ ''\" WHERE lower(hex(md5)) = lower(?1) LIMIT 1''"

definition export_emoji :: "export_env \<Rightarrow> string option \<Rightarrow> exported_media option" where
  "export_emoji env md5 = Option.bind md5 (\<lambda>emoji_md5. Option.bind (xe_row env ''emoticon/emoticon.db'') (\<lambda>q.
     case List.map_filter (\<lambda>table. opt_filter (\<lambda>u. u \<noteq> []) (q (emoji_query table) emoji_md5))
         [''kNonStoreEmoticonTable'', ''EmoticonInfo''] of
       [] \<Rightarrow> None
     | url # _ \<Rightarrow> Some \<lparr>em_file_name = emoji_md5 @ ''.gif'', em_kind_dir = ''emojis'', em_local_path = [],
         em_external_url = Some url, em_digest_named = True\<rparr>))"

definition export_one :: "export_env \<Rightarrow> export_ctx \<Rightarrow> string \<Rightarrow> media_kind \<Rightarrow> string option \<Rightarrow> int \<Rightarrow> disk
    \<Rightarrow> disk \<times> exported_media option" where
  "export_one env cx talker kind md5 server_id d = (case kind of
       Image \<Rightarrow> export_image env cx talker md5 d
     | Voice \<Rightarrow> export_voice env cx talker server_id d
     | Video \<Rightarrow> export_video env cx talker md5 d
     | Emoji \<Rightarrow> (d, export_emoji env md5)
     | media_kind.File \<Rightarrow> (d, None))"

section \<open>Batches\<close>

type_synonym export_job = "int \<times> media_kind \<times> string option \<times> int \<times> string"

fun export_jobs :: "export_env \<Rightarrow> export_ctx \<Rightarrow> export_job list \<Rightarrow> disk \<Rightarrow> (int, exported_media) hashmap
    \<Rightarrow> disk \<times> (int, exported_media) hashmap" where
  "export_jobs env cx [] d out = (d, out)"
| "export_jobs env cx ((local_id, kind, md5, server_id, talker) # jobs) d out =
     (case export_one env cx talker kind md5 server_id d of
        (d', Some m) \<Rightarrow> export_jobs env cx jobs d' (hm_insert local_id m out)
      | (d', None) \<Rightarrow> export_jobs env cx jobs d' out)"

definition export_batch :: "export_env \<Rightarrow> export_ctx \<Rightarrow> export_job list \<Rightarrow> nat \<Rightarrow> disk \<Rightarrow> disk \<times> (int, exported_media) hashmap" where
  "export_batch env cx jobs max_items d = export_jobs env cx (take max_items jobs) d []"

text \<open>
  The auxiliary databases one batch opens: those its kinds need, that are listed, keyed and open.
  \<open>open_row\<close> and \<open>open_voice\<close> are the answers of an opened database.
\<close>

definition aux_wanted :: "export_job list \<Rightarrow> string list" where
  "aux_wanted jobs = (let want = (\<lambda>k. list_ex (\<lambda>(_, kind, _). kind = k) jobs) in
     (if want Image \<or> want Video then [''hardlink/hardlink.db''] else [])
     @ (if want Voice then [''message/media_0.db'', ''message/media_1.db''] else [])
     @ (if want Emoji then [''emoticon/emoticon.db''] else []))"

definition open_aux :: "db_file list \<Rightarrow> key_map \<Rightarrow> (string list \<Rightarrow> db_key \<Rightarrow> 'd option) \<Rightarrow> string \<Rightarrow> 'd option" where
  "open_aux files keys open_db rel = (case List.find (\<lambda>f. df_rel f = rel) files of
       None \<Rightarrow> None
     | Some f \<Rightarrow> Option.bind (key_for keys rel) (open_db (df_abs f)))"

definition export_batch_live :: "export_env \<Rightarrow> db_file list \<Rightarrow> key_map \<Rightarrow> (string list \<Rightarrow> db_key \<Rightarrow> 'd option)
    \<Rightarrow> ('d \<Rightarrow> string \<Rightarrow> string \<Rightarrow> string option) \<Rightarrow> ('d \<Rightarrow> int \<Rightarrow> bytes option list option) \<Rightarrow> export_ctx
    \<Rightarrow> export_job list \<Rightarrow> nat \<Rightarrow> disk \<Rightarrow> disk \<times> (int, exported_media) hashmap" where
  "export_batch_live env0 files keys open_db row_answer voice_answer cx jobs max_items d = (let
       aux = List.map_filter (\<lambda>rel. map_option (Pair rel) (open_aux files keys open_db rel))
         (aux_wanted (take max_items jobs));
       env = env0\<lparr>xe_row := (\<lambda>rel. map_option row_answer (map_of aux rel)),
                  xe_voice := map (voice_answer \<circ> snd) aux\<rparr>
     in export_jobs env cx (take max_items jobs) d [])"


section \<open>Properties\<close>

text \<open>The search is bounded: at most four hits, each named as asked, below the root, within the depth.\<close>

lemma walk_find_bounded:
  "length out \<le> 4 \<Longrightarrow> length (walk_find rd pat depth root out) \<le> 4"
  "length out < 4 \<Longrightarrow> length (walk_entries rd pat depth root es out) \<le> 4"
proof (induction rd pat depth root out and rd pat depth root es out rule: walk_find_walk_entries.induct)
  case (4 rd pat depth root n is_directory rest out)
  let ?o = "if is_directory then walk_find rd pat depth (root @ [n]) out
      else if n = pat then out @ [root @ [n]] else out"
  have "length ?o \<le> 4" using 4 by auto
  then show ?case using "4.IH"(2) [OF refl] by (simp add: Let_def)
qed (auto split: option.split)

definition found_below :: "string list \<Rightarrow> string \<Rightarrow> nat \<Rightarrow> string list \<Rightarrow> bool" where
  "found_below root pat depth p \<longleftrightarrow> (\<exists>q. p = root @ q @ [pat] \<and> length q < depth)"

lemma walk_find_below:
  "p \<in> set (walk_find rd pat depth root out) \<Longrightarrow> p \<in> set out \<or> found_below root pat depth p"
  "p \<in> set (walk_entries rd pat depth root es out) \<Longrightarrow> p \<in> set out \<or> found_below root pat (Suc depth) p"
proof (induction rd pat depth root out and rd pat depth root es out rule: walk_find_walk_entries.induct)
  case (4 rd pat depth root n is_directory rest out)
  let ?o = "if is_directory then walk_find rd pat depth (root @ [n]) out
      else if n = pat then out @ [root @ [n]] else out"
  have o: "p \<in> set out \<or> found_below root pat (Suc depth) p" if "p \<in> set ?o"
  proof (cases is_directory)
    case True
    then have "p \<in> set out \<or> found_below (root @ [n]) pat depth p" using that "4.IH"(1) by simp
    then show ?thesis
    proof
      assume "found_below (root @ [n]) pat depth p"
      then obtain q where "p = (root @ [n]) @ q @ [pat]" "length q < depth" by (auto simp: found_below_def)
      then have "p = root @ (n # q) @ [pat] \<and> length (n # q) < Suc depth" by simp
      then show ?thesis unfolding found_below_def by blast
    qed simp
  next
    case False
    have "found_below root pat (Suc depth) (root @ [pat])"
      unfolding found_below_def by (rule exI [of _ "[]"]) simp
    with that False show ?thesis by (auto split: if_splits)
  qed
  show ?case
  proof (cases "length ?o \<ge> 4")
    case True
    with "4.prems" o show ?thesis by (simp add: Let_def)
  next
    case False
    with "4.prems" have "p \<in> set (walk_entries rd pat depth root rest ?o)" by (simp add: Let_def)
    then show ?thesis using "4.IH"(2) [OF refl False] o by blast
  qed
qed (auto split: option.splits if_splits)

text \<open>
  C37. A write is atomic and confined: only the target and its temporary file can change, both with
  guarded names; the target holds its old contents or the new ones in full, whatever failed; and a
  reported export is on disk.
\<close>

theorem write_out_atomic:
  assumes w: "write_out env root talker kind name contents dn d = (d', r)"
  shows "d' (root @ [talker, kind, name]) \<in> {d (root @ [talker, kind, name]), Some contents}
    \<and> (d' = d \<or> safe_segment talker \<and> safe_segment name)
    \<and> (\<forall>p. p \<noteq> root @ [talker, kind, name] \<and> p \<noteq> root @ [talker, kind, ''.'' @ name @ ''.tmp''] \<longrightarrow> d' p = d p)
    \<and> (case r of None \<Rightarrow> d' (root @ [talker, kind, name]) = d (root @ [talker, kind, name])
       | Some m \<Rightarrow> em_local_path m = root @ [talker, kind, name] \<and> em_file_name m = name
           \<and> em_external_url m = None \<and> em_digest_named m = dn \<and> d' (em_local_path m) = Some contents)"
proof -
  have "name \<noteq> ''.'' @ name @ ''.tmp''"
  proof
    assume "name = ''.'' @ name @ ''.tmp''"
    from arg_cong [OF this, of length] show False by simp
  qed
  with w show ?thesis
    by (auto simp: write_out_def Let_def disk_put_def split: if_splits prod.splits bool.splits)
qed

definition demo_export_env :: "bool \<Rightarrow> export_env" where
  "demo_export_env ok = \<lparr>xe_read_dir = (\<lambda>_. None), xe_mkdir = (\<lambda>_. True),
     xe_write = (\<lambda>p c. (Some (take 1 c), ok)), xe_rename = (\<lambda>_ _. True), xe_row = (\<lambda>_. None), xe_voice = [],
     xe_md5_hex = (\<lambda>_. ''00''), xe_block = (\<lambda>k b. b), xe_png = (\<lambda>_. None)\<rparr>"

theorem write_out_atomic_witness:
  "fst (write_out (demo_export_env False) [''out''] ''wxid_a'' ''images'' ''p.jpg'' [1, 2] True Map.empty)
     [''out'', ''wxid_a'', ''images'', ''p.jpg''] = None
   \<and> fst (write_out (demo_export_env True) [''out''] ''wxid_a'' ''images'' ''p.jpg'' [1, 2] True Map.empty)
     [''out'', ''wxid_a'', ''images'', ''p.jpg''] = Some [1, 2]"
proof -
  let ?f = "write_out (demo_export_env False) [''out''] ''wxid_a'' ''images'' ''p.jpg'' [1, 2] True Map.empty"
  let ?t = "write_out (demo_export_env True) [''out''] ''wxid_a'' ''images'' ''p.jpg'' [1, 2] True Map.empty"
  have f: "snd ?f = None" by code_simp
  have t: "map_option em_local_path (snd ?t) = Some [''out'', ''wxid_a'', ''images'', ''p.jpg'']" by code_simp
  have "fst ?f ([''out''] @ [''wxid_a'', ''images'', ''p.jpg'']) = Map.empty ([''out''] @ [''wxid_a'', ''images'', ''p.jpg''])"
    using write_out_atomic [OF prod.collapse [symmetric, of ?f]] unfolding f by simp
  moreover obtain m where "snd ?t = Some m" "em_local_path m = [''out'', ''wxid_a'', ''images'', ''p.jpg'']"
    using t by (cases "snd ?t") auto
  ultimately show ?thesis
    using write_out_atomic [OF prod.collapse [symmetric, of ?t]] by simp
qed


lemma write_out_some:
  assumes "write_out env root talker kind name contents dn d = (d', Some m)"
  shows "safe_segment talker" "safe_segment name" "em_file_name m = name" "em_kind_dir m = kind"
    "em_local_path m = root @ [talker, kind, name]" "em_external_url m = None" "em_digest_named m = dn"
    "d' (root @ [talker, kind, name]) = Some contents"
  using assms by (auto simp: write_out_def Let_def disk_put_def split: if_splits prod.splits bool.splits)

lemma checked_image_cases:
  assumes "checked_image env img_md5 decoded = Some (contents, ext)"
  shows "eq_ignore_ascii_case (xe_md5_hex env decoded) img_md5
    \<and> (contents = decoded \<or> starts_bytes (as_bytes ''wxgf'') decoded \<and> xe_png env decoded = Some contents)
    \<and> ext \<in> {''png'', ''wxgf'', ''jpg'', ''gif'', ''webp'', ''bmp'', ''bin''}"
  using assms by (auto simp: checked_image_def wxgf_to_png_def sniff_image_ext_def option_simps
      split: if_splits option.splits)

lemma export_emoji_external: "export_emoji env md5 = Some m \<Longrightarrow> em_external_url m \<noteq> None"
proof -
  have pick: "(case xs of [] \<Rightarrow> None | url # _ \<Rightarrow> Some (f url)) = Some m \<Longrightarrow> \<exists>url. m = f url" for xs f
    by (cases xs) auto
  show "export_emoji env md5 = Some m \<Longrightarrow> em_external_url m \<noteq> None"
    unfolding export_emoji_def bind_eq_Some_conv by (auto dest!: pick simp del: map_filter_simps)
qed

lemma file_stem_ext: "CHR ''.'' \<notin> set ext \<Longrightarrow> file_stem (stem @ CHR ''.'' # ext) = stem"
proof -
  assume "CHR ''.'' \<notin> set ext"
  then have "dropWhile (\<lambda>x. x \<noteq> CHR ''.'') (rev ext @ CHR ''.'' # rev stem) = CHR ''.'' # rev stem"
    by (subst dropWhile_append2) auto
  then show ?thesis by (simp add: file_stem_def rsplit_once_def)
qed

text \<open>
  What an export returns can be fetched and is what was asked for: a file of the talker's own
  directory of that kind, under guarded names; an image only when its decoded bytes have the digest
  the message names, and then the handle check of the event stream advertises exactly that file.
\<close>

theorem export_one_checked:
  assumes e: "export_one env cx talker kind md5 server_id d = (d', Some m)"
  shows "(em_external_url m \<noteq> None \<and> kind = Emoji \<and> d' = d
      \<or> safe_segment talker \<and> safe_segment (em_file_name m) \<and> kind_dir_for kind = Some (em_kind_dir m)
        \<and> em_local_path m = cx_export_dir cx @ [talker, em_kind_dir m, em_file_name m] \<and> is_file_at d' (em_local_path m))
    \<and> (kind = Image \<longrightarrow> (\<exists>x decoded. md5 = Some x \<and> eq_ignore_ascii_case (xe_md5_hex env decoded) x
        \<and> (d' (em_local_path m) = Some decoded
           \<or> starts_bytes (as_bytes ''wxgf'') decoded \<and> d' (em_local_path m) = xe_png env decoded)
        \<and> (length x = 32 \<and> list_all is_ascii_hexdigit x \<longrightarrow>
             fetchable_media_id d' (cx_export_dir cx) talker ''images'' (em_file_name m) = Some (em_file_name m))))"
proof (cases kind)
  case Image
  from e obtain x resolved src rest raw decoded contents ext where
    x: "md5 = Some x" and src: "decode_image env (cx_media_keys cx) raw = Some decoded"
      "checked_image env x decoded = Some (contents, ext)"
    and w: "write_out env (cx_export_dir cx) talker ''images'' (x @ ''.'' @ ext) contents True d = (d', Some m)"
    by (auto simp: export_one_def Image export_image_def Let_def bind_eq_Some_conv split: option.splits list.splits)
  note c = checked_image_cases [OF src(2)] and o' = write_out_some [OF w]
  have "file_stem (x @ CHR ''.'' # ext) = x" by (rule file_stem_ext) (use c in auto)
  then have "length x = 32 \<and> list_all is_ascii_hexdigit x \<Longrightarrow>
      fetchable_media_id d' (cx_export_dir cx) talker ''images'' (x @ ''.'' @ ext) = Some (x @ ''.'' @ ext)"
    using o' by (simp add: fetchable_media_id_def name_is_content_digest_def is_file_at_def)
  then show ?thesis using c o' x Image by (auto simp: kind_dir_for_def is_file_at_def)
next
  case Voice
  from e obtain name contents dn where
    "write_out env (cx_export_dir cx) talker ''voices'' name contents dn d = (d', Some m)"
    by (auto simp: export_one_def Voice export_voice_def split: option.splits)
  from write_out_some [OF this] Voice show ?thesis by (auto simp: kind_dir_for_def is_file_at_def)
next
  case Video
  from e obtain name contents dn where
    "write_out env (cx_export_dir cx) talker ''videos'' name contents dn d = (d', Some m)"
    by (auto simp: export_one_def Video export_video_def Let_def split: option.splits list.splits prod.splits if_splits)
  from write_out_some [OF this] Video show ?thesis by (auto simp: kind_dir_for_def is_file_at_def)
next
  case Emoji
  with e export_emoji_external show ?thesis by (auto simp: export_one_def)
next
  case File
  with e show ?thesis by (simp add: export_one_def)
qed

definition demo_md5 :: string where
  "demo_md5 = ''aabbccddeeff00112233445566778899''"

definition image_env :: export_env where
  "image_env = (demo_export_env True)\<lparr>xe_md5_hex := (\<lambda>_. demo_md5), xe_read_dir := (\<lambda>p.
     if p = [''acc'', ''msg'', ''attach'', demo_md5] then Some [(''2024-01'', True)] else None)\<rparr>"

definition image_ctx :: export_ctx where
  "image_ctx = \<lparr>cx_account_dir = [''acc''], cx_export_dir = [''out''],
     cx_media_keys = Some \<lparr>ik_aes = replicate 16 0, ik_xor = 1\<rparr>\<rparr>"

definition image_disk :: disk where
  "image_disk = [[''acc'', ''msg'', ''attach'', demo_md5, ''2024-01'', ''Img'', demo_md5 @ ''.dat''] \<mapsto> [0xFE, 0xD9, 0xFE]]"

definition image_export :: "disk \<times> exported_media option" where
  "image_export = export_one image_env image_ctx ''wxid_a'' Image (Some demo_md5) 7 image_disk"

theorem export_one_checked_witness:
  "map_option em_file_name (snd image_export) = Some (demo_md5 @ ''.jpg'')
   \<and> fetchable_media_id (fst image_export) [''out''] ''wxid_a'' ''images'' (demo_md5 @ ''.jpg'') = Some (demo_md5 @ ''.jpg'')"
proof -
  have n: "map_option em_file_name (snd image_export) = Some (demo_md5 @ ''.jpg'')" by code_simp
  then obtain m where m: "snd image_export = Some m" "em_file_name m = demo_md5 @ ''.jpg''" by auto
  then have e: "export_one image_env image_ctx ''wxid_a'' Image (Some demo_md5) 7 image_disk = (fst image_export, Some m)"
    by (simp add: image_export_def prod_eq_iff)
  have hex: "length demo_md5 = 32 \<and> list_all is_ascii_hexdigit demo_md5" "cx_export_dir image_ctx = [''out'']"
    by code_simp+
  show ?thesis using export_one_checked [OF e] hex n unfolding m(2) by auto
qed

text \<open>A batch keeps one result per local id: a later job of the same id replaces an earlier one's.\<close>

lemma export_jobs_last:
  assumes "export_one env cx talker kind md5 server_id (fst (export_jobs env cx jobs d out)) = (d', Some m)"
  shows "hm_get (snd (export_jobs env cx (jobs @ [(local_id, kind, md5, server_id, talker)]) d out)) local_id = Some m"
  using assms
proof (induction env cx jobs d out rule: export_jobs.induct)
  case (1 env cx d out)
  then show ?case by (simp add: hm_simps)
qed (auto split: prod.splits option.splits)

end
