(* ===== verification/Reads.thy ===== *)
theory Reads
  imports Account_Api Media_Export
begin

text \<open>
  The native read endpoints: \<open>src/server/handlers/messages.rs\<close>, \<open>sessions.rs\<close>, \<open>contacts.rs\<close>,
  \<open>group_members.rs\<close>, \<open>health.rs\<close> and \<open>sync.rs\<close>, with their response records
  (\<open>src/server/dto.rs\<close>). Every listing filters, sorts and then cuts a window; the locale
  \<open>paged\<close> states what that promises a client that walks the pages, and each listing is an
  instance. \<open>lower\<close> is \<open>str::to_lowercase\<close> over Unicode, \<open>midnight\<close> the calendar.
\<close>

section \<open>Responses\<close>

record session_native =
  sn_display_name :: string
  sn_last_timestamp :: int
  sn_message_count :: nat
  sn_session_type :: string
  sn_summary :: "string option"
  sn_type :: int
  sn_unread_count :: int
  sn_username :: string

record sessions_native =
  sl_count :: nat
  sl_sessions :: "session_native list"
  sl_success :: bool

record page_block =
  pb_has_more :: bool
  pb_next_cursor :: "string option"

record session_chatlab =
  sb_id :: string
  sb_last_message_at :: int
  sb_message_count :: nat
  sb_name :: string
  sb_platform :: string
  sb_type :: string
  sb_member_count :: "nat option"

record sessions_chatlab =
  sb_count :: nat
  sb_page :: page_block
  sb_sessions :: "session_chatlab list"

record media_object =
  mo_exported :: "bool option"
  mo_file_name :: string
  mo_local_path :: "string option"
  mo_md5 :: "string option"
  mo_media_id :: "string option"
  mo_type :: string
  mo_url :: "string option"

record quote_dto =
  qd_account_name :: string
  qd_content :: string
  qd_platform_message_id :: string
  qd_sender :: string
  qd_type :: int

record message_native =
  mn_appmsg_subtype :: "int option"
  mn_base_type :: int
  mn_content :: string
  mn_create_time :: int
  mn_is_send :: int
  mn_local_id :: int
  mn_local_type :: int
  mn_media :: "media_object option"
  mn_parsed_content :: string
  mn_quote :: "quote_dto option"
  mn_raw_content :: string
  mn_reply_to_message_id :: "string option"
  mn_sender_name :: string
  mn_sender_username :: string
  mn_server_id :: string
  mn_sort_seq :: int

record media_envelope =
  me_count :: nat
  me_enabled :: bool
  me_export_path :: string

record messages_native =
  ml_count :: nat
  ml_has_more :: bool
  ml_media :: media_envelope
  ml_messages :: "message_native list"
  ml_success :: bool
  ml_talker :: string

record contact_dto =
  cd_alias :: string
  cd_avatar_url :: string
  cd_display_name :: string
  cd_nickname :: string
  cd_remark :: string
  cd_type :: string
  cd_username :: string

record contacts_dto =
  cl_contacts :: "contact_dto list"
  cl_count :: nat
  cl_has_more :: bool
  cl_success :: bool
  cl_total :: nat

record group_member =
  gm_alias :: string
  gm_avatar_url :: string
  gm_display_name :: string
  gm_group_nickname :: string
  gm_is_friend :: bool
  gm_is_owner :: bool
  gm_message_count :: int
  gm_nickname :: string
  gm_remark :: string
  gm_wxid :: string

record group_members =
  gl_chatroom_id :: string
  gl_count :: nat
  gl_from_cache :: bool
  gl_members :: "group_member list"
  gl_success :: bool
  gl_updated_at :: int

record health_dto =
  hd_account :: account_phase
  hd_status :: string
  hd_version :: string

record sync_result =
  sr_new_messages :: nat
  sr_revoke_messages :: nat
  sr_success :: bool

section \<open>Messages\<close>

record message_query =
  mq_talker :: string
  mq_limit :: nat
  mq_offset :: nat
  mq_keyword :: "string option"
  mq_start :: "int option"
  mq_end :: "int option"

definition query_from_params :: "(string \<Rightarrow> string) \<Rightarrow> (nat \<Rightarrow> nat \<Rightarrow> nat \<Rightarrow> int option) \<Rightarrow> params \<Rightarrow> api_error + message_query" where
  "query_from_params lower midnight params = (case opt_filter (\<lambda>s. s \<noteq> []) (hm_get params ''talker'') of
       None \<Rightarrow> Inl (bad_request ''talker is required'')
     | Some talker \<Rightarrow> Inr \<lparr>mq_talker = talker, mq_limit = parse_limit params ''limit'' 100 10000,
         mq_offset = parse_offset params ''offset'',
         mq_keyword = map_option lower (opt_filter (\<lambda>s. s \<noteq> []) (hm_get params ''keyword'')),
         mq_start = Option.bind (hm_get params ''start'') (parse_time_bound midnight),
         mq_end = Option.bind (hm_get params ''end'') (parse_time_bound_end midnight)\<rparr>)"

definition query_with_cursor :: "(string \<Rightarrow> string) \<Rightarrow> (nat \<Rightarrow> nat \<Rightarrow> nat \<Rightarrow> int option) \<Rightarrow> params \<Rightarrow> api_error + message_query" where
  "query_with_cursor lower midnight params = (case query_from_params lower midnight params of
       Inl e \<Rightarrow> Inl e
     | Inr q \<Rightarrow> (case Option.bind (hm_get params ''cursor'') parse_usize of
         Some c \<Rightarrow> Inr (q\<lparr>mq_offset := c\<rparr>) | None \<Rightarrow> Inr q))"

record message_page =
  mp_indices :: "nat list"
  mp_has_more :: bool
  mp_next_offset :: nat

definition page_count :: "message_page \<Rightarrow> nat" where
  "page_count p = length (mp_indices p)"

text \<open>\<open>sort_by(|a, b| key(b).cmp(&key(a)))\<close> is the stable sort by the negated key.\<close>

definition sort_pos :: "message_record \<Rightarrow> int \<times> int \<times> int" where
  "sort_pos m = (mr_create_time m, mr_sort_seq m, mr_local_id m)"

definition newest_first :: "message_record \<Rightarrow> int \<times> int \<times> int" where
  "newest_first m = (- mr_create_time m, - mr_sort_seq m, - mr_local_id m)"

definition in_bounds :: "message_query \<Rightarrow> message_record \<Rightarrow> bool" where
  "in_bounds q m \<longleftrightarrow> is_none_or (\<lambda>s. mr_create_time m \<ge> s) (mq_start q) \<and> is_none_or (\<lambda>e. mr_create_time m \<le> e) (mq_end q)"

definition has_keyword :: "(string \<Rightarrow> string) \<Rightarrow> string option \<Rightarrow> message_record \<Rightarrow> bool" where
  "has_keyword lower kw m \<longleftrightarrow> is_none_or (\<lambda>k. contains_sub k (lower (pm_parsed_text (mr_parsed m)))
     \<or> contains_sub k (lower (pm_raw_content (mr_parsed m)))) kw"

definition conversation :: "store \<Rightarrow> string \<Rightarrow> message_record list" where
  "conversation st talker = opt_or (hm_get (st_convs st) talker) []"

definition page_slice :: "(string \<Rightarrow> string) \<Rightarrow> store \<Rightarrow> message_query \<Rightarrow> api_error + message_page" where
  "page_slice lower st q = (if \<not> conversation_known st (mq_talker q)
     then Inl (not_found (''conversation '' @ [CHR 0x27] @ mq_talker q @ [CHR 0x27] @ '' not found''))
     else (let conv = conversation st (mq_talker q);
               idx = filter (\<lambda>i. in_bounds q (conv ! i)) [0..<length conv];
               idx' = filter (\<lambda>i. has_keyword lower (mq_keyword q) (conv ! i)) idx;
               ordered = sort_key (\<lambda>i. newest_first (conv ! i)) idx';
               indices = window (mq_offset q) (mq_limit q) ordered;
               next_offset = mq_offset q + length indices
           in Inr \<lparr>mp_indices = indices, mp_has_more = next_offset < length ordered, mp_next_offset = next_offset\<rparr>))"

definition media_requested :: "params \<Rightarrow> bool" where
  "media_requested params = flex_bool params ''media''"

definition wants_kind :: "params \<Rightarrow> media_kind \<Rightarrow> bool" where
  "wants_kind params kind = (if kind = media_kind.File then False
     else if \<not> list_ex (flex_bool params) [''image'', ''voice'', ''video'', ''emoji''] then True
     else flex_bool params (media_kind_str kind))"

definition collect_export_jobs :: "store \<Rightarrow> message_page \<Rightarrow> string \<Rightarrow> params \<Rightarrow> export_job list" where
  "collect_export_jobs st page talker params = (case hm_get (st_convs st) talker of
       None \<Rightarrow> []
     | Some conv \<Rightarrow> take 200 (List.map_filter (\<lambda>i. let m = conv ! i in
         case pm_media (mr_parsed m) of None \<Rightarrow> None | Some hint \<Rightarrow>
           if \<not> wants_kind params (mh_kind hint) then None
           else if mh_md5 hint = None \<and> mh_kind hint \<noteq> Voice then None
           else Some (mr_local_id m, mh_kind hint, mh_md5 hint, mr_server_id m, talker)) (mp_indices page)))"

definition run_export_batch :: "(export_job list \<Rightarrow> 'f \<Rightarrow> 'f \<times> (int, exported_media) hashmap) \<Rightarrow> export_job list \<Rightarrow> 'f
    \<Rightarrow> 'f \<times> (int, exported_media) hashmap" where
  "run_export_batch export jobs f = (if jobs = [] then (f, []) else export jobs f)"

definition message_dto :: "store \<Rightarrow> message_record \<Rightarrow> message_native" where
  "message_dto st m = (let (base_type, appmsg_subtype) = split_local_type (mr_local_type m); p = mr_parsed m in
     \<lparr>mn_appmsg_subtype = appmsg_subtype, mn_base_type = base_type, mn_content = pm_display p,
      mn_create_time = mr_create_time m, mn_is_send = (if mr_is_send m then 1 else 0), mn_local_id = mr_local_id m,
      mn_local_type = mr_local_type m,
      mn_media = map_option (\<lambda>h. \<lparr>mo_exported = None, mo_file_name = mh_file_name h, mo_local_path = None,
        mo_md5 = mh_md5 h, mo_media_id = None, mo_type = media_kind_str (mh_kind h), mo_url = None\<rparr>) (pm_media p),
      mn_parsed_content = pm_parsed_text p,
      mn_quote = map_option (\<lambda>q. \<lparr>qd_account_name = session_display st (qi_sender q), qd_content = qi_content q,
        qd_platform_message_id = qi_platform_message_id q, qd_sender = qi_sender q, qd_type = qi_msg_type q\<rparr>) (pm_quote p),
      mn_raw_content = pm_raw_content p, mn_reply_to_message_id = pm_reply_to p,
      mn_sender_name = mr_sender_name m, mn_sender_username = mr_sender_username m,
      mn_server_id = int_to_dec (mr_server_id m), mn_sort_seq = mr_sort_seq m\<rparr>)"

text \<open>The export's results go to the messages by their local id.\<close>

definition attach_export :: "exported_media \<Rightarrow> media_object \<Rightarrow> media_object" where
  "attach_export res media = (let
       media1 = (case em_external_url res of
           Some u \<Rightarrow> media\<lparr>mo_url := Some u\<rparr>
         | None \<Rightarrow> if em_digest_named res
             then media\<lparr>mo_url := Some (exported_media_url (em_file_name res)), mo_media_id := Some (em_file_name res)\<rparr>
             else media)
     in media1\<lparr>mo_local_path := (if em_local_path res = [] then None else Some (path_text (em_local_path res))),
               mo_exported := Some True\<rparr>)"

definition attach_to_message :: "(int, exported_media) hashmap \<Rightarrow> message_native \<Rightarrow> message_native" where
  "attach_to_message exported msg = (case (hm_get exported (mn_local_id msg), mn_media msg) of
       (Some res, Some media) \<Rightarrow> msg\<lparr>mn_media := Some (attach_export res media)\<rparr>
     | _ \<Rightarrow> msg)"

definition attach_count :: "(int, exported_media) hashmap \<Rightarrow> message_native list \<Rightarrow> nat" where
  "attach_count exported msgs = length (filter (\<lambda>m. hm_get exported (mn_local_id m) \<noteq> None \<and> mn_media m \<noteq> None) msgs)"

definition messages_handler :: "(json \<Rightarrow> string) \<Rightarrow> (string \<Rightarrow> string) \<Rightarrow> (nat \<Rightarrow> nat \<Rightarrow> nat \<Rightarrow> int option)
    \<Rightarrow> (nat \<Rightarrow> export_job list \<Rightarrow> 'f \<Rightarrow> 'f \<times> (int, exported_media) hashmap) \<Rightarrow> params \<Rightarrow> string option \<Rightarrow> json option
    \<Rightarrow> 'f \<Rightarrow> ('c, 'ch) app_state \<Rightarrow> 'f \<times> (api_error + messages_native)" where
  "messages_handler show_json lower midnight export query authorization body f app = (let
       params = merge_params show_json query body
     in case require_auth (ap_token app) query authorization of Inl e \<Rightarrow> (f, Inl e) | Inr _ \<Rightarrow>
       (case ready_account app params of Inl e \<Rightarrow> (f, Inl e) | Inr a \<Rightarrow>
       (case query_from_params lower midnight params of Inl e \<Rightarrow> (f, Inl e) | Inr q \<Rightarrow>
       (let include_media = media_requested params; st = handle_store (handle_at app a) in
        case page_slice lower st q of Inl e \<Rightarrow> (f, Inl e) | Inr page \<Rightarrow>
        (let jobs = (if include_media then collect_export_jobs st page (mq_talker q) params else []);
             conv = conversation st (mq_talker q);
             messages = map (\<lambda>i. message_dto st (conv ! i)) (mp_indices page);
             (f', exported) = run_export_batch (export a) jobs f
         in (f', Inr \<lparr>ml_count = page_count page, ml_has_more = mp_has_more page,
              ml_media = \<lparr>me_count = attach_count exported messages, me_enabled = include_media,
                          me_export_path = ap_media_dir app\<rparr>,
              ml_messages = map (attach_to_message exported) messages, ml_success = True,
              ml_talker = mq_talker q\<rparr>))))))"


section \<open>Sessions\<close>

definition keyword_of :: "(string \<Rightarrow> string) \<Rightarrow> params \<Rightarrow> string option" where
  "keyword_of lower params = map_option lower (opt_filter (\<lambda>s. s \<noteq> []) (hm_get params ''keyword''))"

definition session_matches :: "(string \<Rightarrow> string) \<Rightarrow> store \<Rightarrow> string option \<Rightarrow> session \<Rightarrow> bool" where
  "session_matches lower st kw s \<longleftrightarrow> is_none_or (\<lambda>k. contains_sub k (lower (ss_username s))
     \<or> contains_sub k (lower (session_display st (ss_username s)))) kw"

definition ordered_sessions :: "(string \<Rightarrow> string) \<Rightarrow> store \<Rightarrow> string option \<Rightarrow> session list" where
  "ordered_sessions lower st kw = sort_key (\<lambda>s. (- ss_last_timestamp s, ss_username s))
     (filter (session_matches lower st kw) (hm_values (st_sessions st)))"

definition session_page :: "(string \<Rightarrow> string) \<Rightarrow> store \<Rightarrow> string option \<Rightarrow> nat \<Rightarrow> nat \<Rightarrow> session list \<times> bool" where
  "session_page lower st kw offset limit = (let sessions = ordered_sessions lower st kw;
     page = window offset limit sessions in (page, offset + length page < length sessions))"

definition session_chatlab_of :: "store \<Rightarrow> session \<Rightarrow> session_chatlab" where
  "session_chatlab_of st s = \<lparr>sb_id = ss_username s, sb_last_message_at = ss_last_timestamp s,
     sb_message_count = conv_count st (ss_username s), sb_name = session_display st (ss_username s),
     sb_platform = ''wechat'', sb_type = (if ss_kind s = Group then ''group'' else ''private''),
     sb_member_count = map_option length (hm_get (st_chatroom_roster st) (ss_username s))\<rparr>"

fun session_kind_number :: "session_kind \<Rightarrow> int" where
  "session_kind_number Private = 0"
| "session_kind_number Group = 1"
| "session_kind_number Official = 2"
| "session_kind_number Other = 3"

definition session_native_of :: "store \<Rightarrow> session \<Rightarrow> session_native" where
  "session_native_of st s = \<lparr>sn_display_name = session_display st (ss_username s),
     sn_last_timestamp = ss_last_timestamp s, sn_message_count = conv_count st (ss_username s),
     sn_session_type = session_kind_str (ss_kind s), sn_summary = ss_summary s,
     sn_type = session_kind_number (ss_kind s), sn_unread_count = ss_unread_count s, sn_username = ss_username s\<rparr>"

datatype sessions_reply = Sessions_Native sessions_native | Sessions_Chatlab sessions_chatlab

definition sessions_offset :: "bool \<Rightarrow> params \<Rightarrow> nat" where
  "sessions_offset chatlab params = (if chatlab
     then (case Option.bind (hm_get params ''cursor'') parse_usize of Some c \<Rightarrow> c | None \<Rightarrow> parse_offset params ''offset'')
     else parse_offset params ''offset'')"

definition sessions_respond :: "(json \<Rightarrow> string) \<Rightarrow> (string \<Rightarrow> string) \<Rightarrow> params \<Rightarrow> string option \<Rightarrow> json option \<Rightarrow> bool
    \<Rightarrow> ('c, 'ch) app_state \<Rightarrow> api_error + sessions_reply" where
  "sessions_respond show_json lower query authorization body chatlab app = (let
       params = merge_params show_json query body
     in case require_auth (ap_token app) query authorization of Inl e \<Rightarrow> Inl e | Inr _ \<Rightarrow>
       (case ready_account app params of Inl e \<Rightarrow> Inl e | Inr a \<Rightarrow>
       (let limit = parse_limit params ''limit'' 100 10000;
            offset = sessions_offset chatlab params;
            st = handle_store (handle_at app a);
            (page, has_more) = session_page lower st (keyword_of lower params) offset limit;
            next_offset = offset + length page
        in if chatlab
           then Inr (Sessions_Chatlab \<lparr>sb_count = length page,
             sb_page = \<lparr>pb_has_more = has_more, pb_next_cursor = (if has_more then Some (nat_to_dec next_offset) else None)\<rparr>,
             sb_sessions = map (session_chatlab_of st) page\<rparr>)
           else Inr (Sessions_Native \<lparr>sl_count = length page, sl_sessions = map (session_native_of st) page,
             sl_success = True\<rparr>))))"

section \<open>Contacts\<close>

definition contact_matches :: "(string \<Rightarrow> string) \<Rightarrow> string option \<Rightarrow> contact \<Rightarrow> bool" where
  "contact_matches lower kw c \<longleftrightarrow> is_none_or (\<lambda>k. contains_sub k (lower (ct_username c))
     \<or> contains_sub k (lower (contact_display_name c)) \<or> contains_sub k (lower (opt_or (ct_alias c) []))) kw"

definition ordered_contacts :: "(string \<Rightarrow> string) \<Rightarrow> store \<Rightarrow> string option \<Rightarrow> contact list" where
  "ordered_contacts lower st kw = sort_key (\<lambda>c. (contact_display_name c, ct_username c))
     (filter (contact_matches lower kw) (hm_values (st_contacts st)))"

definition contact_page :: "(string \<Rightarrow> string) \<Rightarrow> store \<Rightarrow> string option \<Rightarrow> nat \<Rightarrow> nat \<Rightarrow> contact list \<times> bool" where
  "contact_page lower st kw offset limit = (let contacts = ordered_contacts lower st kw;
     page = window offset limit contacts in (page, saturating_add offset (length page) < length contacts))"

definition contact_dto_of :: "contact \<Rightarrow> contact_dto" where
  "contact_dto_of c = \<lparr>cd_alias = opt_or (ct_alias c) [], cd_avatar_url = opt_or (ct_avatar_url c) [],
     cd_display_name = contact_display_name c, cd_nickname = opt_or (ct_nickname c) [],
     cd_remark = opt_or (ct_remark c) [], cd_type = session_kind_str (ct_kind c), cd_username = ct_username c\<rparr>"

definition contacts_handler :: "(json \<Rightarrow> string) \<Rightarrow> (string \<Rightarrow> string) \<Rightarrow> params \<Rightarrow> string option \<Rightarrow> json option
    \<Rightarrow> ('c, 'ch) app_state \<Rightarrow> api_error + contacts_dto" where
  "contacts_handler show_json lower query authorization body app = (let
       params = merge_params show_json query body
     in case require_auth (ap_token app) params authorization of Inl e \<Rightarrow> Inl e | Inr _ \<Rightarrow>
       (case ready_account app params of Inl e \<Rightarrow> Inl e | Inr a \<Rightarrow>
       (let limit = parse_limit params ''limit'' 100 10000;
            offset = parse_offset params ''offset'';
            st = handle_store (handle_at app a);
            (page, has_more) = contact_page lower st (keyword_of lower params) offset limit;
            items = map contact_dto_of page
        in Inr \<lparr>cl_contacts = items, cl_count = length items, cl_has_more = has_more,
             cl_success = True, cl_total = length (ordered_contacts lower st (keyword_of lower params))\<rparr>)))"

section \<open>Group members\<close>

definition sender_counts :: "message_record list \<Rightarrow> (string, nat) hashmap" where
  "sender_counts conv = fold (\<lambda>m counts. if mr_sender_username m = [] then counts
     else hm_modify (mr_sender_username m) 0 Suc counts) conv []"

definition member_ids :: "(string, nat) hashmap \<Rightarrow> string list option \<Rightarrow> string list" where
  "member_ids counts roster = hm_keys counts
     @ filter (\<lambda>i. i \<noteq> [] \<and> \<not> hm_contains counts i) (opt_or roster [])"

definition group_member_of :: "store \<Rightarrow> string \<Rightarrow> (string, nat) hashmap \<Rightarrow> bool \<Rightarrow> string \<Rightarrow> group_member" where
  "group_member_of st chatroom counts with_counts wxid = (let c = hm_get (st_contacts st) wxid in
     \<lparr>gm_alias = opt_or (Option.bind c ct_alias) [], gm_avatar_url = opt_or (Option.bind c ct_avatar_url) [],
      gm_display_name = sender_display st (Some chatroom) wxid wxid,
      gm_group_nickname = group_card st (Some chatroom) wxid,
      gm_is_friend = is_some_and (\<lambda>c. ct_kind c = Private) c,
      gm_is_owner = is_some_and (\<lambda>w. w = wxid) (hm_get (st_chatroom_owner st) chatroom),
      gm_message_count = (if with_counts then int (opt_or (hm_get counts wxid) 0) else 0),
      gm_nickname = opt_or (Option.bind c ct_nickname) [], gm_remark = opt_or (Option.bind c ct_remark) [],
      gm_wxid = wxid\<rparr>)"

definition group_members_handler :: "(json \<Rightarrow> string) \<Rightarrow> params \<Rightarrow> string option \<Rightarrow> json option
    \<Rightarrow> ('c, 'ch) app_state \<Rightarrow> api_error + group_members" where
  "group_members_handler show_json query authorization body app = (let
       params = merge_params show_json query body
     in case require_auth (ap_token app) query authorization of Inl e \<Rightarrow> Inl e | Inr _ \<Rightarrow>
       (case ready_account app params of Inl e \<Rightarrow> Inl e | Inr a \<Rightarrow>
       (case opt_filter (\<lambda>s. s \<noteq> []) (opt_else (hm_get params ''chatroomId'') (hm_get params ''talker'')) of
          None \<Rightarrow> Inl (bad_request ''chatroomId (or talker) is required'')
        | Some chatroom \<Rightarrow> (let st = handle_store (handle_at app a) in
            if \<not> conversation_known st chatroom
            then Inl (not_found (''chatroom '' @ [CHR 0x27] @ chatroom @ [CHR 0x27] @ '' not found''))
            else (let counts = sender_counts (conversation st chatroom);
                      members = map (group_member_of st chatroom counts (flex_bool params ''includeMessageCounts''))
                        (member_ids counts (hm_get (st_chatroom_roster st) chatroom));
                      ordered = sort_key (\<lambda>m. (- gm_message_count m, gm_wxid m)) members
                  in Inr \<lparr>gl_chatroom_id = chatroom, gl_count = length ordered, gl_from_cache = False,
                       gl_members = ordered, gl_success = True, gl_updated_at = st_index_built_at_ms st\<rparr>)))))"

section \<open>Health and manual sync\<close>

definition health_handler :: "string \<Rightarrow> ('c, 'ch) app_state \<Rightarrow> health_dto" where
  "health_handler version app = (let (account, ready) = account_phase app in
     \<lparr>hd_account = account, hd_status = (if ready then ''ok'' else ''starting''), hd_version = version\<rparr>)"

definition sync_handler :: "(json \<Rightarrow> string) \<Rightarrow> (index_error \<Rightarrow> string) \<Rightarrow> (bytes \<Rightarrow> bytes option) \<Rightarrow> (string \<Rightarrow> string)
    \<Rightarrow> (bytes \<Rightarrow> string) \<Rightarrow> (string \<Rightarrow> f64 option) \<Rightarrow> ('ch \<Rightarrow> nat \<times> event \<Rightarrow> 'ch) \<Rightarrow> nat \<Rightarrow> 'c sync_env
    \<Rightarrow> params \<Rightarrow> string option \<Rightarrow> json option \<Rightarrow> ('c, 'ch) app_state \<Rightarrow> ('c, 'ch) app_state \<times> (api_error + sync_result)" where
  "sync_handler show_json error_text dec md5_hex hx parse_f64 send now env query authorization body app = (let
       params = merge_params show_json query body
     in case require_auth (ap_token app) params authorization of Inl e \<Rightarrow> (app, Inl e) | Inr _ \<Rightarrow>
       (case ready_account app params of Inl e \<Rightarrow> (app, Inl e) | Inr a \<Rightarrow>
       (case run_engine a (poll_once dec md5_hex hx parse_f64 (\<lambda>e b. snd (publish send now e b)) env) app of
          (app', Inl e) \<Rightarrow> (app', Inl (internal (error_text e)))
        | (app', Inr (new_count, revoke_count)) \<Rightarrow> (app', Inr \<lparr>sr_new_messages = new_count,
            sr_revoke_messages = revoke_count, sr_success = True\<rparr>))))"


section \<open>Paging\<close>

text \<open>A client that asks for the next page from where the last one ended, while more is announced.\<close>

fun walk_pages :: "nat \<Rightarrow> (nat \<Rightarrow> nat \<Rightarrow> 'a list \<times> bool) \<Rightarrow> nat \<Rightarrow> nat \<Rightarrow> 'a list \<times> bool" where
  "walk_pages 0 page lim off = ([], True)"
| "walk_pages (Suc n) page lim off = (case page off lim of
     (xs, go_on) \<Rightarrow> if go_on then (case walk_pages n page lim (off + length xs) of (ys, m) \<Rightarrow> (xs @ ys, m))
       else (xs, False))"

locale paged =
  fixes page :: "nat \<Rightarrow> nat \<Rightarrow> 'a list \<times> bool" and listing :: "'a list"
  assumes page_items: "fst (page off lim) = window off lim listing"
    and page_more: "usize_ok (length listing) \<Longrightarrow>
      snd (page off lim) \<longleftrightarrow> off + length (window off lim listing) < length listing"
begin

lemma page_eq: "usize_ok (length listing) \<Longrightarrow>
    page off lim = (window off lim listing, off + length (window off lim listing) < length listing)"
  by (simp add: prod_eq_iff page_items page_more)

lemma walk_from:
  assumes "usize_ok (length listing)" and "0 < lim" and "length listing - off \<le> n * lim" and "0 < n"
  shows "walk_pages n page lim off = (drop off listing, False)"
  using assms(3,4)
proof (induction n arbitrary: off)
  case (Suc n)
  let ?w = "window off lim listing"
  show ?case
  proof (cases "off + length ?w < length listing")
    case True
    then have w: "length ?w = lim" by (auto simp: length_window)
    then have "length listing - (off + lim) \<le> n * lim" using Suc.prems(1) by simp
    moreover have "0 < n" using True w Suc.prems(1) by (cases n) auto
    ultimately have "walk_pages n page lim (off + lim) = (drop (off + lim) listing, False)" by (rule Suc.IH)
    moreover have "page off lim = (?w, True)" using True by (simp add: page_eq [OF assms(1)])
    moreover have "?w @ drop (off + lim) listing = drop off listing"
      by (simp add: window_def add.commute flip: drop_drop)
    ultimately show ?thesis by (simp add: w)
  next
    case False
    then have "?w = drop off listing" by (simp add: window_def length_window min_def split: if_splits)
    moreover have "page off lim = (?w, False)" using False by (simp add: page_eq [OF assms(1)])
    ultimately show ?thesis by simp
  qed
qed simp

lemma past_the_end: "length listing \<le> off \<Longrightarrow> fst (page off lim) = []"
  by (simp add: page_items)

end

definition matching_messages :: "(string \<Rightarrow> string) \<Rightarrow> store \<Rightarrow> message_query \<Rightarrow> nat list" where
  "matching_messages lower st q = (let conv = conversation st (mq_talker q) in
     sort_key (\<lambda>i. newest_first (conv ! i)) (filter (\<lambda>i. in_bounds q (conv ! i) \<and> has_keyword lower (mq_keyword q) (conv ! i))
       [0..<length conv]))"

definition message_window :: "(string \<Rightarrow> string) \<Rightarrow> store \<Rightarrow> message_query \<Rightarrow> nat \<Rightarrow> nat \<Rightarrow> nat list \<times> bool" where
  "message_window lower st q off lim = (case page_slice lower st (q\<lparr>mq_offset := off, mq_limit := lim\<rparr>) of
     Inl e \<Rightarrow> ([], False) | Inr p \<Rightarrow> (mp_indices p, mp_has_more p))"

lemma unknown_conversation: "\<not> conversation_known st w \<Longrightarrow> conversation st w = []"
  by (simp add: conversation_known_def conversation_def hm_contains_def)

interpretation messages: paged "message_window lower st q" "matching_messages lower st q" for lower st q
proof -
  have eq: "message_window lower st q off lim = (window off lim (matching_messages lower st q),
      off + length (window off lim (matching_messages lower st q)) < length (matching_messages lower st q))" for off lim
    by (cases "conversation_known st (mq_talker q)")
      (simp_all add: message_window_def page_slice_def matching_messages_def Let_def filter_filter in_bounds_def
        unknown_conversation conj_commute conj_left_commute)
  show "paged (message_window lower st q) (matching_messages lower st q)"
    by unfold_locales (simp_all add: eq)
qed

interpretation sessions: paged "session_page lower st kw" "ordered_sessions lower st kw" for lower st kw
  by unfold_locales (simp_all add: session_page_def Let_def)

interpretation contacts: paged "contact_page lower st kw" "ordered_contacts lower st kw" for lower st kw
  by unfold_locales (auto simp: contact_page_def Let_def saturating_add_def usize_ok_def)


section \<open>Properties\<close>

text \<open>
  C18. Paging loses and repeats nothing: a client that starts at offset 0 with any page size and follows
  \<open>hasMore\<close> receives exactly the messages that match its query, each once, newest first.
\<close>

theorem message_pages_complete:
  assumes "usize_ok (length (conversation st (mq_talker q)))" and "0 < lim"
    and "length (conversation st (mq_talker q)) \<le> n * lim"
  shows "\<exists>idx. walk_pages (Suc n) (message_window lower st q) lim 0 = (idx, False) \<and> distinct idx
    \<and> set idx = {i. i < length (conversation st (mq_talker q)) \<and> in_bounds q (conversation st (mq_talker q) ! i)
        \<and> has_keyword lower (mq_keyword q) (conversation st (mq_talker q) ! i)}
    \<and> sorted_wrt (\<lambda>i j. sort_pos (conversation st (mq_talker q) ! j) \<le> sort_pos (conversation st (mq_talker q) ! i)) idx"
proof -
  let ?conv = "conversation st (mq_talker q)" and ?all = "matching_messages lower st q"
  have len: "length ?all \<le> length ?conv"
    by (simp add: matching_messages_def Let_def) (metis diff_zero length_filter_le length_upt)
  then have "walk_pages (Suc n) (message_window lower st q) lim 0 = (?all, False)"
    using messages.walk_from [of lower st q lim 0 "Suc n"] assms by (simp add: usize_ok_def)
  moreover have "distinct ?all" by (simp add: matching_messages_def Let_def)
  moreover have "set ?all = {i. i < length ?conv \<and> in_bounds q (?conv ! i) \<and> has_keyword lower (mq_keyword q) (?conv ! i)}"
    by (auto simp: matching_messages_def Let_def)
  moreover have "sorted_wrt (\<lambda>i j. newest_first (?conv ! i) \<le> newest_first (?conv ! j)) ?all"
    using sorted_sort_key [of "\<lambda>i. newest_first (?conv ! i)"] unfolding matching_messages_def Let_def sorted_map by blast
  then have "sorted_wrt (\<lambda>i j. sort_pos (?conv ! j) \<le> sort_pos (?conv ! i)) ?all"
    by (rule sorted_wrt_mono_rel [rotated]) (auto simp: newest_first_def sort_pos_def less_eq_prod_def)
  ultimately show ?thesis by blast
qed

definition demo_message :: "int \<Rightarrow> int \<Rightarrow> string \<Rightarrow> message_record" where
  "demo_message t n sender = \<lparr>mr_local_id = n, mr_server_id = 100 + n, mr_local_type = 1, mr_create_time = t,
     mr_sort_seq = 0, mr_is_send = False, mr_sender_username = sender, mr_sender_name = sender,
     mr_parsed = \<lparr>pm_display = ''hi'', pm_raw_content = ''hi'', pm_parsed_text = ''hi'', pm_media = None,
       pm_reply_to = None, pm_quote = None, pm_revoke = None\<rparr>\<rparr>"

definition demo_store :: store where
  "demo_store = store_default\<lparr>st_convs := [(''g@chatroom'',
     [demo_message 10 1 ''wxid_a'', demo_message 12 2 ''wxid_b'', demo_message 11 3 ''wxid_a''])],
     st_chatroom_roster := [(''g@chatroom'', [''wxid_b'', ''wxid_c''])]\<rparr>"

definition demo_message_query :: message_query where
  "demo_message_query = \<lparr>mq_talker = ''g@chatroom'', mq_limit = 2, mq_offset = 0, mq_keyword = None,
     mq_start = Some 11, mq_end = None\<rparr>"

theorem message_pages_complete_witness:
  "\<exists>idx. walk_pages 3 (message_window id demo_store demo_message_query) 2 0 = (idx, False) \<and> set idx = {1, 2}"
proof -
  let ?conv = "conversation demo_store (mq_talker demo_message_query)"
  let ?P = "\<lambda>i. in_bounds demo_message_query (?conv ! i) \<and> has_keyword id (mq_keyword demo_message_query) (?conv ! i)"
  have len: "length ?conv = 3" by code_simp
  have p: "\<not> ?P 0" "?P 1" "?P 2" by code_simp+
  have gen: "{i. i < 3 \<and> P i} = {1, 2}" if "\<not> P 0" "P 1" "P 2" for P :: "nat \<Rightarrow> bool"
    using that by (auto simp: less_Suc_eq numeral_3_eq_3 numeral_2_eq_2)
  have m: "{i. i < length ?conv \<and> ?P i} = {1, 2}" unfolding len by (rule gen [OF p])
  obtain idx where "walk_pages (Suc 2) (message_window id demo_store demo_message_query) 2 0 = (idx, False)"
      "set idx = {i. i < length ?conv \<and> ?P i}"
    using message_pages_complete [of demo_store demo_message_query 2 2 id] unfolding len
    by (auto simp: usize_ok_def usize_max_def)
  then have "walk_pages 3 (message_window id demo_store demo_message_query) 2 0 = (idx, False) \<and> set idx = {1, 2}"
    unfolding m by (simp add: numeral_3_eq_3 numeral_2_eq_2)
  then show ?thesis ..
qed

text \<open>Counting senders.\<close>

lemma sender_counts_get:
  "hm_get (fold (\<lambda>m counts. if mr_sender_username m = [] then counts
       else hm_modify (mr_sender_username m) 0 Suc counts) conv counts) w =
     (let n = length (filter (\<lambda>m. mr_sender_username m = w \<and> w \<noteq> []) conv) in
      if n = 0 then hm_get counts w else Some (opt_or (hm_get counts w) 0 + n))"
proof (induction conv arbitrary: counts)
  case (Cons m conv)
  show ?case by (auto simp: Cons.IH hm_simps Let_def)
qed simp

lemma sender_counts_ok: "hm_ok (sender_counts conv)"
proof -
  have "hm_ok counts \<Longrightarrow> hm_ok (fold (\<lambda>m counts. if mr_sender_username m = [] then counts
       else hm_modify (mr_sender_username m) 0 Suc counts) conv counts)" for counts
    by (induction conv arbitrary: counts) auto
  then show ?thesis by (simp add: sender_counts_def)
qed

lemma member_ids_set:
  assumes "distinct (opt_or roster [])"
  shows "distinct (member_ids (sender_counts conv) roster)
    \<and> set (member_ids (sender_counts conv) roster) =
        {w. w \<noteq> [] \<and> (w \<in> mr_sender_username ` set conv \<or> w \<in> set (opt_or roster []))}"
proof -
  have get: "hm_get (sender_counts conv) w \<noteq> None \<longleftrightarrow> w \<noteq> [] \<and> w \<in> mr_sender_username ` set conv" for w
    by (auto simp: sender_counts_def sender_counts_get Let_def filter_empty_conv)
  have keys: "w \<in> set (hm_keys (sender_counts conv)) \<longleftrightarrow> w \<noteq> [] \<and> w \<in> mr_sender_username ` set conv" for w
    using get [of w] by (simp add: hm_keys_def map_of_eq_None_iff)
  have con: "hm_contains (sender_counts conv) w \<longleftrightarrow> w \<in> set (hm_keys (sender_counts conv))" for w
    by (simp add: hm_contains_def hm_keys_def map_of_eq_None_iff)
  have "distinct (hm_keys (sender_counts conv))"
    using sender_counts_ok [of conv] by (simp add: hm_ok_def hm_keys_def)
  then have "distinct (member_ids (sender_counts conv) roster)"
    using assms by (auto simp: member_ids_def con)
  moreover have "set (member_ids (sender_counts conv) roster) =
      {w. w \<noteq> [] \<and> (w \<in> mr_sender_username ` set conv \<or> w \<in> set (opt_or roster []))}"
    by (auto simp: member_ids_def con keys)
  ultimately show ?thesis by blast
qed


text \<open>A server with one ready account, as the concrete instances use it.\<close>

definition ready_app :: "store \<Rightarrow> (nat, nat list) app_state" where
  "ready_app st = demo_app\<lparr>ap_handles := [set_store st (set_status Ready
       (new_handle (demo_info ''wxid_me'') Empty None (ap_bus demo_app)))],
     ap_accounts := [(''wxid_me'', 0)]\<rparr>"

definition emoji_message :: "int \<Rightarrow> string \<Rightarrow> message_record" where
  "emoji_message t md5 = (demo_message t 1 ''wxid_a'')\<lparr>mr_parsed := (mr_parsed (demo_message t 1 ''wxid_a''))
     \<lparr>pm_media := Some \<lparr>mh_kind = Emoji, mh_file_name = md5 @ ''.gif'', mh_md5 = Some md5, mh_aes_key = None\<rparr>\<rparr>\<rparr>"

definition emoji_env :: export_env where
  "emoji_env = (demo_export_env True)\<lparr>xe_row := (\<lambda>db. Some (\<lambda>q md5. Some (''http://cdn/'' @ md5)))\<rparr>"

text \<open>
  Local ids are numbered per table, and a conversation is merged from the tables of several files: two
  messages with the same local id get one export result, so the first one's media carries the other
  one's address.
\<close>

lemma media_attached_by_local_id:
  "map_sum id (\<lambda>r. map (\<lambda>m. map_option mo_url (mn_media m)) (ml_messages r))
     (snd (messages_handler (\<lambda>_. []) id (\<lambda>_ _ _. None) (\<lambda>a jobs. export_batch emoji_env image_ctx jobs 200)
        [(''access_token'', ''secret''), (''talker'', ''wxid_a''), (''media'', ''1'')] None None Map.empty
        (ready_app (store_default\<lparr>st_convs := [(''wxid_a'', [emoji_message 11 ''aa'', emoji_message 10 ''bb''])]\<rparr>))))
   = Inr [Some (Some ''http://cdn/bb''), Some (Some ''http://cdn/bb'')]"
  by code_simp

end
