(* ===== verification/Chatlab.thy ===== *)
theory Chatlab
  imports Reads "HOL-Library.Multiset"
begin

text \<open>
  The ChatLab face: the shared field rules of \<open>src/server/chatlab.rs\<close>, the message page of
  \<open>handlers/chatlab_messages.rs\<close>, the session listing of \<open>chatlab_sessions.rs\<close> and the pull
  protocol of \<open>chatlab_pull.rs\<close>, with their records from \<open>src/server/dto.rs\<close>. The clock is an
  argument (\<open>now\<close>, seconds).
\<close>

section \<open>Records and field rules\<close>

record media_brief =
  bf_file_name :: string
  bf_md5 :: "string option"
  bf_type :: string

record chatlab_header =
  ch_exported_at :: int
  ch_generator :: string
  ch_version :: string

record chatlab_meta =
  cm_group_id :: string
  cm_name :: string
  cm_owner_id :: string
  cm_platform :: string
  cm_type :: string

record chatlab_member =
  cmb_account_name :: string
  cmb_avatar :: string
  cmb_group_nickname :: string
  cmb_platform_id :: string

record chatlab_message =
  cg_account_name :: string
  cg_content :: string
  cg_group_nickname :: string
  cg_media :: "media_brief option"
  cg_platform_message_id :: string
  cg_reply_to_message_id :: "string option"
  cg_sender :: string
  cg_timestamp :: int
  cg_type :: int

record chatlab_messages =
  cs_chatlab :: chatlab_header
  cs_count :: nat
  cs_members :: "chatlab_member list"
  cs_messages :: "chatlab_message list"
  cs_meta :: chatlab_meta
  cs_page :: page_block
  cs_talker :: string

record pull_message = chatlab_message +
  pu_media_id :: "string option"

record pull_sync =
  py_has_more :: bool
  py_next_offset :: nat
  py_next_since :: int
  py_watermark :: int

record pull_envelope =
  pe_chatlab :: chatlab_header
  pe_members :: "chatlab_member list"
  pe_messages :: "pull_message list"
  pe_meta :: chatlab_meta
  pe_sync :: pull_sync

definition generator :: string where "generator = ''weflow-server''"
definition format_version :: string where "format_version = ''0.0.2''"
definition platform :: string where "platform = ''wechat''"

definition header :: "int \<Rightarrow> chatlab_header" where
  "header now = \<lparr>ch_exported_at = now, ch_generator = generator, ch_version = format_version\<rparr>"

definition session_type :: "string \<Rightarrow> string" where
  "session_type talker = (if ends_with ''@chatroom'' talker then ''group'' else ''private'')"

definition meta :: "store \<Rightarrow> string \<Rightarrow> string \<Rightarrow> string \<Rightarrow> chatlab_meta" where
  "meta st talker group_id owner_id = \<lparr>cm_group_id = group_id, cm_name = session_display st talker,
     cm_owner_id = owner_id, cm_platform = platform, cm_type = session_type talker\<rparr>"

definition media_brief_of :: "message_record \<Rightarrow> media_brief option" where
  "media_brief_of m = map_option (\<lambda>h. \<lparr>bf_file_name = mh_file_name h, bf_md5 = mh_md5 h,
     bf_type = media_kind_str (mh_kind h)\<rparr>) (pm_media (mr_parsed m))"

definition message_fields :: "store \<Rightarrow> string option \<Rightarrow> message_record \<Rightarrow> chatlab_message" where
  "message_fields st chatroom m = \<lparr>cg_account_name = mr_sender_name m, cg_content = pm_display (mr_parsed m),
     cg_group_nickname = group_card st chatroom (mr_sender_username m), cg_media = media_brief_of m,
     cg_platform_message_id = int_to_dec (mr_server_id m), cg_reply_to_message_id = pm_reply_to (mr_parsed m),
     cg_sender = mr_sender_username m, cg_timestamp = mr_create_time m,
     cg_type = chatlab_type (mr_local_type m) (mr_parsed m)\<rparr>"

definition member_fields :: "store \<Rightarrow> string option \<Rightarrow> string \<Rightarrow> chatlab_member" where
  "member_fields st chatroom username = (let c = hm_get (st_contacts st) username;
       profile = opt_filter (\<lambda>s. s \<noteq> [] \<and> s \<noteq> username) (map_option contact_display_name c)
     in \<lparr>cmb_account_name = opt_or profile username, cmb_avatar = opt_or (Option.bind c ct_avatar_url) [],
         cmb_group_nickname = group_card st chatroom username, cmb_platform_id = username\<rparr>)"

text \<open>The senders of a page in order of appearance, each once; \<open>seen\<close> is the hash set.\<close>

fun new_senders :: "string set \<Rightarrow> message_record list \<Rightarrow> string list" where
  "new_senders seen [] = []"
| "new_senders seen (m # ms) = (let w = mr_sender_username m in
     if w \<noteq> [] \<and> w \<notin> seen then w # new_senders (insert w seen) ms else new_senders seen ms)"

definition chatroom_of :: "string \<Rightarrow> string option" where
  "chatroom_of talker = (if ends_with ''@chatroom'' talker then Some talker else None)"

section \<open>The message page\<close>

definition rename_media :: "(int, exported_media) hashmap \<Rightarrow> int \<Rightarrow> chatlab_message \<Rightarrow> chatlab_message" where
  "rename_media exported local_id msg = (case hm_get exported local_id of
       None \<Rightarrow> msg
     | Some res \<Rightarrow> if em_external_url res \<noteq> None \<or> \<not> em_digest_named res then msg
         else msg\<lparr>cg_media := map_option (\<lambda>b. b\<lparr>bf_file_name := em_file_name res\<rparr>) (cg_media msg)\<rparr>)"

definition chatlab_messages_handler :: "(json \<Rightarrow> string) \<Rightarrow> (string \<Rightarrow> string) \<Rightarrow> (nat \<Rightarrow> nat \<Rightarrow> nat \<Rightarrow> int option)
    \<Rightarrow> (nat \<Rightarrow> export_job list \<Rightarrow> 'f \<Rightarrow> 'f \<times> (int, exported_media) hashmap) \<Rightarrow> int \<Rightarrow> params \<Rightarrow> string option
    \<Rightarrow> json option \<Rightarrow> 'f \<Rightarrow> ('c, 'ch) app_state \<Rightarrow> 'f \<times> (api_error + chatlab_messages)" where
  "chatlab_messages_handler show_json lower midnight export now query authorization body f app = (let
       params = merge_params show_json query body
     in case require_auth (ap_token app) query authorization of Inl e \<Rightarrow> (f, Inl e) | Inr _ \<Rightarrow>
       (case ready_account app params of Inl e \<Rightarrow> (f, Inl e) | Inr a \<Rightarrow>
       (case query_with_cursor lower midnight params of Inl e \<Rightarrow> (f, Inl e) | Inr q \<Rightarrow>
       (let st = handle_store (handle_at app a) in
        case page_slice lower st q of Inl e \<Rightarrow> (f, Inl e) | Inr page \<Rightarrow>
        (let jobs = (if media_requested params then collect_export_jobs st page (mq_talker q) params else []);
             conv = conversation st (mq_talker q);
             rows = rev (map (\<lambda>i. conv ! i) (mp_indices page));
             chatroom = chatroom_of (mq_talker q);
             (f', exported) = run_export_batch (export a) jobs f
         in (f', Inr \<lparr>cs_chatlab = header now, cs_count = page_count page,
              cs_members = map (member_fields st chatroom) (new_senders {} rows),
              cs_messages = map (\<lambda>m. rename_media exported (mr_local_id m) (message_fields st chatroom m)) rows,
              cs_meta = meta st (mq_talker q) (mq_talker q) (st_my_wxid st),
              cs_page = \<lparr>pb_has_more = mp_has_more page,
                pb_next_cursor = (if mp_has_more page then Some (nat_to_dec (mp_next_offset page)) else None)\<rparr>,
              cs_talker = mq_talker q\<rparr>))))))"

definition chatlab_sessions_handler :: "(json \<Rightarrow> string) \<Rightarrow> (string \<Rightarrow> string) \<Rightarrow> params \<Rightarrow> string option
    \<Rightarrow> json option \<Rightarrow> ('c, 'ch) app_state \<Rightarrow> api_error + sessions_reply" where
  "chatlab_sessions_handler show_json lower query authorization body app =
     sessions_respond show_json lower query authorization body True app"

section \<open>The pull protocol\<close>

definition ascending :: "store \<Rightarrow> string \<Rightarrow> int option \<Rightarrow> int option \<Rightarrow> message_record list" where
  "ascending st ident since until = sort_key sort_pos (filter (\<lambda>m. is_none_or (\<lambda>s. mr_create_time m > s) since
     \<and> is_none_or (\<lambda>e. mr_create_time m \<le> e) until) (conversation st ident))"

text \<open>The page loop: the limit only cuts where the second changes.\<close>

fun take_page :: "nat \<Rightarrow> nat \<Rightarrow> int option \<Rightarrow> message_record list \<Rightarrow> message_record list" where
  "take_page limit taken prev_ts [] = []"
| "take_page limit taken prev_ts (m # ms) =
     (if is_some_and (\<lambda>p. p \<noteq> mr_create_time m) prev_ts \<and> taken \<ge> limit then []
      else m # take_page limit (Suc taken) (Some (mr_create_time m)) ms)"

definition pull_page :: "store \<Rightarrow> string \<Rightarrow> int \<Rightarrow> int option \<Rightarrow> int option \<Rightarrow> nat \<Rightarrow> nat \<Rightarrow> message_record list \<times> pull_sync" where
  "pull_page st ident now since until limit offset = (let
       watermark = opt_or until now;
       rows = ascending st ident since until;
       total_rows = length rows;
       start = min offset total_rows;
       page = take_page limit 0 None (drop start rows);
       has_more = start + length page < total_rows;
       next_since = (if page = [] then opt_or since 0 else mr_create_time (last page))
     in (page, \<lparr>py_has_more = has_more,
          py_next_offset = (if has_more \<and> next_since \<le> opt_or since i64_min
            then saturating_add start (length page) else 0),
          py_next_since = (if has_more then next_since else watermark), py_watermark = watermark\<rparr>))"

definition pull_media_id :: "(string, string) hashmap \<Rightarrow> message_record \<Rightarrow> string option" where
  "pull_media_id handles m = Option.bind (pm_media (mr_parsed m)) (\<lambda>hint. let stem = file_stem (mh_file_name hint) in
     if length stem \<noteq> 32 then None else hm_get handles (to_ascii_lowercase stem))"

definition chatlab_pull_handler :: "(nat \<Rightarrow> nat \<Rightarrow> nat \<Rightarrow> int option) \<Rightarrow> export_env \<Rightarrow> disk \<Rightarrow> string list \<Rightarrow> int \<Rightarrow> string
    \<Rightarrow> params \<Rightarrow> string option \<Rightarrow> ('c, 'ch) app_state \<Rightarrow> api_error + pull_envelope" where
  "chatlab_pull_handler midnight env d export_dir now ident query authorization app =
     (case require_auth (ap_token app) query authorization of Inl e \<Rightarrow> Inl e | Inr _ \<Rightarrow>
       (case ready_account app query of Inl e \<Rightarrow> Inl e | Inr a \<Rightarrow>
       (let since = Option.bind (hm_get query ''since'') (parse_time_bound midnight);
            until = Option.bind (hm_get query ''end'') (parse_time_bound_end midnight);
            limit = parse_limit query ''limit'' 5000 5000;
            offset = parse_offset query ''offset'';
            handles = digest_handles env d export_dir ident;
            st = handle_store (handle_at app a)
        in if \<not> conversation_known st ident
           then Inl (not_found (''session '' @ [CHR 0x27] @ ident @ [CHR 0x27] @ '' not found''))
           else (let (page, sync) = pull_page st ident now since until limit offset;
                     chatroom = chatroom_of ident
             in Inr \<lparr>pe_chatlab = header now,
                  pe_members = map (member_fields st chatroom) (new_senders {} page),
                  pe_messages = map (\<lambda>m. chatlab_message.extend (message_fields st chatroom m)
                    (pull_message.fields (pull_media_id handles m))) page,
                  pe_meta = meta st ident ident (st_my_wxid st), pe_sync = sync\<rparr>))))"


section \<open>What a pulling client receives\<close>

text \<open>The client of the protocol: it echoes both cursors while more is announced.\<close>

fun pull_all :: "nat \<Rightarrow> store \<Rightarrow> string \<Rightarrow> int \<Rightarrow> int option \<Rightarrow> int option \<Rightarrow> nat \<Rightarrow> nat \<Rightarrow> message_record list \<times> int option" where
  "pull_all 0 st ident now since until limit offset = ([], None)"
| "pull_all (Suc n) st ident now since until limit offset =
     (case pull_page st ident now since until limit offset of (page, sync) \<Rightarrow>
        if py_has_more sync
        then (case pull_all n st ident now (Some (py_next_since sync)) until limit (py_next_offset sync) of
                (rest, cursor) \<Rightarrow> (page @ rest, cursor))
        else (page, Some (py_next_since sync)))"

lemma take_page_prefix: "\<exists>k. take_page limit taken prev ms = take k ms"
proof (induction ms arbitrary: taken prev)
  case (Cons m ms)
  obtain k where "take_page limit (Suc taken) (Some (mr_create_time m)) ms = take k ms" using Cons.IH by blast
  then have "take_page limit taken prev (m # ms) = take (if is_some_and (\<lambda>p. p \<noteq> mr_create_time m) prev \<and> taken \<ge> limit
      then 0 else Suc k) (m # ms)" by simp
  then show ?case by blast
qed simp

lemma take_page_nonempty: "ms \<noteq> [] \<Longrightarrow> take_page limit taken None ms \<noteq> []"
  by (cases ms) simp_all

text \<open>A page that leaves something behind ends where the second changes.\<close>

lemma take_page_boundary:
  assumes "take_page limit taken prev ms = take k ms" and "k < length ms"
    and "prev = Some t \<or> 0 < k"
  shows "(if k = 0 then prev else Some (mr_create_time (ms ! (k - 1)))) \<noteq> Some (mr_create_time (ms ! k))"
  using assms
proof (induction ms arbitrary: taken prev k t)
  case (Cons m ms)
  show ?case
  proof (cases "is_some_and (\<lambda>p. p \<noteq> mr_create_time m) prev \<and> taken \<ge> limit")
    case True
    with Cons.prems(1) have "k = 0" by simp
    with True show ?thesis by (cases prev) auto
  next
    case False
    with Cons.prems(1) obtain j where k: "k = Suc j" by (cases k) (auto simp: if_not_P [OF False])
    have "take_page limit taken prev (m # ms) = m # take_page limit (Suc taken) (Some (mr_create_time m)) ms"
      by (simp only: take_page.simps if_not_P [OF False])
    with k Cons.prems(1,2) have "take_page limit (Suc taken) (Some (mr_create_time m)) ms = take j ms" "j < length ms"
      by simp_all
    from Cons.IH [OF this] show ?thesis using k by (cases j) auto
  qed
qed simp

lemma take_page_length: "take_page limit taken prev ms = take (length (take_page limit taken prev ms)) ms"
proof -
  obtain k where "take_page limit taken prev ms = take k ms" using take_page_prefix by blast
  then show ?thesis by (cases "k \<le> length ms") (simp_all add: min_def)
qed

lemma ascending_sorted: "sorted (map mr_create_time (ascending st ident since until))"
proof -
  have "sorted_wrt (\<lambda>a b. sort_pos a \<le> sort_pos b) (ascending st ident since until)"
    using sorted_sort_key [of sort_pos] unfolding ascending_def sorted_map by blast
  then have "sorted_wrt (\<lambda>a b. mr_create_time a \<le> mr_create_time b) (ascending st ident since until)"
    by (rule sorted_wrt_mono_rel [rotated]) (auto simp: sort_pos_def less_eq_prod_def)
  then show ?thesis by (simp add: sorted_map)
qed

lemma ascending_later:
  assumes "is_none_or (\<lambda>s. s \<le> t) since"
  shows "ascending st ident (Some t) until = filter (\<lambda>m. t < mr_create_time m) (ascending st ident since until)"
proof -
  have f: "filter (\<lambda>m. is_none_or (\<lambda>s. mr_create_time m > s) (Some t) \<and> is_none_or (\<lambda>e. mr_create_time m \<le> e) until) conv
      = filter (\<lambda>m. t < mr_create_time m) (filter (\<lambda>m. is_none_or (\<lambda>s. mr_create_time m > s) since
          \<and> is_none_or (\<lambda>e. mr_create_time m \<le> e) until) conv)" for conv
    using assms by (induction conv) (auto simp: is_none_or_def split: option.splits)
  show ?thesis unfolding ascending_def filter_sort_key_commute by (rule arg_cong [OF f])
qed

text \<open>The rest after a page is what the next cursor selects.\<close>

lemma page_cut:
  assumes sorted: "sorted (map mr_create_time rows)" and "k < length rows" and "0 < k"
    and page: "take_page limit 0 None rows = take k rows"
  shows "filter (\<lambda>m. mr_create_time (last (take k rows)) < mr_create_time m) rows = drop k rows"
proof -
  let ?t = "mr_create_time (last (take k rows))"
  have last: "last (take k rows) = rows ! (k - 1)"
    using assms(2,3) by (subst last_conv_nth) auto
  have nth: "mr_create_time (rows ! i) \<le> mr_create_time (rows ! j)" if "i \<le> j" "j < length rows" for i j
    using sorted_split_at [OF sorted that] .
  have "mr_create_time (rows ! (k - 1)) \<noteq> mr_create_time (rows ! k)"
    using take_page_boundary [OF page assms(2)] assms(3) by auto
  then have gap: "?t < mr_create_time (rows ! k)" using nth [of "k - 1" k] assms(2) by (simp add: last)
  have "filter (\<lambda>m. ?t < mr_create_time m) (take k rows) = []"
  proof -
    have "\<not> ?t < mr_create_time m" if "m \<in> set (take k rows)" for m
    proof -
      from that obtain i where "i < k" "m = rows ! i" by (auto simp: in_set_conv_nth)
      then show ?thesis using nth [of i "k - 1"] assms(2) by (simp add: last not_less)
    qed
    then show ?thesis by (simp add: filter_empty_conv)
  qed
  moreover have "filter (\<lambda>m. ?t < mr_create_time m) (drop k rows) = drop k rows"
  proof -
    have "?t < mr_create_time m" if "m \<in> set (drop k rows)" for m
    proof -
      from that obtain i where i: "i < length rows - k" "m = rows ! (k + i)" by (auto simp: in_set_conv_nth)
      then have "mr_create_time (rows ! k) \<le> mr_create_time m" using nth [of k "k + i"] by simp
      with gap show ?thesis by simp
    qed
    then show ?thesis by (simp add: filter_id_conv)
  qed
  ultimately show ?thesis by (metis append_Nil append_take_drop_id filter_append)
qed

lemma pull_page_first:
  assumes "py_has_more (snd (pull_page st ident now since until limit 0))"
    and ge: "is_none_or (\<lambda>s. i64_min \<le> s) since" and ct: "\<forall>m\<in>set (conversation st ident). i64_min < mr_create_time m"
  shows "let rows = ascending st ident since until; k = length (fst (pull_page st ident now since until limit 0));
      sync = snd (pull_page st ident now since until limit 0)
    in fst (pull_page st ident now since until limit 0) = take k rows \<and> 0 < k \<and> k < length rows \<and> py_next_offset sync = 0
      \<and> ascending st ident (Some (py_next_since sync)) until = drop k rows
      \<and> i64_min \<le> py_next_since sync \<and> is_none_or (\<lambda>s. s < py_next_since sync) since"
proof -
  let ?rows = "ascending st ident since until"
  let ?page = "take_page limit 0 None ?rows"
  have page: "fst (pull_page st ident now since until limit 0) = ?page" by (simp add: pull_page_def Let_def)
  have more: "length ?page < length ?rows" using assms(1) by (simp add: pull_page_def Let_def)
  then have ne: "?page \<noteq> []" by (intro take_page_nonempty) auto
  let ?t = "mr_create_time (last ?page)"
  have pfx: "?page = take (length ?page) ?rows" by (rule take_page_length)
  have "last ?page \<in> set ?rows" using ne pfx by (metis in_set_takeD last_in_set)
  then have mem: "last ?page \<in> set (conversation st ident)" "is_none_or (\<lambda>s. s < ?t) since"
    by (auto simp: ascending_def)
  with ct have tmin: "i64_min < ?t" by blast
  have sync: "snd (pull_page st ident now since until limit 0) = \<lparr>py_has_more = True, py_next_offset = 0,
      py_next_since = ?t, py_watermark = opt_or until now\<rparr>"
    using more ne mem(2) tmin by (cases since) (auto simp: pull_page_def Let_def)
  have "is_none_or (\<lambda>s. s \<le> ?t) since" using mem(2) by (cases since) auto
  then have "ascending st ident (Some ?t) until = filter (\<lambda>m. ?t < mr_create_time m) ?rows" by (rule ascending_later)
  also have "\<dots> = drop (length ?page) ?rows"
    using page_cut [OF ascending_sorted more _ pfx] ne pfx by simp
  finally show ?thesis using page sync more ne pfx mem(2) tmin by (simp add: Let_def)
qed

lemma pull_all_rows:
  assumes "\<forall>m\<in>set (conversation st ident). i64_min < mr_create_time m"
  shows "is_none_or (\<lambda>s. i64_min \<le> s) since \<Longrightarrow> length (ascending st ident since until) < n
    \<Longrightarrow> pull_all n st ident now since until limit 0 = (ascending st ident since until, Some (opt_or until now))"
proof (induction n arbitrary: since)
  case (Suc n)
  let ?r = "pull_page st ident now since until limit 0"
  let ?rows = "ascending st ident since until"
  show ?case
  proof (cases "py_has_more (snd ?r)")
    case True
    note f = pull_page_first [OF True Suc.prems(1) assms, unfolded Let_def]
    have "length (ascending st ident (Some (py_next_since (snd ?r))) until) < n"
      using f Suc.prems(2) by (cases "fst ?r") auto
    then have "pull_all n st ident now (Some (py_next_since (snd ?r))) until limit 0
        = (drop (length (fst ?r)) ?rows, Some (opt_or until now))"
      using Suc.IH [of "Some (py_next_since (snd ?r))"] f by simp
    moreover have "fst ?r @ drop (length (fst ?r)) ?rows = ?rows" using f by (metis append_take_drop_id)
    moreover have "py_next_offset (snd ?r) = 0" using f by simp
    ultimately show ?thesis using True by (simp add: split_beta)
  next
    case False
    have "fst ?r = ?rows" using False take_page_length [of limit 0 None ?rows] by (simp add: pull_page_def Let_def)
    moreover have "py_next_since (snd ?r) = opt_or until now" using False by (simp add: pull_page_def Let_def)
    ultimately show ?thesis using False by (simp add: split_beta)
  qed
qed simp

text \<open>
  The pull protocol delivers a session completely: a client that echoes the cursors receives every
  message after its starting point, once and in order, whatever the page limit and although the
  cursor is only a second, and ends with the upper bound of its pull as its next starting point.
\<close>

theorem pull_delivers_everything:
  assumes "\<forall>m\<in>set (conversation st ident). i64_min < mr_create_time m"
    and "is_none_or (\<lambda>s. i64_min \<le> s) since" and "length (conversation st ident) < n"
  shows "\<exists>rows. pull_all n st ident now since until limit 0 = (rows, Some (opt_or until now))
    \<and> mset rows = mset (filter (\<lambda>m. is_none_or (\<lambda>s. s < mr_create_time m) since
        \<and> is_none_or (\<lambda>e. mr_create_time m \<le> e) until) (conversation st ident))
    \<and> sorted (map sort_pos rows)"
proof -
  let ?rows = "ascending st ident since until"
  have "length ?rows < n" using assms(3) by (simp add: ascending_def) (meson le_less_trans length_filter_le)
  then have "pull_all n st ident now since until limit 0 = (?rows, Some (opt_or until now))"
    using pull_all_rows [OF assms(1,2)] by simp
  moreover have "mset ?rows = mset (filter (\<lambda>m. is_none_or (\<lambda>s. s < mr_create_time m) since
        \<and> is_none_or (\<lambda>e. mr_create_time m \<le> e) until) (conversation st ident))"
    by (simp add: ascending_def)
  moreover have "sorted (map sort_pos ?rows)" by (simp add: ascending_def)
  ultimately show ?thesis by blast
qed

theorem pull_delivers_everything_witness:
  "\<exists>rows. pull_all 4 demo_store ''g@chatroom'' 100 (Some 10) None 1 0 = (rows, Some 100) \<and> length rows = 2"
proof -
  let ?conv = "conversation demo_store ''g@chatroom''"
  have c: "list_all (\<lambda>m. i64_min < mr_create_time m) ?conv" "length ?conv < 4" by code_simp+
  then have c1: "\<forall>m\<in>set ?conv. i64_min < mr_create_time m" by (simp add: list_all_iff)
  have n: "length (filter (\<lambda>m. is_none_or (\<lambda>s. s < mr_create_time m) (Some 10)
        \<and> is_none_or (\<lambda>e. mr_create_time m \<le> e) None) ?conv) = 2" by code_simp
  have s: "is_none_or (\<lambda>s. i64_min \<le> s) (Some (10 :: int))" by code_simp
  obtain rows where "pull_all 4 demo_store ''g@chatroom'' 100 (Some 10) None 1 0 = (rows, Some (opt_or None 100))"
    "mset rows = mset (filter (\<lambda>m. is_none_or (\<lambda>s. s < mr_create_time m) (Some 10)
        \<and> is_none_or (\<lambda>e. mr_create_time m \<le> e) None) ?conv)"
    using pull_delivers_everything [OF c1 s c(2), of 100 None 1] by blast
  moreover from arg_cong [OF this(2), of size] n have "length rows = 2" by (simp only: size_mset)
  ultimately show ?thesis by auto
qed

text \<open>
  The price of the time bound: what reaches the index after a drained pull with a creation time not
  later than its clock is not in any later pull from the returned cursor.
\<close>

lemma pull_skips_late_messages:
  assumes "pull_page st ident now since None limit offset = (page, sync)" and "\<not> py_has_more sync"
    and "m \<in> set (conversation st' ident)" and "mr_create_time m \<le> now"
  shows "m \<notin> set (fst (pull_page st' ident now' (Some (py_next_since sync)) until limit' offset'))"
proof -
  have n: "py_next_since sync = now" using assms(1,2) by (auto simp: pull_page_def Let_def split: if_splits)
  have "set (fst (pull_page st' ident now' (Some now) until limit' offset')) \<subseteq> set (ascending st' ident (Some now) until)"
  proof -
    let ?rows = "ascending st' ident (Some now) until"
    obtain k where "take_page limit' 0 None (drop (min offset' (length ?rows)) ?rows) = take k (drop (min offset' (length ?rows)) ?rows)"
      using take_page_prefix by blast
    then have "fst (pull_page st' ident now' (Some now) until limit' offset') = take k (drop (min offset' (length ?rows)) ?rows)"
      by (simp add: pull_page_def Let_def)
    then show ?thesis by (metis set_drop_subset set_take_subset subset_trans)
  qed
  then show ?thesis using assms(4) unfolding n by (auto simp: ascending_def)
qed

end
