(* ===== verification/Push.thy ===== *)
theory Push
  imports Chatlab
begin

text \<open>
  The event streams: \<open>handlers/push_events.rs\<close> (whole messages) and \<open>handlers/chatlab_push.rs\<close>
  (notifications), which share one stream and differ in the serialiser. A stream is the list of its
  frames; what the broadcast receiver yields, and what the server's state is at each of these moments,
  is the list of \<open>arrival\<close>s up to the shutdown or the end of the channel.
\<close>

section \<open>Payloads\<close>

record event_media =
  vm_file_name :: string
  vm_md5 :: "string option"
  vm_type :: string
  vm_media_id :: "string option"

record event_new =
  vn_content :: string
  vn_event :: string
  vn_group_name :: "string option"
  vn_media :: "event_media option"
  vn_rawid :: string
  vn_session_id :: string
  vn_session_type :: string
  vn_source_name :: string
  vn_timestamp :: int

record event_revoke =
  vr_content :: string
  vr_event :: string
  vr_group_name :: "string option"
  vr_rawid :: string
  vr_session_id :: string
  vr_session_type :: string
  vr_source_name :: string
  vr_timestamp :: int

record watermark_value =
  wv_create_time :: int
  wv_local_id :: int
  wv_sort_seq :: int

record watermark_entry =
  we_table :: string
  we_watermark :: watermark_value

record event_sync =
  vs_event :: string
  vs_generation :: nat
  vs_watermarks :: "watermark_entry list"

record notification_frame =
  nf_event :: string
  nf_event_id :: string
  nf_platform_message_id :: "string option"
  nf_session_id :: string
  nf_timestamp :: int

datatype payload = Ready_Payload | New_Payload event_new | Revoke_Payload event_revoke
  | Sync_Payload event_sync | Notification notification_frame

record frame =
  fr_id :: "nat option"
  fr_event :: string
  fr_payload :: payload

section \<open>Serialisers\<close>

definition watermark_entries :: "(string \<times> watermark) list \<Rightarrow> watermark_entry list" where
  "watermark_entries wms = map (\<lambda>(k, w). \<lparr>we_table = k, we_watermark = \<lparr>wv_create_time = wm_create_time w,
     wv_local_id = wm_local_id w, wv_sort_seq = wm_sort_seq w\<rparr>\<rparr>) wms"

definition sync_payload :: "nat \<Rightarrow> (string \<times> watermark) list \<Rightarrow> payload" where
  "sync_payload generation wms = Sync_Payload \<lparr>vs_event = ''sync'', vs_generation = generation,
     vs_watermarks = watermark_entries wms\<rparr>"

definition serialize_event :: "disk \<Rightarrow> string list \<Rightarrow> nat \<Rightarrow> event \<Rightarrow> string \<times> payload" where
  "serialize_event d export_dir generation ev = (case ev of
       New_Event m \<Rightarrow> (''message.new'', New_Payload \<lparr>vn_content = ne_content m, vn_event = ''message.new'',
         vn_group_name = ne_group_name m,
         vn_media = map_option (\<lambda>md. \<lparr>vm_file_name = pu_file_name md, vm_md5 = pu_md5 md, vm_type = pu_kind md,
           vm_media_id = Option.bind (pu_kind_dir md) (\<lambda>dir.
             fetchable_media_id d export_dir (ne_session_id m) dir (pu_file_name md))\<rparr>) (ne_media m),
         vn_rawid = ne_rawid m, vn_session_id = ne_session_id m, vn_session_type = ne_session_type m,
         vn_source_name = ne_source_name m, vn_timestamp = ne_timestamp m\<rparr>)
     | Revoke_Event r \<Rightarrow> (''message.revoke'', Revoke_Payload \<lparr>vr_content = re_content r, vr_event = ''message.revoke'',
         vr_group_name = re_group_name r, vr_rawid = re_rawid r, vr_session_id = re_session_id r,
         vr_session_type = re_session_type r, vr_source_name = re_source_name r, vr_timestamp = re_timestamp r\<rparr>)
     | Sync_Event wms \<Rightarrow> (''sync'', sync_payload generation wms))"

definition serialize_notification :: "nat \<Rightarrow> event \<Rightarrow> string \<times> payload" where
  "serialize_notification generation ev = (case ev of
       Sync_Event wms \<Rightarrow> (''sync'', sync_payload generation wms)
     | New_Event m \<Rightarrow> (''message.new'', Notification \<lparr>nf_event = ''message.new'', nf_event_id = ne_rawid m,
         nf_platform_message_id = None, nf_session_id = ne_session_id m, nf_timestamp = ne_timestamp m\<rparr>)
     | Revoke_Event r \<Rightarrow> (''message.revoke'', Notification \<lparr>nf_event = ''message.revoke'', nf_event_id = re_rawid r,
         nf_platform_message_id = Some (re_rawid r), nf_session_id = re_session_id r, nf_timestamp = re_timestamp r\<rparr>))"

section \<open>The stream\<close>

text \<open>\<open>Last-Event-ID\<close>: the header, then the query parameter, as \<open>u64\<close>.\<close>

definition last_event_id :: "string option \<Rightarrow> params \<Rightarrow> nat" where
  "last_event_id header_value query = opt_or (opt_else (Option.bind header_value parse_usize)
     (Option.bind (hm_get query ''lastEventId'') parse_usize)) 0"

datatype 'e received = Stamped nat 'e | Behind

record arrival =
  ar_item :: "event received"
  ar_generation :: nat
  ar_watermarks :: "(string \<times> watermark) list"

definition ready_frame :: frame where
  "ready_frame = \<lparr>fr_id = None, fr_event = ''ready'', fr_payload = Ready_Payload\<rparr>"

definition frame_of :: "nat option \<Rightarrow> string \<times> payload \<Rightarrow> frame" where
  "frame_of i np = \<lparr>fr_id = i, fr_event = fst np, fr_payload = snd np\<rparr>"

definition live_frame :: "(nat \<Rightarrow> event \<Rightarrow> string \<times> payload) \<Rightarrow> arrival \<Rightarrow> frame" where
  "live_frame serialize x = (case ar_item x of
       Stamped i ev \<Rightarrow> frame_of (Some i) (serialize (ar_generation x) ev)
     | Behind \<Rightarrow> frame_of None (serialize (ar_generation x) (Sync_Event (ar_watermarks x))))"

definition sse_frames :: "(nat \<Rightarrow> event \<Rightarrow> string \<times> payload) \<Rightarrow> (nat \<times> event) list \<Rightarrow> nat \<Rightarrow> (string \<times> watermark) list
    \<Rightarrow> arrival list \<Rightarrow> frame list" where
  "sse_frames serialize replay generation wms arrivals =
     ready_frame # map (\<lambda>(i, ev). frame_of (Some i) (serialize generation ev)) replay
     @ frame_of None (serialize generation (Sync_Event wms)) # map (live_frame serialize) arrivals"

text \<open>Opening a stream on the server's bus: the subscription and the replay are one step.\<close>

definition sse_from :: "('ch \<Rightarrow> 'rx) \<Rightarrow> (nat \<Rightarrow> event \<Rightarrow> string \<times> payload) \<Rightarrow> nat \<Rightarrow> nat \<Rightarrow> ('c, 'ch) app_state
    \<Rightarrow> arrival list \<Rightarrow> 'rx \<times> frame list" where
  "sse_from subscribe serialize now cursor app arrivals =
     (case subscribe_with_replay subscribe now cursor (ap_bus app) of
        (rx, replay) \<Rightarrow> (rx, sse_frames serialize replay (ap_generation app) (current_watermarks app) arrivals))"

definition push_events_handler :: "('ch \<Rightarrow> 'rx) \<Rightarrow> disk \<Rightarrow> string list \<Rightarrow> nat \<Rightarrow> string option \<Rightarrow> params \<Rightarrow> string option
    \<Rightarrow> ('c, 'ch) app_state \<Rightarrow> arrival list \<Rightarrow> api_error + 'rx \<times> frame list" where
  "push_events_handler subscribe d export_dir now header_value query authorization app arrivals =
     (case require_auth (ap_token app) query authorization of Inl e \<Rightarrow> Inl e
      | Inr _ \<Rightarrow> Inr (sse_from subscribe (serialize_event d export_dir) now (last_event_id header_value query) app arrivals))"

definition chatlab_push_handler :: "('ch \<Rightarrow> 'rx) \<Rightarrow> nat \<Rightarrow> string option \<Rightarrow> params \<Rightarrow> string option
    \<Rightarrow> ('c, 'ch) app_state \<Rightarrow> arrival list \<Rightarrow> api_error + 'rx \<times> frame list" where
  "chatlab_push_handler subscribe now header_value query authorization app arrivals =
     (case require_auth (ap_token app) query authorization of Inl e \<Rightarrow> Inl e
      | Inr _ \<Rightarrow> Inr (sse_from subscribe serialize_notification now (last_event_id header_value query) app arrivals))"

section \<open>Properties\<close>

definition frame_ids :: "frame list \<Rightarrow> nat list" where
  "frame_ids fs = List.map_filter fr_id fs"

definition arrival_ids :: "arrival list \<Rightarrow> nat list" where
  "arrival_ids xs = List.map_filter (\<lambda>x. case ar_item x of Stamped i e \<Rightarrow> Some i | Behind \<Rightarrow> None) xs"

lemma frame_ids_append [simp]: "frame_ids (xs @ ys) = frame_ids xs @ frame_ids ys"
  by (simp add: frame_ids_def map_filter_def)

lemma frame_ids_replay: "frame_ids (map (\<lambda>(i, ev). frame_of (Some i) (s ev)) replay) = map fst replay"
  by (induction replay) (auto simp: frame_ids_def frame_of_def)

lemma frame_ids_live: "frame_ids (map (live_frame serialize) xs) = arrival_ids xs"
  by (induction xs) (auto simp: frame_ids_def arrival_ids_def live_frame_def frame_of_def split: received.split)

lemma frame_ids_stream: "frame_ids (sse_frames serialize replay g wms arrivals) = map fst replay @ arrival_ids arrivals"
proof -
  have h: "frame_ids (f # fs) = (case fr_id f of None \<Rightarrow> frame_ids fs | Some i \<Rightarrow> i # frame_ids fs)" for f fs
    by (simp add: frame_ids_def split: option.split)
  show ?thesis
    by (simp add: sse_frames_def h ready_frame_def frame_ids_replay frame_ids_live)
      (simp add: frame_of_def frame_ids_replay frame_ids_live h)
qed

text \<open>
  The ids of a stream are a resume cursor on both faces: they are the replayed ones followed by the live
  ones, strictly increasing and all above the cursor the client sent, as long as the channel delivers
  increasing ids above the last one at subscription; the ready, baseline and lag frames carry none.
\<close>

theorem stream_ids_resume:
  assumes h: "history_inv (history (ap_bus app))"
    and live: "sorted_wrt (<) (arrival_ids arrivals)" "\<forall>i\<in>set (arrival_ids arrivals). last_id (history (ap_bus app)) < i"
    and cursor: "last_id_sent \<le> last_id (history (ap_bus app))"
  shows "let fs = snd (sse_from subscribe serialize now last_id_sent app arrivals) in
      frame_ids fs = map fst (replay_since now last_id_sent (history (ap_bus app))) @ arrival_ids arrivals
      \<and> sorted_wrt (<) (frame_ids fs) \<and> (\<forall>i\<in>set (frame_ids fs). last_id_sent < i)
      \<and> fr_event (hd fs) = ''ready'' \<and> fr_id (hd fs) = None"
proof -
  let ?replay = "replay_since now last_id_sent (history (ap_bus app))"
  have r: "last_id_sent < i \<and> i \<le> last_id (history (ap_bus app))" if "i \<in> fst ` set ?replay" for i
    using that hist.replay_range [OF h] by fastforce
  have "sorted_wrt (<) (map fst ?replay @ arrival_ids arrivals)"
    using hist.replay_sorted [OF h, of now last_id_sent] live r by (fastforce simp: sorted_wrt_append)
  moreover have "\<forall>i\<in>set (map fst ?replay @ arrival_ids arrivals). last_id_sent < i"
    using r live(2) cursor by fastforce
  ultimately show ?thesis
    by (simp add: sse_from_def subscribe_with_replay_def frame_ids_stream Let_def)
      (simp add: sse_frames_def ready_frame_def)
qed

definition two_events_app :: "(nat, nat list) app_state" where
  "two_events_app = demo_app\<lparr>ap_bus := snd (publish (\<lambda>ch e. ch) 0 (Sync_Event [])
     (snd (publish (\<lambda>ch e. ch) 0 (Sync_Event []) (ap_bus demo_app))))\<rparr>"

definition demo_arrivals :: "arrival list" where
  "demo_arrivals = [\<lparr>ar_item = Behind, ar_generation = 1, ar_watermarks = []\<rparr>,
     \<lparr>ar_item = Stamped 3 (Sync_Event []), ar_generation = 1, ar_watermarks = []\<rparr>]"

theorem stream_ids_resume_witness:
  "frame_ids (snd (sse_from id serialize_notification 0 1 two_events_app demo_arrivals)) = [2, 3]"
proof -
  have inv: "history_inv (history (ap_bus two_events_app))"
    by (simp add: two_events_app_def demo_app_def app_new_def publish_def split_beta)
  have a: "arrival_ids demo_arrivals = [3]" "last_id (history (ap_bus two_events_app)) = 2"
    "map fst (replay_since 0 1 (history (ap_bus two_events_app))) = [2]" by code_simp+
  show ?thesis
    using stream_ids_resume [OF inv, of demo_arrivals 1 id serialize_notification 0] unfolding a Let_def by simp
qed

end
