(* ===== verification/Moments.thy ===== *)
theory Moments
  imports Reads Sns_Feed "HOL-Library.Multiset"
begin

text \<open>
  The moments endpoints of \<open>src/server/handlers/sns.rs\<close> except the media proxy: the JSON of a feed,
  the timeline page, the list of posters, the statistics, and the export to a JSON or HTML file.
  Responses are \<open>json\<close> values. A number that is not an integer is printed by \<open>show_f64\<close>; the time zone
  functions of the request parameters are \<open>midnight\<close>, as in \<open>Api\<close>.
\<close>

section \<open>JSON access\<close>

text \<open>\<open>value[key]\<close>, \<open>as_str\<close>, \<open>as_array\<close> and \<open>as_i64\<close> of \<open>serde_json\<close>.\<close>

definition json_get :: "json \<Rightarrow> string \<Rightarrow> json" where
  "json_get v k = (case v of Object m \<Rightarrow> (case map_of m k of Some x \<Rightarrow> x | None \<Rightarrow> Null) | _ \<Rightarrow> Null)"

definition as_str :: "json \<Rightarrow> string option" where
  "as_str v = (case v of String s \<Rightarrow> Some s | _ \<Rightarrow> None)"

definition as_array :: "json \<Rightarrow> json list option" where
  "as_array v = (case v of Array xs \<Rightarrow> Some xs | _ \<Rightarrow> None)"

definition as_i64 :: "json \<Rightarrow> int option" where
  "as_i64 v = (case v of Number t \<Rightarrow> parse_i64 t | _ \<Rightarrow> None)"

definition int_json :: "int \<Rightarrow> json" where
  "int_json n = Number (int_to_dec n)"

definition nat_json :: "nat \<Rightarrow> json" where
  "nat_json n = Number (nat_to_dec n)"

definition opt_json :: "string option \<Rightarrow> json" where
  "opt_json s = (case s of Some t \<Rightarrow> String t | None \<Rightarrow> Null)"

section \<open>A feed as JSON\<close>

definition hex_upper :: "nat \<Rightarrow> char" where
  "hex_upper n = char_of (if n < 10 then 48 + n else 55 + n)"

definition is_unreserved :: "char \<Rightarrow> bool" where
  "is_unreserved c \<longleftrightarrow> is_ascii_alnum c \<or> c \<in> {CHR ''-'', CHR ''_'', CHR ''.'', CHR ''~''}"

definition urlencoding_encode :: "string \<Rightarrow> string" where
  "urlencoding_encode s = concat (map (\<lambda>b. if is_unreserved b then [b]
     else [CHR ''%'', hex_upper (of_char b div 16), hex_upper (of_char b mod 16)]) s)"

definition proxy_prefix :: string where
  "proxy_prefix = ''/api/v1/sns/media/proxy?url=''"

definition proxy_url :: "string \<Rightarrow> string" where
  "proxy_url raw = (if raw = [] then [] else proxy_prefix @ urlencoding_encode raw)"

definition sns_media_json :: "sns_media \<Rightarrow> json" where
  "sns_media_json m = (let url = String (proxy_url (sm_url m)); thumb = String (proxy_url (opt_or (sm_thumb m) [])) in
     Object [(''url'', url), (''thumb'', thumb), (''md5'', opt_json (sm_md5 m)), (''encIdx'', opt_json (sm_enc_idx m)),
       (''rawUrl'', String (sm_url m)), (''resolvedUrl'', String (sm_url m)), (''proxyUrl'', url),
       (''proxyThumbUrl'', thumb), (''width'', int_json (sm_width m)), (''height'', int_json (sm_height m))])"

definition sns_feed_json :: "(f64 \<Rightarrow> json) \<Rightarrow> store \<Rightarrow> sns_feed \<Rightarrow> json" where
  "sns_feed_json show_f64 st f = Object [
     (''tid'', int_json (opt_or (parse_i64 (sf_feed_id f)) 0)),
     (''id'', String (sf_object_id f)),
     (''username'', String (sf_user_name f)),
     (''nickname'', String (if sf_nickname f = [] then session_display st (sf_user_name f) else sf_nickname f)),
     (''avatarUrl'', String (opt_or (Option.bind (hm_get (st_contacts st) (sf_user_name f)) ct_avatar_url) [])),
     (''createTime'', int_json (sf_create_time f)),
     (''contentDesc'', String (sf_content_desc f)),
     (''type'', String (sf_content_type f)),
     (''media'', Array (map sns_media_json (sf_media f))),
     (''likes'', Array (map (\<lambda>l. Object [(''username'', String (sp_username l)), (''nickname'', String (sp_nickname l)),
        (''createTime'', int_json (sp_create_time l))]) (sf_likes f))),
     (''comments'', Array (map (\<lambda>c. Object [(''username'', String (sc_username c)), (''nickname'', String (sc_nickname c)),
        (''createTime'', int_json (sc_create_time c)), (''content'', String (sc_content c))]) (sf_comments f))),
     (''rawXml'', String (sf_raw_xml f)),
     (''location'', Object [(''latitude'', show_f64 (sf_latitude f)), (''longitude'', show_f64 (sf_longitude f))]),
     (''feedId'', String (sf_feed_id f)),
     (''displayName'', String (session_display st (sf_user_name f))),
     (''kind'', String (sf_kind f)),
     (''commentCount'', nat_json (sf_comment_count f))]"

section \<open>The timeline\<close>

definition timeline_matches :: "string option \<Rightarrow> int option \<Rightarrow> int option \<Rightarrow> sns_feed \<Rightarrow> bool" where
  "timeline_matches username start finish f \<longleftrightarrow> is_none_or (\<lambda>u. sf_user_name f = u) username
     \<and> is_none_or (\<lambda>s. sf_create_time f \<ge> s) start \<and> is_none_or (\<lambda>e. sf_create_time f \<le> e) finish"

definition timeline_page :: "sns_feed list \<Rightarrow> nat \<Rightarrow> nat \<Rightarrow> sns_feed list \<times> bool" where
  "timeline_page matched offset limit = (let slice = window offset limit matched in
     (slice, offset + length slice < length matched))"

definition username_param :: "params \<Rightarrow> string option" where
  "username_param params = opt_filter (\<lambda>s. s \<noteq> []) (hm_get params ''username'')"

definition timeline_handler :: "(json \<Rightarrow> string) \<Rightarrow> (f64 \<Rightarrow> json) \<Rightarrow> (nat \<Rightarrow> nat \<Rightarrow> nat \<Rightarrow> int option) \<Rightarrow> params
    \<Rightarrow> string option \<Rightarrow> json option \<Rightarrow> ('c, 'ch) app_state \<Rightarrow> api_error + json" where
  "timeline_handler show_json show_f64 midnight query authorization body app = (let
       params = merge_params show_json query body
     in case require_auth (ap_token app) params authorization of Inl e \<Rightarrow> Inl e | Inr _ \<Rightarrow>
       (case ready_account app params of Inl e \<Rightarrow> Inl e | Inr a \<Rightarrow>
       (let username = username_param params;
            limit = parse_limit params ''limit'' 50 500;
            offset = parse_offset params ''offset'';
            start = Option.bind (hm_get params ''start'') (parse_time_bound midnight);
            finish = Option.bind (hm_get params ''end'') (parse_time_bound_end midnight);
            st = handle_store (handle_at app a);
            matched = filter (timeline_matches username start finish) (st_sns_feeds st);
            (slice, has_more) = timeline_page matched offset limit
        in Inr (Object [(''success'', Bool True), (''count'', nat_json (length slice)),
             (''total'', nat_json (length matched)), (''hasMore'', Bool has_more),
             (''timeline'', Array (map (sns_feed_json show_f64 st) slice))]))))"

interpretation timeline: paged "timeline_page matched" matched for matched
  by unfold_locales (simp_all add: timeline_page_def Let_def)

section \<open>Posters\<close>

text \<open>A \<open>BTreeMap\<close> of counters: the entries of the map in the order of their keys.\<close>

definition bump :: "string \<Rightarrow> (string, nat) hashmap \<Rightarrow> (string, nat) hashmap" where
  "bump k m = hm_insert k (opt_or (hm_get m k) 0 + 1) m"

definition by_key :: "(string, 'v) hashmap \<Rightarrow> (string \<times> 'v) list" where
  "by_key m = sort_key fst m"

definition note_post :: "sns_feed \<Rightarrow> (string, int \<times> nat) hashmap \<Rightarrow> (string, int \<times> nat) hashmap" where
  "note_post f m = (case opt_or (hm_get m (sf_user_name f)) (0, 0) of
     (latest, n) \<Rightarrow> hm_insert (sf_user_name f) (max latest (sf_create_time f), n + 1) m)"

definition poster_rows :: "sns_feed list \<Rightarrow> (string \<times> int \<times> nat) list" where
  "poster_rows feeds = sort_key (\<lambda>(u, latest, n). (- latest, u)) (by_key (fold note_post feeds []))"

definition poster_json :: "store \<Rightarrow> bool \<Rightarrow> string \<times> int \<times> nat \<Rightarrow> json" where
  "poster_json st verbose = (\<lambda>(u, latest, n). if verbose
     then Object [(''username'', String u), (''displayName'', String (session_display st u)),
       (''feedCount'', nat_json n), (''lastPostTime'', int_json latest)]
     else (let d = session_display st u in String (if d = [] then u else d)))"

definition usernames_handler :: "(json \<Rightarrow> string) \<Rightarrow> params \<Rightarrow> string option \<Rightarrow> json option \<Rightarrow> ('c, 'ch) app_state
    \<Rightarrow> api_error + json" where
  "usernames_handler show_json query authorization body app = (let
       params = merge_params show_json query body
     in case require_auth (ap_token app) params authorization of Inl e \<Rightarrow> Inl e | Inr _ \<Rightarrow>
       (case ready_account app params of Inl e \<Rightarrow> Inl e | Inr a \<Rightarrow>
       (let st = handle_store (handle_at app a); rows = poster_rows (st_sns_feeds st) in
        Inr (Object [(''success'', Bool True), (''count'', nat_json (length rows)),
          (''usernames'', Array (map (poster_json st (flex_bool params ''verbose'')) rows))]))))"

section \<open>Statistics\<close>

definition by_kind :: "sns_feed list \<Rightarrow> (string \<times> nat) list" where
  "by_kind feeds = by_key (fold (\<lambda>f. bump (sf_kind f)) feeds [])"

definition counts_json :: "(string \<times> nat) list \<Rightarrow> json" where
  "counts_json m = Object (map (\<lambda>(k, n). (k, nat_json n)) m)"

definition poster_count :: "sns_feed list \<Rightarrow> nat" where
  "poster_count feeds = length (remdups_adj (sort (map sf_user_name feeds)))"

definition time_range :: "sns_feed list \<Rightarrow> json" where
  "time_range feeds = (case feeds of [] \<Rightarrow> Null
     | _ \<Rightarrow> Object [(''from'', int_json (sf_create_time (last feeds))), (''to'', int_json (sf_create_time (hd feeds)))])"

definition stats_handler :: "(json \<Rightarrow> string) \<Rightarrow> params \<Rightarrow> string option \<Rightarrow> json option \<Rightarrow> ('c, 'ch) app_state
    \<Rightarrow> api_error + json" where
  "stats_handler show_json query authorization body app = (let
       params = merge_params show_json query body
     in case require_auth (ap_token app) params authorization of Inl e \<Rightarrow> Inl e | Inr _ \<Rightarrow>
       (case ready_account app params of Inl e \<Rightarrow> Inl e | Inr a \<Rightarrow>
       (let feeds = st_sns_feeds (handle_store (handle_at app a)) in
        Inr (Object [(''success'', Bool True), (''stats'', Object [
          (''feeds'', nat_json (length feeds)), (''posters'', nat_json (poster_count feeds)),
          (''byKind'', counts_json (by_kind feeds)),
          (''mediaItems'', nat_json (sum_list (map (length \<circ> sf_media) feeds))),
          (''comments'', nat_json (sum_list (map sf_comment_count feeds))),
          (''timeRange'', time_range feeds)])]))))"

text \<open>\<open>div_euclid\<close> by a positive number is \<open>div\<close>; the other divisions have nonnegative operands.\<close>

definition year_number :: "int \<Rightarrow> int" where
  "year_number ts = (let
       days = ts div 86400;
       z = days + 719468;
       era = z div 146097;
       doe = z - era * 146097;
       yoe = (doe - doe div 1460 + doe div 36524 - doe div 146096) div 365
     in yoe + era * 400)"

definition year_of :: "int \<Rightarrow> string" where
  "year_of ts = int_to_dec (year_number ts)"

definition add_feed :: "sns_feed \<Rightarrow> (string, nat) hashmap \<times> nat \<times> nat \<Rightarrow> (string, nat) hashmap \<times> nat \<times> nat" where
  "add_feed f = (\<lambda>(by_year, media_count, comment_count).
     ((if sf_create_time f > 0 then bump (year_of (sf_create_time f)) by_year else by_year),
      media_count + length (sf_media f), comment_count + sf_comment_count f))"

definition aggregate :: "sns_feed list \<Rightarrow> json" where
  "aggregate feeds = (let (by_year, media_count, comment_count) = fold add_feed feeds ([], 0, 0) in
     Object [(''feeds'', nat_json (length feeds)), (''posters'', nat_json (poster_count feeds)),
       (''byKind'', counts_json (by_kind feeds)), (''byYear'', counts_json (by_key by_year)),
       (''mediaItems'', nat_json media_count), (''comments'', nat_json comment_count),
       (''timeRange'', time_range feeds)])"

section \<open>Proxied addresses\<close>

text \<open>
  The query decoder on the other side (\<open>axum\<close>'s \<open>Query\<close>, form encoding): the specification the encoder is
  measured against.
\<close>

definition hex_value :: "char \<Rightarrow> nat option" where
  "hex_value c = (let n = of_char c in if 48 \<le> n \<and> n \<le> 57 then Some (n - 48)
     else if 65 \<le> n \<and> n \<le> 70 then Some (n - 55) else if 97 \<le> n \<and> n \<le> 102 then Some (n - 87) else None)"

fun form_decode :: "string \<Rightarrow> string" where
  "form_decode [] = []"
| "form_decode (c # s) = (if c = CHR ''+'' then CHR '' '' # form_decode s
     else if c = CHR ''%'' then (case s of
         a # b # t \<Rightarrow> (case (hex_value a, hex_value b) of
             (Some x, Some y) \<Rightarrow> char_of (16 * x + y) # form_decode t
           | _ \<Rightarrow> c # form_decode s)
       | _ \<Rightarrow> c # form_decode s)
     else c # form_decode s)"

lemma hex_value_upper: "n < 16 \<Longrightarrow> hex_value (hex_upper n) = Some n"
  by (auto simp: hex_value_def hex_upper_def Let_def)

lemma unreserved_plain: "is_unreserved c \<Longrightarrow> c \<noteq> CHR ''%'' \<and> c \<noteq> CHR ''+''"
  by (auto simp: is_unreserved_def is_ascii_alnum_def is_ascii_digit_def is_ascii_upper_def is_ascii_lower_def in_range_def)

lemma form_decode_encode: "form_decode (urlencoding_encode s @ t) = s @ form_decode t"
proof (induction s)
  case (Cons c s)
  have "(of_char c :: nat) div 16 < 16" by (simp add: less_mult_imp_div_less)
  with Cons show ?case
    by (auto simp: urlencoding_encode_def hex_value_upper dest: unreserved_plain)
qed (simp add: urlencoding_encode_def)

lemma hex_upper_unreserved: "n < 16 \<Longrightarrow> is_unreserved (hex_upper n)"
proof -
  assume "n < 16"
  then have "n \<in> set [0..<16]" by simp
  moreover have "list_all (\<lambda>n. is_unreserved (hex_upper n)) [0..<16]" by code_simp
  ultimately show ?thesis by (simp add: list_all_iff)
qed

lemma encode_alphabet: "c \<in> set (urlencoding_encode s) \<Longrightarrow> is_unreserved c \<or> c = CHR ''%''"
proof (induction s)
  case (Cons b s)
  have "(of_char b :: nat) div 16 < 16" by (simp add: less_mult_imp_div_less)
  with Cons show ?case by (auto simp: urlencoding_encode_def hex_upper_unreserved split: if_splits)
qed (simp add: urlencoding_encode_def)

section \<open>The year a post is counted under\<close>

text \<open>Days from 1 March of year 0 to 1 March of year \<open>y\<close>, and the corrected day count inside a 400-year era.\<close>

definition march_days :: "int \<Rightarrow> int" where
  "march_days y = 365 * y + y div 4 - y div 100 + y div 400"

definition era_sum :: "int \<Rightarrow> int" where
  "era_sum doe = doe - doe div 1460 + doe div 36524 - doe div 146096"

lemma div_step: "(n + 1) div k = n div k + (if k dvd n + 1 then 1 else 0)" if "0 < k" for n k :: int
proof (cases "k dvd n + 1")
  case True
  then obtain c where c: "n + 1 = k * c" by blast
  then have "n div k = c - 1" using that by (intro int_div_pos_eq [of n k "c - 1" "k - 1"]) (simp_all add: algebra_simps)
  with c that True show ?thesis by simp
next
  case False
  then have "n mod k \<noteq> k - 1" by (metis diff_add_cancel dvd_eq_mod_eq_0 mod_add_left_eq mod_self)
  moreover have "n mod k < k" "0 \<le> n mod k" using that by simp_all
  ultimately have "(n + 1) div k = n div k"
    by (intro int_div_pos_eq [of "n + 1" k "n div k" "n mod k + 1"]) (simp_all add: algebra_simps)
  with False show ?thesis by simp
qed

lemma era_sum_step: "era_sum d \<le> era_sum (d + 1)"
  using dvd_trans [of 36524 146096 "d + 1"] by (simp add: era_sum_def div_step)

lemma era_sum_mono: "a \<le> b \<Longrightarrow> era_sum a \<le> era_sum b"
proof (induction b rule: int_ge_induct)
  case (step i)
  then show ?case using era_sum_step [of i] by linarith
qed simp

lemma march_era: "march_days (k + 400 * e) = 146097 * e + march_days k"
  using div_mult_self2 [of 4 k "100 * e"] div_mult_self2 [of 100 k "4 * e"] div_mult_self2 [of 400 k e]
  by (simp add: march_days_def)

lemma march_century: "0 \<le> k \<Longrightarrow> k < 100 \<Longrightarrow> 0 \<le> c \<Longrightarrow> c \<le> 3 \<Longrightarrow> march_days (k + 100 * c) = 36524 * c + 365 * k + k div 4"
  using div_mult_self2 [of 4 k "25 * c"] div_mult_self2 [of 100 k c]
  by (simp add: march_days_def)

lemma march_split:
  assumes "0 \<le> m" "m < 400"
  obtains q r c j where "m = 4 * q + r" "0 \<le> r" "r \<le> 3" "m = 100 * c + j" "0 \<le> j" "j \<le> 99" "0 \<le> c" "25 * c \<le> q" "q \<le> 99"
    "march_days m = 1461 * q + 365 * r - c" "march_days m = 36524 * c + 365 * j + j div 4"
proof (rule that [of "m div 4" "m mod 4" "m div 100" "m mod 100"])
  let ?c = "m div 100"
  have c: "0 \<le> ?c" "?c \<le> 3" "25 * ?c \<le> m div 4" "m div 4 \<le> 99" using assms by linarith+
  then show "0 \<le> ?c" "25 * ?c \<le> m div 4" "m div 4 \<le> 99" by blast+
  have "m div 400 = 0" using assms by simp
  then show "march_days m = 1461 * (m div 4) + 365 * (m mod 4) - ?c"
    using div_mult_mod_eq [of m 4] unfolding march_days_def by linarith
  show "march_days m = 36524 * ?c + 365 * (m mod 100) + m mod 100 div 4"
    using march_century [of "m mod 100" ?c] c by (simp add: mult.commute)
  show "m = 4 * (m div 4) + m mod 4" "m = 100 * ?c + m mod 100" by simp_all
  show "m mod 4 \<le> 3" "m mod 100 \<le> 99" using pos_mod_bound [of 4 m] pos_mod_bound [of 100 m] by linarith+
qed simp_all

lemma era_sum_start:
  assumes "0 \<le> m" "m < 400" shows "era_sum (march_days m) = 365 * m"
proof -
  from assms obtain q r c j where m: "m = 4 * q + r" "0 \<le> r" "r \<le> 3" "m = 100 * c + j" "0 \<le> j" "j \<le> 99" "0 \<le> c"
    "25 * c \<le> q" "q \<le> 99" "march_days m = 1461 * q + 365 * r - c" "march_days m = 36524 * c + 365 * j + j div 4"
    by (rule march_split)
  have "march_days m div 1460 = q" by (rule int_div_pos_eq [of _ _ _ "q + 365 * r - c"]) (use m in linarith)+
  moreover have "march_days m div 36524 = c" by (rule int_div_pos_eq [of _ _ _ "365 * j + j div 4"]) (use m in linarith)+
  moreover have "march_days m div 146096 = 0" by (rule int_div_pos_eq [of _ _ _ "march_days m"]) (use m in linarith)+
  ultimately show ?thesis using m unfolding era_sum_def by linarith
qed

lemma era_sum_before:
  assumes "0 < m" "m \<le> 400" shows "era_sum (march_days m - 1) < 365 * m"
proof (cases "m = 400")
  case False
  with assms have "0 \<le> m" "m < 400" by simp_all
  then obtain q r c j where m: "m = 4 * q + r" "0 \<le> r" "r \<le> 3" "m = 100 * c + j" "0 \<le> j" "j \<le> 99" "0 \<le> c"
    "25 * c \<le> q" "q \<le> 99" "march_days m = 1461 * q + 365 * r - c" "march_days m = 36524 * c + 365 * j + j div 4"
    by (rule march_split)
  have "0 < q + 365 * r - c" using m assms(1) by linarith
  then have "(march_days m - 1) div 1460 = q"
    by (intro int_div_pos_eq [of _ _ _ "q + 365 * r - c - 1"]) (use m in linarith)+
  moreover have "(march_days m - 1) div 36524 \<le> c"
    using zdiv_mono1 [of "march_days m - 1" "march_days m" 36524] int_div_pos_eq [of "march_days m" 36524 c "365 * j + j div 4"] m by linarith
  moreover have "(march_days m - 1) div 146096 = 0"
    by (rule int_div_pos_eq [of _ _ _ "march_days m - 1"]) (use m assms(1) in linarith)+
  ultimately show ?thesis using m unfolding era_sum_def by linarith
qed (simp add: era_sum_def march_days_def)

lemma div_between: "365 * k \<le> x \<Longrightarrow> x < 365 * (k + 1) \<Longrightarrow> x div 365 = k" for x k :: int
  by (rule int_div_pos_eq [of _ _ _ "x - 365 * k"]) simp_all

lemma year_number_march:
  assumes "march_days y \<le> ts div 86400 + 719468" "ts div 86400 + 719468 < march_days (y + 1)"
  shows "year_number ts = y"
proof -
  let ?z = "ts div 86400 + 719468" and ?e = "y div 400" and ?k = "y mod 400"
  have k: "0 \<le> ?k" "?k < 400" by simp_all
  have e: "march_days y = 146097 * ?e + march_days ?k" "march_days (y + 1) = 146097 * ?e + march_days (?k + 1)"
    using march_era [of ?k ?e] march_era [of "?k + 1" ?e] by (simp_all add: algebra_simps)
  have in_era: "march_days ?k \<le> ?z - 146097 * ?e" "?z - 146097 * ?e < march_days (?k + 1)" using assms e by linarith+
  have "0 \<le> march_days ?k" "march_days (?k + 1) \<le> 146097" 
    using k by (auto simp: march_days_def)
  then have era: "?z div 146097 = ?e"
    by (intro int_div_pos_eq [of _ _ _ "?z - 146097 * ?e"]) (use in_era in linarith)+
  have "365 * ?k \<le> era_sum (?z - 146097 * ?e)"
    using era_sum_mono [OF in_era(1)] era_sum_start [OF k] by linarith
  moreover have "era_sum (?z - 146097 * ?e) < 365 * (?k + 1)"
    using era_sum_mono [of "?z - 146097 * ?e" "march_days (?k + 1) - 1"] era_sum_before [of "?k + 1"] in_era(2) k by linarith
  ultimately have "era_sum (?z - 146097 * ?e) div 365 = ?k"
    by (rule div_between)
  then show ?thesis using era by (simp add: year_number_def Let_def era_sum_def mult.commute)
qed

text \<open>The reference calendar of \<open>Api\<close>: the first second of 1 March of year \<open>y\<close>.\<close>

lemma div_pred: "n div k - (n - 1) div k = (if k dvd n then 1 else 0)" if "0 < k" for n k :: int
  using div_step [OF that, of "n - 1"] by simp

lemma march_first:
  assumes "gregorian_midnight y 3 1 = Some t"
  shows "march_days (int y) = t div 86400 + 719468 \<and> t mod 86400 = 0"
proof -
  have "sum_list (map (month_days y) [1..<3]) = 31 + (if leap_year y then 29 else 28)"
    by (simp add: month_days_def numeral_eq_Suc)
  then have t: "t = 86400 * (days_before_year y - 719527 + 59 + (if leap_year y then 1 else 0))"
    using assms by (auto simp: gregorian_midnight_def days_before_year_def month_days_def split: if_splits)
  have d: "4 dvd int y \<longleftrightarrow> 4 dvd y" "100 dvd int y \<longleftrightarrow> 100 dvd y" "400 dvd int y \<longleftrightarrow> 400 dvd y" by presburger+
  have "100 dvd y \<Longrightarrow> 4 dvd y" "400 dvd y \<Longrightarrow> 100 dvd y"
    using dvd_trans [of 4 100 y] dvd_trans [of 100 400 y] by simp_all
  then have "(if leap_year y then 1 else 0) = (if 4 dvd int y then 1 else 0) - (if 100 dvd int y then 1 else 0)
      + (if 400 dvd int y then 1 else (0 :: int))"
    unfolding leap_year_def d by (cases "4 dvd y"; cases "100 dvd y"; cases "400 dvd y") simp_all
  also have "\<dots> = int y div 4 - (int y - 1) div 4 - (int y div 100 - (int y - 1) div 100) + (int y div 400 - (int y - 1) div 400)"
    by (simp only: div_pred [of 4] div_pred [of 100] div_pred [of 400] zero_less_numeral)
  finally have leap: "(if leap_year y then 1 else 0) = int y div 4 - (int y - 1) div 4 - (int y div 100 - (int y - 1) div 100)
      + (int y div 400 - (int y - 1) div 400)" .
  have "t div 86400 = days_before_year y - 719527 + 59 + (if leap_year y then 1 else 0)" and m: "t mod 86400 = 0"
    unfolding t by (rule nonzero_mult_div_cancel_left, simp, rule mod_mult_self1_is_0)
  then have "march_days (int y) = t div 86400 + 719468"
    unfolding leap march_days_def days_before_year_def Let_def by linarith
  then show ?thesis using m ..
qed

text \<open>
  The year a post is counted under in \<open>byYear\<close> is not its calendar year: it runs from 1 March to the end of
  February, so every post of January and February is counted under the year before.
\<close>

theorem year_runs_from_march:
  assumes "gregorian_midnight y 3 1 = Some a" "gregorian_midnight (y + 1) 3 1 = Some b" "a \<le> ts" "ts < b"
  shows "year_of ts = nat_to_dec y"
proof -
  have "march_days (int y) \<le> ts div 86400 + 719468"
    using march_first [OF assms(1)] zdiv_mono1 [OF assms(3), of 86400] by simp
  moreover have "ts div 86400 + 719468 < march_days (int y + 1)"
    using march_first [OF assms(2)] assms(4) div_mult_mod_eq [of b 86400] by (simp add: add.commute)
  ultimately show ?thesis by (simp add: year_of_def year_number_march int_to_dec_def)
qed

text \<open>1 January 2024 is counted as 2023, 1 March as 2024.\<close>

theorem year_runs_from_march_witness: "year_of 1704067200 = ''2023'' \<and> year_of 1709251200 = ''2024''"
proof -
  have g: "gregorian_midnight 2023 3 1 = Some 1677628800" "gregorian_midnight (2023 + 1) 3 1 = Some 1709251200"
    "gregorian_midnight 2024 3 1 = Some 1709251200" "gregorian_midnight (2024 + 1) 3 1 = Some 1740787200" by code_simp+
  have n: "nat_to_dec 2023 = ''2023''" "nat_to_dec 2024 = ''2024''" by code_simp+
  have "year_of 1704067200 = ''2023''" using year_runs_from_march [OF g(1,2), of 1704067200] unfolding n by simp
  moreover have "year_of 1709251200 = ''2024''" using year_runs_from_march [OF g(3,4), of 1709251200] unfolding n by simp
  ultimately show ?thesis ..
qed

section \<open>Counters are the listings they stand for\<close>

lemma by_key_listing:
  assumes "hm_ok m"
  shows "by_key m = map (\<lambda>k. (k, the (hm_get m k))) (sorted_list_of_set (set (map fst m)))"
proof -
  have "mset (map fst (by_key m)) = mset (map fst m)" unfolding by_key_def mset_map by simp
  then have "distinct (map fst (by_key m))"
    using assms unfolding hm_ok_def by (metis mset_eq_imp_distinct_iff)
  moreover have "sorted (map fst (by_key m))" by (simp add: by_key_def)
  moreover have "set (map fst (by_key m)) = set (map fst m)" by (simp add: by_key_def)
  ultimately have keys: "map fst (by_key m) = sorted_list_of_set (set (map fst m))"
    by (metis sorted_list_of_set.idem_if_sorted_distinct)
  have "map (\<lambda>p. (fst p, the (hm_get m (fst p)))) (by_key m) = by_key m"
    using assms by (intro map_idI) (auto simp: by_key_def hm_ok_def)
  then have "by_key m = map (\<lambda>k. (k, the (hm_get m k))) (map fst (by_key m))" by (simp add: o_def)
  then show ?thesis unfolding keys .
qed

lemma hm_get_fold_bump:
  "hm_get (fold (\<lambda>f. bump (g f)) fs m) k
   = (if k \<in> g ` set fs then Some (opt_or (hm_get m k) 0 + count_list (map g fs) k) else hm_get m k)"
  by (induction fs arbitrary: m) (auto simp: bump_def hm_simps)

lemma hm_ok_fold: "(\<And>x m. hm_ok m \<Longrightarrow> hm_ok (step x m)) \<Longrightarrow> hm_ok m \<Longrightarrow> hm_ok (fold step xs m)"
  by (induction xs arbitrary: m) auto

lemma keys_by_lookup: "set (map fst m) = {k. hm_get m k \<noteq> None}"
  by (simp add: map_of_eq_None_iff)

lemma counted_listing:
  "by_key (fold (\<lambda>f. bump (g f)) fs []) = map (\<lambda>k. (k, count_list (map g fs) k)) (sorted_list_of_set (g ` set fs))"
proof -
  let ?m = "fold (\<lambda>f. bump (g f)) fs []"
  have "hm_ok ?m" by (rule hm_ok_fold) (simp_all add: bump_def)
  moreover have "set (map fst ?m) = g ` set fs" unfolding keys_by_lookup by (auto simp: hm_get_fold_bump)
  ultimately show ?thesis by (simp add: by_key_listing hm_get_fold_bump cong: map_cong)
qed

definition latest_post :: "sns_feed list \<Rightarrow> string \<Rightarrow> int" where
  "latest_post feeds u = Max (insert 0 (sf_create_time ` {f \<in> set feeds. sf_user_name f = u}))"

lemma hm_get_fold_note:
  "hm_get (fold note_post fs m) u = (if u \<in> sf_user_name ` set fs
     then Some (fold max (map sf_create_time (filter (\<lambda>f. sf_user_name f = u) fs)) (fst (opt_or (hm_get m u) (0, 0))),
       snd (opt_or (hm_get m u) (0, 0)) + count_list (map sf_user_name fs) u)
     else hm_get m u)"
proof (induction fs arbitrary: m)
  case (Cons f fs)
  have "filter (\<lambda>f. sf_user_name f = u) fs = []" "count_list (map sf_user_name fs) u = 0" if "u \<notin> sf_user_name ` set fs"
    using that by (auto simp: filter_empty_conv count_list_0_iff)
  with Cons show ?case by (auto simp: note_post_def hm_simps max.commute split: prod.splits)
qed simp

lemma noted_listing:
  "by_key (fold note_post fs []) = map (\<lambda>u. (u, latest_post fs u, count_list (map sf_user_name fs) u))
     (sorted_list_of_set (sf_user_name ` set fs))"
proof -
  let ?m = "fold note_post fs []"
  have "hm_ok ?m" by (rule hm_ok_fold) (simp_all add: note_post_def split: prod.splits)
  moreover have "set (map fst ?m) = sf_user_name ` set fs" unfolding keys_by_lookup by (auto simp: hm_get_fold_note)
  moreover have "fold max (map sf_create_time (filter (\<lambda>f. sf_user_name f = u) fs)) 0 = latest_post fs u" for u
    using Max.set_eq_fold [of 0 "map sf_create_time (filter (\<lambda>f. sf_user_name f = u) fs)"]
    by (simp add: latest_post_def)
  ultimately show ?thesis by (simp add: by_key_listing hm_get_fold_note cong: map_cong)
qed

lemma distinct_remdups_adj_sorted: "sorted xs \<Longrightarrow> distinct (remdups_adj xs)"
  by (induction xs rule: remdups_adj.induct) auto

lemma poster_count_card: "poster_count fs = card (sf_user_name ` set fs)"
proof -
  have "card (set (sort (map sf_user_name fs))) = length (remdups_adj (sort (map sf_user_name fs)))"
    using distinct_card [OF distinct_remdups_adj_sorted, of "sort (map sf_user_name fs)"] by simp
  then show ?thesis by (simp add: poster_count_def)
qed

lemma fold_add_feed:
  "fold add_feed fs (m, x, y) = (fold (\<lambda>f. bump (year_of (sf_create_time f))) (filter (\<lambda>f. sf_create_time f > 0) fs) m,
     x + sum_list (map (length \<circ> sf_media) fs), y + sum_list (map sf_comment_count fs))"
  by (induction fs arbitrary: m x y) (simp_all add: add_feed_def)

text \<open>
  The counters agree with the feeds they summarise: the poster list has one row for each poster, newest
  first, with the number of that poster's feeds and the latest time; the statistics count each kind
  exactly and as many posters as the list has rows; and the export's aggregate repeats these numbers
  and adds one count for every dated feed under its year.
\<close>

theorem counters_match_feeds:
  "poster_rows feeds = sort_key (\<lambda>(u, latest, n). (- latest, u))
      (map (\<lambda>u. (u, latest_post feeds u, count_list (map sf_user_name feeds) u))
         (sorted_list_of_set (sf_user_name ` set feeds)))
   \<and> length (poster_rows feeds) = poster_count feeds
   \<and> by_kind feeds = map (\<lambda>k. (k, count_list (map sf_kind feeds) k)) (sorted_list_of_set (sf_kind ` set feeds))
   \<and> (let dated = filter (\<lambda>f. sf_create_time f > 0) feeds in
      aggregate feeds = Object [(''feeds'', nat_json (length feeds)), (''posters'', nat_json (length (poster_rows feeds))),
       (''byKind'', counts_json (by_kind feeds)),
       (''byYear'', counts_json (map (\<lambda>y. (y, count_list (map (year_of \<circ> sf_create_time) dated) y))
          (sorted_list_of_set ((year_of \<circ> sf_create_time) ` set dated)))),
       (''mediaItems'', nat_json (sum_list (map (length \<circ> sf_media) feeds))),
       (''comments'', nat_json (sum_list (map sf_comment_count feeds))),
       (''timeRange'', time_range feeds)])"
proof -
  have rows: "poster_rows feeds = sort_key (\<lambda>(u, latest, n). (- latest, u))
      (map (\<lambda>u. (u, latest_post feeds u, count_list (map sf_user_name feeds) u))
         (sorted_list_of_set (sf_user_name ` set feeds)))"
    unfolding poster_rows_def noted_listing ..
  have n: "length (poster_rows feeds) = poster_count feeds" by (simp add: rows poster_count_card)
  note years = counted_listing [of "\<lambda>f. year_of (sf_create_time f)" "filter (\<lambda>f. sf_create_time f > 0) feeds"]
  show ?thesis
    using rows n years counted_listing [of sf_kind feeds] by (simp add: aggregate_def fold_add_feed by_kind_def o_def)
qed

end
