(* ===== verification/Moments_Export.thy ===== *)
theory Moments_Export
  imports Moments Media_Export
begin

text \<open>
  The moments export of \<open>src/server/handlers/sns.rs\<close>: HTML rendering, the export file, and the statistics
  of past exports. The pretty printer of \<open>serde_json\<close>, the clock and the file system are parameters.
\<close>

section \<open>HTML\<close>

abbreviation quot :: char where "quot \<equiv> CHR 0x22"

definition dquoted :: "string \<Rightarrow> string" where
  "dquoted s = quot # s @ [quot]"

definition html_escape :: "string \<Rightarrow> string" where
  "html_escape s = replace_char (CHR 0x27) ''&#39;'' (replace_char quot ''&quot;'' (replace_char (CHR ''>'') ''&gt;''
     (replace_char (CHR ''<'') ''&lt;'' (replace_char (CHR ''&'') ''&amp;'' s))))"

definition link_allowed :: "string \<Rightarrow> bool" where
  "link_allowed u \<longleftrightarrow> (let
       lower = to_ascii_lowercase u;
       same_origin = starts_with ''/'' u \<and> \<not> starts_with ''//'' u \<and> CHR 0x5C \<notin> set u;
       web = starts_with ''http://'' lower \<or> starts_with ''https://'' lower
     in same_origin \<or> web)"

definition media_link_html :: "string \<Rightarrow> string" where
  "media_link_html u = (let esc = html_escape u in if link_allowed u
     then ''<div class='' @ dquoted ''media'' @ ''><a href='' @ dquoted esc @ ''>'' @ esc @ ''</a></div>''
     else ''<div class='' @ dquoted ''media'' @ ''>'' @ esc @ ''</div>'')"

definition media_shown :: "json \<Rightarrow> string" where
  "media_shown m = opt_or (opt_else (opt_filter (\<lambda>s. s \<noteq> []) (as_str (json_get m ''thumb'')))
     (as_str (json_get m ''url''))) []"

definition article_html :: "json \<Rightarrow> string" where
  "article_html e = (let
       media_html = opt_or (map_option (\<lambda>arr. concat (map (\<lambda>m. media_link_html (media_shown m)) arr))
         (as_array (json_get e ''media''))) [];
       posted = (case as_i64 (json_get e ''createTime'') of
           Some n \<Rightarrow> int_to_dec n
         | None \<Rightarrow> html_escape (opt_or (as_str (json_get e ''createTime'')) []))
     in ''<article><header><b>'' @ html_escape (opt_or (as_str (json_get e ''displayName'')) []) @ ''</b> <time>'' @ posted
        @ ''</time></header><p>'' @ html_escape (opt_or (as_str (json_get e ''contentDesc'')) []) @ ''</p>'' @ media_html
        @ ''</article>'' @ [CHR 0x0A])"

definition html_document :: "string \<Rightarrow> string \<Rightarrow> string \<Rightarrow> json list \<Rightarrow> string" where
  "html_document display wxid scope es = ''<!doctype html><html lang='' @ dquoted ''zh-CN'' @ ''><head><meta charset=''
     @ dquoted ''utf-8'' @ ''><title>SNS export '' @ utf8 [226, 128, 148] @ '' '' @ html_escape display
     @ ''</title><style>body{font-family:system-ui;max-width:720px;margin:2rem auto}''
     @ ''article{border-bottom:1px solid #ddd;padding:.8rem 0}</style></head>''
     @ ''<body><h1>'' @ utf8 [230, 156, 139, 229, 143, 139, 229, 156, 136, 229, 175, 188, 229, 135, 186]
     @ ''</h1><p>account='' @ html_escape wxid @ '' scope='' @ html_escape scope @ '' count='' @ nat_to_dec (length es)
     @ ''</p>'' @ concat (map article_html es) @ ''</body></html>''"

section \<open>The export file\<close>

record moments_env =
  me_mkdir :: "string list \<Rightarrow> string option"
  me_canonicalize :: "string list \<Rightarrow> string list option"
  me_put :: "bytes \<Rightarrow> bytes option \<times> string option"
  me_stamp :: string
  me_now :: int
  me_pretty :: "json \<Rightarrow> string + bytes"
  me_display_path :: "string list \<Rightarrow> string"

definition scoped_feeds :: "string option \<Rightarrow> store \<Rightarrow> sns_feed list" where
  "scoped_feeds username st = filter (\<lambda>f. is_none_or (\<lambda>u. sf_user_name f = u) username) (st_sns_feeds st)"

definition export_file_name :: "string \<Rightarrow> string \<Rightarrow> string \<Rightarrow> string" where
  "export_file_name scope stamp format = ''sns-'' @ slugify scope ''scope'' @ ''-'' @ stamp @ ''.'' @ format"

definition export_document :: "moments_env \<Rightarrow> string \<Rightarrow> string \<Rightarrow> string \<Rightarrow> string \<Rightarrow> json \<Rightarrow> json list \<Rightarrow> string + bytes" where
  "export_document env format display wxid scope stats es = (if format = ''html''
     then Inr (as_bytes (html_document display wxid scope es))
     else me_pretty env (Object [(''generator'', String ''weflow-server''), (''exportedAt'', int_json (me_now env)),
       (''account'', String wxid), (''scope'', String scope), (''count'', nat_json (length es)),
       (''stats'', stats), (''timeline'', Array es)]))"

definition export_handler :: "(json \<Rightarrow> string) \<Rightarrow> (f64 \<Rightarrow> json) \<Rightarrow> string list \<Rightarrow> moments_env \<Rightarrow> params \<Rightarrow> string option
    \<Rightarrow> json option \<Rightarrow> disk \<Rightarrow> ('c, 'ch) app_state \<Rightarrow> disk \<times> (api_error + json)" where
  "export_handler show_json show_f64 data_dir env query authorization body d app = (let
       params = merge_params show_json query body
     in case require_auth (ap_token app) params authorization of Inl e \<Rightarrow> (d, Inl e) | Inr _ \<Rightarrow>
       (case ready_account app params of Inl e \<Rightarrow> (d, Inl e) | Inr a \<Rightarrow>
       (let username = username_param params;
            format = opt_or (map_option to_ascii_lowercase (hm_get params ''format'')) ''json''
        in if format \<noteq> ''json'' \<and> format \<noteq> ''html'' then (d, Inl (bad_request ''format must be json or html''))
        else (let st = handle_store (handle_at app a);
             wxid = ai_wxid (ah_info (handle_at app a));
             feeds = scoped_feeds username st;
             stats = aggregate feeds;
             es = map (sns_feed_json show_f64 st) feeds;
             display = session_display st (opt_or username []);
             exports_dir = data_dir @ [''exports''];
             scope = opt_or username ''all'';
             file_name = export_file_name scope (me_stamp env) format;
             path = exports_dir @ [file_name]
          in case me_mkdir env exports_dir of Some e \<Rightarrow> (d, Inl (internal (''create exports dir: '' @ e))) | None \<Rightarrow>
          if \<not> is_contained (me_canonicalize env) exports_dir path
          then (d, Inl (internal ''export path escaped the exports dir''))
          else (case export_document env format display wxid scope stats es of
              Inl e \<Rightarrow> (d, Inl (internal (''serialize export: '' @ e)))
            | Inr contents \<Rightarrow> (case me_put env contents of
                (left, Some e) \<Rightarrow> (disk_put path left d, Inl (internal (''write export: '' @ e)))
              | (_, None) \<Rightarrow> (disk_put path (Some contents) d, Inr (Object [(''success'', Bool True),
                  (''file'', String file_name), (''path'', String (me_display_path env path)),
                  (''count'', nat_json (length es)), (''bytes'', nat_json (length contents)),
                  (''format'', String format), (''stats'', stats)]))))))))"

section \<open>Statistics of exports\<close>

text \<open>
  An entry of the exports directory: its metadata, when it can be read (whether it is a file, its
  modification time in nanoseconds from the epoch, and its length at the second look).
\<close>

record export_entry =
  xn_path :: "string list"
  xn_metadata :: "(bool \<times> int option) option"
  xn_length :: "nat option"

definition newest_step :: "export_entry \<Rightarrow> (int \<times> export_entry) option \<Rightarrow> (int \<times> export_entry) option" where
  "newest_step e best = (case xn_metadata e of
       None \<Rightarrow> best
     | Some (is_f, mtime) \<Rightarrow> if \<not> is_f then best
         else (let t = opt_or mtime 0 in
           if is_none_or (\<lambda>b. t > fst b) best then Some (t, e) else best))"

definition last_export :: "(string list \<Rightarrow> string) \<Rightarrow> export_entry list option \<Rightarrow> json" where
  "last_export display_path dir_entries = (case Option.bind dir_entries (\<lambda>es. fold newest_step es None) of
       None \<Rightarrow> Null
     | Some (t, e) \<Rightarrow> Object [(''file'', if xn_path e = [] then Null else String (last (xn_path e))),
         (''path'', String (display_path (xn_path e))), (''bytes'', nat_json (opt_or (xn_length e) 0)),
         (''exportedAt'', if 0 \<le> t \<and> t div 10 ^ 9 \<le> i64_max then int_json (t div 10 ^ 9) else Null)])"

definition export_stats_handler :: "(json \<Rightarrow> string) \<Rightarrow> (string list \<Rightarrow> string) \<Rightarrow> export_entry list option \<Rightarrow> params
    \<Rightarrow> string option \<Rightarrow> json option \<Rightarrow> ('c, 'ch) app_state \<Rightarrow> api_error + json" where
  "export_stats_handler show_json display_path dir_entries query authorization body app = (let
       params = merge_params show_json query body
     in case require_auth (ap_token app) params authorization of Inl e \<Rightarrow> Inl e | Inr _ \<Rightarrow>
       (case ready_account app params of Inl e \<Rightarrow> Inl e | Inr a \<Rightarrow>
       (let st = handle_store (handle_at app a);
            my_wxid = ai_wxid (ah_info (handle_at app a));
            stats = aggregate (case username_param params of None \<Rightarrow> st_sns_feeds st
              | Some u \<Rightarrow> filter (\<lambda>f. sf_user_name f = u) (st_sns_feeds st));
            my_posts = length (filter (\<lambda>f. sf_user_name f = my_wxid) (st_sns_feeds st))
        in if flex_bool params ''verbose''
           then Inr (Object [(''success'', Bool True), (''stats'', stats),
             (''lastExport'', last_export display_path dir_entries)])
           else Inr (Object [(''success'', Bool True), (''data'', Object [
             (''totalPosts'', json_get stats ''feeds''), (''totalFriends'', json_get stats ''posters''),
             (''myPosts'', nat_json my_posts)])]))))"

section \<open>The document cannot be injected into\<close>

definition is_markup :: "char \<Rightarrow> bool" where
  "is_markup c \<longleftrightarrow> c \<in> {CHR ''<'', CHR ''>'', quot, CHR 0x27}"

definition plain_text :: "string \<Rightarrow> bool" where
  "plain_text s \<longleftrightarrow> filter is_markup s = []"

lemma is_markup_literal [simp]:
  "is_markup (Char a b c d e f g h) \<longleftrightarrow> Char a b c d e f g h \<in> {CHR ''<'', CHR ''>'', quot, CHR 0x27}"
  by (simp add: is_markup_def)

lemma replace_char_simps:
  "replace_char c t [] = []" "replace_char c t (x # s) = (if x = c then t else [x]) @ replace_char c t s"
  "replace_char c t (s @ s') = replace_char c t s @ replace_char c t s'"
  by (simp_all add: replace_char_def)

lemma html_escape_append: "html_escape (s @ t) = html_escape s @ html_escape t"
  by (simp add: html_escape_def replace_char_simps)

lemma html_escape_special:
  "html_escape [CHR ''&''] = ''&amp;''" "html_escape [CHR ''<''] = ''&lt;''" "html_escape [CHR ''>''] = ''&gt;''"
  "html_escape [quot] = ''&quot;''" "html_escape [CHR 0x27] = ''&#39;''"
  by code_simp+

lemma html_escape_other:
  "c \<notin> {CHR ''&'', CHR ''<'', CHR ''>'', quot, CHR 0x27} \<Longrightarrow> html_escape [c] = [c]"
  by (simp add: html_escape_def replace_char_simps)

lemma html_escape_char_plain: "filter is_markup (html_escape [c]) = []"
proof (cases "c \<in> {CHR ''&'', CHR ''<'', CHR ''>'', quot, CHR 0x27}")
  case True
  then show ?thesis by (elim insertE) (simp_all only: html_escape_special, simp_all add: is_markup_def)
next
  case False
  with html_escape_other [OF this] show ?thesis by (simp add: is_markup_def)
qed

lemma html_escape_plain [simp]: "filter is_markup (html_escape s) = []"
proof (induction s)
  case (Cons c s)
  then show ?case using html_escape_append [of "[c]" s] html_escape_char_plain [of c] by simp
qed (simp add: html_escape_def replace_char_simps)

lemma nat_to_dec_plain: "filter is_markup (nat_to_dec n) = []"
proof (induction n rule: nat_to_dec.induct)
  case (1 n)
  have "\<not> is_markup (digit_char d)" if "d < 10" for d
    using digit_char_code [OF that] that by (auto simp: is_markup_def)
  with 1 show ?case by (subst nat_to_dec.simps) simp
qed

lemma int_to_dec_plain [simp]: "filter is_markup (int_to_dec n) = []"
  by (simp add: int_to_dec_def nat_to_dec_plain)

text \<open>What an article looks like with every text left out; the flags say which media are links.\<close>

definition article_skeleton :: "bool list \<Rightarrow> string" where
  "article_skeleton links = ''<article><header><b></b> <time></time></header><p></p>''
     @ concat (map (\<lambda>link. if link
         then ''<div class='' @ dquoted ''media'' @ ''><a href='' @ dquoted [] @ ''></a></div>''
         else ''<div class='' @ dquoted ''media'' @ ''></div>'') links) @ ''</article>''"

lemma media_link_markup:
  "filter is_markup (media_link_html u) = filter is_markup (if link_allowed u
     then ''<div class='' @ dquoted ''media'' @ ''><a href='' @ dquoted [] @ ''></a></div>''
     else ''<div class='' @ dquoted ''media'' @ ''></div>'')"
  by (simp add: media_link_html_def dquoted_def Let_def)

lemma article_markup:
  "filter is_markup (article_html e) = filter is_markup (article_skeleton
     (map (link_allowed \<circ> media_shown) (opt_or (as_array (json_get e ''media'')) [])))"
proof -
  have "filter is_markup (concat (map (\<lambda>m. media_link_html (media_shown m)) ms))
      = filter is_markup (concat (map (\<lambda>link. if link
         then ''<div class='' @ dquoted ''media'' @ ''><a href='' @ dquoted [] @ ''></a></div>''
         else ''<div class='' @ dquoted ''media'' @ ''></div>'') (map (link_allowed \<circ> media_shown) ms)))" for ms
    by (induction ms) (simp_all add: media_link_markup)
  then show ?thesis
    by (cases "as_array (json_get e ''media'')"; cases "as_i64 (json_get e ''createTime'')")
      (simp_all add: article_html_def article_skeleton_def Let_def)
qed

lemma json_get_media: "json_get (sns_feed_json show_f64 st f) ''media'' = Array (map sns_media_json (sf_media f))"
  by (simp add: json_get_def sns_feed_json_def)

definition raw_media_url :: "sns_media \<Rightarrow> string" where
  "raw_media_url m = (if opt_or (sm_thumb m) [] \<noteq> [] then opt_or (sm_thumb m) [] else sm_url m)"

lemma proxy_url_nil [simp]: "proxy_url raw = [] \<longleftrightarrow> raw = []"
  by (simp add: proxy_url_def proxy_prefix_def)

lemma media_shown_proxied: "media_shown (sns_media_json m) = proxy_url (raw_media_url m)"
  by (simp add: media_shown_def sns_media_json_def json_get_def as_str_def raw_media_url_def Let_def opt_filter_def)

lemma proxy_url_allowed: "raw \<noteq> [] \<Longrightarrow> link_allowed (proxy_url raw)"
proof -
  have "CHR 0x5C \<notin> set (urlencoding_encode raw)" using encode_alphabet [of "CHR 0x5C" raw] by (auto simp: is_unreserved_def
      is_ascii_alnum_def is_ascii_digit_def is_ascii_upper_def is_ascii_lower_def in_range_def)
  then show "raw \<noteq> [] \<Longrightarrow> link_allowed (proxy_url raw)"
    by (simp add: link_allowed_def proxy_url_def proxy_prefix_def starts_with_def)
qed

text \<open>
  C40. An HTML export shows text and nothing else: whatever names, texts and addresses an entry holds, the
  markup characters of its article are exactly those of the template, with one link or one plain block
  for each medium; and every nonempty medium of a feed is a link to this server's proxy that carries
  the original address, from which the proxy's query decoder reads it back.
\<close>

theorem export_html_is_inert:
  "filter is_markup (article_html e) = filter is_markup (article_skeleton
     (map (link_allowed \<circ> media_shown) (opt_or (as_array (json_get e ''media'')) [])))
   \<and> json_get (sns_feed_json show_f64 st f) ''media'' = Array (map sns_media_json (sf_media f))
   \<and> (raw_media_url m = [] \<or> link_allowed (media_shown (sns_media_json m))
      \<and> (\<exists>q. media_shown (sns_media_json m) = proxy_prefix @ q \<and> form_decode q = raw_media_url m))"
  using article_markup [of e] json_get_media [of show_f64 st f] proxy_url_allowed [of "raw_media_url m"]
    form_decode_encode [of "raw_media_url m" "[]"]
  by (cases "raw_media_url m = []") (simp_all add: media_shown_proxied proxy_url_def)

section \<open>Where an export is written\<close>

definition is_stamp :: "string \<Rightarrow> bool" where
  "is_stamp s \<longleftrightarrow> length s = 15 \<and> list_all (\<lambda>c. is_ascii_digit c \<or> c = CHR ''-'') s"

lemma slug_ok_name:
  assumes t: "list_all slug_ok t" and len: "length t \<le> 100" and fmt: "format = ''json'' \<or> format = ''html''"
    and sns: "t = ''sns-'' @ u"
  shows "safe_segment (t @ CHR ''.'' # format)"
proof -
  have tw: "takeWhile (\<lambda>c. c \<noteq> CHR ''.'') (t @ CHR ''.'' # format) = t"
    using t by (subst takeWhile_append2) (auto simp: list_all_iff slug_ok_class)
  have "to_ascii_uppercase t = ''SNS-'' @ to_ascii_uppercase u"
    unfolding sns by (simp add: to_ascii_uppercase_def) code_simp
  then have dev: "\<not> is_reserved_device (t @ CHR ''.'' # format)"
    by (simp add: is_reserved_device_def tw slug_trim_end [OF t] Let_def starts_with_def)
  have "list_all is_ascii t \<and> list_all (\<lambda>c. \<not> is_control [c]) t" using t by (auto simp: list_all_iff slug_ok_class)
  moreover have "list_all is_ascii (CHR ''.'' # format) \<and> list_all (\<lambda>c. \<not> is_control [c]) (CHR ''.'' # format)"
    using fmt by (elim disjE) (simp_all add: is_ascii_def is_control_def char_code_def)
  ultimately have ascii: "list_all is_ascii (t @ CHR ''.'' # format)" "list_all (\<lambda>c. \<not> is_control [c]) (t @ CHR ''.'' # format)"
    by simp_all
  then have "utf8_chars (t @ CHR ''.'' # format) = map (\<lambda>c. [c]) (t @ CHR ''.'' # format)"
    by (intro utf8_chars_ascii) (auto simp: list_all_iff)
  then have ctl: "\<not> list_ex is_control (utf8_chars (t @ CHR ''.'' # format))"
    using ascii(2) by (auto simp: list_ex_iff list_all_iff)
  have mem: "c \<notin> set t" if "\<not> slug_ok c" for c using t that by (auto simp: list_all_iff)
  have chars: "CHR ''/'' \<notin> set (t @ CHR ''.'' # format)" "CHR 0x5C \<notin> set (t @ CHR ''.'' # format)"
    "CHR '':'' \<notin> set (t @ CHR ''.'' # format)"
    using mem [of "CHR ''/''"] mem [of "CHR 0x5C"] mem [of "CHR '':''"] fmt by (auto simp: slug_ok_def ascii_class_defs)
  have last: "\<not> ends_with [c] (t @ CHR ''.'' # format)" if "c \<noteq> last format" for c
  proof
    assume "ends_with [c] (t @ CHR ''.'' # format)"
    then obtain r where "t @ CHR ''.'' # format = r @ [c]" by (auto simp: str_simps)
    then have "last (t @ CHR ''.'' # format) = c" by (metis last_snoc)
    with that fmt show False by (auto split: if_splits)
  qed
  have "last format \<noteq> CHR ''.''" "last format \<noteq> CHR '' ''" "length format = 4" using fmt by auto
  moreover have "hd (t @ CHR ''.'' # format) = CHR ''s''" using sns by simp
  then have "t @ CHR ''.'' # format \<noteq> ''.''" "t @ CHR ''.'' # format \<noteq> ''..''" by force+
  ultimately show ?thesis
    unfolding safe_segment_def using dev ctl chars last [of "CHR ''.''"] last [of "CHR '' ''"] len
    by (simp add: max_segment_def)
qed

lemma export_file_name_safe:
  assumes "is_stamp stamp" "format = ''json'' \<or> format = ''html''"
  shows "safe_segment (export_file_name scope stamp format)"
proof -
  have ok: "list_all slug_ok (slugify scope ''scope'') \<and> length (slugify scope ''scope'') \<le> 64"
    by (cases rule: slugify_cases [of scope "''scope''"]) (simp_all add: slug_ok_def ascii_class_defs)
  have "list_all slug_ok stamp" "length stamp = 15"
    using assms(1) by (auto simp: is_stamp_def list_all_iff slug_ok_def ascii_class_defs)
  then show ?thesis
    using slug_ok_name [of "''sns-'' @ slugify scope ''scope'' @ ''-'' @ stamp" format "slugify scope ''scope'' @ ''-'' @ stamp"] ok assms(2)
    by (simp add: export_file_name_def slug_ok_def ascii_class_defs)
qed

text \<open>
  An export writes one file and nothing else: only a path directly below the exports directory can
  change, its name passes the path gate whatever account the request names, nothing changes without a
  valid token, a ready account and a known format, and a reported export is on disk with the size reported.
\<close>

theorem export_writes_one_file:
  assumes e: "export_handler show_json show_f64 data_dir env query authorization body d app = (d', r)"
    and stamp: "is_stamp (me_stamp env)"
  shows "d' = d \<and> (\<exists>e. r = Inl e)
    \<or> require_auth (ap_token app) (merge_params show_json query body) authorization = Inr ()
      \<and> (\<exists>a. ready_account app (merge_params show_json query body) = Inr a)
      \<and> (\<exists>name c. safe_segment name \<and> d' = d(data_dir @ [''exports'', name] := c)
         \<and> (case r of Inl e \<Rightarrow> ae_status e = 500
            | Inr j \<Rightarrow> json_get j ''file'' = String name
                \<and> (\<exists>bs. c = Some bs \<and> json_get j ''bytes'' = nat_json (length bs))))"
proof -
  let ?params = "merge_params show_json query body"
  let ?format = "opt_or (map_option to_ascii_lowercase (hm_get ?params ''format'')) ''json''"
  let ?name = "export_file_name (opt_or (username_param ?params) ''all'') (me_stamp env) ?format"
  have "d' = d \<and> (\<exists>e. r = Inl e)
    \<or> require_auth (ap_token app) ?params authorization = Inr () \<and> (\<exists>a. ready_account app ?params = Inr a)
      \<and> (?format = ''json'' \<or> ?format = ''html'')
      \<and> (\<exists>c. d' = d(data_dir @ [''exports'', ?name] := c)
         \<and> (case r of Inl e \<Rightarrow> ae_status e = 500
            | Inr j \<Rightarrow> json_get j ''file'' = String ?name
                \<and> (\<exists>bs. c = Some bs \<and> json_get j ''bytes'' = nat_json (length bs))))"
    using e
    by (simp add: export_handler_def disk_put_def Let_def internal_def json_get_def split: sum.splits if_splits option.splits prod.splits)
      (fastforce simp: json_get_def)+
  then show ?thesis using export_file_name_safe [OF stamp] by blast
qed

definition demo_moments_env :: moments_env where
  "demo_moments_env = \<lparr>me_mkdir = (\<lambda>_. None), me_canonicalize = Some, me_put = (\<lambda>bs. (Some bs, None)),
     me_stamp = ''20240101-120000'', me_now = 1704110400, me_pretty = (\<lambda>_. Inr [123, 125]), me_display_path = concat\<rparr>"

theorem export_writes_one_file_witness:
  "let p = export_handler (\<lambda>_. []) (\<lambda>_. Null) [''data''] demo_moments_env
       [(''access_token'', ''secret''), (''username'', ''../..'')] None None Map.empty (ready_app store_default)
   in \<exists>name. safe_segment name \<and> fst p [''data'', ''exports'', name] = Some [123, 125] \<and> (\<exists>j. snd p = Inr j)"
proof -
  let ?p = "export_handler (\<lambda>_. []) (\<lambda>_. Null) [''data''] demo_moments_env
       [(''access_token'', ''secret''), (''username'', ''../..'')] None None Map.empty (ready_app store_default)"
  have st: "is_stamp (me_stamp demo_moments_env)" by code_simp
  have r: "(case snd ?p of Inl e \<Rightarrow> False | Inr j \<Rightarrow> json_get j ''bytes'' = Number ''2'')"
    and n: "(case snd ?p of Inl e \<Rightarrow> Null | Inr j \<Rightarrow> json_get j ''file'') = String ''sns-_____-20240101-120000.json''"
    and c: "fst ?p [''data'', ''exports'', ''sns-_____-20240101-120000.json''] = Some [123, 125]" by code_simp+
  obtain j where j: "snd ?p = Inr j" using r by (cases "snd ?p") simp_all
  have "safe_segment ''sns-_____-20240101-120000.json''"
    using export_writes_one_file [OF prod.collapse [symmetric, of ?p] st] j n by auto
  with c j show ?thesis unfolding Let_def by blast
qed

end
