(* ===== verification/Proxy.thy ===== *)
theory Proxy
  imports Reads Media_Export
begin

text \<open>
  The media proxy of \<open>src/server/handlers/sns.rs\<close>: the host gate, the fetch loop that follows redirects
  itself, and the handler. A run of \<open>curl\<close> is the parameter \<open>curl\<close>: given how many runs came before,
  the address and the two optional headers, it cannot be started (its error) or leaves standard error
  and standard output. The second component of \<open>proxy_run\<close> is not the code's: it is the list of the
  addresses handed to \<open>curl\<close>, which the properties speak about.
\<close>

section \<open>The host of an address\<close>

definition proxy_host_suffixes :: "string list" where
  "proxy_host_suffixes = [''qpic.cn'', ''qpic.com'', ''qq.com'']"

definition url_host :: "string \<Rightarrow> string option" where
  "url_host lower_url = (case split_once ''://'' lower_url of None \<Rightarrow> None | Some (_, rest) \<Rightarrow>
     (let authority = takeWhile (\<lambda>c. c \<notin> {CHR ''/'', CHR ''?'', CHR ''#''}) rest in
      if authority = [] then None
      else (let host = rev (takeWhile (\<lambda>c. c \<noteq> CHR ''@'') (rev authority)) in
        case strip_prefix ''['' host of
          Some v6 \<Rightarrow> opt_filter (\<lambda>h. h \<noteq> []) (Some (takeWhile (\<lambda>c. c \<noteq> CHR '']'') v6))
        | None \<Rightarrow> (let h = takeWhile (\<lambda>c. c \<noteq> CHR '':'') host in if h = [] then None else Some h))))"

definition host_matches :: "string \<Rightarrow> string \<Rightarrow> bool" where
  "host_matches lower_url suffix = (case url_host lower_url of None \<Rightarrow> False
     | Some host \<Rightarrow> host = suffix \<or> ends_with (CHR ''.'' # suffix) host)"

definition check_proxy_url :: "string \<Rightarrow> string + unit" where
  "check_proxy_url url = (let lower = to_ascii_lowercase url in
     if \<not> starts_with ''http://'' lower \<and> \<not> starts_with ''https://'' lower then Inl ''url must be http(s)''
     else if \<not> list_ex (host_matches lower) proxy_host_suffixes
       then Inl ''url host is not an allowed SNS media host''
     else Inr ())"

section \<open>The answer of a fetch\<close>

text \<open>\<open>str::lines\<close> and \<open>str::split_whitespace\<close>.\<close>

definition strip_cr :: "string \<Rightarrow> string" where
  "strip_cr l = opt_or (strip_suffix [CHR 0x0D] l) l"

definition str_lines :: "string \<Rightarrow> string list" where
  "str_lines s = (let ls = split_on [CHR 0x0A] s in map strip_cr (if last ls = [] then butlast ls else ls))"

fun words_from :: "string \<Rightarrow> string list \<Rightarrow> string list" where
  "words_from w [] = (if w = [] then [] else [w])"
| "words_from w (c # cs) = (if is_whitespace c then (if w = [] then words_from [] cs else w # words_from [] cs)
     else words_from (w @ c) cs)"

definition split_whitespace :: "string \<Rightarrow> string list" where
  "split_whitespace s = words_from [] (utf8_chars s)"

definition curl_meta :: "bytes \<Rightarrow> string option" where
  "curl_meta stderr = (case List.map_filter (\<lambda>line. strip_prefix ''wfs-meta '' (trim line))
       (rev (str_lines (from_utf8_lossy (from_bytes stderr)))) of
     [] \<Rightarrow> None | m # _ \<Rightarrow> Some m)"

definition meta_parts :: "string \<Rightarrow> nat \<times> string" where
  "meta_parts m = (let parts = split_whitespace m in
     (opt_or (parse_u16 (case parts of [] \<Rightarrow> [] | p # _ \<Rightarrow> p)) 502,
      trim (case parts of _ # r # _ \<Rightarrow> r | _ \<Rightarrow> [])))"

datatype proxy_fetch_error = Spawn string | Redirect string

definition proxy_max_redirects :: nat where
  "proxy_max_redirects = 5"

type_synonym curl_run = "nat \<Rightarrow> string \<Rightarrow> string option \<Rightarrow> string option \<Rightarrow> string + bytes \<times> bytes"

fun proxy_run :: "curl_run \<Rightarrow> string option \<Rightarrow> string option \<Rightarrow> nat \<Rightarrow> nat \<Rightarrow> string
    \<Rightarrow> (proxy_fetch_error + nat \<times> bytes) \<times> string list" where
  "proxy_run curl referer user_agent i 0 current = (Inl (Redirect ''too many upstream redirects''), [])"
| "proxy_run curl referer user_agent i (Suc n) current = (case curl i current referer user_agent of
       Inl e \<Rightarrow> (Inl (Spawn e), [current])
     | Inr (stderr, stdout) \<Rightarrow> (case curl_meta stderr of
         None \<Rightarrow> (Inr (502, []), [current])
       | Some m \<Rightarrow> (let (code, redirect) = meta_parts m in
           if \<not> (300 \<le> code \<and> code < 400 \<and> redirect \<noteq> []) then (Inr (code, stdout), [current])
           else (case check_proxy_url redirect of
               Inl reason \<Rightarrow> (Inl (Redirect (''upstream redirect rejected: '' @ reason)), [current])
             | Inr _ \<Rightarrow> (let (r, urls) = proxy_run curl referer user_agent (Suc i) n redirect in (r, current # urls))))))"

definition proxy_fetch :: "curl_run \<Rightarrow> string \<Rightarrow> string option \<Rightarrow> string option
    \<Rightarrow> (proxy_fetch_error + nat \<times> bytes) \<times> string list" where
  "proxy_fetch curl url referer user_agent = proxy_run curl referer user_agent 0 (Suc proxy_max_redirects) url"

section \<open>The handler\<close>

datatype proxy_reply = Media string bytes | Bad_Gateway_Spawn string | Cdn_Rejected nat

definition media_type :: "(bytes \<Rightarrow> bytes option) \<Rightarrow> bytes \<Rightarrow> bytes \<times> string" where
  "media_type wxgf_png bs = (if starts_bytes (as_bytes ''wxgf'') bs
     then (case wxgf_png bs of Some png \<Rightarrow> (png, ''image/png'') | None \<Rightarrow> (bs, ''video/hevc''))
     else if starts_bytes [0xFF, 0xD8, 0xFF] bs then (bs, ''image/jpeg'')
     else if starts_bytes (0x89 # as_bytes ''PNG'') bs then (bs, ''image/png'')
     else if starts_bytes (as_bytes ''GIF8'') bs then (bs, ''image/gif'')
     else (bs, ''application/octet-stream''))"

definition media_proxy :: "(json \<Rightarrow> string) \<Rightarrow> curl_run \<Rightarrow> export_env \<Rightarrow> params \<Rightarrow> string option \<Rightarrow> json option
    \<Rightarrow> ('c, 'ch) app_state \<Rightarrow> (api_error + proxy_reply) \<times> string list" where
  "media_proxy show_json curl env query authorization body app = (let
       params = merge_params show_json query body
     in case require_auth (ap_token app) params authorization of Inl e \<Rightarrow> (Inl e, []) | Inr _ \<Rightarrow>
       (case ready_account app params of Inl e \<Rightarrow> (Inl e, []) | Inr _ \<Rightarrow>
       (case opt_filter (\<lambda>s. s \<noteq> []) (map_option trim (hm_get params ''url'')) of
          None \<Rightarrow> (Inl (bad_request ''url is required''), [])
        | Some url \<Rightarrow> (case check_proxy_url url of Inl reason \<Rightarrow> (Inl (bad_request reason), []) | Inr _ \<Rightarrow>
            (let (fetched, urls) = proxy_fetch curl url (opt_filter (\<lambda>s. s \<noteq> []) (hm_get params ''referer''))
                   (opt_filter (\<lambda>s. s \<noteq> []) (hm_get params ''user_agent''))
             in case fetched of
                  Inl (Spawn detail) \<Rightarrow> (Inr (Bad_Gateway_Spawn detail), urls)
                | Inl (Redirect detail) \<Rightarrow> (Inl (bad_request detail), urls)
                | Inr (code, bs) \<Rightarrow> if code \<ge> 400 \<or> bs = [] then (Inr (Cdn_Rejected code), urls)
                    else (let (out, ctype) = media_type (wxgf_to_png env) bs in (Inr (Media ctype out), urls)))))))"

definition proxy_status :: "api_error + proxy_reply \<Rightarrow> nat" where
  "proxy_status r = (case r of Inl e \<Rightarrow> ae_status e | Inr (Media _ _) \<Rightarrow> 200 | Inr _ \<Rightarrow> 502)"

section \<open>Where requests can go\<close>

text \<open>
  The specification: \<open>a\<close> is the server part (host and port) of the address \<open>u\<close>, read off the whole address:
  scheme, login, server, rest.
\<close>

definition server_part :: "string \<Rightarrow> string \<Rightarrow> bool" where
  "server_part u a \<longleftrightarrow> (\<exists>scheme login rest. u = scheme @ ''://'' @ login @ a @ rest \<and> scheme \<in> {''http'', ''https''}
     \<and> set (login @ a) \<inter> {CHR ''/'', CHR ''?'', CHR ''#''} = {} \<and> (rest = [] \<or> hd rest \<in> {CHR ''/'', CHR ''?'', CHR ''#''})
     \<and> (login = [] \<or> last login = CHR ''@'') \<and> CHR ''@'' \<notin> set a)"

definition host_in :: "string \<Rightarrow> bool" where
  "host_in h \<longleftrightarrow> (\<exists>suffix \<in> set proxy_host_suffixes. h = suffix \<or> ends_with (CHR ''.'' # suffix) h)"

definition allowed_server :: "string \<Rightarrow> bool" where
  "allowed_server a \<longleftrightarrow> (case strip_prefix ''['' a of None \<Rightarrow> host_in (takeWhile (\<lambda>c. c \<noteq> CHR '':'') a)
     | Some b \<Rightarrow> host_in (takeWhile (\<lambda>c. c \<noteq> CHR '']'') b))"

lemma split_scheme:
  "split_once ''://'' (''http://'' @ r) = Some (''http'', r)" "split_once ''://'' (''https://'' @ r) = Some (''https'', r)"
  by (simp_all add: split_once_def starts_with_def)

lemma host_in_matches: "list_ex (host_matches u) proxy_host_suffixes \<Longrightarrow> \<exists>h. url_host u = Some h \<and> host_in h"
  by (auto simp: list_ex_iff host_matches_def host_in_def split: option.splits)

lemma url_host_server:
  assumes u: "u = scheme @ ''://'' @ r" "scheme \<in> {''http'', ''https''}" and h: "url_host u = Some h" "host_in h"
  shows "\<exists>a. server_part u a \<and> allowed_server a"
proof -
  let ?delim = "{CHR ''/'', CHR ''?'', CHR ''#''}"
  let ?auth = "takeWhile (\<lambda>c. c \<notin> ?delim) r"
  let ?a = "rev (takeWhile (\<lambda>c. c \<noteq> CHR ''@'') (rev ?auth))" and ?login = "rev (dropWhile (\<lambda>c. c \<noteq> CHR ''@'') (rev ?auth))"
  have auth: "?auth = ?login @ ?a" by (metis rev_append rev_rev_ident takeWhile_dropWhile_id)
  have r: "r = ?login @ ?a @ dropWhile (\<lambda>c. c \<notin> ?delim) r"
    using takeWhile_dropWhile_id [of "\<lambda>c. c \<notin> ?delim" r] auth by (metis append.assoc)
  have "set ?auth \<inter> ?delim = {}" by (auto dest: set_takeWhileD)
  then have "set (?login @ ?a) \<inter> ?delim = {}" using auth by simp
  moreover have "dropWhile (\<lambda>c. c \<notin> ?delim) r = [] \<or> hd (dropWhile (\<lambda>c. c \<notin> ?delim) r) \<in> ?delim"
    using hd_dropWhile [of "\<lambda>c. c \<notin> ?delim" r] by auto
  moreover have "?login = [] \<or> last ?login = CHR ''@''"
    using hd_dropWhile [of "\<lambda>c. c \<noteq> CHR ''@''" "rev ?auth"] by (auto simp: last_rev)
  moreover have "CHR ''@'' \<notin> set ?a" by (auto dest: set_takeWhileD)
  ultimately have "server_part u ?a" using u r unfolding server_part_def by blast
  moreover have "split_once ''://'' u = Some (scheme, r)" using u split_scheme by auto
  then have "allowed_server ?a"
    using h by (auto simp: url_host_def allowed_server_def Let_def opt_filter_def split: option.splits if_splits)
  ultimately show ?thesis by blast
qed

definition reachable_url :: "string \<Rightarrow> bool" where
  "reachable_url url \<longleftrightarrow> (\<exists>a. server_part (to_ascii_lowercase url) a \<and> allowed_server a)"

lemma checked_url_reachable: "check_proxy_url url = Inr u \<Longrightarrow> reachable_url url"
proof -
  let ?l = "to_ascii_lowercase url"
  assume c: "check_proxy_url url = Inr u"
  then have "starts_with ''http://'' ?l \<or> starts_with ''https://'' ?l" by (auto simp: check_proxy_url_def Let_def split: if_splits)
  then have "(\<exists>r. ?l = ''http'' @ ''://'' @ r) \<or> (\<exists>r. ?l = ''https'' @ ''://'' @ r)" by (simp add: starts_with_iff)
  then obtain scheme r where "?l = scheme @ ''://'' @ r" "scheme \<in> {''http'', ''https''}" by blast
  moreover obtain h where "url_host ?l = Some h" "host_in h"
    using c host_in_matches [of ?l] by (auto simp: check_proxy_url_def Let_def split: if_splits)
  ultimately show ?thesis unfolding reachable_url_def by (rule url_host_server)
qed

lemma proxy_run_reach:
  assumes "proxy_run curl referer user_agent i n current = (r, urls)" "reachable_url current"
  shows "length urls \<le> n \<and> list_all reachable_url urls"
  using assms
proof (induction n arbitrary: i current r urls)
  case (Suc n)
  have next_ok: "length (snd (proxy_run curl referer user_agent (Suc i) n v)) \<le> n
      \<and> list_all reachable_url (snd (proxy_run curl referer user_agent (Suc i) n v))"
    if "check_proxy_url v = Inr x" for v x
    using Suc.IH [OF prod.collapse [symmetric] checked_url_reachable [OF that]] .
  with Suc.prems show ?case by (auto simp: split_beta Let_def split: sum.splits option.splits if_splits)
qed simp

lemma media_proxy_shape:
  assumes "media_proxy show_json curl env query authorization body app = (r, urls)"
  shows "urls = [] \<and> (\<exists>e. r = Inl e)
    \<or> (\<exists>url referer user_agent x. check_proxy_url url = Inr x \<and> urls = snd (proxy_fetch curl url referer user_agent)
      \<and> require_auth (ap_token app) (merge_params show_json query body) authorization = Inr ()
      \<and> (\<exists>a. ready_account app (merge_params show_json query body) = Inr a))"
  using assms
  by (auto simp: media_proxy_def Let_def split_beta split: sum.splits option.splits proxy_fetch_error.splits if_splits)


text \<open>A first redirect inside the media hosts is followed; a second one that hides its server behind a login is not.\<close>

definition demo_curl :: curl_run where
  "demo_curl i url referer user_agent = Inr (as_bytes (''wfs-meta 302 ''
     @ (if i = 0 then ''https://b.qq.com/y'' else ''https://qq.com@evil.example/x'')), [])"


text \<open>What the bracketed case of \<open>allowed_server\<close> admits is no address literal.\<close>

lemma brackets_are_not_read: "check_proxy_url ''http://[qq.com]evil.example/'' = Inr ()"
  by code_simp

end
