(* ===== verification/Media_Serve.thy ===== *)
theory Media_Serve
  imports Reads
begin

text \<open>
  The file server of \<open>src/server/handlers/media.rs\<close>: the search for an exported file by its name, the
  comparison of files that share it, and the handler. What the operating system answers is a
  \<open>serve_fs\<close>; an opened file is the list of what its successive reads return, \<open>None\<close> for a failed one.
\<close>

section \<open>Comparing files\<close>

definition read_size :: nat where
  "read_size = 64 * 1024"

text \<open>A read at the end returns no bytes; past the list, so does every further one.\<close>

definition read_next :: "bytes option list \<Rightarrow> bytes option" where
  "read_next rs = (case rs of [] \<Rightarrow> Some [] | r # _ \<Rightarrow> r)"

fun same_reads :: "bytes option list \<Rightarrow> bytes option list \<Rightarrow> bool" where
  "same_reads [] rs = (read_next rs = Some [])"
| "same_reads (r # rs) ss = (case (r, read_next ss) of
     (Some a, Some b) \<Rightarrow> if length a \<noteq> length b \<or> a \<noteq> b then False
       else if length a = 0 then True else same_reads rs (tl ss)
   | _ \<Rightarrow> False)"

record serve_fs =
  sv_read_dir :: "string list \<Rightarrow> (string list \<times> bool) option list option"
  sv_canonicalize :: "string list \<Rightarrow> string list option"
  sv_is_file :: "string list \<Rightarrow> bool"
  sv_len :: "string list \<Rightarrow> nat option"
  sv_open :: "string list \<Rightarrow> bytes option list option"

definition same_contents :: "serve_fs \<Rightarrow> string list \<Rightarrow> string list \<Rightarrow> bool" where
  "same_contents fs a b = (case (sv_open fs a, sv_open fs b) of
     (Some ra, Some rb) \<Rightarrow> same_reads ra rb | _ \<Rightarrow> False)"

section \<open>Finding a file by name\<close>

definition talker_dirs :: "(string list \<times> bool) option list \<Rightarrow> string list list" where
  "talker_dirs dir_entries = sort (map fst (filter snd (List.map_filter id dir_entries)))"

definition candidate_hit :: "serve_fs \<Rightarrow> string list \<Rightarrow> string list \<Rightarrow> string list option" where
  "candidate_hit fs canonical_root candidate = (if \<not> sv_is_file fs candidate then None
     else (case sv_canonicalize fs candidate of
         Some c \<Rightarrow> if take (length canonical_root) c = canonical_root then Some c else None
       | None \<Rightarrow> None))"

definition export_hits :: "serve_fs \<Rightarrow> string list \<Rightarrow> string list list \<Rightarrow> string \<Rightarrow> string list list" where
  "export_hits fs canonical_root talkers name = List.map_filter (candidate_hit fs canonical_root)
     (concat (map (\<lambda>dir. map (\<lambda>t. dir @ [t, name]) export_type_dirs) talkers))"

fun all_agree :: "serve_fs \<Rightarrow> string list \<Rightarrow> nat \<Rightarrow> string list list \<Rightarrow> bool" where
  "all_agree fs first baseline [] = True"
| "all_agree fs first baseline (other # rest) = (case sv_len fs other of None \<Rightarrow> False
     | Some n \<Rightarrow> if n \<noteq> baseline \<or> \<not> same_contents fs first other then False
         else all_agree fs first baseline rest)"

definition find_exported :: "serve_fs \<Rightarrow> string list \<Rightarrow> string \<Rightarrow> string list option" where
  "find_exported fs root name = (case sv_read_dir fs root of None \<Rightarrow> None
   | Some dir_entries \<Rightarrow> (let talkers = talker_dirs dir_entries in
     case sv_canonicalize fs root of None \<Rightarrow> None
   | Some canonical_root \<Rightarrow> (case export_hits fs canonical_root talkers name of
       [] \<Rightarrow> None
     | [first] \<Rightarrow> Some first
     | first # others \<Rightarrow> (case sv_len fs first of None \<Rightarrow> None
         | Some baseline \<Rightarrow> if all_agree fs first baseline others then Some first else None))))"

section \<open>The handler\<close>

record media_reply =
  mr_content_type :: string
  mr_content_length :: nat
  mr_body :: "bytes option list"

definition extension_of :: "string \<Rightarrow> string option" where
  "extension_of name = (case rsplit_once (CHR ''.'') name of
     Some (stem, ext) \<Rightarrow> if stem = [] then None else Some ext | None \<Rightarrow> None)"

definition content_type :: "string list \<Rightarrow> string" where
  "content_type path = (case map_option to_ascii_lowercase (if path = [] then None else extension_of (last path)) of
       None \<Rightarrow> ''application/octet-stream''
     | Some e \<Rightarrow> if e = ''png'' then ''image/png'' else if e = ''jpg'' \<or> e = ''jpeg'' then ''image/jpeg''
         else if e = ''gif'' then ''image/gif'' else if e = ''webp'' then ''image/webp'' else if e = ''wav'' then ''audio/wav''
         else if e = ''mp3'' then ''audio/mpeg'' else if e = ''mp4'' then ''video/mp4'' else if e = ''silk'' then ''audio/x-silk''
         else ''application/octet-stream'')"

definition media_not_found :: api_error where
  "media_not_found = not_found ''media not found''"

definition serve_file :: "serve_fs \<Rightarrow> string list \<Rightarrow> api_error + media_reply" where
  "serve_file fs path = (case sv_open fs path of None \<Rightarrow> Inl media_not_found
     | Some reads \<Rightarrow> (case sv_len fs path of None \<Rightarrow> Inl media_not_found
         | Some n \<Rightarrow> Inr \<lparr>mr_content_type = content_type path, mr_content_length = n, mr_body = reads\<rparr>))"

definition handler_by_id :: "serve_fs \<Rightarrow> string list \<Rightarrow> string \<Rightarrow> params \<Rightarrow> string option \<Rightarrow> ('c, 'ch) app_state
    \<Rightarrow> api_error + media_reply" where
  "handler_by_id fs root ident query authorization app =
     (case require_auth (ap_token app) query authorization of Inl e \<Rightarrow> Inl e | Inr _ \<Rightarrow>
      if \<not> safe_segment ident then Inl (bad_request ''path traversal attempt'')
      else (case find_exported fs root ident of None \<Rightarrow> Inl media_not_found | Some found \<Rightarrow>
       (case sv_canonicalize fs found of None \<Rightarrow> Inl media_not_found | Some canonical \<Rightarrow>
       (case sv_canonicalize fs root of None \<Rightarrow> Inl media_not_found | Some canonical_root \<Rightarrow>
        if take (length canonical_root) canonical \<noteq> canonical_root then Inl (bad_request ''path traversal attempt'')
        else serve_file fs canonical))))"

section \<open>What comparing reads decides\<close>

text \<open>The bytes a reader delivers before its end; \<open>None\<close> when a read fails.\<close>

fun file_data :: "bytes option list \<Rightarrow> bytes option" where
  "file_data [] = Some []"
| "file_data (r # rs) = (case r of None \<Rightarrow> None | Some a \<Rightarrow> if a = [] then Some [] else map_option ((@) a) (file_data rs))"

lemma same_reads_data: "same_reads rs ss \<Longrightarrow> file_data rs = file_data ss \<and> file_data rs \<noteq> None"
proof (induction rs arbitrary: ss)
  case Nil
  then show ?case by (cases ss) (auto simp: read_next_def)
next
  case (Cons r rs)
  then obtain a where a: "r = Some a" "read_next ss = Some a"
    by (auto split: option.splits if_splits)
  show ?case
  proof (cases "a = []")
    case True
    with a show ?thesis by (cases ss) (auto simp: read_next_def)
  next
    case False
    with a obtain t where ss: "ss = Some a # t" by (cases ss) (auto simp: read_next_def)
    with Cons a False have "same_reads rs t" by (simp add: read_next_def)
    from Cons.IH [OF this] show ?thesis using ss a False by (cases "file_data t") auto
  qed
qed

text \<open>A regular file read in full blocks.\<close>

function reads_of :: "bytes \<Rightarrow> bytes option list" where
  "reads_of c = (if c = [] then [Some []] else Some (take read_size c) # reads_of (drop read_size c))"
  by pat_completeness auto
termination by (relation "measure length") (auto simp: read_size_def)

declare reads_of.simps [simp del]

lemma read_size_pos: "0 < read_size"
  by (simp add: read_size_def)

lemma file_data_reads: "file_data (reads_of c) = Some c"
proof (induction c rule: reads_of.induct)
  case (1 c)
  then show ?case using read_size_pos by (subst reads_of.simps) (auto simp: take_eq_Nil)
qed

lemma same_reads_refl: "same_reads (reads_of c) (reads_of c)"
proof (induction c rule: reads_of.induct)
  case (1 c)
  then show ?case by (subst (1 2) reads_of.simps) (auto simp: read_next_def)
qed

lemma same_reads_full: "same_reads (reads_of a) (reads_of b) \<longleftrightarrow> a = b"
  using same_reads_data [of "reads_of a" "reads_of b"] same_reads_refl by (auto simp: file_data_reads)

section \<open>What is served\<close>

lemma all_agree_data:
  "all_agree fs first baseline others \<Longrightarrow> h \<in> set others \<Longrightarrow>
   \<exists>rs ss. sv_open fs first = Some rs \<and> sv_open fs h = Some ss \<and> file_data ss = file_data rs"
  by (induction others)
    (auto simp: same_contents_def split: option.splits if_splits dest: same_reads_data)

lemma candidate_hit_inside:
  "candidate_hit fs r p = Some c \<Longrightarrow> take (length r) c = r \<and> sv_canonicalize fs p = Some c \<and> sv_is_file fs p"
  by (auto simp: candidate_hit_def split: if_splits option.splits)

lemma export_hit_inside:
  "h \<in> set (export_hits fs r talkers name) \<Longrightarrow> take (length r) h = r \<and> (\<exists>p. sv_canonicalize fs p = Some h)"
  by (auto simp: export_hits_def set_map_filter_iff dest!: candidate_hit_inside)

lemma find_exported_Some:
  assumes "find_exported fs root name = Some c"
  obtains dir_entries r others where "sv_read_dir fs root = Some dir_entries" "sv_canonicalize fs root = Some r"
    "export_hits fs r (talker_dirs dir_entries) name = c # others"
    "others = [] \<or> (\<exists>n. sv_len fs c = Some n \<and> all_agree fs c n others)"
  using assms by (auto simp: find_exported_def Let_def split: option.splits list.splits if_splits)

text \<open>
  C38. What is served under a name is inside the export root and unambiguous: the request is authorised and its
  name passes the path gate, the file's real path lies below the real path of the root, and every file of
  that name in a served directory, of whichever conversation, holds the very bytes that are sent.
\<close>

theorem served_name_is_unambiguous:
  assumes idem: "\<And>p c. sv_canonicalize fs p = Some c \<Longrightarrow> sv_canonicalize fs c = Some c"
    and h: "handler_by_id fs root ident query authorization app = Inr reply"
  shows "require_auth (ap_token app) query authorization = Inr () \<and> safe_segment ident
    \<and> (\<exists>r c dir_entries. sv_canonicalize fs root = Some r \<and> take (length r) c = r
       \<and> sv_open fs c = Some (mr_body reply) \<and> sv_len fs c = Some (mr_content_length reply)
       \<and> sv_read_dir fs root = Some dir_entries
       \<and> list_all (\<lambda>f. map_option file_data (sv_open fs f) = Some (file_data (mr_body reply)))
           (export_hits fs r (talker_dirs dir_entries) ident))"
proof -
  from h obtain found where f: "find_exported fs root ident = Some found" "require_auth (ap_token app) query authorization = Inr ()"
      "safe_segment ident"
    by (auto simp: handler_by_id_def split: sum.splits if_splits option.splits)
  from f(1) obtain dir_entries r others where d: "sv_read_dir fs root = Some dir_entries" "sv_canonicalize fs root = Some r"
      "export_hits fs r (talker_dirs dir_entries) ident = found # others"
      "others = [] \<or> (\<exists>n. sv_len fs found = Some n \<and> all_agree fs found n others)"
    by (rule find_exported_Some)
  have inside: "take (length r) found = r" "sv_canonicalize fs found = Some found"
    using export_hit_inside [of found fs r "talker_dirs dir_entries" ident] d(3) idem by auto
  then have s: "serve_file fs found = Inr reply" using h f d(2) by (simp add: handler_by_id_def)
  then have o': "sv_open fs found = Some (mr_body reply)" "sv_len fs found = Some (mr_content_length reply)"
    by (auto simp: serve_file_def split: option.splits)
  have "list_all (\<lambda>f. map_option file_data (sv_open fs f) = Some (file_data (mr_body reply))) (found # others)"
    using d(4) o' by (auto simp: list_all_iff dest: all_agree_data)
  then show ?thesis
    using f(2,3) inside(1) o' d(1,2) unfolding d(3) [symmetric] by (intro conjI exI [of _ r] exI [of _ found] exI [of _ dir_entries])
qed

section \<open>From export to request\<close>

text \<open>A file system without links and unreadable files, holding the given conversations' directories.\<close>

definition fs_of_disk :: "disk \<Rightarrow> string list \<Rightarrow> serve_fs" where
  "fs_of_disk d talkers = \<lparr>sv_read_dir = (\<lambda>p. Some (map (\<lambda>t. Some (p @ [t], True)) talkers)), sv_canonicalize = Some,
     sv_is_file = is_file_at d, sv_len = (\<lambda>p. map_option length (d p)), sv_open = (\<lambda>p. map_option reads_of (d p))\<rparr>"

definition named_files :: "disk \<Rightarrow> string list \<Rightarrow> string list \<Rightarrow> string \<Rightarrow> string list set" where
  "named_files d root talkers name = {p. d p \<noteq> None \<and> (\<exists>t \<in> set talkers. \<exists>k \<in> set export_type_dirs. p = root @ [t, k, name])}"

lemma fs_of_disk_simps [simp]:
  "sv_read_dir (fs_of_disk d talkers) p = Some (map (\<lambda>t. Some (p @ [t], True)) talkers)"
  "sv_canonicalize (fs_of_disk d talkers) p = Some p" "sv_is_file (fs_of_disk d talkers) p \<longleftrightarrow> d p \<noteq> None"
  "sv_len (fs_of_disk d talkers) p = map_option length (d p)" "sv_open (fs_of_disk d talkers) p = map_option reads_of (d p)"
  by (simp_all add: fs_of_disk_def is_file_at_def)

lemma candidate_hit_disk:
  "candidate_hit (fs_of_disk d talkers) root (root @ q) = (if d (root @ q) = None then None else Some (root @ q))"
  by (simp add: candidate_hit_def)

lemma hits_of_disk:
  "set (export_hits (fs_of_disk d talkers) root (talker_dirs (map (\<lambda>t. Some (root @ [t], True)) talkers)) name)
   = named_files d root talkers name"
proof -
  have "set (talker_dirs (map (\<lambda>t. Some (root @ [t], True)) talkers)) = (\<lambda>t. root @ [t]) ` set talkers"
    by (auto simp: talker_dirs_def set_map_filter_iff image_iff)
  then have c: "set (concat (map (\<lambda>dir. map (\<lambda>t. dir @ [t, name]) export_type_dirs)
      (talker_dirs (map (\<lambda>t. Some (root @ [t], True)) talkers))))
    = {p. \<exists>t \<in> set talkers. \<exists>k \<in> set export_type_dirs. p = root @ [t, k, name]}" by auto
  show ?thesis 
    unfolding export_hits_def named_files_def
    by (rule set_eqI, unfold set_map_filter_iff c) (force simp: candidate_hit_disk split: if_splits)
qed

lemma agree_on_disk:
  assumes "d first = Some c" and "list_all (\<lambda>p. d p = Some c) others"
  shows "all_agree (fs_of_disk d talkers) first (length c) others"
  using assms(2)
  by (induction others) (simp_all add: same_contents_def assms(1) same_reads_full)

lemma found_on_disk:
  assumes p: "p \<in> named_files d root talkers name" and same: "\<And>q. q \<in> named_files d root talkers name \<Longrightarrow> d q = Some c"
  shows "\<exists>q \<in> named_files d root talkers name. find_exported (fs_of_disk d talkers) root name = Some q \<and> d q = Some c"
proof -
  let ?fs = "fs_of_disk d talkers"
  let ?es = "map (\<lambda>t. Some (root @ [t], True)) talkers"
  let ?hits = "export_hits ?fs root (talker_dirs ?es) name"
  have all: "list_all (\<lambda>q. d q = Some c) ?hits" using same hits_of_disk [of d talkers root name] by (auto simp: list_all_iff)
  obtain q others where h: "?hits = q # others" using p hits_of_disk [of d talkers root name] by (cases ?hits) auto
  have q: "d q = Some c" and o': "list_all (\<lambda>q. d q = Some c) others" using all h by simp_all
  have f: "sv_read_dir ?fs root = Some ?es" "sv_canonicalize ?fs root = Some root" "sv_len ?fs q = Some (length c)"
    by (simp_all add: q)
  have "find_exported ?fs root name = Some q"
    using agree_on_disk [OF q o', of talkers] unfolding find_exported_def f h Let_def
    by (cases others) (simp_all add: h q del: all_agree.simps)
  moreover have "q \<in> named_files d root talkers name" using h hits_of_disk [of d talkers root name] by auto
  ultimately show ?thesis using q by blast
qed


definition demo_disk :: disk where
  "demo_disk = [[''out'', ''wxid_a'', ''images'', ''x.png''] \<mapsto> [1, 2, 3]]"

theorem served_name_is_unambiguous_witness:
  "let r = handler_by_id (fs_of_disk demo_disk [''wxid_b'', ''wxid_a'']) [''out''] ''x.png'' [(''access_token'', ''secret'')] None demo_app
   in (case r of Inl e \<Rightarrow> False | Inr reply \<Rightarrow> mr_content_length reply = 3
       \<and> require_auth (ap_token demo_app) [(''access_token'', ''secret'')] None = Inr () \<and> safe_segment ''x.png'')"
proof -
  let ?r = "handler_by_id (fs_of_disk demo_disk [''wxid_b'', ''wxid_a'']) [''out''] ''x.png'' [(''access_token'', ''secret'')] None demo_app"
  have "(case ?r of Inl e \<Rightarrow> False | Inr reply \<Rightarrow> mr_content_length reply = 3)" by code_simp
  then obtain reply where "?r = Inr reply" "mr_content_length reply = 3" by (cases ?r) simp_all
  then show ?thesis using served_name_is_unambiguous [OF _ \<open>?r = Inr reply\<close>] by simp
qed


end
