(* ===== verification/Watch.thy ===== *)
theory Watch
  imports Api
begin

text \<open>
  The watch task of one account, \<open>src/sync/watch.rs\<close>: the filter of file events, the handler that turns a batch of
  events into messages, and the loop, one \<open>turn\<close> for each pass through its \<open>select!\<close>. The poll is the parameter
  \<open>poll\<close> on the account; \<open>notify\<close>, its debouncer and the timer are the steps of the relation \<open>watch_step\<close>: batches
  arrive, ticks come, attaching the watcher works or not. The last three fields of the state are not the code's,
  they record what happened for the properties: the polls started, whether a change was reported since the last
  poll started, and whether the files changed since then.
\<close>

section \<open>Events and messages\<close>

definition is_relevant :: "string \<Rightarrow> bool" where
  "is_relevant name = (let n = to_ascii_lowercase (from_utf8_lossy name) in
     ends_with ''.db'' n \<or> ends_with ''-wal'' n \<or> ends_with ''-shm'' n)"

datatype watch_msg = Changed "string list" | Backend_Error

text \<open>One result of the debouncer: the paths of a batch, or an error of the backend.\<close>

definition watch_handler :: "string list list option \<Rightarrow> watch_msg list" where
  "watch_handler res = (case res of
       Some paths \<Rightarrow> map Changed (filter (\<lambda>p. is_relevant (if p = [] then [] else last p)) paths)
     | None \<Rightarrow> [Backend_Error])"

section \<open>The loop\<close>

record 'a watch_task =
  wt_account :: 'a
  wt_attached :: bool
  wt_queue :: "watch_msg list"
  wt_shutdown :: bool
  wt_ended :: bool
  wt_polls :: nat
  wt_reported :: bool
  wt_stale :: bool

definition sync_once :: "('a \<Rightarrow> 'a \<times> ('e + 'r)) \<Rightarrow> 'a watch_task \<Rightarrow> 'a watch_task" where
  "sync_once poll s = s\<lparr>wt_account := fst (poll (wt_account s)), wt_polls := wt_polls s + 1,
     wt_reported := False, wt_stale := False\<rparr>"

text \<open>Attaching the watcher at the start and again at a tick; \<open>attach_ok\<close> is whether \<open>notify\<close> succeeds.\<close>

definition rebuild_watcher :: "bool \<Rightarrow> 'a watch_task \<Rightarrow> 'a watch_task" where
  "rebuild_watcher attach_ok s = s\<lparr>wt_attached := attach_ok\<rparr>"

fun drain_queue :: "watch_msg list \<Rightarrow> 'a watch_task \<Rightarrow> 'a watch_task" where
  "drain_queue [] s = s\<lparr>wt_queue := []\<rparr>"
| "drain_queue (m # ms) s = drain_queue ms (if m = Backend_Error then s\<lparr>wt_attached := False\<rparr> else s)"

definition turn :: "watch_config \<Rightarrow> ('a \<Rightarrow> 'a \<times> ('e + 'r)) \<Rightarrow> bool \<Rightarrow> bool \<Rightarrow> 'a watch_task \<Rightarrow> 'a watch_task" where
  "turn cfg poll tick attach_ok s = (if wt_ended s then s
     else if wt_shutdown s then s\<lparr>wt_attached := False, wt_ended := True\<rparr>
     else (case wt_queue s of
         Changed p # rest \<Rightarrow> sync_once poll (drain_queue rest s)
       | Backend_Error # rest \<Rightarrow> s\<lparr>wt_queue := rest, wt_attached := False\<rparr>
       | [] \<Rightarrow> if \<not> tick then s
           else (let s' = (if wt_attached s then s else rebuild_watcher attach_ok s) in
             if wc_fallback cfg \<noteq> None then sync_once poll s' else s')))"

definition watch_start :: "bool \<Rightarrow> 'a \<Rightarrow> 'a watch_task" where
  "watch_start attach_ok account = rebuild_watcher attach_ok \<lparr>wt_account = account, wt_attached = False, wt_queue = [],
     wt_shutdown = False, wt_ended = False, wt_polls = 0, wt_reported = False, wt_stale = False\<rparr>"

inductive watch_step :: "watch_config \<Rightarrow> ('a \<Rightarrow> 'a \<times> ('e + 'r)) \<Rightarrow> 'a watch_task \<Rightarrow> 'a watch_task \<Rightarrow> bool"
  for cfg :: watch_config and poll :: "'a \<Rightarrow> 'a \<times> ('e + 'r)" where
  change: "watch_step cfg poll s (s\<lparr>wt_stale := True\<rparr>)"
| report: "watch_step cfg poll s (s\<lparr>wt_queue := wt_queue s @ watch_handler res,
     wt_reported := wt_reported s \<or> (\<exists>p. Changed p \<in> set (watch_handler res))\<rparr>)"
| shutdown: "watch_step cfg poll s (s\<lparr>wt_shutdown := True\<rparr>)"
| turn: "watch_step cfg poll s (turn cfg poll tick attach_ok s)"

inductive watch_reachable :: "watch_config \<Rightarrow> ('a \<Rightarrow> 'a \<times> ('e + 'r)) \<Rightarrow> 'a \<Rightarrow> 'a watch_task \<Rightarrow> bool"
  for cfg :: watch_config and poll :: "'a \<Rightarrow> 'a \<times> ('e + 'r)" and account :: 'a where
  start: "watch_reachable cfg poll account (watch_start attach_ok account)"
| step: "watch_reachable cfg poll account s \<Longrightarrow> watch_step cfg poll s t \<Longrightarrow> watch_reachable cfg poll account t"

section \<open>No report is lost\<close>

lemma drain_queue_fields [simp]:
  "wt_account (drain_queue ms s) = wt_account s" "wt_queue (drain_queue ms s) = []"
  "wt_shutdown (drain_queue ms s) = wt_shutdown s" "wt_ended (drain_queue ms s) = wt_ended s"
  "wt_polls (drain_queue ms s) = wt_polls s"
  "wt_attached (drain_queue ms s) \<longleftrightarrow> wt_attached s \<and> Backend_Error \<notin> set ms"
  by (induction ms arbitrary: s) auto

definition watch_inv :: "'a watch_task \<Rightarrow> bool" where
  "watch_inv s \<longleftrightarrow> (wt_reported s \<longrightarrow> (\<exists>p. Changed p \<in> set (wt_queue s)))"

lemma turn_inv: "watch_inv s \<Longrightarrow> watch_inv (turn cfg poll tick attach_ok s)"
  by (auto simp: turn_def watch_inv_def sync_once_def rebuild_watcher_def Let_def split: list.splits watch_msg.splits)

lemma watch_step_inv: "watch_step cfg poll s t \<Longrightarrow> watch_inv s \<Longrightarrow> watch_inv t"
  by (induction rule: watch_step.induct) (auto simp: turn_inv, auto simp: watch_inv_def)

lemma reachable_watch_inv: "watch_reachable cfg poll account s \<Longrightarrow> watch_inv s"
  by (induction rule: watch_reachable.induct)
    (auto simp: watch_step_inv, simp add: watch_inv_def watch_start_def rebuild_watcher_def)

text \<open>Turns with nothing else in between: each takes a message off the queue until one of them polls.\<close>

fun turns :: "watch_config \<Rightarrow> ('a \<Rightarrow> 'a \<times> ('e + 'r)) \<Rightarrow> (bool \<times> bool) list \<Rightarrow> 'a watch_task \<Rightarrow> 'a watch_task" where
  "turns cfg poll [] s = s"
| "turns cfg poll ((tick, ok) # rest) s = turns cfg poll rest (turn cfg poll tick ok s)"

lemma turn_polls_grow: "wt_polls s \<le> wt_polls (turn cfg poll tick ok s)"
  by (auto simp: turn_def sync_once_def rebuild_watcher_def Let_def split: list.splits watch_msg.splits)

lemma turns_polls_grow: "wt_polls s \<le> wt_polls (turns cfg poll ts s)"
  by (induction cfg poll ts s rule: turns.induct) (auto intro: order_trans turn_polls_grow)

lemma queued_change_polls:
  assumes "Changed p \<in> set (wt_queue s)" "\<not> wt_ended s" "\<not> wt_shutdown s" "length (wt_queue s) \<le> length ts"
  shows "wt_polls s < wt_polls (turns cfg poll ts s)"
  using assms
proof (induction cfg poll ts s rule: turns.induct)
  case (2 cfg poll tick ok rest s)
  show ?case
  proof (cases "wt_queue s")
    case (Cons m q)
    show ?thesis
    proof (cases m)
      case (Changed p')
      then have "wt_polls (turn cfg poll tick ok s) = wt_polls s + 1"
        using Cons 2 by (simp add: turn_def sync_once_def)
      then show ?thesis using turns_polls_grow [of "turn cfg poll tick ok s" cfg poll rest] by simp
    next
      case Backend_Error
      then have "turn cfg poll tick ok s = s\<lparr>wt_queue := q, wt_attached := False\<rparr>"
        using Cons 2 by (simp add: turn_def)
      with 2 Cons Backend_Error show ?thesis by simp
    qed
  qed (use 2 in simp)
qed simp

lemma turns_ended: "wt_ended s \<Longrightarrow> turns cfg poll ts s = s"
  by (induction cfg poll ts s rule: turns.induct) (simp_all add: turn_def)

text \<open>
  C11. The watch task loses no report and stops when told: while it runs, a change reported since its last
  poll is followed by a new poll within as many turns as messages are queued, whatever the watcher's state;
  once shut down, its next turn ends it without touching the account, and it never acts again.
\<close>

theorem reported_changes_are_polled:
  assumes "watch_reachable cfg poll account s" and "length (wt_queue s) \<le> length ts" and "ts \<noteq> []"
  shows "if wt_shutdown s \<and> \<not> wt_ended s then wt_account (turns cfg poll ts s) = wt_account s \<and> wt_ended (turns cfg poll ts s)
         else if wt_ended s then turns cfg poll ts s = s
         else wt_reported s \<longrightarrow> wt_polls s < wt_polls (turns cfg poll ts s)"
proof -
  obtain tick ok rest where ts: "ts = (tick, ok) # rest" using assms(3) by (cases ts) auto
  have "turn cfg poll tick ok s = s\<lparr>wt_attached := False, wt_ended := True\<rparr>" if "wt_shutdown s" "\<not> wt_ended s"
    using that by (simp add: turn_def)
  then have "wt_account (turns cfg poll ts s) = wt_account s \<and> wt_ended (turns cfg poll ts s)"
    if "wt_shutdown s" "\<not> wt_ended s" using that by (simp add: ts turns_ended)
  moreover have "wt_polls s < wt_polls (turns cfg poll ts s)" if r: "wt_reported s" "\<not> wt_shutdown s" "\<not> wt_ended s"
  proof -
    obtain p where "Changed p \<in> set (wt_queue s)"
      using reachable_watch_inv [OF assms(1)] r(1) by (auto simp: watch_inv_def)
    then show ?thesis using queued_change_polls r assms(2) by blast
  qed
  ultimately show ?thesis by (simp add: turns_ended)
qed

definition count_poll :: "nat \<Rightarrow> nat \<times> (unit + nat)" where
  "count_poll n = (n + 1, Inr n)"

definition burst :: "nat watch_task" where
  "burst = (watch_start True 0)\<lparr>wt_queue := [Backend_Error, Changed [''message_0.db-wal''], Changed [''session.db'']], wt_reported := True\<rparr>"

lemma burst_reachable: "watch_reachable cfg count_poll 0 burst"
proof -
  let ?s = "watch_start True (0 :: nat)"
  have a: "watch_reachable cfg count_poll 0 (?s\<lparr>wt_queue := wt_queue ?s @ watch_handler None,
      wt_reported := wt_reported ?s \<or> (\<exists>p. Changed p \<in> set (watch_handler None))\<rparr>)" (is "watch_reachable _ _ _ ?t")
    by (rule watch_reachable.step [OF watch_reachable.start watch_step.report])
  let ?res = "Some [[''message_0.db-wal''], [''session.db.bak''], [''session.db'']]"
  have h: "watch_handler ?res = [Changed [''message_0.db-wal''], Changed [''session.db'']]" "watch_handler None = [Backend_Error]"
    by code_simp+
  have "watch_reachable cfg count_poll 0 (?t\<lparr>wt_queue := wt_queue ?t @ watch_handler ?res,
      wt_reported := wt_reported ?t \<or> (\<exists>p. Changed p \<in> set (watch_handler ?res))\<rparr>)"
    by (rule watch_reachable.step [OF a watch_step.report])
  moreover have "(\<exists>p. Changed p \<in> set (watch_handler ?res)) \<longleftrightarrow> True" unfolding h by auto
  ultimately show ?thesis
    unfolding burst_def h by (simp add: watch_start_def rebuild_watcher_def)
qed

theorem reported_changes_are_polled_witness:
  "wt_account (turns \<lparr>wc_debounce = 350, wc_fallback = None\<rparr> count_poll [(False, False), (False, False), (True, True)] burst) = 1
   \<and> 0 < wt_polls (turns \<lparr>wc_debounce = 350, wc_fallback = None\<rparr> count_poll [(False, False), (False, False), (True, True)] burst)"
proof -
  let ?ts = "[(False, False), (False, False), (True, True)]"
  have "length (wt_queue burst) \<le> length ?ts" "?ts \<noteq> []" by code_simp+
  from reported_changes_are_polled [OF burst_reachable this] have "wt_polls burst
      < wt_polls (turns \<lparr>wc_debounce = 350, wc_fallback = None\<rparr> count_poll ?ts burst)"
    by (simp add: burst_def watch_start_def rebuild_watcher_def)
  moreover have "wt_account (turns \<lparr>wc_debounce = 350, wc_fallback = None\<rparr> count_poll ?ts burst) = 1" by code_simp
  ultimately show ?thesis by (simp add: burst_def watch_start_def rebuild_watcher_def)
qed

text \<open>
  Without the slow fallback poll a change can stay unread: a watcher that died is attached again at a
  tick, but nothing polls for what changed while it was gone, and no number of further ticks does.
\<close>

theorem reattached_watcher_misses_changes:
  assumes "wc_fallback cfg = None"
  shows "\<exists>s. watch_reachable cfg poll account s \<and> wt_attached s \<and> wt_stale s \<and> wt_account s = account
    \<and> \<not> wt_shutdown s \<and> \<not> wt_ended s \<and> (\<forall>ts. turns cfg poll ts s = s)"
proof -
  let ?s0 = "watch_start False account" and ?s1 = "(watch_start False account)\<lparr>wt_stale := True\<rparr>"
  have 1: "watch_reachable cfg poll account ?s1"
    by (rule watch_reachable.step [OF watch_reachable.start watch_step.change])
  have t: "turn cfg poll True True ?s1 = (watch_start True account)\<lparr>wt_stale := True\<rparr>" (is "_ = ?s2")
    using assms by (simp add: turn_def watch_start_def rebuild_watcher_def)
  have "watch_reachable cfg poll account ?s2"
    using watch_reachable.step [OF 1 watch_step.turn [of _ _ _ True True]] unfolding t .
  moreover have "turn cfg poll tick ok ?s2 = ?s2" for tick ok
    using assms by (simp add: turn_def watch_start_def rebuild_watcher_def)
  then have "turns cfg poll ts ?s2 = ?s2" for ts by (induction ts) auto
  ultimately show ?thesis by (intro exI [of _ ?s2]) (simp add: watch_start_def rebuild_watcher_def)
qed

theorem reattached_watcher_misses_changes_witness:
  "wc_fallback (watch_config_of 350 0) = None
   \<and> (\<exists>s. watch_reachable (watch_config_of 350 0) count_poll 0 s \<and> wt_stale s \<and> wt_polls (turns (watch_config_of 350 0) count_poll
        [(True, True), (True, True)] s) = wt_polls s)"
proof -
  have n: "wc_fallback (watch_config_of 350 0) = None" by (simp add: watch_config_of_def)
  obtain s where s: "watch_reachable (watch_config_of 350 0) count_poll 0 s" "wt_stale s"
      "\<And>ts. turns (watch_config_of 350 0) count_poll ts s = s"
    using reattached_watcher_misses_changes [OF n, of count_poll 0] by blast
  have "wt_polls (turns (watch_config_of 350 0) count_poll [(True, True), (True, True)] s) = wt_polls s"
    by (simp only: s(3))
  with n s(1,2) show ?thesis by blast
qed

end
