(* ===== verification/Routes.thy ===== *)
theory Routes
  imports Api
begin

text \<open>
  The route table of \<open>src/server/routes.rs\<close>, the router built from it (\<open>build_router\<close> with its two fallbacks, in
  \<open>src/server/mod.rs\<close>) and the interface description of \<open>src/server/openapi.rs\<close>. A request is a method and a list of path
  segments; a placeholder segment matches any nonempty segment, as \<open>axum\<close> documents. The prose of the description's entries is
  the argument \<open>desc\<close>; the component schemas are their names. \<open>HEAD\<close>, which \<open>axum\<close> answers by the \<open>GET\<close> handler, is left out.
\<close>

section \<open>Routes\<close>

datatype http_method = Get | Post | Delete

definition method_key :: "http_method \<Rightarrow> string" where
  "method_key m = (case m of Get \<Rightarrow> ''get'' | Post \<Rightarrow> ''post'' | Delete \<Rightarrow> ''delete'')"

datatype route_kind = Health_Kind | Openapi_Json_Kind | Accounts_Kind | Account_Item_Kind | Messages_Kind | Sessions_Kind |
  Sessions_Pull_Kind | Contacts_Kind | Group_Members_Kind | Media_By_Id_Kind | Push_Messages_Kind |
  Chatlab_Push_Kind | Chatlab_Sessions_Kind | Chatlab_Messages_Kind | Chatlab_Pull_Kind | Sync_Kind |
  Sns_Timeline_Kind | Sns_Usernames_Kind | Sns_Stats_Kind | Sns_Export_Kind | Sns_Export_Stats_Kind |
  Sns_Media_Proxy_Kind

record route =
  rt_path :: string
  rt_kind :: route_kind
  rt_methods :: "http_method list"

abbreviation get_post :: "http_method list" where "get_post \<equiv> [Get, Post]"
abbreviation get_only :: "http_method list" where "get_only \<equiv> [Get]"
abbreviation delete_only :: "http_method list" where "delete_only \<equiv> [Delete]"

definition routes :: "route list" where
  "routes = [
     \<lparr>rt_path = ''/health'', rt_kind = Health_Kind, rt_methods = get_post\<rparr>,
     \<lparr>rt_path = ''/api/v1/health'', rt_kind = Health_Kind, rt_methods = get_post\<rparr>,
     \<lparr>rt_path = ''/openapi.json'', rt_kind = Openapi_Json_Kind, rt_methods = get_only\<rparr>,
     \<lparr>rt_path = ''/api/v1/accounts'', rt_kind = Accounts_Kind, rt_methods = get_post\<rparr>,
     \<lparr>rt_path = ''/api/v1/accounts/{wxid}'', rt_kind = Account_Item_Kind, rt_methods = delete_only\<rparr>,
     \<lparr>rt_path = ''/api/v1/messages'', rt_kind = Messages_Kind, rt_methods = get_only\<rparr>,
     \<lparr>rt_path = ''/api/v1/sessions'', rt_kind = Sessions_Kind, rt_methods = get_only\<rparr>,
     \<lparr>rt_path = ''/api/v1/sessions/{id}/messages'', rt_kind = Sessions_Pull_Kind, rt_methods = get_only\<rparr>,
     \<lparr>rt_path = ''/api/v1/contacts'', rt_kind = Contacts_Kind, rt_methods = get_only\<rparr>,
     \<lparr>rt_path = ''/api/v1/group-members'', rt_kind = Group_Members_Kind, rt_methods = get_only\<rparr>,
     \<lparr>rt_path = ''/api/v1/media/{id}'', rt_kind = Media_By_Id_Kind, rt_methods = get_only\<rparr>,
     \<lparr>rt_path = ''/api/v1/push/messages'', rt_kind = Push_Messages_Kind, rt_methods = get_only\<rparr>,
     \<lparr>rt_path = ''/chatlab/push/messages'', rt_kind = Chatlab_Push_Kind, rt_methods = get_only\<rparr>,
     \<lparr>rt_path = ''/chatlab/sessions'', rt_kind = Chatlab_Sessions_Kind, rt_methods = get_only\<rparr>,
     \<lparr>rt_path = ''/chatlab/messages'', rt_kind = Chatlab_Messages_Kind, rt_methods = get_only\<rparr>,
     \<lparr>rt_path = ''/chatlab/sessions/{id}/messages'', rt_kind = Chatlab_Pull_Kind, rt_methods = get_only\<rparr>,
     \<lparr>rt_path = ''/api/v1/sync'', rt_kind = Sync_Kind, rt_methods = get_post\<rparr>,
     \<lparr>rt_path = ''/api/v1/sns/timeline'', rt_kind = Sns_Timeline_Kind, rt_methods = get_post\<rparr>,
     \<lparr>rt_path = ''/api/v1/sns/usernames'', rt_kind = Sns_Usernames_Kind, rt_methods = get_post\<rparr>,
     \<lparr>rt_path = ''/api/v1/sns/stats'', rt_kind = Sns_Stats_Kind, rt_methods = get_post\<rparr>,
     \<lparr>rt_path = ''/api/v1/sns/export'', rt_kind = Sns_Export_Kind, rt_methods = get_post\<rparr>,
     \<lparr>rt_path = ''/api/v1/sns/export/stats'', rt_kind = Sns_Export_Stats_Kind, rt_methods = get_post\<rparr>,
     \<lparr>rt_path = ''/api/v1/sns/media/proxy'', rt_kind = Sns_Media_Proxy_Kind, rt_methods = get_post\<rparr>]"

definition not_documented :: "route_kind list" where
  "not_documented = [Sns_Timeline_Kind, Sns_Usernames_Kind, Sns_Stats_Kind, Sns_Export_Kind, Sns_Export_Stats_Kind,
     Sns_Media_Proxy_Kind]"

datatype handler = Health_Handler | Openapi_Handler | Accounts_List_Handler | Accounts_Handler | Accounts_Delete_Handler |
  Messages_Handler | Sessions_Handler | Chatlab_Pull_Handler | Contacts_Handler | Group_Members_Handler |
  Media_Handler_By_Id | Push_Events_Handler | Chatlab_Push_Handler | Chatlab_Sessions_Handler |
  Chatlab_Messages_Handler | Sync_Handler | Sns_Timeline | Sns_Usernames | Sns_Stats | Sns_Export |
  Sns_Export_Stats | Sns_Media_Proxy

fun method_router :: "route_kind \<Rightarrow> (http_method \<times> handler) list" where
  "method_router Health_Kind = [(Get, Health_Handler), (Post, Health_Handler)]"
| "method_router Openapi_Json_Kind = [(Get, Openapi_Handler)]"
| "method_router Accounts_Kind = [(Get, Accounts_List_Handler), (Post, Accounts_Handler)]"
| "method_router Account_Item_Kind = [(Delete, Accounts_Delete_Handler)]"
| "method_router Messages_Kind = [(Get, Messages_Handler)]"
| "method_router Sessions_Kind = [(Get, Sessions_Handler)]"
| "method_router Sessions_Pull_Kind = [(Get, Chatlab_Pull_Handler)]"
| "method_router Contacts_Kind = [(Get, Contacts_Handler)]"
| "method_router Group_Members_Kind = [(Get, Group_Members_Handler)]"
| "method_router Media_By_Id_Kind = [(Get, Media_Handler_By_Id)]"
| "method_router Push_Messages_Kind = [(Get, Push_Events_Handler)]"
| "method_router Chatlab_Push_Kind = [(Get, Chatlab_Push_Handler)]"
| "method_router Chatlab_Sessions_Kind = [(Get, Chatlab_Sessions_Handler)]"
| "method_router Chatlab_Messages_Kind = [(Get, Chatlab_Messages_Handler)]"
| "method_router Chatlab_Pull_Kind = [(Get, Chatlab_Pull_Handler)]"
| "method_router Sync_Kind = [(Get, Sync_Handler), (Post, Sync_Handler)]"
| "method_router Sns_Timeline_Kind = [(Get, Sns_Timeline), (Post, Sns_Timeline)]"
| "method_router Sns_Usernames_Kind = [(Get, Sns_Usernames), (Post, Sns_Usernames)]"
| "method_router Sns_Stats_Kind = [(Get, Sns_Stats), (Post, Sns_Stats)]"
| "method_router Sns_Export_Kind = [(Get, Sns_Export), (Post, Sns_Export)]"
| "method_router Sns_Export_Stats_Kind = [(Get, Sns_Export_Stats), (Post, Sns_Export_Stats)]"
| "method_router Sns_Media_Proxy_Kind = [(Get, Sns_Media_Proxy), (Post, Sns_Media_Proxy)]"

section \<open>The router\<close>

fun split_slash :: "string \<Rightarrow> string list" where
  "split_slash [] = [[]]"
| "split_slash (c # s) = (if c = CHR ''/'' then [] # split_slash s
     else (case split_slash s of w # ws \<Rightarrow> (c # w) # ws | [] \<Rightarrow> [[c]]))"

definition is_placeholder :: "string \<Rightarrow> bool" where
  "is_placeholder seg \<longleftrightarrow> starts_with ''{'' seg \<and> ends_with ''}'' seg \<and> length seg > 1"

definition segment_matches :: "string \<Rightarrow> string \<Rightarrow> bool" where
  "segment_matches pat seg \<longleftrightarrow> (if is_placeholder pat then seg \<noteq> [] else seg = pat)"

definition route_matches :: "route \<Rightarrow> string list \<Rightarrow> bool" where
  "route_matches r path \<longleftrightarrow> list_all2 segment_matches (split_slash (rt_path r)) path"

definition unknown_path :: api_error where
  "unknown_path = not_found (utf8 [230, 156, 170, 231, 159, 165, 232, 183, 175, 229, 190, 132])"

definition dispatch :: "http_method \<Rightarrow> string list \<Rightarrow> api_error + handler" where
  "dispatch m path = (case filter (\<lambda>r. route_matches r path) routes of
     [] \<Rightarrow> Inl unknown_path
   | r # _ \<Rightarrow> (case map_of (method_router (rt_kind r)) m of None \<Rightarrow> Inl method_not_allowed | Some h \<Rightarrow> Inr h))"

section \<open>The description\<close>

datatype media_shape = Json_Media "string list" | Bytes_Media | Event_Stream | Self_Doc

definition schemas :: "string list" where
  "schemas = [''AccountPhase'', ''AccountStateView'', ''AccountStatus'', ''AccountConflict'', ''AccountDeregistered'',
     ''AccountNotRegistered'', ''AccountRegistered'', ''AccountWxidMismatch'', ''AccountsList'',
     ''ChatlabHeader'', ''ChatlabMember'', ''ChatlabMessage'', ''ChatlabMessages'', ''ChatlabMeta'',
     ''Contact'', ''Contacts'', ''EventMedia'', ''EventNew'', ''EventRevoke'', ''EventSync'', ''GroupMember'',
     ''GroupMembers'', ''Health'', ''IndexProgressDto'', ''MediaBrief'', ''MediaEnvelope'', ''MediaObject'',
     ''MessageNative'', ''MessagesNative'', ''NotificationFrame'', ''Page'', ''PullEnvelope'',
     ''PullMessage'', ''PullSync'', ''Quote'', ''SessionChatlab'', ''SessionNative'', ''SessionsChatlab'',
     ''SessionsNative'', ''SyncFrame'', ''SyncResult'', ''WatermarkEntry'', ''WatermarkValue'']"

definition endpoints :: "(string \<times> http_method \<times> media_shape) list" where
  "endpoints = [
     (''/health'', Get, Json_Media [''Health'']),
     (''/health'', Post, Json_Media [''Health'']),
     (''/api/v1/health'', Get, Json_Media [''Health'']),
     (''/api/v1/health'', Post, Json_Media [''Health'']),
     (''/openapi.json'', Get, Self_Doc),
     (''/api/v1/accounts'', Get, Json_Media [''AccountsList'']),
     (''/api/v1/accounts'', Post, Json_Media [''AccountRegistered'', ''AccountConflict'']),
     (''/api/v1/accounts/{wxid}'', Delete, Json_Media [''AccountDeregistered'', ''AccountNotRegistered'', ''AccountWxidMismatch'']),
     (''/api/v1/sessions'', Get, Json_Media [''SessionsNative'']),
     (''/api/v1/sessions/{id}/messages'', Get, Json_Media [''PullEnvelope'']),
     (''/api/v1/messages'', Get, Json_Media [''MessagesNative'']),
     (''/api/v1/contacts'', Get, Json_Media [''Contacts'']),
     (''/api/v1/group-members'', Get, Json_Media [''GroupMembers'']),
     (''/api/v1/media/{id}'', Get, Bytes_Media),
     (''/api/v1/push/messages'', Get, Event_Stream),
     (''/chatlab/push/messages'', Get, Event_Stream),
     (''/chatlab/sessions'', Get, Json_Media [''SessionsChatlab'']),
     (''/chatlab/messages'', Get, Json_Media [''ChatlabMessages'']),
     (''/chatlab/sessions/{id}/messages'', Get, Json_Media [''PullEnvelope'']),
     (''/api/v1/sync'', Get, Json_Media [''SyncResult'']),
     (''/api/v1/sync'', Post, Json_Media [''SyncResult''])]"

definition schema_ref :: "string \<Rightarrow> json" where
  "schema_ref n = Object [(''$ref'', String (''#/components/schemas/'' @ n))]"

definition success_response :: "media_shape \<Rightarrow> json" where
  "success_response m = (let (content_type, schema) = (case m of
       Json_Media names \<Rightarrow> (''application/json'', if length names = 1 then schema_ref (names ! 0)
         else Object [(''oneOf'', Array (map schema_ref names))])
     | Bytes_Media \<Rightarrow> (''application/octet-stream'', Object [(''type'', String ''string''), (''format'', String ''binary'')])
     | Event_Stream \<Rightarrow> (''text/event-stream'', Object [(''type'', String ''string''), (''description'', String (
       utf8 [83, 83, 69, 32, 229, 184, 167, 230, 181, 129, 239, 188, 136, 101, 118, 101, 110, 116, 58, 32, 43, 32, 100,
       97, 116, 97, 58, 32, 232, 161, 140, 239, 188, 137, 227, 128, 130, 229, 184, 167, 231, 187, 147, 230, 158,
       132, 239, 188, 154, 232, 128, 129, 233, 157, 162, 232, 167, 129, 32, 69, 118, 101, 110, 116, 78, 101,
       119, 47, 69, 118, 101, 110, 116, 82, 101, 118, 111, 107, 101, 47, 69, 118, 101, 110, 116, 83, 121, 110,
       99, 239, 188, 140, 233, 128, 154, 231, 159, 165, 233, 157, 162, 232, 167, 129, 32, 78, 111, 116, 105,
       102, 105, 99, 97, 116, 105, 111, 110, 70, 114, 97, 109, 101, 47, 83, 121, 110, 99, 70, 114, 97, 109, 101,
       227, 128, 130]))])
     | Self_Doc \<Rightarrow> (''application/json'', Object [(''type'', String ''object''), (''description'', String (
       utf8 [79, 112, 101, 110, 65, 80, 73, 32, 230, 143, 143, 232, 191, 176, 230, 150, 135, 230, 161, 163, 232, 135,
       170, 232, 186, 171]))]))
     in Object [(''description'', String (utf8 [230, 136, 144, 229, 138, 159])),
       (''content'', Object [(content_type, Object [(''schema'', schema)])])])"

definition placeholder_name :: "string \<Rightarrow> string option" where
  "placeholder_name seg = Option.bind (strip_prefix ''{'' seg) (strip_suffix ''}'')"

definition path_params :: "string \<Rightarrow> json list" where
  "path_params path = map (\<lambda>name. Object [(''name'', String name), (''in'', String ''path''), (''required'', Bool True),
       (''style'', String ''simple''), (''schema'', Object [(''type'', String ''string'')])])
     (List.map_filter placeholder_name (split_slash path))"

definition operation_id :: "http_method \<Rightarrow> string \<Rightarrow> string" where
  "operation_id m path = (let s = map (\<lambda>c. if c \<in> {CHR ''/'', CHR ''{'', CHR ''}''} then CHR ''_'' else c)
       (method_key m @ ''_'' @ path)
     in trim_end_matches (\<lambda>c. c = CHR ''_'') (dropWhile (\<lambda>c. c = CHR ''_'') s))"

definition operation :: "(string \<Rightarrow> http_method \<Rightarrow> string) \<Rightarrow> string \<times> http_method \<times> media_shape \<Rightarrow> json" where
  "operation desc = (\<lambda>(path, m, media). Object (
     [(''operationId'', String (operation_id m path)), (''responses'', Object [(''200'', success_response media)])]
     @ (let params = path_params path in if params \<noteq> [] then [(''parameters'', Array params)] else [])
     @ (if desc path m \<noteq> [] then [(''description'', String (desc path m))] else [])))"

definition add_operation :: "(string \<Rightarrow> http_method \<Rightarrow> string) \<Rightarrow> string \<times> http_method \<times> media_shape
    \<Rightarrow> (string, (string, json) hashmap) hashmap \<Rightarrow> (string, (string, json) hashmap) hashmap" where
  "add_operation desc = (\<lambda>(path, m, media) paths.
     hm_insert path (hm_insert (method_key m) (operation desc (path, m, media)) (opt_or (hm_get paths path) [])) paths)"

definition document_paths :: "(string \<Rightarrow> http_method \<Rightarrow> string) \<Rightarrow> (string, (string, json) hashmap) hashmap" where
  "document_paths desc = fold (add_operation desc) endpoints []"

section \<open>One handler for each request\<close>

definition patterns_apart :: "string list \<Rightarrow> string list \<Rightarrow> bool" where
  "patterns_apart p q \<longleftrightarrow> \<not> list_all2 (\<lambda>a b. is_placeholder a \<or> is_placeholder b \<or> a = b) p q"

lemma apart_exclusive:
  assumes "patterns_apart p q" "list_all2 segment_matches p path" shows "\<not> list_all2 segment_matches q path"
proof
  assume "list_all2 segment_matches q path"
  with assms(2) have "list_all2 (\<lambda>a b. is_placeholder a \<or> is_placeholder b \<or> a = b) p q"
    unfolding list_all2_conv_all_nth segment_matches_def by metis
  with assms(1) show False by (simp add: patterns_apart_def)
qed

lemma routes_apart: "sorted_wrt patterns_apart (map (split_slash \<circ> rt_path) routes)"
  by code_simp

lemma at_most_one: "sorted_wrt R xs \<Longrightarrow> (\<And>x y. R x y \<Longrightarrow> P x \<Longrightarrow> \<not> P y) \<Longrightarrow> length (filter P xs) \<le> 1"
proof (induction xs)
  case (Cons x xs)
  then show ?case by (cases "P x") (auto simp: filter_empty_conv)
qed simp

lemma one_route: "length (filter (\<lambda>r. route_matches r path) routes) \<le> 1"
proof -
  have "sorted_wrt (\<lambda>r s. patterns_apart (split_slash (rt_path r)) (split_slash (rt_path s))) routes"
    using routes_apart by (simp add: sorted_wrt_map)
  then show ?thesis by (rule at_most_one) (auto simp: route_matches_def dest: apart_exclusive)
qed

lemma declared_is_dispatched: "list_all (\<lambda>r. map fst (method_router (rt_kind r)) = rt_methods r \<and> distinct (rt_methods r)) routes"
  by code_simp

text \<open>
  Every request has one answer: a path matches at most one route, whatever order a router tries them in, and
  then the method decides; a declared method reaches the handler the table gives it, any other the 405
  error, and a path of no route the 404 error.
\<close>

theorem dispatch_is_the_table:
  "length (filter (\<lambda>r. route_matches r path) routes) \<le> 1
   \<and> (case filter (\<lambda>r. route_matches r path) routes of
        [] \<Rightarrow> dispatch m path = Inl unknown_path
      | r # _ \<Rightarrow> if m \<in> set (rt_methods r) then (\<exists>h. dispatch m path = Inr h \<and> (m, h) \<in> set (method_router (rt_kind r)))
          else dispatch m path = Inl method_not_allowed)"
proof (cases "filter (\<lambda>r. route_matches r path) routes")
  case (Cons r rs)
  then have "r \<in> set routes" by (metis filter_is_subset list.set_intros(1) subsetD)
  then have d: "map fst (method_router (rt_kind r)) = rt_methods r" "distinct (map fst (method_router (rt_kind r)))"
    using declared_is_dispatched by (auto simp: list_all_iff)
  show ?thesis
  proof (cases "m \<in> set (rt_methods r)")
    case True
    then obtain h where "(m, h) \<in> set (method_router (rt_kind r))" unfolding d(1) [symmetric] by auto
    with d(2) True Cons one_route [of path] show ?thesis by (auto simp: dispatch_def)
  next
    case False
    then have "map_of (method_router (rt_kind r)) m = None" unfolding d(1) [symmetric] by (simp add: map_of_eq_None_iff)
    with False Cons one_route [of path] show ?thesis by (simp add: dispatch_def)
  qed
qed (simp add: dispatch_def)

section \<open>The description is the table\<close>

definition documented :: "(string \<times> http_method) list" where
  "documented = concat (map (\<lambda>r. map (Pair (rt_path r)) (rt_methods r)) (filter (\<lambda>r. rt_kind r \<notin> set not_documented) routes))"

definition endpoint_key :: "string \<times> http_method \<times> media_shape \<Rightarrow> string \<times> http_method" where
  "endpoint_key = (\<lambda>(path, m, media). (path, m))"

lemma method_key_inject [simp]: "method_key m = method_key m' \<longleftrightarrow> m = m'"
  by (cases m; cases m') (simp_all add: method_key_def)

lemma hm_get_fold_add:
  assumes "distinct (map endpoint_key es)"
  shows "Option.bind (hm_get (fold (add_operation desc) es paths) path) (\<lambda>ops. hm_get ops (method_key m))
    = (case filter (\<lambda>e. endpoint_key e = (path, m)) es of
         [] \<Rightarrow> Option.bind (hm_get paths path) (\<lambda>ops. hm_get ops (method_key m)) | e # _ \<Rightarrow> Some (operation desc e))"
  using assms
proof (induction es arbitrary: paths)
  case (Cons e es)
  obtain p m' media where e: "e = (p, m', media)" by (cases e) auto
  have "filter (\<lambda>e. endpoint_key e = (path, m)) es = []" if "endpoint_key e = (path, m)"
    using Cons.prems that by (auto simp: filter_empty_conv image_iff)
  have "hm_get (opt_or (hm_get paths p) []) k = Option.bind (hm_get paths p) (\<lambda>ops. hm_get ops k)" for k
    by (cases "hm_get paths p") simp_all
  with \<open>endpoint_key e = (path, m) \<Longrightarrow> _\<close> Cons show ?case
    by (auto simp: e add_operation_def endpoint_key_def hm_simps split: list.splits)
qed simp

lemma endpoints_are_documented:
  "distinct (map endpoint_key endpoints)" "list_all (\<lambda>x. x \<in> set documented) (map endpoint_key endpoints)"
  "list_all (\<lambda>x. x \<in> set (map endpoint_key endpoints)) documented" "distinct documented"
  "distinct (map (\<lambda>(path, m, media). operation_id m path) endpoints)"
  "list_all (\<lambda>(path, m, media). case media of Json_Media names \<Rightarrow> names \<noteq> [] \<and> list_all (\<lambda>n. n \<in> set schemas) names | _ \<Rightarrow> True) endpoints"
  by code_simp+

text \<open>
  C32. The interface description is the route table: its operations are exactly the declared methods of the
  documented routes, each once; the generated document has that operation under its path and method, no
  two operations share an id, and every schema a response names is among the registered ones.
\<close>

theorem description_is_the_route_table:
  "((path, m) \<in> set documented \<longleftrightarrow>
     (\<exists>media. (path, m, media) \<in> set endpoints \<and> Option.bind (hm_get (document_paths desc) path) (\<lambda>ops. hm_get ops (method_key m))
        = Some (operation desc (path, m, media))))
   \<and> distinct documented \<and> distinct (map (\<lambda>(path, m, media). operation_id m path) endpoints)
   \<and> list_all (\<lambda>(path, m, media). case media of Json_Media names \<Rightarrow> names \<noteq> [] \<and> list_all (\<lambda>n. n \<in> set schemas) names | _ \<Rightarrow> True) endpoints"
proof -
  have "(path, m) \<in> set documented \<longleftrightarrow> (path, m) \<in> set (map endpoint_key endpoints)"
    using endpoints_are_documented(2,3) unfolding list_all_iff by blast
  also have "\<dots> \<longleftrightarrow> (\<exists>media. (path, m, media) \<in> set endpoints)" by (force simp: endpoint_key_def)
  finally have d: "(path, m) \<in> set documented \<longleftrightarrow> (\<exists>media. (path, m, media) \<in> set endpoints)" .
  have "Option.bind (hm_get (document_paths desc) path) (\<lambda>ops. hm_get ops (method_key m)) = Some (operation desc (path, m, media))"
    if e: "(path, m, media) \<in> set endpoints" for media
  proof -
    have "e' = (path, m, media)" if "e' \<in> set endpoints" "endpoint_key e' = (path, m)" for e'
      using eq_key_imp_eq_value inj_onD [OF distinct_map [THEN iffD1, OF endpoints_are_documented(1), THEN conjunct2], of e' "(path, m, media)"] that e
      by (simp add: endpoint_key_def)
    then have "\<forall>x \<in> set (filter (\<lambda>e. endpoint_key e = (path, m)) endpoints). x = (path, m, media)" by simp
    moreover have "filter (\<lambda>e. endpoint_key e = (path, m)) endpoints \<noteq> []" 
      using e unfolding filter_empty_conv endpoint_key_def by fastforce
    ultimately obtain es where "filter (\<lambda>e. endpoint_key e = (path, m)) endpoints = (path, m, media) # es"
      by (metis list.set_intros(1) neq_Nil_conv)
    then show ?thesis by (simp add: document_paths_def hm_get_fold_add [OF endpoints_are_documented(1)])
  qed
  with d endpoints_are_documented(4,5,6) show ?thesis by blast
qed

end
