(* ===== verification/Config.thy ===== *)
theory Config
  imports Api
begin

text \<open>
  The command line and the API token, \<open>src/config.rs\<close>. The platform's data directory and \<open>Path::join\<close> are
  parameters of the defaults; the credential store is a \<open>keyring\<close> of answers, the random bytes and \<open>hex::encode\<close> are
  arguments. An error is a constructor with the texts the message quotes.
\<close>

section \<open>The configuration\<close>

record config =
  cg_port :: nat
  cg_host :: string
  cg_log :: string
  cg_log_format :: string
  cg_watch_debounce_ms :: nat
  cg_watch_fallback_ms :: nat
  cg_media_export_dir :: string
  cg_base_url :: "string option"
  cg_data_dir :: string
  cg_show_token :: bool

definition default_config :: "(string \<Rightarrow> string \<Rightarrow> string) \<Rightarrow> string \<Rightarrow> config" where
  "default_config join dir = \<lparr>cg_port = 5033, cg_host = ''127.0.0.1'', cg_log = ''info'', cg_log_format = ''text'',
     cg_watch_debounce_ms = 350, cg_watch_fallback_ms = 30000, cg_media_export_dir = join dir ''api-media'',
     cg_base_url = None, cg_data_dir = dir, cg_show_token = False\<rparr>"

text \<open>\<open>dirs::data_dir().unwrap_or_else(temp_dir).join("weflow-server")\<close>.\<close>

definition data_dir :: "(string \<Rightarrow> string \<Rightarrow> string) \<Rightarrow> string option \<Rightarrow> string \<Rightarrow> string" where
  "data_dir join platform_dir temp_dir = join (opt_or platform_dir temp_dir) ''weflow-server''"

datatype config_error = Empty_Value string | Missing_Value string | Flag_As_Value string string | Bad_Port string
  | Bad_Log string | Bad_Log_Format string | Bad_Debounce string | Bad_Fallback string | Unknown_Flag string

datatype switch = Show_Token | Help_Or_Version

definition switch_of :: "string \<Rightarrow> switch option" where
  "switch_of flag = (if flag = ''--show-token'' then Some Show_Token
     else if flag \<in> {''-h'', ''--help'', ''-V'', ''--version''} then Some Help_Or_Version else None)"

definition set_flag :: "string \<Rightarrow> string \<Rightarrow> config \<Rightarrow> config_error + config" where
  "set_flag flag value cfg =
     (if flag = ''--port'' then (case parse_u16 value of None \<Rightarrow> Inl (Bad_Port value) | Some n \<Rightarrow> Inr (cfg\<lparr>cg_port := n\<rparr>))
      else if flag = ''--host'' then Inr (cfg\<lparr>cg_host := value\<rparr>)
      else if flag = ''--log'' then (if value \<in> {''error'', ''warn'', ''info'', ''debug''} then Inr (cfg\<lparr>cg_log := value\<rparr>) else Inl (Bad_Log value))
      else if flag = ''--log-format'' then (if value \<in> {''text'', ''json''} then Inr (cfg\<lparr>cg_log_format := value\<rparr>) else Inl (Bad_Log_Format value))
      else if flag = ''--watch-debounce-ms'' then (case parse_usize value of None \<Rightarrow> Inl (Bad_Debounce value) | Some n \<Rightarrow> Inr (cfg\<lparr>cg_watch_debounce_ms := n\<rparr>))
      else if flag = ''--watch-fallback-ms'' then (case parse_usize value of None \<Rightarrow> Inl (Bad_Fallback value) | Some n \<Rightarrow> Inr (cfg\<lparr>cg_watch_fallback_ms := n\<rparr>))
      else if flag = ''--media-export-dir'' then Inr (cfg\<lparr>cg_media_export_dir := value\<rparr>)
      else if flag = ''--base-url'' then Inr (cfg\<lparr>cg_base_url := Some value\<rparr>)
      else Inl (Unknown_Flag flag))"

definition split_flag :: "string \<Rightarrow> string \<times> string option" where
  "split_flag arg = (case split_once ''='' arg of Some (f, v) \<Rightarrow> (f, Some v) | None \<Rightarrow> (arg, None))"

text \<open>The loop from argument \<open>i\<close> on; \<open>None\<close> on the right when help or the version was printed.\<close>

fun parse_from :: "config \<Rightarrow> string list \<Rightarrow> config_error + config option" where
  "parse_from cfg [] = Inr (Some cfg)"
| "parse_from cfg (arg # rest) = (let (flag, inline) = split_flag arg in
     case switch_of flag of
       Some Show_Token \<Rightarrow> parse_from (cfg\<lparr>cg_show_token := True\<rparr>) rest
     | Some Help_Or_Version \<Rightarrow> Inr None
     | None \<Rightarrow> (case inline of
         Some v \<Rightarrow> if v = [] then Inl (Empty_Value flag)
           else (case set_flag flag v cfg of Inl e \<Rightarrow> Inl e | Inr cfg' \<Rightarrow> parse_from cfg' rest)
       | None \<Rightarrow> (case rest of
           [] \<Rightarrow> Inl (Missing_Value flag)
         | next_arg # rest' \<Rightarrow> if starts_with ''--'' next_arg then Inl (Flag_As_Value flag next_arg)
             else (case set_flag flag next_arg cfg of Inl e \<Rightarrow> Inl e | Inr cfg' \<Rightarrow> parse_from cfg' rest'))))"

definition parse_args :: "config \<Rightarrow> string list \<Rightarrow> config_error + config option" where
  "parse_args defaults args = parse_from defaults args"

section \<open>The token\<close>

datatype stored_token = Stored string | No_Entry | Store_Error string

record keyring =
  kr_open :: "string option"
  kr_token :: stored_token
  kr_set_error :: "string option"

definition new_token :: "(bytes \<Rightarrow> string) \<Rightarrow> bytes \<Rightarrow> string" where
  "new_token hex_encode random = hex_encode random"

datatype token_error = Init_Failed string | Write_Failed string | Read_Failed string

text \<open>Storing a token: the keyring afterwards, or the error of a failed write.\<close>

definition store_token :: "string \<Rightarrow> keyring \<Rightarrow> keyring \<times> (token_error + string)" where
  "store_token t kr = (case kr_set_error kr of Some e \<Rightarrow> (kr, Inl (Write_Failed e))
     | None \<Rightarrow> (kr\<lparr>kr_token := Stored t\<rparr>, Inr t))"

definition load_token :: "(bytes \<Rightarrow> string) \<Rightarrow> bytes \<Rightarrow> keyring \<Rightarrow> keyring \<times> (token_error + string)" where
  "load_token hex_encode random kr = (case kr_open kr of Some e \<Rightarrow> (kr, Inl (Init_Failed e)) | None \<Rightarrow>
     (case kr_token kr of
        Stored t \<Rightarrow> if length t \<ge> 16 then (kr, Inr t) else store_token (new_token hex_encode random) kr
      | No_Entry \<Rightarrow> store_token (new_token hex_encode random) kr
      | Store_Error e \<Rightarrow> (kr, Inr (new_token hex_encode random))))"

definition show_token :: "keyring \<Rightarrow> token_error + string option" where
  "show_token kr = (case kr_open kr of Some e \<Rightarrow> Inl (Init_Failed e) | None \<Rightarrow>
     (case kr_token kr of
        Stored t \<Rightarrow> Inr (if t \<noteq> [] then Some t else None)
      | No_Entry \<Rightarrow> Inr None
      | Store_Error e \<Rightarrow> Inl (Read_Failed e)))"

section \<open>Writing a command line and reading it back\<close>

datatype setting = Port nat | Host string | Log string | Log_Format string | Debounce nat | Fallback nat
  | Media_Dir string | Base_Url string | Show

fun flag_of :: "setting \<Rightarrow> string" where
  "flag_of (Port _) = ''--port''"
| "flag_of (Host _) = ''--host''"
| "flag_of (Log _) = ''--log''"
| "flag_of (Log_Format _) = ''--log-format''"
| "flag_of (Debounce _) = ''--watch-debounce-ms''"
| "flag_of (Fallback _) = ''--watch-fallback-ms''"
| "flag_of (Media_Dir _) = ''--media-export-dir''"
| "flag_of (Base_Url _) = ''--base-url''"
| "flag_of Show = ''--show-token''"

fun value_of :: "setting \<Rightarrow> string" where
  "value_of (Port n) = nat_to_dec n"
| "value_of (Host v) = v"
| "value_of (Log v) = v"
| "value_of (Log_Format v) = v"
| "value_of (Debounce n) = nat_to_dec n"
| "value_of (Fallback n) = nat_to_dec n"
| "value_of (Media_Dir v) = v"
| "value_of (Base_Url v) = v"
| "value_of Show = []"

fun apply_setting :: "setting \<Rightarrow> config \<Rightarrow> config" where
  "apply_setting (Port n) cfg = cfg\<lparr>cg_port := n\<rparr>"
| "apply_setting (Host v) cfg = cfg\<lparr>cg_host := v\<rparr>"
| "apply_setting (Log v) cfg = cfg\<lparr>cg_log := v\<rparr>"
| "apply_setting (Log_Format v) cfg = cfg\<lparr>cg_log_format := v\<rparr>"
| "apply_setting (Debounce n) cfg = cfg\<lparr>cg_watch_debounce_ms := n\<rparr>"
| "apply_setting (Fallback n) cfg = cfg\<lparr>cg_watch_fallback_ms := n\<rparr>"
| "apply_setting (Media_Dir v) cfg = cfg\<lparr>cg_media_export_dir := v\<rparr>"
| "apply_setting (Base_Url v) cfg = cfg\<lparr>cg_base_url := Some v\<rparr>"
| "apply_setting Show cfg = cfg\<lparr>cg_show_token := True\<rparr>"

fun setting_ok :: "setting \<Rightarrow> bool" where
  "setting_ok (Port n) \<longleftrightarrow> n \<le> 65535"
| "setting_ok (Log v) \<longleftrightarrow> v \<in> {''error'', ''warn'', ''info'', ''debug''}"
| "setting_ok (Log_Format v) \<longleftrightarrow> v \<in> {''text'', ''json''}"
| "setting_ok (Debounce n) \<longleftrightarrow> n \<le> usize_max"
| "setting_ok (Fallback n) \<longleftrightarrow> n \<le> usize_max"
| "setting_ok s \<longleftrightarrow> True"

text \<open>One argument with \<open>=\<close> (any value but the empty one), or two (any value that is not shaped like a flag).\<close>

definition setting_args :: "bool \<times> setting \<Rightarrow> string list" where
  "setting_args = (\<lambda>(inline, s). if s = Show then [flag_of s] else if inline then [flag_of s @ ''='' @ value_of s]
     else [flag_of s, value_of s])"

definition writable :: "bool \<times> setting \<Rightarrow> bool" where
  "writable = (\<lambda>(inline, s). setting_ok s \<and> (s = Show \<or> (if inline then value_of s \<noteq> [] else \<not> starts_with ''--'' (value_of s))))"

lemma split_flag_inline: "CHR ''='' \<notin> set f \<Longrightarrow> split_flag (f @ ''='' @ v) = (f, Some v)"
  using find_sub_fresh_head [of "CHR ''=''" f "[]" v] by (simp add: split_flag_def split_once_def)

lemma split_flag_plain: "CHR ''='' \<notin> set f \<Longrightarrow> split_flag f = (f, None)"
proof -
  assume f: "CHR ''='' \<notin> set f"
  then have "find_sub ''='' f = None" unfolding find_sub_None by auto
  then show ?thesis by (simp add: split_flag_def split_once_def)
qed

lemma flag_of_plain: "CHR ''='' \<notin> set (flag_of s)"
  by (cases s) simp_all

lemma set_flag_setting: "setting_ok s \<Longrightarrow> s \<noteq> Show \<Longrightarrow> set_flag (flag_of s) (value_of s) cfg = Inr (apply_setting s cfg)"
  by (cases s) (simp_all add: set_flag_def parse_u16_def parse_usize_def parse_unsigned_to_dec)

lemma switch_of_setting: "switch_of (flag_of s) = (if s = Show then Some Show_Token else None)"
  by (cases s) (simp_all add: switch_of_def)

lemma parse_setting:
  assumes "writable x"
  shows "parse_from cfg (setting_args x @ rest) = parse_from (apply_setting (snd x) cfg) rest"
proof (cases "snd x = Show")
  case True
  then show ?thesis
    using split_flag_plain [OF flag_of_plain, of Show] by (simp add: setting_args_def split_beta switch_of_def)
next
  case False
  then have v: "setting_ok (snd x)" "if fst x then value_of (snd x) \<noteq> [] else \<not> starts_with ''--'' (value_of (snd x))"
    using assms by (auto simp: writable_def split_beta)
  show ?thesis
    using False v split_flag_inline [OF flag_of_plain, of "snd x" "value_of (snd x)"] split_flag_plain [OF flag_of_plain, of "snd x"]
    by (cases "fst x") (simp_all add: setting_args_def split_beta switch_of_setting set_flag_setting)
qed

text \<open>
  The command line is read as written: any sequence of valid settings, each in one argument or in two, gives
  the defaults with these settings applied in order, so the last of a repeated one counts; only an empty
  value in one argument and a value shaped like a flag in two cannot be written that way.
\<close>

theorem command_line_roundtrip:
  assumes "list_all writable xs"
  shows "parse_args defaults (concat (map setting_args xs)) = Inr (Some (fold (apply_setting \<circ> snd) xs defaults))"
  using assms unfolding parse_args_def
  by (induction xs arbitrary: defaults) (simp_all add: parse_setting)

theorem command_line_roundtrip_witness:
  "let xs = [(True, Host ''a=b''), (False, Port 8080), (True, Base_Url ''--x''), (False, Show), (False, Port 0)]
   in list_all writable xs \<and> parse_args (default_config (@) ''/data/'') (concat (map setting_args xs))
      = Inr (Some ((default_config (@) ''/data/'')\<lparr>cg_host := ''a=b'', cg_port := 0, cg_base_url := Some ''--x'', cg_show_token := True\<rparr>))"
proof -
  let ?xs = "[(True, Host ''a=b''), (False, Port 8080), (True, Base_Url ''--x''), (False, Show), (False, Port 0)]"
  have w: "list_all writable ?xs" by code_simp
  show ?thesis using w command_line_roundtrip [OF w, of "default_config (@) ''/data/''"] by (simp add: default_config_def)
qed

text \<open>What follows the equals sign of a switch is not looked at.\<close>

lemma switch_value_ignored:
  "map_option cg_show_token (case parse_args (default_config (@) []) [''--show-token=false''] of Inr c \<Rightarrow> c | Inl _ \<Rightarrow> None) = Some True"
  by code_simp

section \<open>The token stays the same\<close>

lemma token_is_stable_at:
  assumes new: "\<And>bs. length (hex_encode bs) \<ge> 16" and l: "load_token hex_encode random kr = (kr', Inr t)"
    and "\<And>e. kr_token kr \<noteq> Store_Error e"
  shows "length t \<ge> 16 \<and> load_token hex_encode random' kr' = (kr', Inr t) \<and> show_token kr' = Inr (Some t)"
  using l new [of random] assms(3)
  by (auto simp: load_token_def store_token_def show_token_def new_token_def split: option.splits stored_token.splits if_splits)

text \<open>
  The token is stable and never weak: whatever the credential store answers, a token the server starts
  with has at least 16 characters (given that a new one has); when the store works, it is in the store
  afterwards, is what the next start and \<open>--show-token\<close> return, and a good stored token is kept as it is.
\<close>

theorem token_is_stable:
  assumes new: "\<And>bs. length (hex_encode bs) \<ge> 16" and l: "load_token hex_encode random kr = (kr', Inr t)"
  shows "length t \<ge> 16 \<and> (case kr_token kr of
      Store_Error e \<Rightarrow> kr' = kr \<and> show_token kr' = Inl (Read_Failed e)
    | Stored t0 \<Rightarrow> (length t0 < 16 \<or> t = t0 \<and> kr' = kr) \<and> load_token hex_encode random' kr' = (kr', Inr t) \<and> show_token kr' = Inr (Some t)
    | No_Entry \<Rightarrow> load_token hex_encode random' kr' = (kr', Inr t) \<and> show_token kr' = Inr (Some t))"
  using l new [of random]
  by (auto simp: load_token_def store_token_def show_token_def new_token_def split: option.splits stored_token.splits if_splits)

theorem token_is_stable_witness:
  "let kr = \<lparr>kr_open = None, kr_token = Stored ''short'', kr_set_error = None\<rparr>;
       hex = (\<lambda>bs. replicate 64 (CHR ''a'')); r = load_token hex [1] kr
   in snd r = Inr (replicate 64 (CHR ''a'')) \<and> show_token (fst r) = Inr (Some (replicate 64 (CHR ''a''))) \<and> show_token kr = Inr (Some ''short'')"
proof -
  let ?kr = "\<lparr>kr_open = None, kr_token = Stored ''short'', kr_set_error = None\<rparr>"
  let ?hex = "\<lambda>bs :: bytes. replicate 64 (CHR ''a'')"
  have h: "16 \<le> length (?hex bs)" for bs by simp
  have r: "snd (load_token ?hex [1] ?kr) = Inr (?hex [])" by (simp add: load_token_def store_token_def new_token_def)
  then have l: "load_token ?hex [1] ?kr = (fst (load_token ?hex [1] ?kr), Inr (?hex []))" by (metis prod.collapse)
  from token_is_stable [OF h l] r show ?thesis by (simp add: Let_def) (simp add: show_token_def)
qed

end
