(* ===== verification/Embed.thy ===== *)
theory Embed
  imports Lifecycle Config Reads "HOL-Library.Multiset"
begin

text \<open>
  The entry points: the embedding facade of \<open>src/api.rs\<close> (an index opened once, or an engine that is polled) and
  the start of the service in \<open>src/lib.rs\<close> (\<open>run\<close>, \<open>serve_with_shutdown\<close> up to the listener). Binding the socket, the
  runtime and the grace period of the exit are the system's.
\<close>

section \<open>The facade\<close>

definition index_open :: "(bytes \<Rightarrow> bytes option) \<Rightarrow> (string \<Rightarrow> string) \<Rightarrow> (string \<Rightarrow> f64 option) \<Rightarrow> nat option
    \<Rightarrow> 'c live_pool opener \<Rightarrow> fs option \<Rightarrow> key_map \<Rightarrow> string \<Rightarrow> store" where
  "index_open dec md5_hex parse_f64 now_ms open_db storage keys my_wxid =
     fst (snd (build_all_live dec md5_hex parse_f64 now_ms open_db keys my_wxid (enum_db_files storage) pool_new progress_default))"

definition index_wxid :: "store \<Rightarrow> string" where
  "index_wxid st = st_my_wxid st"

definition index_sessions :: "store \<Rightarrow> session list" where
  "index_sessions st = sort_key ss_username (hm_values (st_sessions st))"

definition index_messages :: "store \<Rightarrow> string \<Rightarrow> message_record list" where
  "index_messages st username = sort_key (\<lambda>m. (mr_create_time m, mr_local_id m)) (opt_or (hm_get (st_convs st) username) [])"

definition index_contacts :: "store \<Rightarrow> contact list" where
  "index_contacts st = sort_key ct_username (hm_values (st_contacts st))"

definition index_group_card :: "store \<Rightarrow> string \<Rightarrow> string \<Rightarrow> string" where
  "index_group_card st chatroom sender = group_card st (Some chatroom) sender"

definition index_chatroom_owner :: "store \<Rightarrow> string \<Rightarrow> string" where
  "index_chatroom_owner st chatroom = opt_or (hm_get (st_chatroom_owner st) chatroom) []"

definition index_is_empty :: "store \<Rightarrow> bool" where
  "index_is_empty st = store_is_empty st"

definition index_session_display :: "store \<Rightarrow> string \<Rightarrow> string" where
  "index_session_display st username = session_display st username"

definition sync_open :: "(bytes \<Rightarrow> bytes option) \<Rightarrow> (string \<Rightarrow> string) \<Rightarrow> (bytes \<Rightarrow> string) \<Rightarrow> (string \<Rightarrow> f64 option)
    \<Rightarrow> 'c sync_env \<Rightarrow> key_map \<Rightarrow> string \<Rightarrow> 'b \<Rightarrow> ('c, 'b) account_sync" where
  "sync_open dec md5_hex hx parse_f64 env keys my_wxid bus =
     fst (full_sync dec md5_hex hx parse_f64 env (account_sync_new my_wxid keys store_default bus))"

definition sync_index :: "('c, 'b) account_sync \<Rightarrow> store" where
  "sync_index s = as_store s"

definition sync_poll_once :: "(bytes \<Rightarrow> bytes option) \<Rightarrow> (string \<Rightarrow> string) \<Rightarrow> (bytes \<Rightarrow> string) \<Rightarrow> (string \<Rightarrow> f64 option)
    \<Rightarrow> (event \<Rightarrow> 'b \<Rightarrow> 'b) \<Rightarrow> 'c sync_env \<Rightarrow> ('c, 'b) account_sync \<Rightarrow> ('c, 'b) account_sync \<times> (index_error + nat \<times> nat)" where
  "sync_poll_once dec md5_hex hx parse_f64 pub env s = poll_once dec md5_hex hx parse_f64 pub env s"

definition sync_drain_events :: "recv list \<Rightarrow> event list" where
  "sync_drain_events answers = drain_events answers"

section \<open>Starting the service\<close>

definition serve_start :: "(bytes \<Rightarrow> string) \<Rightarrow> bytes \<Rightarrow> (nat \<Rightarrow> 'ch) \<Rightarrow> fs option list \<Rightarrow> string option \<Rightarrow> config \<Rightarrow> keyring
    \<Rightarrow> keyring \<times> (string + ('c, 'ch) app_state)" where
  "serve_start hex_encode random new_channel roots mkdir_error cfg kr = (case mkdir_error of Some e \<Rightarrow> (kr, Inl e) | None \<Rightarrow>
     (case load_token hex_encode random kr of
        (kr', Inl (Init_Failed e)) \<Rightarrow> (kr', Inl e)
      | (kr', Inl (Write_Failed e)) \<Rightarrow> (kr', Inl e)
      | (kr', Inl (Read_Failed e)) \<Rightarrow> (kr', Inl e)
      | (kr', Inr token) \<Rightarrow> (kr', Inr (set_discovered (scan_all roots)
          (app_new new_channel (cg_host cfg) (cg_port cfg) (cg_base_url cfg) (cg_media_export_dir cfg) token)))))"

datatype run_outcome = Printed string | No_Token_Yet | Token_Error token_error | Serving

definition run_entry :: "config \<Rightarrow> keyring \<Rightarrow> run_outcome" where
  "run_entry cfg kr = (if cg_show_token cfg
     then (case show_token kr of Inl e \<Rightarrow> Token_Error e | Inr (Some t) \<Rightarrow> Printed t | Inr None \<Rightarrow> No_Token_Yet)
     else Serving)"

section \<open>What the entry points agree on\<close>

text \<open>
  Starting again changes nothing for clients: after a start that used the credential store, the token in force
  is what \<open>--show-token\<close> prints and what every later start uses, so a bearer header with it is let in before
  and after; a started service has no account, and answers every data request with 503.
\<close>

theorem restart_keeps_token:
  assumes new: "\<And>bs. length (hex_encode bs) \<ge> 16"
    and start: "serve_start hex_encode random new_channel roots mk cfg kr = (kr', Inr (app :: ('c, 'ch) app_state))"
    and store: "\<And>e. kr_token kr \<noteq> Store_Error e"
  shows "run_entry (cfg\<lparr>cg_show_token := True\<rparr>) kr' = Printed (ap_token app)
    \<and> (\<exists>app' :: ('c, 'ch) app_state. serve_start hex_encode random' new_channel roots' None cfg' kr' = (kr', Inr app') \<and> ap_token app' = ap_token app
         \<and> require_auth (ap_token app') params (Some (''Bearer '' @ ap_token app)) = Inr ())
    \<and> length (ap_token app) \<ge> 16 \<and> registry_ok app
    \<and> (\<forall>params. ready_account app params = Inl (service_unavailable not_registered_text))"
proof -
  obtain t where l: "load_token hex_encode random kr = (kr', Inr t)"
    and app: "app = set_discovered (scan_all roots) (app_new new_channel (cg_host cfg) (cg_port cfg) (cg_base_url cfg) (cg_media_export_dir cfg) t)"
    using start by (auto simp: serve_start_def split: option.splits prod.splits sum.splits token_error.splits)
  have tok: "ap_token app = t" by (simp add: app set_discovered_def app_new_def)
  have stable: "length t \<ge> 16" "load_token hex_encode random' kr' = (kr', Inr t)" "show_token kr' = Inr (Some t)"
    using token_is_stable_at [OF new l store] by blast+
  have accs: "ap_accounts app = []" by (simp add: app set_discovered_def app_new_def)
  have "ready_account app params = Inl (service_unavailable not_registered_text)" for params
    by (simp add: ready_account_def accs bound_account_def hm_values_def split: option.split)
  moreover have "registry_ok app" unfolding app by (simp add: set_discovered_def registry_ok_def app_new_def)
  moreover have "require_auth t params (Some (''Bearer '' @ t)) = Inr ()" by (simp add: require_auth_def authorized_def)
  moreover have "run_entry (cfg\<lparr>cg_show_token := True\<rparr>) kr' = Printed t" using stable(3) by (simp add: run_entry_def)
  moreover have "serve_start hex_encode random' new_channel roots' None cfg' kr' = (kr', Inr (set_discovered (scan_all roots')
      (app_new new_channel (cg_host cfg') (cg_port cfg') (cg_base_url cfg') (cg_media_export_dir cfg') t)))"
    using stable(2) by (simp add: serve_start_def)
  moreover have "ap_token (set_discovered (scan_all roots')
      (app_new new_channel (cg_host cfg') (cg_port cfg') (cg_base_url cfg') (cg_media_export_dir cfg') t)) = t"
    by (simp add: set_discovered_def app_new_def)
  ultimately show ?thesis unfolding tok using stable(1) by metis
qed

theorem restart_keeps_token_witness:
  "let kr = \<lparr>kr_open = None, kr_token = No_Entry, kr_set_error = None\<rparr>; hex = (\<lambda>bs. replicate 64 (CHR ''a''));
       cfg = default_config (@) ''/data/''; s = serve_start hex [1] (\<lambda>_. []) [] None cfg kr :: keyring \<times> (string + (nat, nat list) app_state)
   in run_entry (cfg\<lparr>cg_show_token := True\<rparr>) (fst s) = Printed (replicate 64 (CHR ''a''))
      \<and> run_entry (cfg\<lparr>cg_show_token := True\<rparr>) kr = No_Token_Yet"
proof -
  let ?kr = "\<lparr>kr_open = None, kr_token = No_Entry, kr_set_error = None\<rparr>" and ?hex = "\<lambda>bs :: bytes. replicate 64 (CHR ''a'')"
  let ?cfg = "default_config (@) ''/data/''"
  let ?s = "serve_start ?hex [1] (\<lambda>_. []) [] None ?cfg ?kr :: keyring \<times> (string + (nat, nat list) app_state)"
  have "map_sum id ap_token (snd ?s) = Inr (?hex [])"
    by (simp add: serve_start_def load_token_def store_token_def new_token_def set_discovered_def app_new_def)
  then obtain app where app: "snd ?s = Inr app" "ap_token app = ?hex []" by (cases "snd ?s") simp_all
  have e: "kr_token ?kr \<noteq> Store_Error e" for e by simp
  have "?s = (fst ?s, Inr app)" using app(1) by (metis prod.collapse)
  from restart_keeps_token [OF _ this e] have "run_entry (?cfg\<lparr>cg_show_token := True\<rparr>) (fst ?s) = Printed (ap_token app)" by simp
  then show ?thesis unfolding Let_def app(2) by (simp add: run_entry_def show_token_def)
qed

text \<open>
  An index opened once and an engine opened for polling over the same files hold the same index.
\<close>

lemma engine_and_index_agree:
  assumes "se_files env = enum_db_files storage" and "\<not> se_stopped_apply env"
  shows "as_store (sync_open dec md5_hex hx parse_f64 env keys my_wxid bus)
    = mark_index_built (se_now_ms env) (index_open dec md5_hex parse_f64 (se_now_ms env) (env_open hx env) storage keys my_wxid)"
  using assms
  by (simp add: sync_open_def index_open_def full_sync_def account_sync_new_def split_beta Let_def)

end
