(* ===== verification/Slot.thy ===== *)
theory Slot
  imports Lifecycle
begin

text \<open>
  What the account table promises, without its handles, tasks and locks: a slot that is free or holds one account
  in one phase. The interleaved steps of \<open>Lifecycle\<close> implement it.
\<close>

section \<open>The abstract slot\<close>

datatype slot = Free | Held string account_status

inductive slot_step :: "slot \<Rightarrow> slot \<Rightarrow> bool" where
  claim: "slot_step Free (Held w Indexing)"
| retry: "slot_step (Held w Error) (Held w Indexing)"
| indexed: "slot_step (Held w Indexing) (Held w Ready)"
| failed: "slot_step (Held w Indexing) (Held w Error)"
| release: "slot_step (Held w st) Free"

definition slot_of :: "('c, 'ch) app_state \<Rightarrow> slot" where
  "slot_of app = (case ap_accounts app of [] \<Rightarrow> Free | (w, a) # _ \<Rightarrow> Held w (status_of (handle_at app a)))"

section \<open>One index task for each handle\<close>

text \<open>The activities of an index task that has not yet set the status.\<close>

fun undecided :: "('c, 'ch) activity \<Rightarrow> nat option" where
  "undecided (Building a) = Some a"
| "undecided (Installing a s n) = Some a"
| "undecided (Checking a out) = Some a"
| "undecided (Marking a) = Some a"
| "undecided (Failing a out) = Some a"
| "undecided t = None"

definition undecided_tasks :: "nat \<Rightarrow> ('c, 'ch) activity list \<Rightarrow> ('c, 'ch) activity list" where
  "undecided_tasks a ts = filter (\<lambda>t. undecided t = Some a) ts"

definition decide_inv :: "('c, 'ch) config \<Rightarrow> bool" where
  "decide_inv s \<longleftrightarrow> (\<forall>a. length (undecided_tasks a (snd s)) \<le> 1
     \<and> (undecided_tasks a (snd s) \<noteq> [] \<longrightarrow> a < length (ap_handles (fst s)) \<and> status_of (handle_at (fst s) a) = Indexing))"

lemma status_of_simps [simp]:
  "status_of (set_status st h) = st" "status_of (h\<lparr>ah_sync := s\<rparr>) = status_of h" "status_of (h\<lparr>ah_stopped := b\<rparr>) = status_of h"
  "status_of (h\<lparr>ah_watcher := x\<rparr>) = status_of h" "status_of (h\<lparr>ah_error := e\<rparr>) = status_of h"
  by (cases st) (simp_all add: status_of_def set_status_def)

lemma act_status:
  assumes "act l send c t app = (app', ts')" and "b < length (ap_handles app)"
    and "\<And>a. owner t = Some a \<or> torn_down t = Some a \<Longrightarrow> a < length (ap_handles app)"
  shows "status_of (handle_at app' b) = (if t = Marking b then Ready else if \<exists>out. t = Failing b out then Error
    else status_of (handle_at app b))"
  using assms
  by (cases "(l, send, c, t, app)" rule: act.cases)
    (auto simp: app_simps engine_is_def mark_ready_def mark_failed_def start_watch_def drop_watch_def keep_watcher_def
      abort_watcher_def stop_handle_def drop_index_def clear_bus_def bump_generation_def publish_watermark_baseline_def set_store_def Let_def
      split: option.splits prod.splits if_splits)

lemma act_undecided:
  assumes "act l send c t app = (app', ts')"
  shows "length (undecided_tasks a ts') \<le> (if undecided t = Some a \<and> t \<noteq> Marking a \<and> (\<forall>out. t \<noteq> Failing a out) then 1 else 0)"
  using assms
  by (cases "(l, send, c, t, app)" rule: act.cases)
    (auto simp: undecided_tasks_def Let_def split: option.splits prod.splits if_splits index_outcome.splits)

lemma register_slot:
  assumes ok: "registry_ok app" and reg: "register_account info keys media app = (app', out)"
  obtains (same) "app' = app" "\<And>a. out \<noteq> Bound a"
  | (fresh) "out = Bound (length (ap_handles app))" "slot_of app' = Held (ai_wxid info) Indexing"
      "slot_of app = Free \<or> slot_of app = Held (ai_wxid info) Error"
      "status_of (handle_at app' (length (ap_handles app))) = Indexing"
      "length (ap_handles app') = Suc (length (ap_handles app))"
      "\<And>b. b < length (ap_handles app) \<Longrightarrow> status_of (handle_at app' b) = status_of (handle_at app b)"
  using ok reg
proof (cases rule: register_account_shape)
  case inserted
  let ?h = "new_handle info keys media (ap_bus app)"
  have h: "\<not> ah_stopped ?h" "ah_watcher ?h = None" "ah_info ?h = info" "status_of ?h = Indexing"
    by (simp_all add: new_handle_def status_of_def)
  have r: "out = Bound (length (ap_handles app))" "ap_accounts app' = [(ai_wxid info, length (ap_handles app))]"
    "length (ap_handles app') = Suc (length (ap_handles app))" "handle_at app' (length (ap_handles app)) = ?h"
    "\<And>b. b < length (ap_handles app) \<Longrightarrow> handle_at app' b = (if bound_account (ap_accounts app) = Some b
       then (handle_at app b)\<lparr>ah_stopped := True, ah_watcher := None\<rparr> else handle_at app b)"
    using insert_handle_result [OF ok _ h(1) _ h(2) inserted(1)] inserted(3) h(3,4) by simp_all
  have old: "slot_of app = Free \<or> slot_of app = Held (ai_wxid info) Error"
    using ok
  proof (cases rule: registry_cases)
    case (bound w a)
    then show ?thesis
      using reg inserted(1,3) by (cases "status_of (handle_at app a)")
        (auto simp: slot_of_def handle_ok_def register_account_def insert_handle_def Let_def split: if_splits)
  qed (simp add: slot_of_def)
  show thesis
    by (rule fresh) (use r old h in \<open>simp_all add: slot_of_def\<close>)
qed simp_all

lemma undecided_tasks_append [simp]: "undecided_tasks a (xs @ ys) = undecided_tasks a xs @ undecided_tasks a ys"
  by (simp add: undecided_tasks_def)

lemma undecided_tasks_Cons [simp]:
  "undecided_tasks a (t # ts) = (if undecided t = Some a then t # undecided_tasks a ts else undecided_tasks a ts)"
  "undecided_tasks a [] = []"
  by (simp_all add: undecided_tasks_def)

lemma decide_inv_register:
  assumes inv: "decide_inv (app, ts)" and ok: "registry_ok app" and reg: "register_account info keys media app = (app', out)"
  shows "decide_inv (app', (case out of Bound a \<Rightarrow> [Building a] | _ \<Rightarrow> []) @ ts)"
  using ok reg
proof (cases rule: register_slot)
  case same
  then show ?thesis using inv by (simp add: same(2) split: bind_outcome.split)
next
  case fresh
  have "undecided_tasks (length (ap_handles app)) ts = []"
    using inv by (auto simp: decide_inv_def)
  with inv fresh show ?thesis by (auto simp: decide_inv_def less_Suc_eq)
qed

lemma decide_inv_act:
  assumes inv: "decide_inv (app, xs @ t # ys)" and life: "life_inv (app, xs @ t # ys)"
    and act: "act l send c t app = (app', ts')"
  shows "decide_inv (app', xs @ ts' @ ys)"
proof -
  have range: "owner t = Some a \<or> torn_down t = Some a \<Longrightarrow> a < length (ap_handles app)" for a
    using life_invD [OF life, of t] by auto
  have len: "length (ap_handles app') = length (ap_handles app)" using act_frame [OF act range] by blast
  have "length (undecided_tasks a (xs @ ts' @ ys)) \<le> 1 \<and> (undecided_tasks a (xs @ ts' @ ys) \<noteq> []
    \<longrightarrow> a < length (ap_handles app') \<and> status_of (handle_at app' a) = Indexing)" for a
  proof -
    have old: "length (undecided_tasks a xs) + (if undecided t = Some a then 1 else 0) + length (undecided_tasks a ys) \<le> 1"
      "undecided_tasks a (xs @ t # ys) \<noteq> [] \<Longrightarrow> a < length (ap_handles app) \<and> status_of (handle_at app a) = Indexing"
      using inv by (auto simp: decide_inv_def dest: spec [where x = a] split: if_splits)
    note new = act_undecided [OF act, of a]
    have dec: "t = Marking a \<or> (\<exists>out. t = Failing a out) \<Longrightarrow> undecided t = Some a" by auto
    have bound: "length (undecided_tasks a (xs @ ts' @ ys)) \<le> 1" using old(1) new by (auto split: if_splits)
    moreover have "a < length (ap_handles app') \<and> status_of (handle_at app' a) = Indexing"
      if some: "undecided_tasks a (xs @ ts' @ ys) \<noteq> []"
    proof -
      have live: "undecided_tasks a (xs @ t # ys) \<noteq> []" and nt: "t \<noteq> Marking a" "\<And>out. t \<noteq> Failing a out"
        using some new old(1) by (auto split: if_splits)
      show ?thesis using old(2) [OF live] act_status [OF act _ range, of a] nt by (auto simp: len)
    qed
    ultimately show ?thesis by blast
  qed
  then show ?thesis by (simp add: decide_inv_def)
qed

lemma decide_inv_step:
  assumes "step l send s who t" and "life_inv s" and "decide_inv s"
  shows "decide_inv t"
  using assms(1)
proof (cases rule: step.cases)
  case (register info keys media app app' out ts)
  have "registry_ok app" using assms(2) by (simp add: life_inv_def register(1))
  from decide_inv_register [OF _ this register(4)] assms(3) show ?thesis by (simp add: register)
next
  case (deregister wxid app app' a ts p)
  have "registry_ok app" using assms(2) by (simp add: life_inv_def deregister(1))
  from unbind_bound [OF this deregister(4)] assms(3) show ?thesis by (simp add: deregister decide_inv_def)
next
  case (poll a app ts)
  then show ?thesis using assms(3) by (simp add: decide_inv_def)
next
  case (move c t' app app' ts' xs ys)
  show ?thesis using assms(2,3) decide_inv_act [OF _ _ move(4)] by (simp add: move)
qed

lemma reachable_decide: "reachable l send app0 s \<Longrightarrow> life_inv (app0, []) \<Longrightarrow> decide_inv s"
proof (induction rule: reachable.induct)
  case boot
  show ?case by (simp add: decide_inv_def)
next
  case (onward s who t)
  from decide_inv_step [OF onward.hyps(2) reachable_inv [OF onward.hyps(1) onward.prems] onward.IH [OF onward.prems]]
  show ?case .
qed

section \<open>The refinement\<close>

text \<open>
  C2. The interleaved server implements the slot: whatever a thread does in a reachable state, the account table,
  read as one slot, stays as it is or makes one transition of the specification. A free slot is claimed by an account
  that starts indexing, indexing ends once as ready or as failed, only a failed account is registered again,
  and a held slot is released.
\<close>

theorem account_table_refines_slot:
  assumes "reachable l send (app_new new_channel host port url media_dir token) s" and "step l send s who t"
  shows "slot_of (fst t) = slot_of (fst s) \<or> slot_step (slot_of (fst s)) (slot_of (fst t))"
proof -
  have life: "life_inv s" and dec: "decide_inv s"
    using reachable_inv [OF assms(1) life_inv_boot] reachable_decide [OF assms(1) life_inv_boot] by simp_all
  show ?thesis
    using assms(2)
  proof (cases rule: step.cases)
    case (register info keys media app app' out ts)
    have ok: "registry_ok app" using life by (simp add: life_inv_def register(1))
    from ok register(4) show ?thesis
      by (cases rule: register_slot) (auto simp: register intro: slot_step.intros)
  next
    case (deregister wxid app app' a ts p)
    have "registry_ok app" using life by (simp add: life_inv_def deregister(1))
    from unbind_bound [OF this deregister(4)] show ?thesis
      by (simp add: deregister slot_of_def slot_step.release)
  next
    case (move c t' app app' ts' xs ys)
    have range: "owner t' = Some a \<or> torn_down t' = Some a \<Longrightarrow> a < length (ap_handles app)" for a
      using life_invD [OF life [unfolded move(1)], of t'] by auto
    have acc: "ap_accounts app' = ap_accounts app" using act_frame [OF move(4) range] by blast
    have "registry_ok app" using life by (simp add: life_inv_def move(1))
    then show ?thesis
    proof (cases rule: registry_cases)
      case (bound w a)
      have at: "a < length (ap_handles app)" using bound(3) by (simp add: handle_ok_def)
      have "undecided t' = Some a \<Longrightarrow> status_of (handle_at app a) = Indexing"
        using dec unfolding move(1) decide_inv_def by (auto dest: spec [where x = a])
      with act_status [OF move(4) at range] show ?thesis
        by (auto simp: move acc bound(1) slot_of_def intro: slot_step.intros split: if_splits)
    qed (simp add: move slot_of_def acc)
  qed simp
qed

text \<open>The step that marks an indexed account ready.\<close>

theorem account_table_refines_slot_witness:
  "let s = demo_run (Do_Register ''wxid_a'' # moves 3); t = exec demo_lib demo_send (Do_Move 0 demo_choice) s
   in slot_of (fst s) = Held ''wxid_a'' Indexing \<and> slot_of (fst t) = Held ''wxid_a'' Ready
     \<and> slot_step (slot_of (fst s)) (slot_of (fst t))"
proof -
  let ?s = "demo_run (Do_Register ''wxid_a'' # moves 3)"
  let ?t = "exec demo_lib demo_send (Do_Move 0 demo_choice) ?s"
  have r: "slot_of (fst ?s) = Held ''wxid_a'' Indexing" "slot_of (fst ?t) = Held ''wxid_a'' Ready" by code_simp+
  then have "?t \<noteq> ?s" by force
  then obtain who where st: "step demo_lib demo_send ?s who ?t" using exec_step [of demo_lib demo_send "Do_Move 0 demo_choice" ?s] by blast
  from account_table_refines_slot [OF demo_reachable [unfolded demo_app_def] st [unfolded demo_app_def]] r [unfolded demo_app_def]
  show ?thesis unfolding demo_app_def Let_def by simp
qed

end
