(* ===== verification/Chat_Export.thy ===== *)
theory Chat_Export
  imports Moments Chatlab
begin

text \<open>
  Writing a conversation to a file in the exchange format: the rows, the check that keeps the access token out of
  every line, the file names and the session writer of \<open>src/export.rs\<close>. The directory is a map from names to
  contents; printing JSON, the clock and what the file system answers (\<open>session_io\<close>) are arguments.
\<close>

section \<open>Rows\<close>

record session_target =
  tg_talker :: string
  tg_display_name :: string

record row =
  rw_platform_message_id :: string
  rw_sender :: string
  rw_account_name :: string
  rw_group_nickname :: string
  rw_timestamp :: int
  rw_msg_type :: int
  rw_content :: string
  rw_reply_to_message_id :: "string option"
  rw_media_file_name :: "string option"
  rw_media_type :: "string option"

datatype export_format = Jsonl | Json

record export_options =
  eo_format :: export_format
  eo_resume :: bool
  eo_secret :: string
  eo_with_media :: bool

record export_outcome =
  xo_written :: "string list"
  xo_reused :: "string list"
  xo_skipped :: "string list"
  xo_messages :: nat

datatype export_error = Secret_Leak | Export_Failure string

definition message_line :: "row \<Rightarrow> json" where
  "message_line r = Object (
     [(''_type'', String ''message''), (''platformMessageId'', String (rw_platform_message_id r)),
      (''sender'', String (rw_sender r)), (''accountName'', String (rw_account_name r)),
      (''timestamp'', int_json (rw_timestamp r)), (''type'', int_json (rw_msg_type r)), (''content'', String (rw_content r))]
     @ (if rw_group_nickname r \<noteq> [] then [(''groupNickname'', String (rw_group_nickname r))] else [])
     @ (case rw_reply_to_message_id r of Some rep \<Rightarrow> [(''replyToMessageId'', String rep)] | None \<Rightarrow> [])
     @ (case (rw_media_file_name r, rw_media_type r) of
          (Some f, Some t) \<Rightarrow> [(''media'', Object [(''type'', String t), (''fileName'', String f)])] | _ \<Rightarrow> []))"

definition member_line :: "row \<Rightarrow> json" where
  "member_line r = Object ([(''platformId'', String (rw_sender r)), (''accountName'', String (rw_account_name r))]
     @ (if rw_group_nickname r \<noteq> [] then [(''groupNickname'', String (rw_group_nickname r))] else []))"

definition retain_downloaded_media :: "(string, string) hashmap \<Rightarrow> row \<Rightarrow> row" where
  "retain_downloaded_media downloaded r = (if rw_media_file_name r \<noteq> None
     then r\<lparr>rw_media_file_name := hm_get downloaded (rw_platform_message_id r)\<rparr> else r)"

section \<open>The token check\<close>

definition percent_encode :: "string \<Rightarrow> string" where
  "percent_encode s = concat (map (\<lambda>b. if is_unreserved b then [b]
     else [CHR ''%'', hex_upper (of_char b div 16), hex_upper (of_char b mod 16)]) s)"

fun percent_bytes :: "string \<Rightarrow> string" where
  "percent_bytes [] = []"
| "percent_bytes (c # s) = (case s of
     a # b # t \<Rightarrow> if c = CHR ''%'' then (case (hex_value a, hex_value b) of
         (Some hi, Some lo) \<Rightarrow> char_of (16 * hi + lo) # percent_bytes t
       | _ \<Rightarrow> c # percent_bytes s) else c # percent_bytes s
   | _ \<Rightarrow> c # percent_bytes s)"

definition percent_decode :: "string \<Rightarrow> string" where
  "percent_decode s = from_utf8_lossy (percent_bytes s)"

definition trim_quotes :: "string \<Rightarrow> string" where
  "trim_quotes s = trim_end_matches (\<lambda>c. c = CHR 0x22) (dropWhile (\<lambda>c. c = CHR 0x22) s)"

definition assert_no_secret :: "(json \<Rightarrow> string) \<Rightarrow> string \<Rightarrow> string \<Rightarrow> export_error + unit" where
  "assert_no_secret show_json line secret = (if secret = [] then Inr () else
     (let json_escaped = trim_quotes (show_json (String secret));
          encoded_folded = to_ascii_lowercase (percent_encode secret);
          secret_folded = to_ascii_lowercase secret;
          encoded_is_secret = (encoded_folded = secret_folded);
          decoded = percent_decode line
      in if list_ex (\<lambda>hay. contains_sub secret hay \<or> json_escaped \<noteq> secret \<and> contains_sub json_escaped hay
            \<or> \<not> encoded_is_secret \<and> contains_sub encoded_folded (to_ascii_lowercase hay)) [line, decoded]
         then Inl Secret_Leak else Inr ()))"

section \<open>File names\<close>

text \<open>
  The stem is a slug and so ASCII, where \<open>to_lowercase\<close> is the ASCII one. The counter is a \<open>u32\<close> in the code, which
  more than four thousand million equal names would be needed to exhaust.
\<close>

definition numbered :: "string \<Rightarrow> nat \<Rightarrow> string" where
  "numbered stem n = stem @ ''-'' @ nat_to_dec n"

definition taken_from :: "string \<Rightarrow> string list \<Rightarrow> nat \<Rightarrow> nat set" where
  "taken_from stem taken n = {k. n \<le> k \<and> to_ascii_lowercase (numbered stem k) \<in> set taken}"

lemma numbered_inject: "to_ascii_lowercase (numbered stem j) = to_ascii_lowercase (numbered stem k) \<longleftrightarrow> j = k"
proof
  have digits: "map to_lower_char (nat_to_dec n) = nat_to_dec n" for n
    using nat_to_dec_digits [of n] by (intro map_idI) (auto simp: list_all_iff to_lower_char_def ascii_class_defs)
  assume "to_ascii_lowercase (numbered stem j) = to_ascii_lowercase (numbered stem k)"
  then have "nat_to_dec j = nat_to_dec k" by (simp add: to_ascii_lowercase_def numbered_def digits)
  then show "j = k" using parse_nat_to_dec by (metis option.inject)
qed simp

lemma finite_taken_from: "finite (taken_from stem taken n)"
proof (rule finite_imageD)
  show "finite ((to_ascii_lowercase \<circ> numbered stem) ` taken_from stem taken n)"
    by (rule finite_subset [of _ "set taken"]) (auto simp: taken_from_def)
  show "inj_on (to_ascii_lowercase \<circ> numbered stem) (taken_from stem taken n)"
    by (auto simp: inj_on_def numbered_inject)
qed

lemma taken_from_step:
  "taken_from stem taken n = (if to_ascii_lowercase (numbered stem n) \<in> set taken
     then insert n (taken_from stem taken (Suc n)) else taken_from stem taken (Suc n))"
  by (auto simp: taken_from_def Suc_le_eq nat_less_le)

function free_name :: "string \<Rightarrow> string list \<Rightarrow> nat \<Rightarrow> string \<Rightarrow> string" where
  "free_name stem taken n name = (if to_ascii_lowercase name \<in> set taken
     then free_name stem taken (Suc n) (numbered stem n) else name)"
  by pat_completeness auto
termination
proof (relation "measure (\<lambda>(stem, taken, n, name). card (taken_from stem taken n)
    + (if to_ascii_lowercase name \<in> set taken then 1 else 0))")
  fix stem taken n name
  assume t: "to_ascii_lowercase name \<in> set (taken :: string list)"
  have "n \<notin> taken_from stem taken (Suc n)" by (simp add: taken_from_def)
  then have "card (taken_from stem taken (Suc n)) + (if to_ascii_lowercase (numbered stem n) \<in> set taken then 1 else 0)
      = card (taken_from stem taken n)"
    using taken_from_step [of stem taken n] finite_taken_from [of stem taken "Suc n"] by (simp split: if_splits)
  with t show "((stem, taken, Suc n, numbered stem n), stem, taken, n, name) \<in> measure (\<lambda>(stem, taken, n, name).
      card (taken_from stem taken n) + (if to_ascii_lowercase name \<in> set taken then 1 else 0))"
    by simp
qed simp

declare free_name.simps [simp del]

definition stem_of :: "session_target \<Rightarrow> string" where
  "stem_of target = (let
       display = slugify (tg_display_name target) [];
       base = (if list_ex is_ascii_alnum display then display else slugify (tg_talker target) ''session'');
       stem = take 56 base
     in if stem = [] then ''session'' else stem)"

text \<open>The chosen name and the names taken afterwards.\<close>

definition file_name_for :: "session_target \<Rightarrow> string list \<Rightarrow> string \<times> string list" where
  "file_name_for target taken = (let
       stem = stem_of target;
       taken' = ''index'' # taken;
       name = free_name stem taken' 2 stem
     in (name, to_ascii_lowercase name # taken'))"

section \<open>The session writer\<close>

type_synonym dir = "string \<Rightarrow> string option"

record session_io =
  si_now :: int
  si_mkdir :: "string option"
  si_create :: "string option"
  si_write :: "string \<Rightarrow> string option"
  si_flush :: "string option"
  si_write_file :: "string option"
  si_rename :: "string option"
  si_remove :: bool
  si_left :: nat

datatype sink = Lines string | Buffer "json list"

record session_writer =
  sw_stem :: string
  sw_format :: export_format
  sw_secret :: string
  sw_sink :: sink
  sw_count :: nat
  sw_members :: "json list"
  sw_seen :: "string list"

definition ext_of :: "export_format \<Rightarrow> string" where
  "ext_of f = (case f of Jsonl \<Rightarrow> ''jsonl'' | Json \<Rightarrow> ''json'')"

definition path_of :: "string \<Rightarrow> export_format \<Rightarrow> string" where
  "path_of stem f = stem @ ''.'' @ ext_of f"

definition part_of :: "string \<Rightarrow> export_format \<Rightarrow> string" where
  "part_of stem f = path_of stem f @ ''.part''"

definition lf :: char where "lf = CHR 0x0A"

definition put_line :: "(json \<Rightarrow> string) \<Rightarrow> session_io \<Rightarrow> json \<Rightarrow> session_writer \<Rightarrow> session_writer \<times> (export_error + unit)" where
  "put_line show_json io v w = (case sw_sink w of
       Lines text \<Rightarrow> (let line = show_json v in
         case assert_no_secret show_json line (sw_secret w) of
           Inl e \<Rightarrow> (w, Inl e)
         | Inr _ \<Rightarrow> (case si_write io text of
             Some e \<Rightarrow> (w, Inl (Export_Failure e))
           | None \<Rightarrow> (w\<lparr>sw_sink := Lines (text @ line @ [lf])\<rparr>, Inr ())))
     | Buffer b \<Rightarrow> (w\<lparr>sw_sink := Buffer (b @ [v])\<rparr>, Inr ()))"

definition note_member :: "row \<Rightarrow> session_writer \<Rightarrow> session_writer" where
  "note_member r w = (if sw_format w = Json \<and> rw_sender r \<notin> set (sw_seen w)
     then w\<lparr>sw_seen := rw_sender r # sw_seen w, sw_members := sw_members w @ [member_line r]\<rparr> else w)"

fun put_rows :: "(json \<Rightarrow> string) \<Rightarrow> session_io \<Rightarrow> row list \<Rightarrow> session_writer \<Rightarrow> session_writer \<times> (export_error + unit)" where
  "put_rows show_json io [] w = (w, Inr ())"
| "put_rows show_json io (r # rs) w = (case put_line show_json io (message_line r) (note_member r w) of
     (w', Inl e) \<Rightarrow> (w', Inl e)
   | (w', Inr _) \<Rightarrow> put_rows show_json io rs (w'\<lparr>sw_count := Suc (sw_count w')\<rparr>))"

definition put_page :: "(json \<Rightarrow> string) \<Rightarrow> session_io \<Rightarrow> row list \<Rightarrow> session_writer \<Rightarrow> session_writer \<times> (export_error + unit)" where
  "put_page show_json io rows w = put_rows show_json io (sort_key (\<lambda>r. (rw_timestamp r, rw_platform_message_id r)) rows) w"

definition header_line :: "int \<Rightarrow> session_target \<Rightarrow> json" where
  "header_line now target = Object [(''_type'', String ''header''),
     (''chatlab'', Object [(''version'', String format_version), (''generator'', String generator), (''exportedAt'', int_json now)]),
     (''meta'', Object [(''name'', String (tg_display_name target)), (''platform'', String platform),
       (''type'', String (session_type (tg_talker target))), (''groupId'', String (tg_talker target))])]"

text \<open>
  \<open>remove_part\<close>: the error of \<open>remove_file\<close> is dropped, so what an unfinished file held (\<open>left\<close>, \<open>None\<close> when it was
  not touched) can stay. After a failed write it is some beginning of the text.
\<close>

definition remove_part :: "session_io \<Rightarrow> string \<Rightarrow> string option \<Rightarrow> dir \<Rightarrow> dir" where
  "remove_part io part left d = (if si_remove io then d(part := None)
     else (case left of Some text \<Rightarrow> d(part := Some text) | None \<Rightarrow> d))"

definition part_left :: "session_io \<Rightarrow> session_writer \<Rightarrow> string option" where
  "part_left io w = (case sw_sink w of Lines text \<Rightarrow> Some (take (si_left io) text) | Buffer _ \<Rightarrow> None)"

definition drop_session :: "session_io \<Rightarrow> session_writer \<Rightarrow> dir \<Rightarrow> dir" where
  "drop_session io w d = remove_part io (part_of (sw_stem w) (sw_format w)) (part_left io w) d"

definition begin_session :: "(json \<Rightarrow> string) \<Rightarrow> session_io \<Rightarrow> session_target \<Rightarrow> export_options \<Rightarrow> string \<Rightarrow> dir
    \<Rightarrow> dir \<times> (export_error + session_writer)" where
  "begin_session show_json io target opts stem d = (case si_mkdir io of Some e \<Rightarrow> (d, Inl (Export_Failure e)) | None \<Rightarrow>
     (case (if eo_format opts = Jsonl then si_create io else None) of Some e \<Rightarrow> (d, Inl (Export_Failure e)) | None \<Rightarrow>
       (let w = \<lparr>sw_stem = stem, sw_format = eo_format opts, sw_secret = eo_secret opts,
            sw_sink = (if eo_format opts = Jsonl then Lines [] else Buffer []), sw_count = 0, sw_members = [], sw_seen = []\<rparr>
        in case put_line show_json io (header_line (si_now io) target) w of
             (w', Inl e) \<Rightarrow> (drop_session io w' d, Inl e)
           | (w', Inr _) \<Rightarrow> (d, Inr w'))))"

definition strip_type :: "json \<Rightarrow> json" where
  "strip_type v = (case v of Object m \<Rightarrow> Object (filter (\<lambda>(k, _). k \<noteq> ''_type'') m) | _ \<Rightarrow> v)"

definition get_or_empty :: "json \<Rightarrow> string \<Rightarrow> json" where
  "get_or_empty v k = (case v of Object m \<Rightarrow> opt_or (map_of m k) (Object []) | _ \<Rightarrow> Object [])"

definition envelope :: "json list \<Rightarrow> json list \<Rightarrow> json" where
  "envelope b members = (let header = (case b of h # _ \<Rightarrow> h | [] \<Rightarrow> Object []) in
     Object [(''chatlab'', get_or_empty header ''chatlab''), (''meta'', get_or_empty header ''meta''),
       (''members'', Array members), (''messages'', Array (map strip_type (drop 1 b)))])"

text \<open>What the finished file holds, or why it is given up and what has been written of it.\<close>

definition finish_inner :: "(json \<Rightarrow> string) \<Rightarrow> session_io \<Rightarrow> session_writer \<Rightarrow> export_error \<times> string option + string" where
  "finish_inner show_json io w = (case sw_sink w of
       Lines text \<Rightarrow> (case si_flush io of Some e \<Rightarrow> Inl (Export_Failure e, part_left io w) | None \<Rightarrow> Inr text)
     | Buffer b \<Rightarrow> (let body = show_json (envelope b (sw_members w)) in
         case assert_no_secret show_json body (sw_secret w) of
           Inl e \<Rightarrow> Inl (e, None)
         | Inr _ \<Rightarrow> (case si_write_file io of
             Some e \<Rightarrow> Inl (Export_Failure e, Some (take (si_left io) body))
           | None \<Rightarrow> Inr body)))"

definition finish_session :: "(json \<Rightarrow> string) \<Rightarrow> session_io \<Rightarrow> session_writer \<Rightarrow> dir \<Rightarrow> dir \<times> (export_error + nat \<times> string)" where
  "finish_session show_json io w d = (let path = path_of (sw_stem w) (sw_format w); part = part_of (sw_stem w) (sw_format w) in
     case finish_inner show_json io w of
       Inl (e, left) \<Rightarrow> (remove_part io part left d, Inl e)
     | Inr text \<Rightarrow> (case si_rename io of
         Some e \<Rightarrow> (remove_part io part (Some text) d, Inl (Export_Failure e))
       | None \<Rightarrow> (d(part := None, path := Some text), Inr (sw_count w, path))))"

section \<open>What the check guarantees\<close>

definition clean :: "string \<Rightarrow> string \<Rightarrow> bool" where
  "clean secret s \<longleftrightarrow> \<not> contains_sub secret s \<and> \<not> contains_sub secret (percent_decode s)"

definition unlines :: "string list \<Rightarrow> string" where
  "unlines ls = concat (map (\<lambda>l. l @ [lf]) ls)"

lemma unlines_simps [simp]: "unlines [] = []" "unlines (l # ls) = l @ lf # unlines ls"
  "unlines (ls @ [l]) = unlines ls @ l @ [lf]"
  by (simp_all add: unlines_def)

lemma last_unlines: "ls \<noteq> [] \<Longrightarrow> unlines ls \<noteq> [] \<and> last (unlines ls) = lf"
  by (cases ls rule: rev_cases) simp_all

lemma assert_clean: "assert_no_secret show_json line secret = Inr () \<Longrightarrow> secret \<noteq> [] \<Longrightarrow> clean secret line"
  by (simp add: assert_no_secret_def clean_def Let_def split: if_splits)

lemma contains_in_line:
  assumes "contains_sub s (l @ c # r)" and "c \<notin> set s"
  shows "contains_sub s l \<or> contains_sub s r"
proof -
  obtain a b where e: "l @ c # r = a @ s @ b" using assms(1) by (auto simp: contains_sub_iff)
  consider u where "a = l @ u" "c # r = u @ s @ b" | u where "l = a @ u" "u @ c # r = s @ b"
    using e by (auto simp: append_eq_append_conv2)
  then show ?thesis
  proof cases
    case 1
    then show ?thesis
    proof (cases u)
      case Nil
      with 1(2) assms(2) have "s = []" by (cases s) auto
      then show ?thesis using contains_sub_iff [of "[]"] by blast
    next
      case (Cons x v)
      with 1(2) show ?thesis by (auto simp: contains_sub_iff)
    qed
  next
    case 2
    from 2(2) consider v where "u = s @ v" | v where "s = u @ v" "c # r = v @ b"
      by (auto simp: append_eq_append_conv2)
    then show ?thesis
    proof cases
      case 1
      with 2(1) show ?thesis by (auto simp: contains_sub_iff)
    next
      case (2 v)
      with assms(2) have "v = []" by (cases v) auto
      with 2 \<open>l = a @ u\<close> have "l = a @ s @ []" by simp
      then show ?thesis unfolding contains_sub_iff by blast
    qed
  qed
qed

lemma clean_unlines:
  assumes "list_all (clean secret) ls" and "lf \<notin> set secret" and "secret \<noteq> []"
  shows "\<not> contains_sub secret (unlines ls)"
  using assms(1)
proof (induction ls)
  case Nil
  then show ?case using assms(3) by (simp add: contains_sub_iff)
next
  case (Cons l ls)
  then show ?case using contains_in_line [OF _ assms(2), of l "unlines ls"] by (auto simp: clean_def)
qed

lemma contains_take: "contains_sub s (take n t) \<Longrightarrow> contains_sub s t"
proof -
  assume "contains_sub s (take n t)"
  then obtain a b where "take n t = a @ s @ b" by (auto simp: contains_sub_iff)
  then have "t = a @ s @ (b @ drop n t)" by (metis append.assoc append_take_drop_id)
  then show ?thesis unfolding contains_sub_iff by blast
qed

section \<open>What the writer holds\<close>

definition checked :: "(json \<Rightarrow> string) \<Rightarrow> string \<Rightarrow> string \<Rightarrow> bool" where
  "checked show_json secret l \<longleftrightarrow> assert_no_secret show_json l secret = Inr ()"

definition writer_ok :: "(json \<Rightarrow> string) \<Rightarrow> string \<Rightarrow> export_format \<Rightarrow> string \<Rightarrow> session_writer \<Rightarrow> bool" where
  "writer_ok show_json stem format secret w \<longleftrightarrow> sw_stem w = stem \<and> sw_format w = format \<and> sw_secret w = secret
     \<and> (case sw_sink w of
          Lines text \<Rightarrow> format = Jsonl \<and> (\<exists>ls. text = unlines ls \<and> length ls = Suc (sw_count w) \<and> list_all (checked show_json secret) ls)
        | Buffer b \<Rightarrow> format = Json \<and> length b = Suc (sw_count w))"

text \<open>A file as \<open>finish_session\<close> leaves it: the header and \<open>n\<close> messages, every line checked.\<close>

definition finished :: "(json \<Rightarrow> string) \<Rightarrow> export_format \<Rightarrow> string \<Rightarrow> nat \<Rightarrow> string \<Rightarrow> bool" where
  "finished show_json format secret n text \<longleftrightarrow> (case format of
       Jsonl \<Rightarrow> (\<exists>ls. text = unlines ls \<and> length ls = Suc n \<and> list_all (checked show_json secret) ls)
     | Json \<Rightarrow> (\<exists>b ms. text = show_json (envelope b ms) \<and> length b = Suc n \<and> checked show_json secret text))"

lemma put_line_cases:
  obtains (err) e where "put_line show_json io v w = (w, Inl e)"
  | (line) t where "sw_sink w = Lines t" "checked show_json (sw_secret w) (show_json v)"
      "put_line show_json io v w = (w\<lparr>sw_sink := Lines (t @ show_json v @ [lf])\<rparr>, Inr ())"
  | (buffered) b where "sw_sink w = Buffer b" "put_line show_json io v w = (w\<lparr>sw_sink := Buffer (b @ [v])\<rparr>, Inr ())"
proof (cases "sw_sink w")
  case (Lines t)
  show thesis
  proof (cases "assert_no_secret show_json (show_json v) (sw_secret w)")
    case (Inl e)
    with Lines err show thesis by (simp add: put_line_def)
  next
    case (Inr u)
    show thesis
    proof (cases "si_write io t")
      case None
      with Lines Inr show thesis by (intro line [of t]) (simp_all add: put_line_def checked_def)
    next
      case (Some e)
      with Lines Inr err show thesis by (simp add: put_line_def)
    qed
  qed
next
  case (Buffer b)
  then show thesis by (intro buffered) (simp_all add: put_line_def)
qed

lemma put_line_ok:
  assumes "writer_ok show_json stem format secret w" and "put_line show_json io v w = (w', res)"
  shows "writer_ok show_json stem format secret (if isl res then w' else w'\<lparr>sw_count := Suc (sw_count w')\<rparr>)"
proof (cases show_json io v w rule: put_line_cases)
  case (line t)
  then obtain ls where "t = unlines ls" "length ls = Suc (sw_count w)" "list_all (checked show_json secret) ls"
    using assms(1) by (auto simp: writer_ok_def)
  then have new: "t @ show_json v @ [lf] = unlines (ls @ [show_json v])" "length (ls @ [show_json v]) = Suc (Suc (sw_count w))"
    "list_all (checked show_json secret) (ls @ [show_json v])"
    using line(2) assms(1) by (simp_all add: writer_ok_def)
  have "w' = w\<lparr>sw_sink := Lines (unlines (ls @ [show_json v]))\<rparr>" "res = Inr ()"
    using assms(2) line(3) new(1) by simp_all
  moreover have "sw_stem w = stem" "sw_format w = format" "sw_secret w = secret" "format = Jsonl"
    using assms(1) line(1) by (simp_all add: writer_ok_def)
  moreover have "\<exists>ls'. unlines (ls @ [show_json v]) = unlines ls' \<and> length ls' = Suc (Suc (sw_count w)) \<and> list_all (checked show_json secret) ls'"
    using new(2,3) by blast
  ultimately show ?thesis unfolding writer_ok_def by simp
qed (use assms in \<open>auto simp: writer_ok_def\<close>)

lemma note_member_ok: "writer_ok show_json stem format secret w \<Longrightarrow> writer_ok show_json stem format secret (note_member r w)"
  by (simp add: note_member_def writer_ok_def split: sink.splits)

lemma put_rows_ok:
  "writer_ok show_json stem format secret w \<Longrightarrow> writer_ok show_json stem format secret (fst (put_rows show_json io rows w))"
proof (induction rows arbitrary: w)
  case (Cons r rs)
  obtain w' res where p: "put_line show_json io (message_line r) (note_member r w) = (w', res)" by fastforce
  from put_line_ok [OF note_member_ok [OF Cons.prems] p] show ?case
    by (cases res) (simp_all add: p Cons.IH)
qed simp

lemma put_page_ok:
  "writer_ok show_json stem format secret w \<Longrightarrow> writer_ok show_json stem format secret (fst (put_page show_json io rows w))"
  by (simp add: put_page_def put_rows_ok)

lemma finished_clean:
  assumes "finished show_json format secret n text" and "secret \<noteq> []" and "lf \<notin> set secret"
  shows "\<not> contains_sub secret text \<and> (case format of Json \<Rightarrow> clean secret text | Jsonl \<Rightarrow> (\<exists>ls. text = unlines ls \<and> list_all (clean secret) ls))"
proof (cases format)
  case Jsonl
  then obtain ls where ls: "text = unlines ls" "list_all (checked show_json secret) ls"
    using assms(1) by (auto simp: finished_def)
  then have "list_all (clean secret) ls" using assert_clean assms(2) by (auto simp: list_all_iff checked_def)
  with ls Jsonl clean_unlines assms(2,3) show ?thesis by auto
next
  case Json
  then have "checked show_json secret text" using assms(1) by (auto simp: finished_def)
  then have "clean secret text" using assert_clean assms(2) by (simp add: checked_def)
  with Json show ?thesis by (simp add: clean_def)
qed

text \<open>What an unfinished file can hold: some beginning of a finished one.\<close>

definition partial :: "(json \<Rightarrow> string) \<Rightarrow> export_format \<Rightarrow> string \<Rightarrow> string \<Rightarrow> bool" where
  "partial show_json format secret t \<longleftrightarrow> t = [] \<or> (\<exists>n full k. finished show_json format secret n full \<and> t = take k full)"

lemma finished_partial: "finished show_json format secret n full \<Longrightarrow> partial show_json format secret (take k full)"
  unfolding partial_def by blast

lemma partial_clean:
  assumes "partial show_json format secret t" and "secret \<noteq> []" and "lf \<notin> set secret"
  shows "\<not> contains_sub secret t"
  using assms(1) unfolding partial_def
proof
  assume "t = []"
  then show ?thesis using assms(2) by (simp add: contains_sub_iff)
next
  assume "\<exists>n full k. finished show_json format secret n full \<and> t = take k full"
  then show ?thesis using finished_clean assms(2,3) contains_take by blast
qed

lemma part_left_partial:
  assumes "writer_ok show_json stem format secret w" and "part_left io w = Some t"
  shows "partial show_json format secret t"
proof -
  obtain full where full: "sw_sink w = Lines full" "t = take (si_left io) full"
    using assms(2) by (auto simp: part_left_def split: sink.splits)
  then have "finished show_json format secret (sw_count w) full" using assms(1) by (auto simp: writer_ok_def finished_def)
  with full(2) show ?thesis unfolding partial_def by blast
qed

lemma begin_session_ok:
  assumes "begin_session show_json io target opts stem d = (d', Inr w)"
  shows "d' = d" "writer_ok show_json stem (eo_format opts) (eo_secret opts) w"
proof -
  let ?w = "\<lparr>sw_stem = stem, sw_format = eo_format opts, sw_secret = eo_secret opts,
      sw_sink = (if eo_format opts = Jsonl then Lines [] else Buffer []), sw_count = 0, sw_members = [], sw_seen = []\<rparr>"
  let ?v = "header_line (si_now io) target"
  from assms have d: "d' = d" and p: "put_line show_json io ?v ?w = (w, Inr ())"
    by (auto simp: begin_session_def Let_def split: option.splits prod.splits sum.splits if_splits)
  show "d' = d" by (rule d)
  show "writer_ok show_json stem (eo_format opts) (eo_secret opts) w"
  proof (cases show_json io ?v ?w rule: put_line_cases)
    case (line t)
    then have "t = []" "eo_format opts = Jsonl" by (auto split: if_splits)
    moreover have "w = ?w\<lparr>sw_sink := Lines (t @ show_json ?v @ [lf])\<rparr>" using line(3) p by simp
    moreover have "\<exists>ls. show_json ?v @ [lf] = unlines ls \<and> length ls = Suc 0 \<and> list_all (checked show_json (eo_secret opts)) ls"
      by (rule exI [of _ "[show_json ?v]"]) (use line(2) in simp)
    ultimately show ?thesis by (simp add: writer_ok_def)
  next
    case (buffered b)
    then have "b = []" "eo_format opts = Json" by (auto split: if_splits export_format.splits intro: export_format.exhaust)
    moreover have "w = ?w\<lparr>sw_sink := Buffer (b @ [?v])\<rparr>" using buffered(2) p by simp
    ultimately show ?thesis by (simp add: writer_ok_def)
  qed (use p in simp)
qed

text \<open>A session that does not get past its header leaves no text.\<close>

lemma begin_session_failed:
  assumes "begin_session show_json io target opts stem d = (d', Inl e)"
  shows "d' f = d f \<or> f = part_of stem (eo_format opts) \<and> (d' f = None \<or> d' f = Some [])"
  using assms
  by (auto simp: begin_session_def Let_def put_line_def drop_session_def remove_part_def part_left_def
      split: option.splits prod.splits sum.splits if_splits)

lemma drop_session_changes:
  assumes "writer_ok show_json stem format secret w"
  shows "drop_session io w d f = d f \<or> f = part_of stem format \<and> (drop_session io w d f = None
    \<or> (\<exists>t. drop_session io w d f = Some t \<and> partial show_json format secret t))"
proof (cases "f = part_of stem format")
  case True
  have names: "sw_stem w = stem" "sw_format w = format" using assms by (simp_all add: writer_ok_def)
  show ?thesis
  proof (cases "part_left io w")
    case (Some t)
    from part_left_partial [OF assms Some] show ?thesis using Some True names by (simp add: drop_session_def remove_part_def)
  qed (use True names in \<open>simp add: drop_session_def remove_part_def\<close>)
qed (use assms in \<open>auto simp: drop_session_def remove_part_def writer_ok_def split: option.splits\<close>)

lemma finish_inner_finished:
  assumes w: "writer_ok show_json stem format secret w" and t: "finish_inner show_json io w = Inr t"
  shows "finished show_json format secret (sw_count w) t"
proof (cases "sw_sink w")
  case (Lines u)
  with t have "t = u" by (auto simp: finish_inner_def split: option.splits)
  with Lines w show ?thesis by (auto simp: writer_ok_def finished_def)
next
  case (Buffer b)
  then have "t = show_json (envelope b (sw_members w))" "checked show_json secret t"
    using t w by (auto simp: finish_inner_def Let_def checked_def writer_ok_def split: option.splits sum.splits)
  with Buffer w show ?thesis by (auto simp: writer_ok_def finished_def)
qed

lemma finish_session_done:
  assumes "finish_session show_json io w d = (d', Inr (n, p))"
  shows "\<exists>t. finish_inner show_json io w = Inr t \<and> n = sw_count w \<and> p = path_of (sw_stem w) (sw_format w)
    \<and> d' = d(part_of (sw_stem w) (sw_format w) := None, p := Some t)"
  using assms by (cases "finish_inner show_json io w"; cases "si_rename io") (auto simp: finish_session_def Let_def)

lemma finish_session_changes:
  assumes w: "writer_ok show_json stem format secret w" and f: "finish_session show_json io w d = (d', res)"
  shows "d' f = d f
    \<or> f = part_of stem format \<and> (d' f = None \<or> (\<exists>t. d' f = Some t \<and> partial show_json format secret t))
    \<or> f = path_of stem format \<and> (\<exists>n t. d' f = Some t \<and> finished show_json format secret n t \<and> res = Inr (n, path_of stem format))"
proof -
  have names: "sw_stem w = stem" "sw_format w = format" "sw_secret w = secret" using w by (simp_all add: writer_ok_def)
  show ?thesis
  proof (cases "finish_inner show_json io w")
    case (Inl x)
    obtain e left where x: "x = (e, left)" by (cases x)
    have "is_none_or (partial show_json format secret) left"
    proof (cases "sw_sink w")
      case (Lines t)
      with Inl x have "left = part_left io w" by (auto simp: finish_inner_def split: option.splits)
      then show ?thesis using part_left_partial [OF w] by (auto simp: is_none_or_def split: option.split)
    next
      case (Buffer b)
      let ?body = "show_json (envelope b (sw_members w))"
      have body: "partial show_json format secret (take (si_left io) ?body)" if "checked show_json secret ?body"
        by (rule finished_partial [of _ _ _ "sw_count w"]) (use w Buffer that in \<open>auto simp: writer_ok_def finished_def\<close>)
      from Inl x Buffer names(3) consider "left = None"
        | "checked show_json secret ?body" "left = Some (take (si_left io) ?body)"
        by (auto simp: finish_inner_def Let_def checked_def split: sum.splits option.splits)
      then show ?thesis by cases (simp_all add: is_none_or_def body)
    qed
    then show ?thesis
      using f Inl x names by (auto simp: finish_session_def Let_def remove_part_def is_none_or_def split: option.splits if_splits)
  next
    case (Inr t)
    note fin = finish_inner_finished [OF w Inr]
    have part: "partial show_json format secret t" using finished_partial [OF fin, of "length t"] by simp
    show ?thesis
    proof (cases "si_rename io")
      case None
      with Inr f names fin show ?thesis by (auto simp: finish_session_def Let_def split: if_splits)
    next
      case (Some e)
      with Inr f names part show ?thesis by (auto simp: finish_session_def Let_def remove_part_def split: if_splits)
    qed
  qed
qed

section \<open>Names\<close>

lemma free_name_fresh: "to_ascii_lowercase (free_name stem taken n name) \<notin> set taken"
  by (induction stem taken n name rule: free_name.induct) (subst free_name.simps, simp)

text \<open>The numbers tried are those taken: one more name than taken names is enough.\<close>

lemma free_name_cases:
  "free_name stem taken n name = name
   \<or> (\<exists>k. n \<le> k \<and> k < n + Suc (card (taken_from stem taken n)) \<and> free_name stem taken n name = numbered stem k)"
proof (induction stem taken n name rule: free_name.induct)
  case (1 stem taken n name)
  show ?case
  proof (cases "to_ascii_lowercase name \<in> set taken")
    case False
    then show ?thesis by (subst free_name.simps) simp
  next
    case taken: True
    then have eq: "free_name stem taken n name = free_name stem taken (Suc n) (numbered stem n)" by (subst free_name.simps) simp
    show ?thesis
    proof (cases "to_ascii_lowercase (numbered stem n) \<in> set taken")
      case False
      then have "free_name stem taken (Suc n) (numbered stem n) = numbered stem n" by (subst free_name.simps) simp
      with eq have "free_name stem taken n name = numbered stem n" by simp
      then show ?thesis by (intro disjI2 exI [of _ n]) simp
    next
      case True
      have "n \<notin> taken_from stem taken (Suc n)" by (simp add: taken_from_def)
      with True have "card (taken_from stem taken n) = Suc (card (taken_from stem taken (Suc n)))"
        using taken_from_step [of stem taken n] finite_taken_from [of stem taken "Suc n"] by simp
      with 1 taken eq show ?thesis by fastforce
    qed
  qed
qed

lemma card_taken_from: "card (taken_from stem taken n) \<le> length taken"
proof -
  have "card (taken_from stem taken n) = card ((to_ascii_lowercase \<circ> numbered stem) ` taken_from stem taken n)"
    by (rule card_image [symmetric]) (auto simp: inj_on_def numbered_inject)
  also have "\<dots> \<le> card (set taken)" by (rule card_mono) (auto simp: taken_from_def)
  also have "\<dots> \<le> length taken" by (rule card_length)
  finally show ?thesis .
qed


lemma stem_of_ok:
  "list_all slug_ok (stem_of target)" "stem_of target \<noteq> []" "length (stem_of target) \<le> 56" "\<not> is_reserved_device (stem_of target)"
proof -
  have session: "list_all slug_ok ''session''" "\<not> is_reserved_device ''session''" by code_simp+
  obtain base where base: "list_all slug_ok base" "length base \<le> 64" "base \<noteq> []" "\<not> is_reserved_device base"
    and eq: "stem_of target = take 56 base"
  proof -
    let ?display = "slugify (tg_display_name target) []"
    show thesis
    proof (cases "list_ex is_ascii_alnum ?display")
      case True
      then have "?display \<noteq> []" by auto
      moreover from this have "list_all slug_ok ?display" "length ?display \<le> 64" "\<not> is_reserved_device ?display"
        by (cases rule: slugify_cases [of "tg_display_name target" "[]"]; simp)+
      ultimately show thesis using True by (intro that [of ?display]) (simp_all add: stem_of_def Let_def)
    next
      case False
      let ?talker = "slugify (tg_talker target) ''session''"
      have "list_all slug_ok ?talker \<and> length ?talker \<le> 64 \<and> ?talker \<noteq> [] \<and> \<not> is_reserved_device ?talker"
      proof (cases rule: slugify_cases [of "tg_talker target" "''session''"])
        case fallback
        then show ?thesis unfolding fallback(1) using session by simp
      qed simp
      with False show thesis by (intro that [of ?talker]) (simp_all add: stem_of_def Let_def)
    qed
  qed
  show "list_all slug_ok (stem_of target)" "stem_of target \<noteq> []" "length (stem_of target) \<le> 56"
    using base set_take_subset [of 56 base] unfolding eq by (auto simp: list_all_iff)
  show "\<not> is_reserved_device (stem_of target)"
  proof (cases "length base \<le> 56")
    case True
    with base(4) show ?thesis by (simp add: eq)
  next
    case False
    have ok: "list_all slug_ok (stem_of target)" using base(1) set_take_subset [of 56 base] unfolding eq by (auto simp: list_all_iff)
    from False have "length (to_ascii_uppercase (stem_of target)) = 56" by (simp add: eq to_ascii_uppercase_def)
    then show ?thesis unfolding is_reserved_device_def Let_def slug_takeWhile [OF ok] slug_trim_end [OF ok] by auto
  qed
qed

lemma numbered_not_reserved:
  assumes "list_all slug_ok (numbered stem k)"
  shows "\<not> is_reserved_device (numbered stem k)"
proof -
  let ?u = "to_ascii_uppercase (numbered stem k)"
  have "to_upper_char (CHR ''-'') = CHR ''-''" by (simp add: to_upper_char_def is_ascii_lower_def in_range_def)
  then have split: "?u = to_ascii_uppercase stem @ CHR ''-'' # to_ascii_uppercase (nat_to_dec k)"
    by (simp add: to_ascii_uppercase_def numbered_def)
  have "CHR ''-'' \<in> set ?u" unfolding split by simp
  then have "?u \<notin> {''CON'', ''PRN'', ''AUX'', ''NUL'', ''CONIN$'', ''CONOUT$''}" by auto
  moreover have "\<not> (length ?u = 4 \<and> (starts_with ''COM'' ?u \<or> starts_with ''LPT'' ?u) \<and> in_range (CHR ''1'') (CHR ''9'') (?u ! 3))"
  proof
    assume a: "length ?u = 4 \<and> (starts_with ''COM'' ?u \<or> starts_with ''LPT'' ?u) \<and> in_range (CHR ''1'') (CHR ''9'') (?u ! 3)"
    then obtain x where "?u = ''COM'' @ [x] \<or> ?u = ''LPT'' @ [x]" "in_range (CHR ''1'') (CHR ''9'') x"
      by (auto simp: str_simps nth_append length_Suc_conv)
    with \<open>CHR ''-'' \<in> set ?u\<close> show False by (auto simp: in_range_def)
  qed
  ultimately show ?thesis unfolding is_reserved_device_def Let_def slug_takeWhile [OF assms] slug_trim_end [OF assms] by blast
qed

lemma digits_bound: "k < 10 ^ n \<Longrightarrow> 0 < n \<Longrightarrow> length (nat_to_dec k) \<le> n"
proof (induction n arbitrary: k)
  case (Suc n)
  show ?case
  proof (cases "k < 10")
    case False
    then have "k div 10 < 10 ^ n" "0 < n" using Suc.prems by (auto simp: less_mult_imp_div_less mult.commute intro!: gr0I)
    with Suc.IH [of "k div 10"] False show ?thesis by (subst nat_to_dec.simps) simp
  qed (subst nat_to_dec.simps, simp)
qed simp

text \<open>
  C30. Every conversation gets its own file whatever it is called: the search for a free name ends, and the name differs
  from every name taken before and from that of the index even where letter case is ignored; it is noted as taken;
  and with fewer than 999997 names taken it has at most 64 bytes and passes the path gate.
\<close>

theorem export_names_apart:
  assumes "file_name_for target taken = (name, taken')"
  shows "to_ascii_lowercase name \<notin> set taken \<and> to_ascii_lowercase name \<noteq> ''index''
    \<and> set taken' = set taken \<union> {''index'', to_ascii_lowercase name}
    \<and> (length taken < 999997 \<longrightarrow> length name \<le> 64 \<and> safe_segment name)"
proof -
  let ?t = "''index'' # taken" and ?s = "stem_of target"
  have name: "name = free_name ?s ?t 2 ?s" and t': "taken' = to_ascii_lowercase name # ?t"
    using assms by (auto simp: file_name_for_def Let_def)
  have "to_ascii_lowercase name \<notin> set ?t" unfolding name by (rule free_name_fresh)
  moreover have "length name \<le> 64 \<and> safe_segment name" if few: "length taken < 999997"
  proof -
    have "list_all slug_ok name \<and> name \<noteq> [] \<and> length name \<le> 64 \<and> \<not> is_reserved_device name"
      using free_name_cases [of ?s ?t 2 ?s] unfolding name [symmetric]
    proof
      assume "name = ?s"
      then show ?thesis using stem_of_ok [of target] by simp
    next
      assume "\<exists>k. 2 \<le> k \<and> k < 2 + Suc (card (taken_from ?s ?t 2)) \<and> name = numbered ?s k"
      then obtain k where k: "k < 2 + Suc (card (taken_from ?s ?t 2))" "name = numbered ?s k" by blast
      have "k < 10 ^ 6" using k(1) card_taken_from [of ?s ?t 2] few by simp
      then have "length (nat_to_dec k) \<le> 6" by (rule digits_bound) simp
      moreover have "list_all slug_ok name"
        using stem_of_ok(1) [of target] nat_to_dec_digits [of k]
        by (auto simp: k(2) numbered_def slug_ok_def is_ascii_alnum_def list_all_iff)
      ultimately show ?thesis
        using stem_of_ok(3) [of target] numbered_not_reserved [of ?s k] by (simp add: k(2)) (simp add: numbered_def)
    qed
    then show ?thesis using slug_safe [of name] by (simp add: max_segment_def)
  qed
  ultimately show ?thesis by (auto simp: t')
qed

theorem export_names_apart_witness:
  "let a = \<lparr>tg_talker = ''wxid_a'', tg_display_name = ''Team''\<rparr>; b = \<lparr>tg_talker = ''wxid_b'', tg_display_name = ''team''\<rparr>;
       c = \<lparr>tg_talker = ''wxid_c'', tg_display_name = ''INDEX''\<rparr>; (x, t1) = file_name_for a []; (y, t2) = file_name_for b t1;
       (z, t3) = file_name_for c t2
   in x = ''Team'' \<and> y = ''team-2'' \<and> z = ''INDEX-2'' \<and> safe_segment y \<and> to_ascii_lowercase y \<notin> set t1"
proof -
  let ?a = "\<lparr>tg_talker = ''wxid_a'', tg_display_name = ''Team''\<rparr>" and ?b = "\<lparr>tg_talker = ''wxid_b'', tg_display_name = ''team''\<rparr>"
  let ?c = "\<lparr>tg_talker = ''wxid_c'', tg_display_name = ''INDEX''\<rparr>"
  have r: "file_name_for ?a [] = (''Team'', [''team'', ''index''])"
    "file_name_for ?b [''team'', ''index''] = (''team-2'', [''team-2'', ''index'', ''team'', ''index''])"
    "fst (file_name_for ?c [''team-2'', ''index'', ''team'', ''index'']) = ''INDEX-2''" by code_simp+
  have "safe_segment ''team-2'' \<and> to_ascii_lowercase ''team-2'' \<notin> set [''team'', ''index'']"
    using export_names_apart [OF r(2)] by simp
  then show ?thesis using r by (simp add: Let_def split_beta)
qed

end
