(* ===== verification/Export_Run.thy ===== *)
theory Export_Run
  imports Chat_Export
begin

text \<open>
  One export of many conversations (\<open>run\<close>, \<open>write_index\<close> and what they call in \<open>src/export.rs\<close>): names kept from the
  previous index, the refusal to overwrite another conversation's file, the reuse of finished files, and the new index.
  Where the rows come from is the argument \<open>fetch\<close>, a function that hands pages to the writer, as the closure of the code
  does; the position of a target in the list stands for the moment at which its files are written.
\<close>

section \<open>The index of the previous round\<close>

record run_env =
  re_show :: "json \<Rightarrow> string"
  re_parse :: "string \<Rightarrow> json option"
  re_lower :: "string \<Rightarrow> string"
  re_readable :: "string \<Rightarrow> bool"
  re_mkdir :: "string option"
  re_io :: "nat \<Rightarrow> session_io"
  re_index_write :: "string option"
  re_index_left :: nat
  re_index_rename :: "string option"
  re_now :: int
  re_version :: string

type_synonym page_feed = "nat \<Rightarrow> session_target \<Rightarrow> (row list \<Rightarrow> session_writer \<Rightarrow> session_writer \<times> (export_error + unit))
    \<Rightarrow> session_writer \<Rightarrow> session_writer \<times> (export_error + unit)"

definition index_name :: string where "index_name = ''index.json''"

definition as_bool :: "json \<Rightarrow> bool option" where
  "as_bool v = (case v of Bool b \<Rightarrow> Some b | _ \<Rightarrow> None)"

definition file_of :: "json \<Rightarrow> string option" where
  "file_of r = as_str (json_get r ''file'')"

definition talker_of :: "json \<Rightarrow> string option" where
  "talker_of r = as_str (json_get r ''talker'')"

definition stem_before_dot :: "string \<Rightarrow> string" where
  "stem_before_dot file = (case rsplit_once (CHR ''.'') file of Some (s, _) \<Rightarrow> s | None \<Rightarrow> file)"

definition previous_index :: "run_env \<Rightarrow> dir \<Rightarrow> (string, json) hashmap" where
  "previous_index env d = (if \<not> re_readable env index_name then [] else
     (case Option.bind (d index_name) (re_parse env) of None \<Rightarrow> [] | Some v \<Rightarrow>
       (case as_array (json_get v ''sessions'') of None \<Rightarrow> [] | Some rows \<Rightarrow>
         sort_key fst (fold (\<lambda>(t, r). hm_insert t r)
           (List.map_filter (\<lambda>r. map_option (\<lambda>t. (t, r)) (talker_of r)) rows) []))))"

definition index_doc :: "run_env \<Rightarrow> json list \<Rightarrow> json" where
  "index_doc env rows = Object [
     (''generated'', Object [(''tool'', String generator), (''version'', String (re_version env)), (''at'', int_json (re_now env))]),
     (''note'', String (utf8 [230, 156, 172, 230, 150, 135, 228, 187, 182, 230, 152, 175, 230, 156, 172, 230, 156, 141, 229, 138, 161, 232,
     135, 170, 233, 128, 160, 231, 154, 132, 231, 188, 150, 230, 142, 146, 230, 184, 133, 229, 141, 149, 239, 188,
     140, 42, 42, 228, 184, 141, 230, 152, 175, 32, 67, 104, 97, 116, 76, 97, 98, 32, 232, 167, 132, 232, 140, 131,
     231, 154, 132, 228, 184, 128, 233, 131, 168, 229, 136, 134, 42, 42, 239, 188, 155, 229, 175, 188, 229, 133,
     165, 232, 175, 183, 231, 148, 168, 229, 141, 149, 228, 184, 170, 32, 60, 110, 97, 109, 101, 62, 46, 106, 115,
     111, 110, 108, 47, 46, 106, 115, 111, 110, 239, 188, 140, 230, 149, 180, 228, 184, 170, 231, 155, 174, 229,
     189, 149, 228, 184, 141, 229, 143, 175, 229, 175, 188, 229, 133, 165, 227, 128, 130])),
     (''sessions'', Array rows)]"

definition write_index :: "run_env \<Rightarrow> export_options \<Rightarrow> json list \<Rightarrow> dir \<Rightarrow> dir \<times> (export_error + unit)" where
  "write_index env opts rows d = (let body = re_show env (index_doc env rows); part = index_name @ ''.part''
     in case assert_no_secret (re_show env) body (eo_secret opts) of
          Inl e \<Rightarrow> (d, Inl e)
        | Inr _ \<Rightarrow> (case re_index_write env of
            Some e \<Rightarrow> (d(part := Some (take (re_index_left env) body)), Inl (Export_Failure e))
          | None \<Rightarrow> (case re_index_rename env of
              Some e \<Rightarrow> (d(part := Some body), Inl (Export_Failure e))
            | None \<Rightarrow> (d(part := None, index_name := Some body), Inr ()))))"

definition file_is_complete :: "run_env \<Rightarrow> dir \<Rightarrow> string \<Rightarrow> export_format \<Rightarrow> bool" where
  "file_is_complete env d path format = (case d path of None \<Rightarrow> False
     | Some text \<Rightarrow> text \<noteq> [] \<and> re_readable env path
         \<and> last text = (case format of Json \<Rightarrow> CHR ''}'' | Jsonl \<Rightarrow> lf))"

section \<open>One session\<close>

record export_round =
  rn_dir :: dir
  rn_taken :: "string list"
  rn_written :: "string list"
  rn_reused :: "string list"
  rn_skipped :: "string list"
  rn_total :: nat
  rn_rows :: "json list"
  rn_files :: "(string \<times> string) list"

definition path_file_name :: "string \<Rightarrow> string" where
  "path_file_name p = (case rsplit_once (CHR ''/'') p of Some (_, n) \<Rightarrow> n | None \<Rightarrow> p)"

definition session_stem :: "run_env \<Rightarrow> (string, json) hashmap \<Rightarrow> session_target \<Rightarrow> string list \<Rightarrow> string \<times> string list" where
  "session_stem env previous target taken = (case Option.bind (hm_get previous (tg_talker target)) file_of of
       Some file \<Rightarrow> (let stem = stem_before_dot file in
         if Rust_Str.eq_ignore_ascii_case stem ''index'' then file_name_for target taken
         else (stem, re_lower env stem # taken))
     | None \<Rightarrow> file_name_for target taken)"

definition owner_of :: "(string, json) hashmap \<Rightarrow> string \<Rightarrow> string option" where
  "owner_of recorded name = map_option fst (List.find (\<lambda>(t, row). is_some_and
     (\<lambda>f. Rust_Str.eq_ignore_ascii_case f name) (file_of row)) recorded)"

text \<open>The protected owner keeps its row in the new index; a conversation is noted as skipped once.\<close>

definition refuse_session :: "(string, json) hashmap \<Rightarrow> string option \<Rightarrow> session_target \<Rightarrow> export_round \<Rightarrow> export_round" where
  "refuse_session recorded owner target r = (let
       carried = (case owner of Some ow \<Rightarrow> if list_ex (\<lambda>row. talker_of row = Some ow) (rn_rows r) then None else hm_get recorded ow
         | None \<Rightarrow> None)
     in r\<lparr>rn_rows := rn_rows r @ (case carried of Some row \<Rightarrow> [row] | None \<Rightarrow> []),
          rn_skipped := (if tg_talker target \<in> set (rn_skipped r) then rn_skipped r else rn_skipped r @ [tg_talker target])\<rparr>)"

definition reusable :: "run_env \<Rightarrow> export_options \<Rightarrow> (string, json) hashmap \<Rightarrow> session_target \<Rightarrow> string \<Rightarrow> dir \<Rightarrow> bool" where
  "reusable env opts previous target stem d = (let
       path = path_of stem (eo_format opts);
       row = hm_get previous (tg_talker target);
       recorded = is_some_and (\<lambda>v. file_of v = Some (path_file_name path)) row;
       part_left = d (part_of stem (eo_format opts)) \<noteq> None;
       media_kept = \<not> eo_with_media opts \<or> is_some_and (\<lambda>v. as_bool (json_get v ''withMedia'') = Some True) row
     in recorded \<and> \<not> part_left \<and> media_kept \<and> file_is_complete env d path (eo_format opts))"

definition reuse_session :: "(string, json) hashmap \<Rightarrow> session_target \<Rightarrow> string \<Rightarrow> export_round \<Rightarrow> export_round" where
  "reuse_session previous target path r = r\<lparr>rn_reused := rn_reused r @ [tg_talker target],
     rn_rows := rn_rows r @ (case hm_get previous (tg_talker target) of Some row \<Rightarrow> [row] | None \<Rightarrow> []),
     rn_files := (tg_talker target, path) # rn_files r\<rparr>"

definition index_row :: "export_options \<Rightarrow> session_target \<Rightarrow> string \<Rightarrow> nat \<Rightarrow> json" where
  "index_row opts target file n = Object [(''talker'', String (tg_talker target)), (''file'', String file), (''messages'', nat_json n),
     (''displayName'', String (tg_display_name target)), (''withMedia'', Bool (eo_with_media opts))]"

text \<open>A failure skips the session; a leak ends the round, which is the error on the right.\<close>

definition fail_session :: "export_error \<Rightarrow> session_target \<Rightarrow> export_round \<Rightarrow> export_round \<times> export_error option" where
  "fail_session e target r = (if e = Secret_Leak then (r, Some e)
     else (r\<lparr>rn_skipped := rn_skipped r @ [tg_talker target]\<rparr>, None))"

definition write_session :: "run_env \<Rightarrow> export_options \<Rightarrow> page_feed \<Rightarrow> nat \<Rightarrow> session_target \<Rightarrow> string \<Rightarrow> export_round
    \<Rightarrow> export_round \<times> export_error option" where
  "write_session env opts fetch i target stem r = (let io = re_io env i in
     case begin_session (re_show env) io target opts stem (rn_dir r) of
       (d, Inl e) \<Rightarrow> fail_session e target (r\<lparr>rn_dir := d\<rparr>)
     | (d, Inr w) \<Rightarrow> (case fetch i target (put_page (re_show env) io) w of
         (w', Inl e) \<Rightarrow> fail_session e target (r\<lparr>rn_dir := drop_session io w' d\<rparr>)
       | (w', Inr _) \<Rightarrow> (case finish_session (re_show env) io w' d of
           (d', Inl e) \<Rightarrow> fail_session e target (r\<lparr>rn_dir := d'\<rparr>)
         | (d', Inr (n, path)) \<Rightarrow> (r\<lparr>rn_dir := d', rn_total := rn_total r + n, rn_written := rn_written r @ [path],
               rn_files := (tg_talker target, path) # rn_files r,
               rn_rows := rn_rows r @ [index_row opts target (path_file_name path) n]\<rparr>, None))))"

definition session_step :: "run_env \<Rightarrow> export_options \<Rightarrow> page_feed \<Rightarrow> (string, json) hashmap \<Rightarrow> (string, json) hashmap \<Rightarrow> nat
    \<Rightarrow> session_target \<Rightarrow> export_round \<Rightarrow> export_round \<times> export_error option" where
  "session_step env opts fetch recorded previous i target r0 = (let
       (stem, taken) = session_stem env previous target (rn_taken r0);
       r = r0\<lparr>rn_taken := taken\<rparr>;
       path = path_of stem (eo_format opts);
       exists = rn_dir r path \<noteq> None;
       owner = owner_of recorded (path_file_name path);
       own_rerun = (owner = Some (tg_talker target));
       this_round = (tg_talker target, path) \<in> set (rn_files r)
     in if \<not> eo_resume opts \<and> exists \<and> \<not> own_rerun \<and> \<not> this_round then (refuse_session recorded owner target r, None)
        else if eo_resume opts \<and> exists \<and> reusable env opts previous target stem (rn_dir r)
        then (reuse_session previous target path r, None)
        else write_session env opts fetch i target stem r)"

fun run_sessions :: "run_env \<Rightarrow> export_options \<Rightarrow> page_feed \<Rightarrow> (string, json) hashmap \<Rightarrow> (string, json) hashmap \<Rightarrow> nat
    \<Rightarrow> session_target list \<Rightarrow> export_round \<Rightarrow> export_round \<times> export_error option" where
  "run_sessions env opts fetch recorded previous i [] r = (r, None)"
| "run_sessions env opts fetch recorded previous i (t # ts) r = (case session_step env opts fetch recorded previous i t r of
     (r', Some e) \<Rightarrow> (r', Some e)
   | (r', None) \<Rightarrow> run_sessions env opts fetch recorded previous (Suc i) ts r')"

section \<open>The round\<close>

definition seed_taken :: "run_env \<Rightarrow> (string, json) hashmap \<Rightarrow> string list" where
  "seed_taken env previous = map (\<lambda>f. re_lower env (stem_before_dot f)) (List.map_filter file_of (hm_values previous))"

definition run :: "run_env \<Rightarrow> export_options \<Rightarrow> page_feed \<Rightarrow> session_target list \<Rightarrow> dir \<Rightarrow> dir \<times> (export_error + export_outcome)" where
  "run env opts fetch targets d = (case re_mkdir env of Some e \<Rightarrow> (d, Inl (Export_Failure e)) | None \<Rightarrow>
     (let recorded = previous_index env d;
          previous = (if eo_resume opts then recorded else []);
          start = \<lparr>rn_dir = d, rn_taken = seed_taken env previous, rn_written = [], rn_reused = [], rn_skipped = [],
            rn_total = 0, rn_rows = [], rn_files = []\<rparr>
      in case run_sessions env opts fetch recorded previous 0 targets start of
           (r, Some e) \<Rightarrow> (rn_dir r, Inl e)
         | (r, None) \<Rightarrow> (case write_index env opts (rn_rows r) (rn_dir r) of
             (d', Inl e) \<Rightarrow> (d', Inl e)
           | (d', Inr _) \<Rightarrow> (d', Inr \<lparr>xo_written = rn_written r, xo_reused = rn_reused r, xo_skipped = rn_skipped r,
                 xo_messages = rn_total r\<rparr>))))"

section \<open>What a round changes\<close>

text \<open>
  What the types of the code say of a closure that is given the writer's \<open>page\<close>: it can reach the writer only through it.
\<close>

definition only_pages :: "page_feed \<Rightarrow> bool" where
  "only_pages fetch \<longleftrightarrow> (\<forall>P on_page i t w. (\<forall>rows w. P w \<longrightarrow> P (fst (on_page rows w))) \<longrightarrow> P w \<longrightarrow> P (fst (fetch i t on_page w)))"

lemma fetch_keeps_writer:
  assumes "only_pages fetch" and "writer_ok show_json stem format secret w"
  shows "writer_ok show_json stem format secret (fst (fetch i t (put_page show_json io) w))"
  using assms(1) [unfolded only_pages_def, THEN spec [of _ "writer_ok show_json stem format secret"],
      THEN spec [of _ "put_page show_json io"]] assms(2) put_page_ok [of show_json stem format secret] by simp

lemma fail_session_simps [simp]:
  "rn_dir (fst (fail_session e target r)) = rn_dir r" "rn_files (fst (fail_session e target r)) = rn_files r"
  "rn_rows (fst (fail_session e target r)) = rn_rows r" "rn_written (fst (fail_session e target r)) = rn_written r"
  "rn_reused (fst (fail_session e target r)) = rn_reused r"
  by (simp_all add: fail_session_def)

text \<open>How a session ends: given up, with only its unfinished file touched, or delivered.\<close>

lemma write_session_ends:
  assumes pages: "only_pages fetch" and w: "write_session env opts fetch i target stem r = (r', res)"
  obtains (given_up) e d where "(r', res) = fail_session e target (r\<lparr>rn_dir := d\<rparr>)"
      "\<And>f. d f = rn_dir r f \<or> f = part_of stem (eo_format opts)
         \<and> (d f = None \<or> (\<exists>t. d f = Some t \<and> partial (re_show env) (eo_format opts) (eo_secret opts) t))"
  | (delivered) n t d where "res = None" "finished (re_show env) (eo_format opts) (eo_secret opts) n t"
      "d (path_of stem (eo_format opts)) = Some t"
      "\<And>f. d f = rn_dir r f \<or> f = part_of stem (eo_format opts) \<and> d f = None \<or> f = path_of stem (eo_format opts)"
      "r' = r\<lparr>rn_dir := d, rn_total := rn_total r + n, rn_written := rn_written r @ [path_of stem (eo_format opts)],
         rn_files := (tg_talker target, path_of stem (eo_format opts)) # rn_files r,
         rn_rows := rn_rows r @ [index_row opts target (path_file_name (path_of stem (eo_format opts))) n]\<rparr>"
proof -
  let ?show = "re_show env" and ?io = "re_io env i" and ?fmt = "eo_format opts" and ?secret = "eo_secret opts"
  obtain d res1 where b: "begin_session ?show ?io target opts stem (rn_dir r) = (d, res1)" by fastforce
  show thesis
  proof (cases res1)
    case (Inl e)
    have "(r', res) = fail_session e target (r\<lparr>rn_dir := d\<rparr>)"
      using w b Inl by (simp add: write_session_def Let_def)
    moreover have "d f = rn_dir r f \<or> f = part_of stem ?fmt \<and> (d f = None \<or> (\<exists>t. d f = Some t \<and> partial ?show ?fmt ?secret t))" for f
      using begin_session_failed [OF b [unfolded Inl], of f] by (auto simp: partial_def)
    ultimately show thesis by (rule given_up)
  next
    case (Inr w0)
    note w0 = begin_session_ok [OF b [unfolded Inr]]
    obtain w1 res2 where f: "fetch i target (put_page ?show ?io) w0 = (w1, res2)" by fastforce
    have w1: "writer_ok ?show stem ?fmt ?secret w1" using fetch_keeps_writer [OF pages w0(2), of i target ?io] by (simp add: f)
    show thesis
    proof (cases res2)
      case (Inl e)
      have "(r', res) = fail_session e target (r\<lparr>rn_dir := drop_session ?io w1 (rn_dir r)\<rparr>)"
        using w b Inr f Inl w0(1) by (simp add: write_session_def Let_def)
      then show thesis by (rule given_up) (rule drop_session_changes [OF w1])
    next
      case (Inr u)
      obtain d' res3 where fin: "finish_session ?show ?io w1 (rn_dir r) = (d', res3)" by fastforce
      note ch = finish_session_changes [OF w1 fin]
      show thesis
      proof (cases res3)
        case (Inl e)
        have eq: "(r', res) = fail_session e target (r\<lparr>rn_dir := d'\<rparr>)"
          using w b \<open>res1 = Inr w0\<close> f Inr fin Inl w0(1) by (simp add: write_session_def Let_def)
        show thesis by (rule given_up [OF eq]) (use ch Inl in auto)
      next
        case (Inr np)
        obtain n p where np: "np = (n, p)" by (cases np)
        note done_cases = finish_session_done [OF fin [unfolded Inr np]]
        obtain t where t: "finish_inner ?show ?io w1 = Inr t" "n = sw_count w1"
          "p = path_of (sw_stem w1) (sw_format w1)" "d' = (rn_dir r)(part_of (sw_stem w1) (sw_format w1) := None, p := Some t)"
          using done_cases by blast
        have names: "sw_stem w1 = stem" "sw_format w1 = ?fmt" using w1 by (simp_all add: writer_ok_def)
        have "finished ?show ?fmt ?secret n t" by (rule finish_inner_finished [OF w1 t(1), folded t(2)])
        moreover have "res = None \<and> r' = r\<lparr>rn_dir := d', rn_total := rn_total r + n, rn_written := rn_written r @ [path_of stem ?fmt],
            rn_files := (tg_talker target, path_of stem ?fmt) # rn_files r,
            rn_rows := rn_rows r @ [index_row opts target (path_file_name (path_of stem ?fmt)) n]\<rparr>"
          using w b \<open>res1 = Inr w0\<close> f \<open>res2 = Inr u\<close> fin Inr np w0(1) t(3) names by (simp add: write_session_def Let_def)
        ultimately show thesis using t(3,4) names by (intro delivered [of n t d']) auto
      qed
    qed
  qed
qed


section \<open>The token stays out\<close>

lemma run_sessions_inv:
  assumes "\<And>i t r. t \<in> set ts \<Longrightarrow> I r \<Longrightarrow> I (fst (session_step env opts fetch recorded previous i t r))" and "I r"
  shows "I (fst (run_sessions env opts fetch recorded previous i ts r))"
  using assms
proof (induction ts arbitrary: i r)
  case (Cons t ts)
  obtain r' res where s: "session_step env opts fetch recorded previous i t r = (r', res)" by fastforce
  have "I r'" using Cons.prems(1) [of t r i] Cons.prems(2) by (simp add: s)
  with Cons.IH [of r' "Suc i"] Cons.prems(1) show ?case by (simp add: s split: option.split)
qed simp

lemma session_step_ends:
  assumes "session_step env opts fetch recorded previous i target r0 = (r', res)"
  obtains (refused) stem taken where "session_stem env previous target (rn_taken r0) = (stem, taken)" "res = None"
      "\<not> eo_resume opts" "rn_dir r0 (path_of stem (eo_format opts)) \<noteq> None"
      "r' = refuse_session recorded (owner_of recorded (path_file_name (path_of stem (eo_format opts)))) target (r0\<lparr>rn_taken := taken\<rparr>)"
  | (reused) stem taken where "session_stem env previous target (rn_taken r0) = (stem, taken)" "res = None" "eo_resume opts"
      "reusable env opts previous target stem (rn_dir r0)"
      "r' = reuse_session previous target (path_of stem (eo_format opts)) (r0\<lparr>rn_taken := taken\<rparr>)"
  | (written) stem taken where "session_stem env previous target (rn_taken r0) = (stem, taken)"
      "write_session env opts fetch i target stem (r0\<lparr>rn_taken := taken\<rparr>) = (r', res)"
      "eo_resume opts \<or> rn_dir r0 (path_of stem (eo_format opts)) = None
        \<or> owner_of recorded (path_file_name (path_of stem (eo_format opts))) = Some (tg_talker target)
        \<or> (tg_talker target, path_of stem (eo_format opts)) \<in> set (rn_files r0)"
proof -
  obtain stem taken where n: "session_stem env previous target (rn_taken r0) = (stem, taken)" by fastforce
  let ?path = "path_of stem (eo_format opts)"
  consider "\<not> eo_resume opts" "rn_dir r0 ?path \<noteq> None" "owner_of recorded (path_file_name ?path) \<noteq> Some (tg_talker target)"
      "(tg_talker target, ?path) \<notin> set (rn_files r0)"
    | "eo_resume opts" "rn_dir r0 ?path \<noteq> None" "reusable env opts previous target stem (rn_dir r0)"
    | "eo_resume opts \<or> rn_dir r0 ?path = None \<or> owner_of recorded (path_file_name ?path) = Some (tg_talker target)
        \<or> (tg_talker target, ?path) \<in> set (rn_files r0)"
      "\<not> (eo_resume opts \<and> rn_dir r0 ?path \<noteq> None \<and> reusable env opts previous target stem (rn_dir r0))" by argo
  then show thesis
  proof cases
    case 1
    with assms n show thesis by (intro refused [of stem taken]) (simp_all add: session_step_def)
  next
    case 2
    with assms n show thesis by (intro reused [of stem taken]) (simp_all add: session_step_def)
  next
    case 3
    have "write_session env opts fetch i target stem (r0\<lparr>rn_taken := taken\<rparr>) = (r', res)"
      using assms n 3 unfolding session_step_def Let_def by (simp split: if_splits)
    with n 3(1) show thesis by (intro written [of stem taken]) simp_all
  qed
qed

lemma round_frame [simp]:
  "rn_dir (refuse_session recorded owner target r) = rn_dir r" "rn_files (refuse_session recorded owner target r) = rn_files r"
  "rn_written (refuse_session recorded owner target r) = rn_written r" "rn_reused (refuse_session recorded owner target r) = rn_reused r"
  "rn_dir (reuse_session previous target path r) = rn_dir r" "rn_written (reuse_session previous target path r) = rn_written r"
  "rn_skipped (reuse_session previous target path r) = rn_skipped r"
  by (simp_all add: refuse_session_def reuse_session_def Let_def)

text \<open>A file of the new state is an old one or a harmless one.\<close>

definition clean_text :: "string \<Rightarrow> string \<Rightarrow> bool" where
  "clean_text secret t \<longleftrightarrow> clean secret t \<or> (\<exists>ls. t = unlines ls \<and> list_all (clean secret) ls)"

definition harmless :: "string \<Rightarrow> string \<Rightarrow> string option \<Rightarrow> bool" where
  "harmless secret f c \<longleftrightarrow> is_none_or (\<lambda>t. \<not> contains_sub secret t \<and> (ends_with ''.part'' f \<or> clean_text secret t)) c"

lemma part_ends [simp]: "ends_with ''.part'' (part_of stem format)" "ends_with ''.part'' (index_name @ ''.part'')"
  by (auto simp: part_of_def ends_with_iff)

lemma step_harmless:
  assumes "only_pages fetch" and "eo_secret opts \<noteq> []" and "lf \<notin> set (eo_secret opts)"
    and s: "session_step env opts fetch recorded previous i target r0 = (r', res)"
    and old: "rn_dir r0 f = d f \<or> harmless (eo_secret opts) f (rn_dir r0 f)"
  shows "rn_dir r' f = d f \<or> harmless (eo_secret opts) f (rn_dir r' f)"
  using s
proof (cases rule: session_step_ends)
  case (written stem taken)
  show ?thesis
    using assms(1) written(2)
  proof (cases rule: write_session_ends)
    case (given_up e d')
    have "r' = fst (fail_session e target (r0\<lparr>rn_taken := taken, rn_dir := d'\<rparr>))" using given_up(1) by (metis fst_conv)
    then have "rn_dir r' = d'" by simp
    with given_up(2) [of f] old partial_clean [OF _ assms(2,3)] show ?thesis
      by (auto simp: harmless_def is_none_or_def)
  next
    case (delivered n t d')
    have "harmless (eo_secret opts) (path_of stem (eo_format opts)) (Some t)"
      using finished_clean [OF delivered(2) assms(2,3)]
      by (auto simp: harmless_def is_none_or_def clean_text_def split: export_format.splits)
    with delivered(3,5) delivered(4) [of f] old show ?thesis by (auto simp: harmless_def is_none_or_def)
  qed
qed (use old in simp_all)

text \<open>
  C4. The access token stays out of what is exported: whatever the rows hold and whatever fails, every file the round
  wrote or changed is free of the token, in each line as it stands and percent-decoded; what an unfinished
  file keeps is free of it too.
\<close>

theorem export_keeps_token_out:
  assumes "only_pages fetch" and "eo_secret opts \<noteq> []" and "lf \<notin> set (eo_secret opts)"
    and r: "run env opts fetch targets d = (d', out)"
  shows "d' f = d f \<or> harmless (eo_secret opts) f (d' f)"
proof -
  let ?I = "\<lambda>r. rn_dir r f = d f \<or> harmless (eo_secret opts) f (rn_dir r f)"
  have inv: "?I (fst (run_sessions env opts fetch recorded previous i targets r))" if "?I r" for recorded previous i r
    using run_sessions_inv [of targets ?I, OF _ that] step_harmless [OF assms(1-3) prod.collapse [symmetric]] by blast
  show ?thesis
  proof (cases "re_mkdir env")
    case (Some e)
    with r show ?thesis by (simp add: run_def)
  next
    case None
    let ?recorded = "previous_index env d" and ?previous = "if eo_resume opts then previous_index env d else []"
    let ?start = "\<lparr>rn_dir = d, rn_taken = seed_taken env ?previous, rn_written = [], rn_reused = [], rn_skipped = [],
      rn_total = 0, rn_rows = [], rn_files = []\<rparr>"
    obtain r1 res where s: "run_sessions env opts fetch ?recorded ?previous 0 targets ?start = (r1, res)" by fastforce
    have I: "?I r1" using inv [of ?start ?recorded ?previous 0] by (simp add: s)
    show ?thesis
    proof (cases res)
      case (Some e)
      with r None s I show ?thesis by (simp add: run_def Let_def)
    next
      case nothing: None
      then have w: "d' = fst (write_index env opts (rn_rows r1) (rn_dir r1))"
        using r None s by (auto simp: run_def Let_def split: prod.splits sum.splits)
      let ?body = "re_show env (index_doc env (rn_rows r1))"
      have "clean (eo_secret opts) ?body" if "assert_no_secret (re_show env) ?body (eo_secret opts) = Inr ()"
        using assert_clean [OF that assms(2)] .
      with I show ?thesis unfolding w
        by (auto simp: write_index_def Let_def harmless_def is_none_or_def clean_text_def clean_def dest: contains_take
            split: sum.splits option.splits)
    qed
  qed
qed

section \<open>Other conversations are spared\<close>

lemma step_spares:
  assumes "only_pages fetch" and "\<not> eo_resume opts" and "target \<in> set targets"
    and J: "\<And>p. J p \<longleftrightarrow> ends_with ''.part'' p \<or> d p = None
      \<or> owner_of recorded (path_file_name p) \<in> (Some \<circ> tg_talker) ` set targets"
    and s: "session_step env opts fetch recorded previous i target r0 = (r', res)"
    and old: "\<And>f. rn_dir r0 f = d f \<or> J f" "\<And>t p. (t, p) \<in> set (rn_files r0) \<Longrightarrow> J p"
  shows "(\<forall>f. rn_dir r' f = d f \<or> J f) \<and> (\<forall>t p. (t, p) \<in> set (rn_files r') \<longrightarrow> J p)"
  using s
proof (cases rule: session_step_ends)
  case (written stem taken)
  let ?path = "path_of stem (eo_format opts)"
  have path: "J ?path" using written(3) assms(2,3) old(1) [of ?path] old(2) [of "tg_talker target" ?path] J [of ?path] by fastforce
  have part: "J (part_of stem (eo_format opts))" by (simp add: J)
  show ?thesis
    using assms(1) written(2)
  proof (cases rule: write_session_ends)
    case (given_up e d')
    have "r' = fst (fail_session e target (r0\<lparr>rn_taken := taken, rn_dir := d'\<rparr>))" using given_up(1) by (metis fst_conv)
    then have "rn_dir r' = d'" "rn_files r' = rn_files r0" by simp_all
    moreover have "d' f = d f \<or> J f" for f using given_up(2) [of f] old(1) [of f] part by auto
    ultimately show ?thesis using old(2) by auto
  next
    case (delivered n t d')
    have "rn_dir r' f = d f \<or> J f" for f
      using delivered(4) [of f] old(1) [of f] path part by (auto simp: delivered(5))
    then show ?thesis using old(2) path by (auto simp: delivered(5))
  qed
next
  case (refused stem taken)
  then show ?thesis using old by simp
qed (use assms(2) in simp)

text \<open>
  C10. A round does not touch what is not its own: without resumption, a file that was there before and that the
  previous index gives to no conversation of this round keeps its contents, also when a
  name collides, a session fails or the round is aborted.
\<close>

theorem export_spares_other_sessions:
  assumes "only_pages fetch" and "\<not> eo_resume opts" and r: "run env opts fetch targets d = (d', out)"
    and "d f \<noteq> None" and "f \<noteq> index_name" and "\<not> ends_with ''.part'' f"
    and "owner_of (previous_index env d) (path_file_name f) \<notin> (Some \<circ> tg_talker) ` set targets"
  shows "d' f = d f"
proof (cases "re_mkdir env")
  case None
  let ?recorded = "previous_index env d" and ?start = "\<lparr>rn_dir = d, rn_taken = seed_taken env [], rn_written = [], rn_reused = [],
    rn_skipped = [], rn_total = 0, rn_rows = [], rn_files = []\<rparr>"
  define J where "J p \<longleftrightarrow> ends_with ''.part'' p \<or> d p = None
      \<or> owner_of ?recorded (path_file_name p) \<in> (Some \<circ> tg_talker) ` set targets" for p
  let ?I = "\<lambda>r :: export_round. (\<forall>f. rn_dir r f = d f \<or> J f) \<and> (\<forall>t p. (t, p) \<in> set (rn_files r) \<longrightarrow> J p)"
  obtain r1 res where s: "run_sessions env opts fetch ?recorded [] 0 targets ?start = (r1, res)" by fastforce
  have "?I (fst (run_sessions env opts fetch ?recorded [] 0 targets ?start))"
  proof (rule run_sessions_inv)
    fix i t r assume "t \<in> set targets" "?I r"
    then show "?I (fst (session_step env opts fetch ?recorded [] i t r))"
      using step_spares [OF assms(1,2) _ J_def prod.collapse [symmetric]] by blast
  qed simp
  then have "rn_dir r1 f = d f \<or> J f" by (simp add: s)
  then have same: "rn_dir r1 f = d f" using assms(4,6,7) by (simp add: J_def)
  have "f \<noteq> index_name @ ''.part''" using assms(6) by auto
  with same r None s assms(2,5) show ?thesis
    by (auto simp: run_def Let_def write_index_def split: option.splits prod.splits sum.splits)
qed (use r in \<open>simp add: run_def\<close>)

section \<open>Every conversation is accounted for\<close>

lemma last_ext: "last (path_of stem format) \<noteq> CHR ''t''"
  by (cases format) (simp_all add: path_of_def ext_of_def)

lemma path_not_part [simp]: "path_of stem format \<noteq> part_of stem' format'" "path_of stem format \<noteq> index_name @ ''.part''"
proof -
  have "last (part_of stem' format') = CHR ''t''" "last (index_name @ ''.part'') = CHR ''t''" by (simp_all add: part_of_def)
  then show "path_of stem format \<noteq> part_of stem' format'" "path_of stem format \<noteq> index_name @ ''.part''"
    using last_ext [of stem format] by metis+
qed

lemma path_not_index:
  assumes "to_ascii_lowercase stem \<noteq> ''index''"
  shows "path_of stem format \<noteq> index_name"
proof
  assume p: "path_of stem format = index_name"
  show False
  proof (cases format)
    case Jsonl
    from p have "last (stem @ ''.jsonl'') = last ''index.json''" by (simp add: Jsonl path_of_def ext_of_def index_name_def)
    then show False by simp
  next
    case Json
    from p have "stem @ ''.json'' = ''index'' @ ''.json''" by (simp add: Json path_of_def ext_of_def index_name_def)
    then have "stem = ''index''" by (simp only: append_same_eq)
    with assms show False by (auto simp: to_ascii_lowercase_def to_lower_char_def is_ascii_upper_def in_range_def)
  qed
qed

lemma file_name_not_index: "file_name_for target taken = (stem, taken') \<Longrightarrow> to_ascii_lowercase stem \<noteq> ''index''"
  using free_name_fresh [of "stem_of target" "''index'' # taken" 2 "stem_of target"] by (auto simp: file_name_for_def Let_def)

lemma session_stem_not_index:
  assumes "session_stem env previous target taken = (stem, taken')"
  shows "path_of stem format \<noteq> index_name"
proof (rule path_not_index)
  have index: "to_ascii_lowercase ''index'' = ''index''" by code_simp
  show "to_ascii_lowercase stem \<noteq> ''index''"
    using assms file_name_not_index [of target taken stem taken']
    by (auto simp: session_stem_def Let_def Rust_Str.eq_ignore_ascii_case_def index split: option.splits if_splits)
qed

definition delivered_file :: "run_env \<Rightarrow> export_options \<Rightarrow> dir \<Rightarrow> string \<Rightarrow> bool" where
  "delivered_file env opts d p \<longleftrightarrow> p \<noteq> index_name \<and> (\<exists>stem. p = path_of stem (eo_format opts))
     \<and> (\<exists>n t. d p = Some t \<and> finished (re_show env) (eo_format opts) (eo_secret opts) n t)"

definition accounted :: "export_options \<Rightarrow> export_round \<Rightarrow> session_target \<Rightarrow> bool" where
  "accounted opts r t \<longleftrightarrow> tg_talker t \<in> set (rn_skipped r) \<union> set (rn_reused r)
     \<or> (\<exists>p\<in>set (rn_written r). \<exists>n. index_row opts t (path_file_name p) n \<in> set (rn_rows r))"

lemma step_accounts:
  assumes pages: "only_pages fetch" and s: "session_step env opts fetch recorded previous i target r0 = (r', None)"
    and old: "list_all (delivered_file env opts (rn_dir r0)) (rn_written r0)"
  shows "list_all (delivered_file env opts (rn_dir r')) (rn_written r') \<and> accounted opts r' target
    \<and> (\<forall>t. accounted opts r0 t \<longrightarrow> accounted opts r' t)"
  using s
proof (cases rule: session_step_ends)
  case (refused stem taken)
  with old show ?thesis by (auto simp: accounted_def refuse_session_def Let_def)
next
  case (reused stem taken)
  with old show ?thesis by (auto simp: accounted_def reuse_session_def)
next
  case (written stem taken)
  show ?thesis
    using pages written(2)
  proof (cases rule: write_session_ends)
    case (given_up e d')
    then have r': "r' = r0\<lparr>rn_taken := taken, rn_dir := d', rn_skipped := rn_skipped r0 @ [tg_talker target]\<rparr>"
      by (simp add: fail_session_def split: if_splits)
    have "d' p = rn_dir r0 p" if "delivered_file env opts (rn_dir r0) p" for p
      using that given_up(2) [of p] by (auto simp: delivered_file_def)
    then have "delivered_file env opts (rn_dir r0) p \<Longrightarrow> delivered_file env opts d' p" for p
      by (simp add: delivered_file_def)
    with old show ?thesis by (auto simp: r' accounted_def list_all_iff)
  next
    case (delivered n t d')
    let ?path = "path_of stem (eo_format opts)"
    have new: "delivered_file env opts d' ?path"
      using delivered(2,3) session_stem_not_index [OF written(1)] by (auto simp: delivered_file_def)
    have "d' p = rn_dir r0 p" if "delivered_file env opts (rn_dir r0) p" "p \<noteq> ?path" for p
      using that delivered(4) [of p] by (auto simp: delivered_file_def)
    then have "delivered_file env opts d' p" if "delivered_file env opts (rn_dir r0) p" for p
      using that new by (cases "p = ?path") (simp_all add: delivered_file_def)
    with old new show ?thesis by (auto simp: delivered(5) accounted_def list_all_iff)
  qed
qed

lemma sessions_accounted:
  assumes "only_pages fetch" and "run_sessions env opts fetch recorded previous i ts r = (r', None)"
    and "list_all (delivered_file env opts (rn_dir r)) (rn_written r)"
  shows "list_all (delivered_file env opts (rn_dir r')) (rn_written r') \<and> (\<forall>t\<in>set ts. accounted opts r' t)
    \<and> (\<forall>t. accounted opts r t \<longrightarrow> accounted opts r' t)"
  using assms(2,3)
proof (induction ts arbitrary: i r)
  case (Cons t ts)
  obtain r1 where s: "session_step env opts fetch recorded previous i t r = (r1, None)"
    and rest: "run_sessions env opts fetch recorded previous (Suc i) ts r1 = (r', None)"
    using Cons.prems(1) by (auto split: prod.splits option.splits)
  from step_accounts [OF assms(1) s Cons.prems(2)] Cons.IH [OF rest] show ?case by auto
qed simp


section \<open>A failed export orphans its file\<close>

text \<open>
  A conversation whose renewed export fails once is locked out: its old file is kept, as it should be, but its row is
  not carried into the new index, so the next round finds the file without an owner and refuses to write
  it, however well the export would go, and so does every later one without resumption.
\<close>

theorem failed_export_orphans_its_file:
  assumes pages: "only_pages fetch" and plain: "\<not> eo_resume opts"
    and path: "path = path_of (fst (file_name_for t [])) (eo_format opts)" and old: "d path = Some c"
    and own: "owner_of (previous_index env d) (path_file_name path) = Some (tg_talker t)"
    and r1: "run env opts fetch [t] d = (d1, Inr out1)" and failed: "xo_written out1 = []"
    and parse: "re_parse env' (re_show env (index_doc env [])) = Some (index_doc env [])"
    and r2: "run env' opts fetch' [t] d1 = (d2, Inr out2)"
  shows "xo_skipped out1 = [tg_talker t] \<and> d1 path = Some c \<and> xo_skipped out2 = [tg_talker t] \<and> xo_written out2 = [] \<and> d2 path = Some c"
proof -
  obtain stem taken where n: "file_name_for t [] = (stem, taken)" by fastforce
  have p: "path = path_of stem (eo_format opts)" by (simp add: path n)
  have not_index: "path \<noteq> index_name" unfolding p by (rule path_not_index [OF file_name_not_index [OF n]])
  let ?start = "\<lambda>d. \<lparr>rn_dir = d, rn_taken = [], rn_written = [], rn_reused = [], rn_skipped = [],
    rn_total = 0, rn_rows = [], rn_files = []\<rparr>"
  have stem: "session_stem e [] t [] = (stem, taken)" for e by (simp add: session_stem_def n)
  have seed: "seed_taken e [] = []" for e by (simp add: seed_taken_def hm_values_def)
  obtain r where s: "session_step env opts fetch (previous_index env d) [] 0 t (?start d) = (r, None)"
    and w: "write_index env opts (rn_rows r) (rn_dir r) = (d1, Inr ())"
    and out1: "out1 = \<lparr>xo_written = rn_written r, xo_reused = rn_reused r, xo_skipped = rn_skipped r, xo_messages = rn_total r\<rparr>"
    using r1 plain by (auto simp: run_def Let_def seed split: option.splits prod.splits sum.splits)
  have ws: "write_session env opts fetch 0 t stem ((?start d)\<lparr>rn_taken := taken\<rparr>) = (r, None)"
    using s own plain old by (simp add: session_step_def stem p)
  have "rn_skipped r = [tg_talker t] \<and> rn_rows r = [] \<and> rn_dir r path = Some c"
    using pages ws
  proof (cases rule: write_session_ends)
    case (given_up e d')
    then have "r = (?start d')\<lparr>rn_taken := taken, rn_skipped := [tg_talker t]\<rparr>" by (simp add: fail_session_def split: if_splits)
    with given_up(2) [of path] old show ?thesis by (simp add: p)
  qed (use failed out1 in simp)
  then have one: "xo_skipped out1 = [tg_talker t]" "d1 path = Some c" "d1 index_name = Some (re_show env (index_doc env []))"
    using w not_index by (auto simp: write_index_def Let_def out1 p split: sum.splits option.splits)
  have "previous_index env' d1 = []"
    using parse by (simp add: previous_index_def one index_doc_def json_get_def as_array_def List.map_filter_simps)
  moreover have "owner_of [] f = None" for f by (simp add: owner_of_def)
  ultimately have step: "session_step env' opts fetch' (previous_index env' d1) [] 0 t (?start d1)
      = (refuse_session [] None t ((?start d1)\<lparr>rn_taken := taken\<rparr>), None)"
    using plain one(2) by (simp add: session_step_def stem p)
  let ?r = "refuse_session [] None t ((?start d1)\<lparr>rn_taken := taken\<rparr>)"
  have "d2 = fst (write_index env' opts (rn_rows ?r) (rn_dir ?r)) \<and> out2 = \<lparr>xo_written = [], xo_reused = [], xo_skipped = [tg_talker t], xo_messages = 0\<rparr>"
    using r2 plain step by (auto simp: run_def Let_def seed refuse_session_def split: option.splits prod.splits sum.splits)
  moreover have "fst (write_index env' opts (rn_rows ?r) (rn_dir ?r)) path = d1 path"
    using not_index by (auto simp: write_index_def Let_def p split: sum.splits option.splits)
  ultimately show ?thesis using one by simp
qed

section \<open>Rounds computed\<close>

fun send_pages :: "row list list \<Rightarrow> page_feed" where
  "send_pages [] i t on_page w = (w, Inr ())"
| "send_pages (p # ps) i t on_page w = (case on_page p w of (w', Inl e) \<Rightarrow> (w', Inl e) | (w', Inr _) \<Rightarrow> send_pages ps i t on_page w')"

lemma send_pages_only: "only_pages (send_pages ps)"
proof -
  have "P (fst (send_pages ps i t on_page w))" if "\<forall>rows w. P w \<longrightarrow> P (fst (on_page rows w))" "P w" for P i t on_page w
    using that(2)
  proof (induction ps arbitrary: w)
    case (Cons p ps)
    obtain w' res where o: "on_page p w = (w', res)" by fastforce
    have "P w'" using that(1) [rule_format, OF Cons.prems, of p] by (simp add: o)
    with Cons.IH show ?case by (cases res) (simp_all add: o)
  qed simp
  then show ?thesis unfolding only_pages_def by blast
qed

definition broken_feed :: page_feed where
  "broken_feed i t on_page w = (w, Inl (Export_Failure ''timeout''))"

lemma broken_feed_only: "only_pages broken_feed"
  by (simp add: only_pages_def broken_feed_def)

definition smooth_io :: session_io where
  "smooth_io = \<lparr>si_now = 7, si_mkdir = None, si_create = None, si_write = (\<lambda>_. None), si_flush = None, si_write_file = None,
     si_rename = None, si_remove = True, si_left = 0\<rparr>"

text \<open>A printer that shows a message by its text, enough for the runs below.\<close>

definition show_text :: "json \<Rightarrow> string" where
  "show_text v = (case v of String s \<Rightarrow> s
     | Object m \<Rightarrow> (case map_of m ''content'' of Some (String s) \<Rightarrow> s | _ \<Rightarrow> ''{}'') | _ \<Rightarrow> ''{}'')"

definition demo_run_env :: "json option \<Rightarrow> run_env" where
  "demo_run_env index = \<lparr>re_show = show_text, re_parse = (\<lambda>_. index), re_lower = to_ascii_lowercase, re_readable = (\<lambda>_. True),
     re_mkdir = None, re_io = (\<lambda>_. smooth_io), re_index_write = None, re_index_left = 0, re_index_rename = None, re_now = 7, re_version = ''1''\<rparr>"

definition demo_options :: export_options where
  "demo_options = \<lparr>eo_format = Jsonl, eo_resume = False, eo_secret = ''tok%en'', eo_with_media = False\<rparr>"

definition demo_target :: session_target where
  "demo_target = \<lparr>tg_talker = ''wxid_a'', tg_display_name = ''Team''\<rparr>"

definition demo_row :: "string \<Rightarrow> row" where
  "demo_row content = \<lparr>rw_platform_message_id = ''1'', rw_sender = ''wxid_b'', rw_account_name = ''B'', rw_group_nickname = [],
     rw_timestamp = 5, rw_msg_type = 0, rw_content = content, rw_reply_to_message_id = None, rw_media_file_name = None, rw_media_type = None\<rparr>"


theorem export_keeps_token_out_witness:
  "let r = run (demo_run_env None) demo_options (send_pages [[demo_row ''hi'', demo_row ''see tok%25en'']]) [demo_target] Map.empty
   in snd r = Inl Secret_Leak \<and> fst r ''Team.jsonl'' = None \<and> harmless ''tok%en'' ''Team.jsonl.part'' (fst r ''Team.jsonl.part'')"
proof -
  let ?r = "run (demo_run_env None) demo_options (send_pages [[demo_row ''hi'', demo_row ''see tok%25en'']]) [demo_target] Map.empty"
  have c: "snd ?r = Inl Secret_Leak" "fst ?r ''Team.jsonl'' = None" by code_simp+
  have "eo_secret demo_options \<noteq> []" "lf \<notin> set (eo_secret demo_options)" by code_simp+
  from export_keeps_token_out [OF send_pages_only this prod.collapse [symmetric], of "demo_run_env None" "[[demo_row ''hi'', demo_row ''see tok%25en'']]"
      "[demo_target]" Map.empty "''Team.jsonl.part''"] c
  show ?thesis unfolding Let_def by (auto simp: harmless_def is_none_or_def demo_options_def)
qed

definition demo_index :: json where
  "demo_index = Object [(''sessions'', Array [Object [(''talker'', String ''wxid_a''), (''file'', String ''Team.jsonl'')]])]"

theorem export_spares_other_sessions_witness:
  "let d = [''Team.jsonl'' \<mapsto> ''A'', ''index.json'' \<mapsto> ''I'']; other = \<lparr>tg_talker = ''wxid_c'', tg_display_name = ''Team''\<rparr>;
       r = run (demo_run_env (Some demo_index)) demo_options (send_pages [[demo_row ''hi'']]) [other] d
   in snd r = Inr \<lparr>xo_written = [], xo_reused = [], xo_skipped = [''wxid_c''], xo_messages = 0\<rparr> \<and> fst r ''Team.jsonl'' = Some ''A''"
proof -
  let ?d = "[''Team.jsonl'' \<mapsto> ''A'', ''index.json'' \<mapsto> ''I'']" and ?other = "\<lparr>tg_talker = ''wxid_c'', tg_display_name = ''Team''\<rparr>"
  let ?r = "run (demo_run_env (Some demo_index)) demo_options (send_pages [[demo_row ''hi'']]) [?other] ?d"
  have out: "snd ?r = Inr \<lparr>xo_written = [], xo_reused = [], xo_skipped = [''wxid_c''], xo_messages = 0\<rparr>" by code_simp
  have "\<not> eo_resume demo_options" by (simp add: demo_options_def)
  moreover have "owner_of (previous_index (demo_run_env (Some demo_index)) ?d) (path_file_name ''Team.jsonl'') = Some ''wxid_a''"
    by code_simp
  then have "owner_of (previous_index (demo_run_env (Some demo_index)) ?d) (path_file_name ''Team.jsonl'') \<notin> (Some \<circ> tg_talker) ` set [?other]"
    by simp
  moreover have "?d ''Team.jsonl'' \<noteq> None" "''Team.jsonl'' \<noteq> index_name" "\<not> ends_with ''.part'' ''Team.jsonl''" by code_simp+
  ultimately have "fst ?r ''Team.jsonl'' = ?d ''Team.jsonl''"
    using export_spares_other_sessions [OF send_pages_only _ prod.collapse [symmetric]] by blast
  with out show ?thesis by (simp add: Let_def)
qed

theorem failed_export_orphans_its_file_witness:
  "let d = [''Team.jsonl'' \<mapsto> ''A'', ''index.json'' \<mapsto> ''I'']; env = demo_run_env (Some demo_index);
       env2 = demo_run_env (Some (index_doc (demo_run_env None) []));
       r1 = run env demo_options broken_feed [demo_target] d;
       r2 = run env2 demo_options (send_pages [[demo_row ''hi'']]) [demo_target] (fst r1)
   in snd r2 = Inr \<lparr>xo_written = [], xo_reused = [], xo_skipped = [''wxid_a''], xo_messages = 0\<rparr> \<and> fst r2 ''Team.jsonl'' = Some ''A''"
proof -
  let ?d = "[''Team.jsonl'' \<mapsto> ''A'', ''index.json'' \<mapsto> ''I'']" and ?env = "demo_run_env (Some demo_index)"
  let ?env2 = "demo_run_env (Some (index_doc (demo_run_env None) []))"
  let ?r1 = "run ?env demo_options broken_feed [demo_target] ?d"
  let ?r2 = "run ?env2 demo_options (send_pages [[demo_row ''hi'']]) [demo_target] (fst ?r1)"
  have o1: "snd ?r1 = Inr \<lparr>xo_written = [], xo_reused = [], xo_skipped = [''wxid_a''], xo_messages = 0\<rparr>"
    and o2: "snd ?r2 = Inr \<lparr>xo_written = [], xo_reused = [], xo_skipped = [''wxid_a''], xo_messages = 0\<rparr>" by code_simp+
  have r1: "?r1 = (fst ?r1, Inr \<lparr>xo_written = [], xo_reused = [], xo_skipped = [''wxid_a''], xo_messages = 0\<rparr>)"
    and r2: "?r2 = (fst ?r2, Inr \<lparr>xo_written = [], xo_reused = [], xo_skipped = [''wxid_a''], xo_messages = 0\<rparr>)"
    using o1 o2 by (metis prod.collapse)+
  have p: "''Team.jsonl'' = path_of (fst (file_name_for demo_target [])) (eo_format demo_options)"
    and own: "owner_of (previous_index ?env ?d) (path_file_name ''Team.jsonl'') = Some (tg_talker demo_target)" by code_simp+
  have plain: "\<not> eo_resume demo_options" by (simp add: demo_options_def)
  have parse: "re_parse ?env2 (re_show ?env (index_doc ?env [])) = Some (index_doc ?env [])" by (simp add: demo_run_env_def index_doc_def)
  from failed_export_orphans_its_file [OF broken_feed_only plain p _ own r1 _ parse r2] o2 show ?thesis by (simp add: Let_def)
qed

end
