(* ===== verification/Export_Cli.thy ===== *)
theory Export_Cli
  imports Export_Run
begin

text \<open>
  The export command (\<open>run_export\<close> and its helpers in \<open>src/cli.rs\<close>): where the token comes from, the pull loop that feeds
  the writer of \<open>Export_Run\<close>, and the media a page brings along. What the server answers is an argument, a function of the cursors
  that are sent; the loops over pages run with a number of requests, after which the model reports a failure
  (the code would go on asking).
\<close>

section \<open>Arguments and the token\<close>

definition token_from_sources :: "string option \<Rightarrow> (string + string option) \<Rightarrow> string + string" where
  "token_from_sources env stored = (case env of Some token \<Rightarrow> Inr token | None \<Rightarrow>
     (case stored of
        Inr (Some token) \<Rightarrow> if token \<noteq> [] then Inr token else Inl ''no token''
      | Inr None \<Rightarrow> Inl ''no token''
      | Inl e \<Rightarrow> Inl e))"

definition env_token :: "string option \<Rightarrow> (string + string option) \<Rightarrow> string + string" where
  "env_token env_var stored = token_from_sources (opt_filter (\<lambda>t. t \<noteq> []) env_var) stored"

definition to_unix :: "(nat \<Rightarrow> nat \<Rightarrow> nat \<Rightarrow> int option) \<Rightarrow> string \<Rightarrow> int option" where
  "to_unix midnight s0 = (let s = trim s0 in
     if length s = 8 \<and> list_all is_ascii_digit s
     then (let y = opt_or (parse_dec (slice 0 4 s)) 0 in
       case parse_dec (slice 4 6 s) of None \<Rightarrow> None | Some m \<Rightarrow>
       (case parse_dec (slice 6 8 s) of None \<Rightarrow> None | Some d \<Rightarrow> midnight y m d))
     else parse_i64 s)"

definition parse_since :: "(nat \<Rightarrow> nat \<Rightarrow> nat \<Rightarrow> int option) \<Rightarrow> string \<Rightarrow> string option" where
  "parse_since midnight s = map_option (\<lambda>_. trim s) (to_unix midnight s)"

section \<open>Rows from the pull interface\<close>

definition row_from_pull :: "pull_message \<Rightarrow> row" where
  "row_from_pull m = \<lparr>rw_platform_message_id = cg_platform_message_id m, rw_sender = cg_sender m,
     rw_account_name = cg_account_name m, rw_group_nickname = cg_group_nickname m, rw_timestamp = cg_timestamp m,
     rw_msg_type = cg_type m, rw_content = cg_content m, rw_reply_to_message_id = cg_reply_to_message_id m,
     rw_media_file_name = opt_filter (\<lambda>s. s \<noteq> []) (map_option bf_file_name (cg_media m)),
     rw_media_type = map_option bf_type (cg_media m)\<rparr>"

section \<open>Media of a page\<close>

type_synonym media_dir = "string \<Rightarrow> bytes option"

datatype media_answer = Media_Bytes bytes | Media_Missing | Media_Failed string

record media_client =
  mc_bytes :: "string \<Rightarrow> media_answer"
  mc_mkdir :: "string option"
  mc_write :: "string \<Rightarrow> (string \<times> nat) option"
  mc_messages :: "int \<Rightarrow> int \<Rightarrow> nat \<Rightarrow> string + chatlab_message list \<times> bool"
  mc_lower :: "string \<Rightarrow> string"

text \<open>A write that fails leaves the bytes written so far.\<close>

definition fetch_one_handle :: "media_client \<Rightarrow> string \<Rightarrow> media_dir \<Rightarrow> media_dir \<times> (string + string option)" where
  "fetch_one_handle client name d = (if d name \<noteq> None then (d, Inr (Some name)) else
     (case mc_bytes client name of
        Media_Missing \<Rightarrow> (d, Inr None)
      | Media_Failed e \<Rightarrow> (d, Inl e)
      | Media_Bytes bs \<Rightarrow> (case mc_mkdir client of Some e \<Rightarrow> (d, Inl e) | None \<Rightarrow>
          (case mc_write client name of
             Some (e, k) \<Rightarrow> (d(name := Some (take k bs)), Inl e)
           | None \<Rightarrow> (d(name := Some bs), Inr (Some name))))))"

record media_state =
  ms_dir :: media_dir
  ms_by_message :: "(string, string) hashmap"
  ms_landed :: "(string, string) hashmap"
  ms_rejected :: "string list"

text \<open>A name that is known by now, or is fetched: the common end of both ways.\<close>

definition land_handle :: "media_client \<Rightarrow> string \<Rightarrow> string \<Rightarrow> media_state \<Rightarrow> media_state \<times> (string + unit)" where
  "land_handle client ident name s = (let folded = mc_lower client name in
     case hm_get (ms_landed s) folded of
       Some known \<Rightarrow> (s\<lparr>ms_by_message := hm_insert ident known (ms_by_message s)\<rparr>, Inr ())
     | None \<Rightarrow> (case fetch_one_handle client name (ms_dir s) of
         (d, Inl e) \<Rightarrow> (s\<lparr>ms_dir := d\<rparr>, Inl e)
       | (d, Inr None) \<Rightarrow> (s\<lparr>ms_dir := d\<rparr>, Inr ())
       | (d, Inr (Some landed)) \<Rightarrow> (s\<lparr>ms_dir := d, ms_landed := hm_insert folded landed (ms_landed s),
             ms_by_message := hm_insert ident landed (ms_by_message s)\<rparr>, Inr ())))"

text \<open>The rows that come with a handle; the rest is left for the message interface.\<close>

definition usable_handle :: "pull_message \<Rightarrow> string option" where
  "usable_handle m = opt_filter safe_segment (opt_filter (\<lambda>s. s \<noteq> []) (pu_media_id m))"

fun fast_path :: "media_client \<Rightarrow> pull_message list \<Rightarrow> media_state \<Rightarrow> media_state \<times> (string + pull_message list)" where
  "fast_path client [] s = (s, Inr [])"
| "fast_path client (m # ms) s = (if cg_media m = None then fast_path client ms s else
     (case usable_handle m of
        None \<Rightarrow> (case fast_path client ms s of (s', Inl e) \<Rightarrow> (s', Inl e) | (s', Inr rest) \<Rightarrow> (s', Inr (m # rest)))
      | Some handle \<Rightarrow> (case land_handle client (cg_platform_message_id m) handle s of
          (s', Inl e) \<Rightarrow> (s', Inl e)
        | (s', Inr _) \<Rightarrow> fast_path client ms s')))"

fun slow_rows :: "media_client \<Rightarrow> chatlab_message list \<Rightarrow> media_state \<Rightarrow> media_state \<times> (string + unit)" where
  "slow_rows client [] s = (s, Inr ())"
| "slow_rows client (m # ms) s = (case cg_media m of None \<Rightarrow> slow_rows client ms s | Some media \<Rightarrow>
     (let name = bf_file_name media in
      if hm_contains (ms_by_message s) (cg_platform_message_id m) \<or> name = [] then slow_rows client ms s
      else if \<not> safe_segment name then slow_rows client ms (s\<lparr>ms_rejected := List.insert (mc_lower client name) (ms_rejected s)\<rparr>)
      else (case land_handle client (cg_platform_message_id m) name s of
          (s', Inl e) \<Rightarrow> (s', Inl e)
        | (s', Inr _) \<Rightarrow> slow_rows client ms s')))"

fun slow_path :: "nat \<Rightarrow> media_client \<Rightarrow> int \<Rightarrow> int \<Rightarrow> nat \<Rightarrow> media_state \<Rightarrow> media_state \<times> (string + unit)" where
  "slow_path 0 client lo hi offset s = (s, Inl ''too many pages'')"
| "slow_path (Suc n) client lo hi offset s = (case mc_messages client lo hi offset of
     Inl e \<Rightarrow> (s, Inl e)
   | Inr (messages, has_more) \<Rightarrow> (case slow_rows client messages s of
       (s', Inl e) \<Rightarrow> (s', Inl e)
     | (s', Inr _) \<Rightarrow> if \<not> has_more \<or> messages = [] then (s', Inr ())
         else slow_path n client lo hi (offset + length messages) s'))"

definition media_for_page :: "nat \<Rightarrow> media_client \<Rightarrow> pull_message list \<Rightarrow> media_dir \<Rightarrow> media_dir \<times> (string + (string, string) hashmap \<times> nat)" where
  "media_for_page n client page d =
     (case fast_path client page \<lparr>ms_dir = d, ms_by_message = [], ms_landed = [], ms_rejected = []\<rparr> of
        (s, Inl e) \<Rightarrow> (ms_dir s, Inl e)
      | (s, Inr need_export) \<Rightarrow> if need_export = [] then (ms_dir s, Inr (ms_by_message s, length (ms_rejected s)))
          else (let lo = Min (set (map cg_timestamp need_export)); hi = Max (set (map cg_timestamp need_export)) in
            case slow_path n client lo hi 0 s of
              (s', Inl e) \<Rightarrow> (ms_dir s', Inl e)
            | (s', Inr _) \<Rightarrow> (ms_dir s', Inr (ms_by_message s', length (ms_rejected s')))))"

text \<open>The handles a reused file names, by a scan for the key, and the conversations whose handles have no bytes.\<close>

definition named_handles :: "string \<Rightarrow> string list" where
  "named_handles body = map (takeWhile (\<lambda>c. c \<noteq> CHR 0x22))
     (drop 1 (split_on ([CHR 0x22] @ ''fileName'' @ [CHR 0x22] @ '':'' @ [CHR 0x22]) body))"

fun dangling_rows :: "dir \<Rightarrow> string list \<Rightarrow> media_dir \<Rightarrow> json list \<Rightarrow> string + string list" where
  "dangling_rows d reused media [] = Inr []"
| "dangling_rows d reused media (row # rows) = (case talker_of row of
     None \<Rightarrow> dangling_rows d reused media rows
   | Some talker \<Rightarrow> if talker \<notin> set reused then dangling_rows d reused media rows else
       (case file_of row of None \<Rightarrow> dangling_rows d reused media rows | Some file \<Rightarrow>
         (case d file of None \<Rightarrow> Inl file | Some body \<Rightarrow>
           (case dangling_rows d reused media rows of Inl e \<Rightarrow> Inl e | Inr rest \<Rightarrow>
             Inr (if list_ex (\<lambda>h. h \<noteq> [] \<and> media h = None) (named_handles body) then talker # rest else rest)))))"

definition reused_dangling_handles :: "(string \<Rightarrow> json option) \<Rightarrow> dir \<Rightarrow> string list \<Rightarrow> media_dir \<Rightarrow> string + string list" where
  "reused_dangling_handles parse_json d reused media = (case d index_name of None \<Rightarrow> Inl index_name | Some text \<Rightarrow>
     (case parse_json text of None \<Rightarrow> Inl index_name | Some v \<Rightarrow>
        dangling_rows d reused media (opt_or (as_array (json_get v ''sessions'')) [])))"

section \<open>The pull loop\<close>

type_synonym pull_server = "int option \<Rightarrow> nat \<Rightarrow> string + pull_message list \<times> pull_sync"

definition page_rows :: "bool \<Rightarrow> (pull_message list \<Rightarrow> string + (string, string) hashmap) \<Rightarrow> pull_message list \<Rightarrow> string + row list" where
  "page_rows with_media media msgs = (if with_media
     then map_sum id (\<lambda>downloaded. map (retain_downloaded_media downloaded \<circ> row_from_pull) msgs) (media msgs)
     else Inr (map row_from_pull msgs))"

text \<open>
  After the first page that cannot be written the loop still asks for the rest; the error is kept and given back at
  the end, unless a later request fails first.
\<close>

definition give_page :: "(pull_message list \<Rightarrow> string + row list) \<Rightarrow> (row list \<Rightarrow> session_writer \<Rightarrow> session_writer \<times> (export_error + unit))
    \<Rightarrow> pull_message list \<Rightarrow> export_error option \<Rightarrow> session_writer \<Rightarrow> session_writer \<times> (string + export_error option)" where
  "give_page rows_of on_page msgs write_err w = (case write_err of Some e \<Rightarrow> (w, Inr (Some e)) | None \<Rightarrow>
     (case rows_of msgs of Inl e \<Rightarrow> (w, Inl e) | Inr rows \<Rightarrow>
       (case on_page rows w of (w', Inl e) \<Rightarrow> (w', Inr (Some e)) | (w', Inr _) \<Rightarrow> (w', Inr None))))"

definition loop_result :: "export_error option \<Rightarrow> export_error + unit" where
  "loop_result write_err = (case write_err of Some e \<Rightarrow> Inl e | None \<Rightarrow> Inr ())"

fun pull_loop :: "nat \<Rightarrow> pull_server \<Rightarrow> (pull_message list \<Rightarrow> string + row list) \<Rightarrow> int option \<Rightarrow> nat
    \<Rightarrow> (row list \<Rightarrow> session_writer \<Rightarrow> session_writer \<times> (export_error + unit)) \<Rightarrow> export_error option
    \<Rightarrow> session_writer \<Rightarrow> session_writer \<times> (export_error + unit)" where
  "pull_loop 0 server rows_of since offset on_page write_err w = (w, Inl (Export_Failure ''too many pages''))"
| "pull_loop (Suc n) server rows_of since offset on_page write_err w = (case server since offset of
     Inl e \<Rightarrow> (w, Inl (Export_Failure e))
   | Inr (msgs, sync) \<Rightarrow> if msgs = [] then (w, loop_result write_err) else
       (case give_page rows_of on_page msgs write_err w of
          (w', Inl e) \<Rightarrow> (w', Inl (Export_Failure e))
        | (w', Inr write_err') \<Rightarrow> if \<not> py_has_more sync then (w', loop_result write_err')
            else pull_loop n server rows_of (Some (py_next_since sync)) (py_next_offset sync) on_page write_err' w'))"

definition export_feed :: "nat \<Rightarrow> bool \<Rightarrow> (nat \<Rightarrow> pull_message list \<Rightarrow> string + (string, string) hashmap)
    \<Rightarrow> (nat \<Rightarrow> string \<Rightarrow> pull_server) \<Rightarrow> int option \<Rightarrow> page_feed" where
  "export_feed n with_media media server since i target on_page w =
     pull_loop n (server i (tg_talker target)) (page_rows with_media (media i)) (map_option (\<lambda>s. s - 1) since) 0 on_page None w"

section \<open>The command\<close>

record export_args =
  ea_session :: "string list"
  ea_since :: "string option"
  ea_format :: string
  ea_resume :: bool
  ea_with_media :: bool

definition format_arg :: "string \<Rightarrow> export_format option" where
  "format_arg s = (if s = ''jsonl'' then Some Jsonl else if s = ''json'' then Some Json else None)"

definition targets_of :: "string list \<Rightarrow> (string \<times> string) list \<Rightarrow> session_target list" where
  "targets_of wanted sessions = (if wanted = []
     then map (\<lambda>(u, name). \<lparr>tg_talker = u, tg_display_name = name\<rparr>) sessions
     else map (\<lambda>t. \<lparr>tg_talker = t, tg_display_name = opt_or (map_of sessions t) []\<rparr>) wanted)"

definition options_of :: "export_args \<Rightarrow> export_format \<Rightarrow> string option \<Rightarrow> export_options" where
  "options_of a format env_var = \<lparr>eo_format = format, eo_resume = ea_resume a, eo_secret = opt_or env_var [],
     eo_with_media = ea_with_media a\<rparr>"

datatype export_exit = Exported export_outcome | Bad_Format | No_Token string | Server_Error string | Bad_Since
  | Round_Failed export_error | Dangling "string list" | Incomplete "string list"

definition run_export :: "run_env \<Rightarrow> (nat \<Rightarrow> nat \<Rightarrow> nat \<Rightarrow> int option) \<Rightarrow> nat \<Rightarrow> (string \<Rightarrow> string + (string \<times> string) list)
    \<Rightarrow> (nat \<Rightarrow> pull_message list \<Rightarrow> string + (string, string) hashmap) \<Rightarrow> (string \<Rightarrow> nat \<Rightarrow> string \<Rightarrow> pull_server) \<Rightarrow> media_dir
    \<Rightarrow> string option \<Rightarrow> (string + string option) \<Rightarrow> export_args \<Rightarrow> dir \<Rightarrow> dir \<times> export_exit" where
  "run_export env midnight n sessions media server media_dir env_var stored a d =
     (case format_arg (ea_format a) of None \<Rightarrow> (d, Bad_Format) | Some format \<Rightarrow>
     (case env_token env_var stored of Inl e \<Rightarrow> (d, No_Token e) | Inr token \<Rightarrow>
     (case sessions token of Inl e \<Rightarrow> (d, Server_Error e) | Inr rows \<Rightarrow>
     (case (case ea_since a of None \<Rightarrow> Some None | Some s \<Rightarrow> map_option Some (to_unix midnight s)) of
        None \<Rightarrow> (d, Bad_Since)
      | Some since \<Rightarrow>
     (case run env (options_of a format env_var) (export_feed n (ea_with_media a) media (server token) since)
         (targets_of (ea_session a) rows) d of
        (d', Inl e) \<Rightarrow> (d', Round_Failed e)
      | (d', Inr out) \<Rightarrow> (let dangling = (if ea_with_media a \<and> xo_reused out \<noteq> []
            then (case reused_dangling_handles (re_parse env) d' (xo_reused out) media_dir of Inr xs \<Rightarrow> xs | Inl _ \<Rightarrow> []) else [])
          in if dangling \<noteq> [] then (d', Dangling dangling)
             else if xo_skipped out \<noteq> [] then (d', Incomplete (xo_skipped out))
             else (d', Exported out)))))))"

section \<open>Every handle has its bytes\<close>

definition media_inv :: "media_dir \<Rightarrow> media_state \<Rightarrow> bool" where
  "media_inv d0 s \<longleftrightarrow> (\<forall>f. d0 f \<noteq> None \<longrightarrow> ms_dir s f = d0 f) \<and> (\<forall>f. ms_dir s f \<noteq> d0 f \<longrightarrow> safe_segment f)
     \<and> (\<forall>ident name. hm_get (ms_by_message s) ident = Some name \<longrightarrow> safe_segment name \<and> ms_dir s name \<noteq> None)
     \<and> (\<forall>folded name. hm_get (ms_landed s) folded = Some name \<longrightarrow> safe_segment name \<and> ms_dir s name \<noteq> None)"

lemma fetch_one_result:
  assumes "fetch_one_handle client name d = (d', res)"
  shows "\<forall>f. d f \<noteq> None \<longrightarrow> d' f = d f" "\<forall>f. d' f \<noteq> d f \<longrightarrow> f = name" "res = Inr (Some x) \<Longrightarrow> x = name \<and> d' name \<noteq> None"
  using assms by (auto simp: fetch_one_handle_def split: if_splits media_answer.splits option.splits)

lemma land_handle_inv:
  assumes "media_inv d0 s" and "safe_segment name" and l: "land_handle client ident name s = (s', res)"
  shows "media_inv d0 s'"
proof (cases "hm_get (ms_landed s) (mc_lower client name)")
  case (Some known)
  then have "safe_segment known \<and> ms_dir s known \<noteq> None" using assms(1) by (auto simp: media_inv_def)
  then show ?thesis using assms(1) l Some by (auto simp: land_handle_def media_inv_def hm_simps split: if_splits)
next
  case None
  obtain d r where f: "fetch_one_handle client name (ms_dir s) = (d, r)" by fastforce
  note r = fetch_one_result [OF f]
  have kept: "\<forall>g. d0 g \<noteq> None \<longrightarrow> d g = d0 g" "\<forall>g. d g \<noteq> d0 g \<longrightarrow> safe_segment g"
    using assms(1,2) r(1,2) unfolding media_inv_def by metis+
  have grown: "ms_dir s g \<noteq> None \<Longrightarrow> d g \<noteq> None" for g using r(1) by metis
  have base: "media_inv d0 (s\<lparr>ms_dir := d\<rparr>)" using assms(1) kept grown by (auto simp: media_inv_def)
  show ?thesis
  proof (cases r)
    case (Inr o')
    show ?thesis
    proof (cases o')
      case (Some x)
      with r(3) Inr have "x = name" "d name \<noteq> None" by simp_all
      with base assms(2) l None f Inr Some show ?thesis by (auto simp: land_handle_def media_inv_def hm_simps split: if_splits)
    qed (use base l None f Inr in \<open>auto simp: land_handle_def\<close>)
  qed (use base l None f in \<open>auto simp: land_handle_def\<close>)
qed

lemma usable_safe: "usable_handle m = Some handle \<Longrightarrow> safe_segment handle"
  by (auto simp: usable_handle_def opt_filter_def split: option.splits if_splits)

lemma fast_path_inv: "fast_path client ms s = (s', res) \<Longrightarrow> media_inv d0 s \<Longrightarrow> media_inv d0 s'"
proof (induction ms arbitrary: s s' res)
  case (Cons m ms)
  show ?case
  proof (cases "usable_handle m")
    case None
    with Cons show ?thesis by (auto split: if_splits prod.splits sum.splits)
  next
    case (Some handle)
    obtain s1 r1 where l: "land_handle client (cg_platform_message_id m) handle s = (s1, r1)" by fastforce
    have "media_inv d0 s1" using land_handle_inv [OF Cons.prems(2) usable_safe [OF Some] l] .
    with Cons l Some show ?thesis by (auto split: if_splits sum.splits)
  qed
qed simp

lemma slow_rows_inv: "slow_rows client ms s = (s', res) \<Longrightarrow> media_inv d0 s \<Longrightarrow> media_inv d0 s'"
proof (induction ms arbitrary: s s' res)
  case (Cons m ms)
  show ?case
  proof (cases "cg_media m")
    case None
    with Cons show ?thesis by auto
  next
    case (Some media)
    let ?name = "bf_file_name media"
    obtain s1 r1 where l: "land_handle client (cg_platform_message_id m) ?name s = (s1, r1)" by fastforce
    have "safe_segment ?name \<Longrightarrow> media_inv d0 s1" using land_handle_inv [OF Cons.prems(2) _ l] .
    moreover have "media_inv d0 (s\<lparr>ms_rejected := x\<rparr>)" for x using Cons.prems(2) by (simp add: media_inv_def)
    ultimately show ?thesis using Cons l Some by (auto simp: Let_def split: if_splits sum.splits)
  qed
qed simp

lemma slow_path_inv: "slow_path n client lo hi offset s = (s', res) \<Longrightarrow> media_inv d0 s \<Longrightarrow> media_inv d0 s'"
proof (induction n arbitrary: offset s s' res)
  case (Suc n)
  then show ?case by (auto split: sum.splits prod.splits if_splits dest: slow_rows_inv)
qed simp

text \<open>
  With media, every file name that stays in a row has its bytes in the export: whatever names the server sends, a row whose
  handle is rewritten names a safe file of the media directory, a row without bytes loses its handle, files that were
  there are not touched, and nothing is written under a name that is not a safe segment.
\<close>

theorem media_handles_have_bytes:
  assumes "media_for_page n client page d = (d', res)"
  shows "(\<forall>f. d' f = d f \<or> d f = None \<and> safe_segment f)
    \<and> (case res of Inr (by_message, _) \<Rightarrow> is_none_or (\<lambda>name. safe_segment name \<and> d' name \<noteq> None)
          (rw_media_file_name (retain_downloaded_media by_message r)) | Inl _ \<Rightarrow> True)"
proof -
  let ?s0 = "\<lparr>ms_dir = d, ms_by_message = [], ms_landed = [], ms_rejected = []\<rparr>"
  have start: "media_inv d ?s0" by (simp add: media_inv_def)
  obtain s r1 where f: "fast_path client page ?s0 = (s, r1)" by fastforce
  have fast: "media_inv d s" using fast_path_inv [OF f start] .
  have "\<exists>s'. media_inv d s' \<and> d' = ms_dir s' \<and> (case res of Inr (by_message, _) \<Rightarrow> by_message = ms_by_message s' | Inl _ \<Rightarrow> True)"
  proof (cases r1)
    case (Inl e)
    then show ?thesis using assms f fast by (auto simp: media_for_page_def)
  next
    case (Inr need)
    show ?thesis
    proof (cases "need = []")
      case True
      then show ?thesis using assms f fast Inr by (auto simp: media_for_page_def)
    next
      case False
      obtain s2 r2 where p: "slow_path n client (Min (set (map cg_timestamp need))) (Max (set (map cg_timestamp need))) 0 s = (s2, r2)"
        by fastforce
      have "media_inv d s2" using slow_path_inv [OF p fast] .
      then show ?thesis using assms f Inr False p by (auto simp: media_for_page_def Let_def split: sum.splits)
    qed
  qed
  then obtain s' where s': "media_inv d s'" "d' = ms_dir s'" "case res of Inr (by_message, _) \<Rightarrow> by_message = ms_by_message s' | Inl _ \<Rightarrow> True"
    by blast
  then show ?thesis
    by (auto simp: media_inv_def retain_downloaded_media_def is_none_or_def split: sum.splits option.splits)
qed

section \<open>Against the server\<close>

text \<open>The pull endpoint of \<open>Chatlab\<close> as the loop meets it: no upper bound, the default page size.\<close>

definition served_message :: "(string, string) hashmap \<Rightarrow> store \<Rightarrow> string \<Rightarrow> message_record \<Rightarrow> pull_message" where
  "served_message handles st ident m = chatlab_message.extend (message_fields st (chatroom_of ident) m)
     (pull_message.fields (pull_media_id handles m))"

definition index_server :: "(string, string) hashmap \<Rightarrow> store \<Rightarrow> string \<Rightarrow> int \<Rightarrow> pull_server" where
  "index_server handles st ident now since offset = (case pull_page st ident now since None 5000 offset of
     (page, sync) \<Rightarrow> Inr (map (served_message handles st ident) page, sync))"

definition exported_row :: "(string, string) hashmap \<Rightarrow> store \<Rightarrow> string \<Rightarrow> message_record \<Rightarrow> row" where
  "exported_row handles st ident m = row_from_pull (served_message handles st ident m)"

lemma exported_row_timestamp [simp]: "rw_timestamp (exported_row handles st ident m) = mr_create_time m"
  by (simp add: exported_row_def row_from_pull_def served_message_def chatlab_message.defs pull_message.defs message_fields_def)

lemma put_rows_lines:
  assumes "si_write io = (\<lambda>_. None)"
  shows "sw_format w = Jsonl \<Longrightarrow> sw_sink w = Lines t \<Longrightarrow> list_all (\<lambda>r. checked show_json (sw_secret w) (show_json (message_line r))) rows
    \<Longrightarrow> put_rows show_json io rows w = (w\<lparr>sw_sink := Lines (t @ unlines (map (show_json \<circ> message_line) rows)),
          sw_count := sw_count w + length rows\<rparr>, Inr ())"
proof (induction rows arbitrary: w t)
  case (Cons r rs)
  let ?w = "w\<lparr>sw_sink := Lines (t @ show_json (message_line r) @ [lf]), sw_count := Suc (sw_count w)\<rparr>"
  have "put_rows show_json io (r # rs) w = put_rows show_json io rs ?w"
    using Cons.prems assms by (simp add: note_member_def put_line_def checked_def)
  also have "\<dots> = (?w\<lparr>sw_sink := Lines ((t @ show_json (message_line r) @ [lf]) @ unlines (map (show_json \<circ> message_line) rs)),
      sw_count := sw_count ?w + length rs\<rparr>, Inr ())"
    by (rule Cons.IH) (use Cons.prems in simp_all)
  finally show ?case by (simp add: comp_def del: put_rows.simps)
qed simp

lemma unlines_append [simp]: "unlines (xs @ ys) = unlines xs @ unlines ys"
  by (simp add: unlines_def)

lemma sorted_map_mono: "sorted (map f xs) \<Longrightarrow> (\<And>x y. f x \<le> f y \<Longrightarrow> g x \<le> g y) \<Longrightarrow> sorted (map g xs)"
  for f :: "'a \<Rightarrow> 'b :: linorder" and g :: "'a \<Rightarrow> 'c :: linorder"
  unfolding sorted_wrt_map by (erule sorted_wrt_mono_rel [rotated]) auto

lemma sorted_pages:
  assumes "sorted (map mr_create_time (xs @ ys))" and "mset (map rw_timestamp R) = mset (map mr_create_time ys)" and "sorted (map rw_timestamp R)"
  shows "sorted (map rw_timestamp (sort_key (\<lambda>r. (rw_timestamp r, rw_platform_message_id r)) (map (exported_row handles st ident) xs) @ R))"
proof -
  let ?S = "sort_key (\<lambda>r. (rw_timestamp r, rw_platform_message_id r)) (map (exported_row handles st ident) xs)"
  have "sorted (map rw_timestamp ?S)"
    by (rule sorted_map_mono [OF sorted_sort_key]) (auto simp: less_eq_prod_def)
  moreover have "a \<le> b" if "a \<in> set (map rw_timestamp ?S)" "b \<in> set (map rw_timestamp R)" for a b
  proof -
    have "a \<in> mr_create_time ` set xs" using that(1) by (auto simp: image_image)
    moreover have "b \<in> mr_create_time ` set ys" using that(2) mset_eq_setD [OF assms(2)] by (simp add: image_image)
    ultimately show ?thesis using assms(1) by (auto simp: sorted_append)
  qed
  ultimately show ?thesis using assms(3) by (auto simp: sorted_append)
qed

lemma pull_loop_rows:
  assumes ct: "\<forall>m\<in>set (conversation st ident). i64_min < mr_create_time m" and io: "si_write io = (\<lambda>_. None)"
    and ok: "\<forall>m\<in>set (conversation st ident). checked show_json secret (show_json (message_line (exported_row handles st ident m)))"
  shows "is_none_or (\<lambda>s. i64_min \<le> s) since \<Longrightarrow> length (ascending st ident since None) < n
    \<Longrightarrow> sw_format w = Jsonl \<Longrightarrow> sw_sink w = Lines t \<Longrightarrow> sw_secret w = secret
    \<Longrightarrow> \<exists>R. mset R = mset (map (exported_row handles st ident) (ascending st ident since None)) \<and> sorted (map rw_timestamp R)
      \<and> pull_loop n (index_server handles st ident now) (page_rows False media) since 0 (put_page show_json io) None w
        = (w\<lparr>sw_sink := Lines (t @ unlines (map (show_json \<circ> message_line) R)), sw_count := sw_count w + length R\<rparr>, Inr ())"
proof (induction n arbitrary: since w t)
  case (Suc n)
  let ?row = "exported_row handles st ident"
  let ?r = "pull_page st ident now since None 5000 0" and ?rows = "ascending st ident since None"
  let ?page = "fst ?r"
  let ?key = "\<lambda>r. (rw_timestamp r, rw_platform_message_id r)"
  let ?S = "sort_key ?key (map ?row ?page)"
  have row: "row_from_pull \<circ> served_message handles st ident = ?row" by (simp add: fun_eq_iff exported_row_def)
  have sorted: "sorted (map mr_create_time ?rows)"
    unfolding ascending_def by (rule sorted_map_mono [OF sorted_sort_key]) (auto simp: sort_pos_def less_eq_prod_def)
  have in_conv: "set ?rows \<subseteq> set (conversation st ident)" by (auto simp: ascending_def)
  have pfx: "?page = take (length ?page) ?rows" using take_page_length [of 5000 0 None ?rows] by (simp add: pull_page_def Let_def)
  then have in_page: "set ?page \<subseteq> set (conversation st ident)" using in_conv by (metis order_trans set_take_subset)
  let ?w = "w\<lparr>sw_sink := Lines (t @ unlines (map (show_json \<circ> message_line) ?S)), sw_count := sw_count w + length ?page\<rparr>"
  have put: "put_page show_json io (map ?row ?page) w = (?w, Inr ())"
    using put_rows_lines [OF io Suc.prems(3,4), of show_json ?S] ok in_page Suc.prems(5) by (auto simp: put_page_def list_all_iff)
  have give: "give_page (page_rows False media) (put_page show_json io) (map (served_message handles st ident) ?page) None w = (?w, Inr None)"
    by (simp add: give_page_def page_rows_def row put)
  have served: "index_server handles st ident now since 0 = Inr (map (served_message handles st ident) ?page, snd ?r)"
    by (simp add: index_server_def split_beta)
  show ?case
  proof (cases "py_has_more (snd ?r)")
    case False
    then have all: "?page = ?rows" using take_page_length [of 5000 0 None ?rows] by (simp add: pull_page_def Let_def)
    show ?thesis
    proof (cases "?page = []")
      case True
      then have "?rows = []" using all by simp
      then show ?thesis using True Suc.prems(4) by (intro exI [of _ "[]"]) (simp add: served loop_result_def)
    next
      case ne: False
      have "sorted (map rw_timestamp (?S @ []))" by (rule sorted_pages [of ?page "[]"]) (use sorted all in simp_all)
      then show ?thesis using ne False give
        by (intro exI [of _ ?S]) (simp add: served loop_result_def all [symmetric] comp_def)
    qed
  next
    case True
    note f = pull_page_first [OF True Suc.prems(1) ct, unfolded Let_def]
    let ?since = "Some (py_next_since (snd ?r))"
    have rest: "ascending st ident ?since None = drop (length ?page) ?rows" using f by blast
    have less: "length (ascending st ident ?since None) < n" using f Suc.prems(2) by (cases ?page) auto
    have lower: "is_none_or (\<lambda>s. i64_min \<le> s) ?since" using f by simp
    have w: "sw_format ?w = Jsonl" "sw_sink ?w = Lines (t @ unlines (map (show_json \<circ> message_line) ?S))" "sw_secret ?w = secret"
      using Suc.prems(3,5) by simp_all
    from Suc.IH [OF lower less w] obtain R where R: "mset R = mset (map ?row (drop (length ?page) ?rows))" "sorted (map rw_timestamp R)"
      "pull_loop n (index_server handles st ident now) (page_rows False media) ?since 0 (put_page show_json io) None ?w
        = (?w\<lparr>sw_sink := Lines ((t @ unlines (map (show_json \<circ> message_line) ?S)) @ unlines (map (show_json \<circ> message_line) R)),
             sw_count := sw_count ?w + length R\<rparr>, Inr ())"
      unfolding rest by blast
    have split: "?page @ drop (length ?page) ?rows = ?rows" using pfx by (metis append_take_drop_id)
    have "mset (?S @ R) = mset (map ?row (?page @ drop (length ?page) ?rows))" using R(1) by simp
    moreover have "sorted (map rw_timestamp (?S @ R))"
    proof (rule sorted_pages [of ?page "drop (length ?page) ?rows"])
      show "sorted (map mr_create_time (?page @ drop (length ?page) ?rows))" using sorted unfolding split .
      have "image_mset rw_timestamp (mset R) = image_mset mr_create_time (mset (drop (length ?page) ?rows))"
        unfolding R(1) by (simp add: image_mset.compositionality comp_def)
      then show "mset (map rw_timestamp R) = mset (map mr_create_time (drop (length ?page) ?rows))" by simp
    qed (rule R(2))
    moreover have "?page \<noteq> []" "py_next_offset (snd ?r) = 0" using f by auto
    ultimately show ?thesis
      using True give R(3) unfolding split by (intro exI [of _ "?S @ R"]) (simp add: served comp_def add.assoc)
  qed
qed simp

lemma pull_loop_only:
  assumes "\<forall>rows w. P w \<longrightarrow> P (fst (on_page rows w))"
  shows "P w \<Longrightarrow> P (fst (pull_loop n server rows_of since offset on_page write_err w))"
proof (induction n arbitrary: since offset write_err w)
  case (Suc n)
  have "P w' \<Longrightarrow> P (fst (give_page rows_of on_page msgs write_err w'))" for msgs w'
    using assms by (auto simp: give_page_def split: option.splits sum.splits prod.splits) (metis fst_conv)+
  then have give: "give_page rows_of on_page msgs write_err w = (w', r) \<Longrightarrow> P w'" for msgs w' r
    using Suc.prems by (metis fst_conv)
  then show ?case using Suc by (auto split: sum.splits prod.splits if_splits)
qed simp

lemma export_feed_only: "only_pages (export_feed n with_media media server since)"
  unfolding only_pages_def export_feed_def using pull_loop_only by blast

text \<open>
  C14. What the command exports is what the server has: when nothing fails, the session's file is the header and one line for
  each message of the conversation at or after the start, in time order, each message once, however many
  pages the pull takes; a request for each message and one more is enough.
\<close>

theorem cli_exports_conversation:
  assumes ct: "\<forall>m\<in>set (conversation st (tg_talker target)). i64_min < mr_create_time m"
    and lower: "is_none_or (\<lambda>s. i64_min < s) since" and fuel: "length (conversation st (tg_talker target)) < n"
    and io: "re_io env i = smooth_io\<lparr>si_now := now\<rparr>" and fmt: "eo_format opts = Jsonl"
    and header: "checked (re_show env) (eo_secret opts) (re_show env (header_line now target))"
    and rows: "\<forall>m\<in>set (conversation st (tg_talker target)). checked (re_show env) (eo_secret opts)
      (re_show env (message_line (exported_row handles st (tg_talker target) m)))"
    and server: "server i (tg_talker target) = index_server handles st (tg_talker target) clock"
  shows "\<exists>R r'. write_session env opts (export_feed n False media server since) i target stem r = (r', None)
    \<and> rn_dir r' (path_of stem Jsonl) = Some (unlines (re_show env (header_line now target) # map (re_show env \<circ> message_line) R))
    \<and> rn_written r' = rn_written r @ [path_of stem Jsonl] \<and> rn_total r' = rn_total r + length R
    \<and> mset R = mset (map (exported_row handles st (tg_talker target))
        (filter (\<lambda>m. is_none_or (\<lambda>s. s \<le> mr_create_time m) since) (conversation st (tg_talker target))))
    \<and> sorted (map rw_timestamp R)"
proof -
  let ?show = "re_show env" and ?secret = "eo_secret opts" and ?ident = "tg_talker target"
  let ?io = "smooth_io\<lparr>si_now := now\<rparr>" and ?since = "map_option (\<lambda>s. s - 1) since"
  let ?w = "\<lparr>sw_stem = stem, sw_format = Jsonl, sw_secret = ?secret, sw_sink = Lines (?show (header_line now target) @ [lf]),
    sw_count = 0, sw_members = [], sw_seen = []\<rparr>"
  have smooth: "si_mkdir ?io = None" "si_create ?io = None" "si_write ?io = (\<lambda>_. None)" "si_flush ?io = None" "si_rename ?io = None" "si_now ?io = now"
    by (simp_all add: smooth_io_def)
  have b: "begin_session ?show ?io target opts stem (rn_dir r) = (rn_dir r, Inr ?w)"
    using header by (simp add: begin_session_def smooth fmt put_line_def checked_def)
  have lo: "is_none_or (\<lambda>s. i64_min \<le> s) ?since" using lower by (cases since) (auto simp: is_none_or_def)
  have "length (ascending st ?ident ?since None) < n"
    using fuel by (simp add: ascending_def) (meson le_less_trans length_filter_le)
  then obtain R where R: "mset R = mset (map (exported_row handles st ?ident) (ascending st ?ident ?since None))" "sorted (map rw_timestamp R)"
    "pull_loop n (index_server handles st ?ident clock) (page_rows False (media i)) ?since 0 (put_page ?show ?io) None ?w
      = (?w\<lparr>sw_sink := Lines ((?show (header_line now target) @ [lf]) @ unlines (map (?show \<circ> message_line) R)), sw_count := sw_count ?w + length R\<rparr>, Inr ())"
    using pull_loop_rows [OF ct smooth(3) rows lo, of n ?w "?show (header_line now target) @ [lf]" clock "media i"] by force
  let ?text = "(?show (header_line now target) @ [lf]) @ unlines (map (?show \<circ> message_line) R)"
  have fetch: "export_feed n False media server since i target (put_page ?show ?io) ?w
      = (?w\<lparr>sw_sink := Lines ?text, sw_count := sw_count ?w + length R\<rparr>, Inr ())"
    using R(3) by (simp only: export_feed_def server)
  have fin: "finish_session ?show ?io (?w\<lparr>sw_sink := Lines ?text, sw_count := sw_count ?w + length R\<rparr>) (rn_dir r)
      = ((rn_dir r)(part_of stem Jsonl := None, path_of stem Jsonl := Some ?text), Inr (length R, path_of stem Jsonl))"
    by (simp add: finish_session_def finish_inner_def smooth Let_def)
  have same: "is_none_or (\<lambda>s. mr_create_time m > s) ?since \<longleftrightarrow> is_none_or (\<lambda>s. s \<le> mr_create_time m) since" for m
    by (cases since) (auto simp: is_none_or_def)
  have none: "is_none_or f None = True" for f :: "int \<Rightarrow> bool" by (simp add: is_none_or_def)
  have "ascending st ?ident ?since None
      = sort_key sort_pos (filter (\<lambda>m. is_none_or (\<lambda>s. s \<le> mr_create_time m) since) (conversation st ?ident))"
    by (simp only: ascending_def same none simp_thms)
  then have m: "mset R = mset (map (exported_row handles st ?ident)
      (filter (\<lambda>m. is_none_or (\<lambda>s. s \<le> mr_create_time m) since) (conversation st ?ident)))"
    using R(1) by simp
  show ?thesis
    by (rule exI [of _ R]) (use b fetch fin m R(2) in \<open>simp add: write_session_def Let_def io\<close>)
qed


theorem cli_exports_conversation_witness:
  "\<exists>r'. write_session (demo_run_env None) demo_options
      (export_feed 4 False (\<lambda>_ _. Inl []) (\<lambda>_ _. index_server [] demo_store ''g@chatroom'' 100) (Some 11)) 0
      \<lparr>tg_talker = ''g@chatroom'', tg_display_name = ''Team''\<rparr> ''Team''
      \<lparr>rn_dir = Map.empty, rn_taken = [], rn_written = [], rn_reused = [], rn_skipped = [], rn_total = 0, rn_rows = [], rn_files = []\<rparr> = (r', None)
    \<and> rn_total r' = 2"
proof -
  let ?t = "\<lparr>tg_talker = ''g@chatroom'', tg_display_name = ''Team''\<rparr>" and ?conv = "conversation demo_store ''g@chatroom''"
  let ?env = "demo_run_env None" and ?f = "filter (\<lambda>m. is_none_or (\<lambda>s. s \<le> mr_create_time m) (Some 11)) (conversation demo_store ''g@chatroom'')"
  have c: "list_all (\<lambda>m. i64_min < mr_create_time m) ?conv" "length ?conv < 4" "is_none_or (\<lambda>s. i64_min < s) (Some (11 :: int))"
    "eo_format demo_options = Jsonl" "length ?f = 2" by code_simp+
  have h: "checked (re_show ?env) (eo_secret demo_options) (re_show ?env (header_line 7 ?t))" by code_simp
  have rows: "list_all (\<lambda>m. checked (re_show ?env) (eo_secret demo_options) (re_show ?env (message_line (exported_row [] demo_store ''g@chatroom'' m)))) ?conv"
    by code_simp
  have io: "re_io ?env 0 = smooth_io\<lparr>si_now := 7\<rparr>" by (simp add: demo_run_env_def smooth_io_def)
  let ?srv = "\<lambda>(i :: nat) (t :: string). index_server [] demo_store ''g@chatroom'' 100"
  let ?r = "\<lparr>rn_dir = Map.empty, rn_taken = [], rn_written = [], rn_reused = [], rn_skipped = [], rn_total = 0, rn_rows = [], rn_files = []\<rparr>"
  have srv: "?srv 0 (tg_talker ?t) = index_server [] demo_store (tg_talker ?t) 100" by simp
  obtain R r' where R: "write_session ?env demo_options (export_feed 4 False (\<lambda>_ _. Inl []) ?srv (Some 11)) 0 ?t ''Team'' ?r = (r', None)"
    "rn_total r' = rn_total ?r + length R" "mset R = mset (map (exported_row [] demo_store ''g@chatroom'') ?f)"
    using cli_exports_conversation [OF _ c(3) _ io c(4) h _ srv, of 4 "\<lambda>_ _. Inl []" "''Team''" ?r] c(1,2) rows
    by (auto simp: list_all_iff)
  have "length R = 2" using arg_cong [OF R(3), of size] c(5) by (simp only: size_mset length_map)
  with R(1,2) show ?thesis by simp
qed

theorem media_handles_have_bytes_witness:
  "let client = \<lparr>mc_bytes = (\<lambda>h. if h = ''a.jpg'' then Media_Bytes [1] else Media_Missing), mc_mkdir = None, mc_write = (\<lambda>_. None),
         mc_messages = (\<lambda>_ _ _. Inr ([], False)), mc_lower = id\<rparr>;
       message = \<lambda>i h. chatlab_message.extend \<lparr>cg_account_name = [], cg_content = [], cg_group_nickname = [],
         cg_media = Some \<lparr>bf_file_name = ''x'', bf_md5 = None, bf_type = ''image''\<rparr>, cg_platform_message_id = i,
         cg_reply_to_message_id = None, cg_sender = [], cg_timestamp = 5, cg_type = 1\<rparr> (pull_message.fields (Some h));
       r = media_for_page 1 client [message ''1'' ''a.jpg'', message ''2'' ''b.jpg'', message ''3'' ''../c''] Map.empty
   in snd r = Inr ([(''1'', ''a.jpg'')], 0) \<and> fst r ''a.jpg'' \<noteq> None \<and> fst r ''../c'' = None"
proof -
  let ?client = "\<lparr>mc_bytes = (\<lambda>h. if h = ''a.jpg'' then Media_Bytes [1] else Media_Missing), mc_mkdir = None, mc_write = (\<lambda>_. None),
         mc_messages = (\<lambda>_ _ _. Inr ([], False)), mc_lower = id\<rparr>"
  let ?message = "\<lambda>i h. chatlab_message.extend \<lparr>cg_account_name = [], cg_content = [], cg_group_nickname = [],
         cg_media = Some \<lparr>bf_file_name = ''x'', bf_md5 = None, bf_type = ''image''\<rparr>, cg_platform_message_id = i,
         cg_reply_to_message_id = None, cg_sender = [], cg_timestamp = 5, cg_type = 1\<rparr> (pull_message.fields (Some h))"
  let ?r = "media_for_page 1 ?client [?message ''1'' ''a.jpg'', ?message ''2'' ''b.jpg'', ?message ''3'' ''../c''] Map.empty"
  have s: "snd ?r = Inr ([(''1'', ''a.jpg'')], 0)" by code_simp
  let ?row = "(demo_row [])\<lparr>rw_media_file_name := Some ''x''\<rparr>"
  have "rw_media_file_name (retain_downloaded_media [(''1'', ''a.jpg'')] ?row) = Some ''a.jpg''" by code_simp
  with media_handles_have_bytes [OF prod.collapse [symmetric], of 1 ?client "[?message ''1'' ''a.jpg'', ?message ''2'' ''b.jpg'', ?message ''3'' ''../c'']" Map.empty ?row] s
  have "fst ?r ''a.jpg'' \<noteq> None" by (simp add: is_none_or_def)
  moreover have "fst ?r ''../c'' = None" by code_simp
  ultimately show ?thesis using s unfolding Let_def by (intro conjI)
qed

section \<open>Where the token check is lost\<close>

text \<open>
  The check misses in two cases. A token that comes from the credential store is not what the lines are
  compared with, so a message that quotes it is exported; and when a line with the token is refused but a later page
  cannot be fetched, the round goes on and only reports the conversation as skipped.
\<close>

theorem token_check_is_lost:
  "(\<exists>server d out text. run_export (demo_run_env None) (\<lambda>_ _ _. None) 2 (\<lambda>token. Inr [(''g'', ''Team'')]) (\<lambda>_ _. Inl []) server Map.empty
       None (Inr (Some ''secret-token'')) \<lparr>ea_session = [], ea_since = None, ea_format = ''jsonl'', ea_resume = False, ea_with_media = False\<rparr>
       Map.empty = (d, Exported out) \<and> d ''Team.jsonl'' = Some text \<and> contains_sub ''secret-token'' text)
   \<and> (\<exists>server d. run_export (demo_run_env None) (\<lambda>_ _ _. None) 2 (\<lambda>token. Inr [(''g'', ''Team'')]) (\<lambda>_ _. Inl []) server Map.empty
       (Some ''secret-token'') (Inr None) \<lparr>ea_session = [], ea_since = None, ea_format = ''jsonl'', ea_resume = False, ea_with_media = False\<rparr>
       Map.empty = (d, Incomplete [''g'']) \<and> d ''Team.jsonl'' = None)"
proof -
  let ?message = "chatlab_message.extend \<lparr>cg_account_name = [], cg_content = ''use secret-token'', cg_group_nickname = [],
         cg_media = None, cg_platform_message_id = ''1'', cg_reply_to_message_id = None, cg_sender = [], cg_timestamp = 5, cg_type = 0\<rparr>
         (pull_message.fields None)"
  let ?sync = "\<lambda>more. \<lparr>py_has_more = more, py_next_offset = 0, py_next_since = 5, py_watermark = 9\<rparr>"
  let ?one = "\<lambda>(token :: string) (i :: nat) (t :: string) (since :: int option) (offset :: nat).
    (Inr ([?message], ?sync False) :: string + pull_message list \<times> pull_sync)"
  let ?two = "\<lambda>(token :: string) (i :: nat) (t :: string) (since :: int option) (offset :: nat).
    (if since = None then Inr ([?message], ?sync True) else Inl ''timeout'' :: string + pull_message list \<times> pull_sync)"
  let ?args = "\<lparr>ea_session = [], ea_since = None, ea_format = ''jsonl'', ea_resume = False, ea_with_media = False\<rparr>"
  let ?run = "\<lambda>server env_var stored. run_export (demo_run_env None) (\<lambda>_ _ _. None) 2 (\<lambda>token. Inr [(''g'', ''Team'')])
    (\<lambda>_ _. Inl []) server Map.empty env_var stored ?args Map.empty"
  have a: "snd (?run ?one None (Inr (Some ''secret-token''))) = Exported \<lparr>xo_written = [''Team.jsonl''], xo_reused = [], xo_skipped = [], xo_messages = 1\<rparr>"
    "is_some_and (contains_sub ''secret-token'') (fst (?run ?one None (Inr (Some ''secret-token''))) ''Team.jsonl'')" by code_simp+
  have b: "snd (?run ?two (Some ''secret-token'') (Inr None)) = Incomplete [''g'']" "fst (?run ?two (Some ''secret-token'') (Inr None)) ''Team.jsonl'' = None"
    by code_simp+
  obtain text' where t: "fst (?run ?one None (Inr (Some ''secret-token''))) ''Team.jsonl'' = Some text'" "contains_sub ''secret-token'' text'"
    using a(2) by (auto simp: is_some_and_def split: option.splits)
  show ?thesis
  proof
    show "\<exists>server d out text. ?run server None (Inr (Some ''secret-token'')) = (d, Exported out) \<and> d ''Team.jsonl'' = Some text \<and> contains_sub ''secret-token'' text"
      using a(1) t by (intro exI [of _ ?one] exI [of _ "fst (?run ?one None (Inr (Some ''secret-token'')))"] exI conjI) (rule prod_eqI, simp_all)
    show "\<exists>server d. ?run server (Some ''secret-token'') (Inr None) = (d, Incomplete [''g'']) \<and> d ''Team.jsonl'' = None"
      using b by (intro exI [of _ ?two] exI [of _ "fst (?run ?two (Some ''secret-token'') (Inr None))"] conjI) (rule prod_eqI, simp_all)
  qed
qed

end
