(* ===== verification/Client.thy ===== *)
theory Client
  imports Chat_Export Routes
begin

text \<open>
  The client library (\<open>clients/rust/src/client.rs\<close>): requests, their parameters and answers, the two loops over pages,
  registration and waiting, and media. A request goes through \<open>send\<close>, the network with the server behind it, which
  carries a world along; reading a body as a type is a \<open>readers\<close> entry. The records of the answers are the server's:
  both sides are generated from one description. The client's event stream is in \<open>Client_Stream\<close>.
\<close>

section \<open>Errors and requests\<close>

datatype client_error = Bad_Status nat string | Transport string | Wrong_Shape string | Not_Ready nat string
  | Bad_Date string string | Unexpected_Body string string | Refused string string
  | Unknown_Account string "string list"

record request =
  rq_method :: http_method
  rq_url :: string
  rq_query :: params
  rq_bearer :: "string option"
  rq_body :: "json option"
  rq_long :: bool

text \<open>What comes back: nothing, or a status with a body that arrives or breaks off. The bodies are of any type \<open>'b\<close>.\<close>

type_synonym 'b http_response = "nat \<times> (string + 'b)"
type_synonym ('w, 'b) net = "request \<Rightarrow> 'w \<Rightarrow> 'w \<times> (string + 'b http_response)"

record 'b readers =
  rd_health :: "'b \<Rightarrow> string + health_dto"
  rd_accounts :: "'b \<Rightarrow> string + accounts_list"
  rd_json :: "'b \<Rightarrow> string + json"
  rd_sync :: "'b \<Rightarrow> string + sync_result"
  rd_pull :: "'b \<Rightarrow> string + pull_envelope"
  rd_sessions :: "'b \<Rightarrow> string + sessions_native"
  rd_native :: "'b \<Rightarrow> string + messages_native"
  rd_chatlab :: "'b \<Rightarrow> string + chatlab_messages"
  rd_contacts :: "'b \<Rightarrow> string + contacts_dto"
  rd_members :: "'b \<Rightarrow> string + group_members"

record client =
  cn_base_url :: string
  cn_token :: string

definition client_new :: "string \<Rightarrow> string \<Rightarrow> client" where
  "client_new base_url token = \<lparr>cn_base_url = trim_end_matches (\<lambda>c. c = CHR ''/'') base_url, cn_token = token\<rparr>"

definition url :: "client \<Rightarrow> string \<Rightarrow> string" where
  "url c path = cn_base_url c @ path"

text \<open>A \<open>BTreeMap\<close> of parameters is sent in the order of its keys.\<close>

definition get_request :: "client \<Rightarrow> bool \<Rightarrow> string \<Rightarrow> params \<Rightarrow> request" where
  "get_request c long path query = \<lparr>rq_method = Get, rq_url = url c path, rq_query = sort_key fst query,
     rq_bearer = Some (cn_token c), rq_body = None, rq_long = long\<rparr>"

definition decode :: "('b \<Rightarrow> string + 'a) \<Rightarrow> 'b http_response \<Rightarrow> string \<Rightarrow> client_error + 'a" where
  "decode read resp u = (let (status, body) = resp in
     if \<not> (200 \<le> status \<and> status < 300) then Inl (Bad_Status status u)
     else (case body of Inl e \<Rightarrow> Inl (Transport e)
       | Inr text \<Rightarrow> (case read text of Inl e \<Rightarrow> Inl (Wrong_Shape e) | Inr x \<Rightarrow> Inr x)))"

definition decode_bytes :: "'b http_response \<Rightarrow> string \<Rightarrow> client_error + 'b" where
  "decode_bytes resp u = (let (status, body) = resp in
     if \<not> (200 \<le> status \<and> status < 300) then Inl (Bad_Status status u)
     else (case body of Inl e \<Rightarrow> Inl (Transport e) | Inr bytes \<Rightarrow> Inr bytes))"

definition sent :: "('w, 'b) net \<Rightarrow> request \<Rightarrow> ('b http_response \<Rightarrow> string \<Rightarrow> client_error + 'a) \<Rightarrow> 'w \<Rightarrow> 'w \<times> (client_error + 'a)" where
  "sent send rq dec w = (case send rq w of
       (w', Inl e) \<Rightarrow> (w', Inl (Transport e))
     | (w', Inr resp) \<Rightarrow> (w', dec resp (rq_url rq)))"

definition get_json_on :: "('w, 'b) net \<Rightarrow> client \<Rightarrow> bool \<Rightarrow> ('b \<Rightarrow> string + 'a) \<Rightarrow> string \<Rightarrow> params \<Rightarrow> 'w
    \<Rightarrow> 'w \<times> (client_error + 'a)" where
  "get_json_on send c long read path query = sent send (get_request c long path query) (decode read)"

definition get_json :: "('w, 'b) net \<Rightarrow> client \<Rightarrow> ('b \<Rightarrow> string + 'a) \<Rightarrow> string \<Rightarrow> params \<Rightarrow> 'w \<Rightarrow> 'w \<times> (client_error + 'a)" where
  "get_json send c = get_json_on send c False"

section \<open>Parameters\<close>

definition validate_time_bound :: "string \<Rightarrow> string \<Rightarrow> client_error + unit" where
  "validate_time_bound field v = (if v \<noteq> [] \<and> list_all is_ascii_digit v then Inr () else Inl (Bad_Date field v))"

record client_query =
  cq_talker :: string
  cq_keyword :: "string option"
  cq_start :: "string option"
  cq_end :: "string option"
  cq_limit :: "nat option"
  cq_offset :: "nat option"
  cq_media :: bool

definition query_new :: "string \<Rightarrow> client_query" where
  "query_new talker = \<lparr>cq_talker = talker, cq_keyword = None, cq_start = None, cq_end = None, cq_limit = None,
     cq_offset = None, cq_media = False\<rparr>"

definition opt_param :: "string \<Rightarrow> string option \<Rightarrow> params" where
  "opt_param key v = (case v of None \<Rightarrow> [] | Some s \<Rightarrow> [(key, s)])"

definition opt_bound :: "string \<Rightarrow> string option \<Rightarrow> client_error + params" where
  "opt_bound field v = (case v of None \<Rightarrow> Inr []
     | Some s \<Rightarrow> (case validate_time_bound field s of Inl e \<Rightarrow> Inl e | Inr _ \<Rightarrow> Inr [(field, s)]))"

definition query_params :: "client_query \<Rightarrow> string \<Rightarrow> client_error + params" where
  "query_params q endpoint = (if cq_talker q = [] then Inl (Unexpected_Body endpoint ''talker must not be empty'') else
     (case opt_bound ''start'' (cq_start q) of Inl e \<Rightarrow> Inl e | Inr start \<Rightarrow>
     (case opt_bound ''end'' (cq_end q) of Inl e \<Rightarrow> Inl e | Inr till \<Rightarrow>
        Inr ((''talker'', cq_talker q) # opt_param ''keyword'' (cq_keyword q) @ start @ till
          @ opt_param ''limit'' (map_option nat_to_dec (cq_limit q)) @ opt_param ''offset'' (map_option nat_to_dec (cq_offset q))
          @ (if cq_media q then [(''media'', ''1'')] else [])))))"

record contacts_query =
  kq_limit :: "nat option"
  kq_offset :: "nat option"
  kq_keyword :: "string option"

definition is_path_char :: "char \<Rightarrow> bool" where
  "is_path_char c \<longleftrightarrow> is_ascii_alnum c \<or> c \<in> {CHR ''-'', CHR ''_'', CHR ''.'', CHR ''~'', CHR ''@''}"

definition encode_path_segment :: "string \<Rightarrow> string" where
  "encode_path_segment s = concat (map (\<lambda>b. if is_path_char b then [b]
     else [CHR ''%'', hex_upper (of_char b div 16), hex_upper (of_char b mod 16)]) s)"

section \<open>Health, accounts and registration\<close>

definition health :: "('w, 'b) net \<Rightarrow> 'b readers \<Rightarrow> client \<Rightarrow> 'w \<Rightarrow> 'w \<times> (client_error + health_dto)" where
  "health send rd c = sent send \<lparr>rq_method = Get, rq_url = url c ''/health'', rq_query = [], rq_bearer = None,
     rq_body = None, rq_long = False\<rparr> (decode (rd_health rd))"

definition accounts :: "('w, 'b) net \<Rightarrow> 'b readers \<Rightarrow> client \<Rightarrow> 'w \<Rightarrow> 'w \<times> (client_error + account_state_view list)" where
  "accounts send rd c w = (case get_json send c (rd_accounts rd) ''/api/v1/accounts'' [] w of
     (w', r) \<Rightarrow> (w', map_sum id al_accounts r))"

record register_outcome =
  ro_state :: string
  ro_status :: "string option"
  ro_body :: json

definition from_body :: "(json \<Rightarrow> string) \<Rightarrow> string \<Rightarrow> json \<Rightarrow> client_error + register_outcome" where
  "from_body show_json u body = (case as_str (json_get body ''state'') of
       None \<Rightarrow> Inl (Unexpected_Body u (''no string `state` in the body: '' @ show_json body))
     | Some state \<Rightarrow> Inr \<lparr>ro_state = state, ro_status = as_str (json_get body ''status''), ro_body = body\<rparr>)"

definition register :: "(json \<Rightarrow> string) \<Rightarrow> ('w, 'b) net \<Rightarrow> 'b readers \<Rightarrow> client \<Rightarrow> json \<Rightarrow> 'w \<Rightarrow> 'w \<times> (client_error + register_outcome)" where
  "register show_json send rd c body w = (let u = url c ''/api/v1/accounts'' in
     case sent send \<lparr>rq_method = Post, rq_url = u, rq_query = [], rq_bearer = Some (cn_token c), rq_body = Some body,
         rq_long = False\<rparr> (decode (rd_json rd)) w of
       (w', Inl e) \<Rightarrow> (w', Inl e)
     | (w', Inr v) \<Rightarrow> (w', from_body show_json u v))"

definition sync_now :: "('w, 'b) net \<Rightarrow> 'b readers \<Rightarrow> client \<Rightarrow> 'w \<Rightarrow> 'w \<times> (client_error + sync_result)" where
  "sync_now send rd c = sent send \<lparr>rq_method = Post, rq_url = url c ''/api/v1/sync'', rq_query = [],
     rq_bearer = Some (cn_token c), rq_body = None, rq_long = True\<rparr> (decode (rd_sync rd))"

definition refusal_states :: "string list" where
  "refusal_states = [''account_conflict'', ''invalid_key'', ''invalid_db_path'', ''unknown_qq'']"

fun account_status_text :: "account_status \<Rightarrow> string" where
  "account_status_text Awaiting_Key = ''awaiting_key''"
| "account_status_text Indexing = ''indexing''"
| "account_status_text Ready = ''ready''"
| "account_status_text Error = ''error''"

definition last_state_of :: "account_state_view \<Rightarrow> string" where
  "last_state_of a = (let state = account_status_text (av_state a) in case av_progress a of
       Some p \<Rightarrow> state @ '' ('' @ nat_to_dec (pd_tables_done p) @ '' / '' @ nat_to_dec (pd_tables_total p) @ '' tables, ''
         @ nat_to_dec (pd_messages_indexed p) @ '' messages indexed)''
     | None \<Rightarrow> state)"

text \<open>One round of the wait: it ends, or it leaves the last state seen and whether the round was dropped.\<close>

definition wait_round :: "string \<Rightarrow> nat \<Rightarrow> client_error + account_state_view list \<Rightarrow> (client_error + unit) + bool \<times> string" where
  "wait_round wxid timeout listing = (case listing of
       Inr views \<Rightarrow> (case List.find (\<lambda>a. av_wxid a = wxid) views of
           Some a \<Rightarrow> if av_state a = Ready then Inl (Inr ())
             else if av_state a = Error then Inl (Inl (Not_Ready timeout (''error: '' @ opt_or (av_error a) [])))
             else Inr (False, last_state_of a)
         | None \<Rightarrow> Inl (Inl (Unknown_Account wxid (map av_wxid views))))
     | Inl (Transport e) \<Rightarrow> Inr (True, ''unreachable ('' @ e @ '')'')
     | Inl (Bad_Status status u) \<Rightarrow> if 500 \<le> status \<and> status \<le> 599
         then Inr (True, ''server error '' @ nat_to_dec status @ '' on the listing'')
         else Inl (Inl (Bad_Status status u))
     | Inl e \<Rightarrow> Inl (Inl e))"

definition not_ready :: "nat \<Rightarrow> nat \<Rightarrow> string \<Rightarrow> client_error" where
  "not_ready timeout dropped last_state = Not_Ready timeout (if dropped = 0 then last_state
     else last_state @ ''; '' @ nat_to_dec dropped @ '' poll(s) never got through'')"

text \<open>\<open>now\<close> reads the clock of a world in milliseconds and \<open>pause\<close> is the sleep of a quarter of a second; \<open>None\<close> when the rounds are used up.\<close>

fun wait_loop :: "nat \<Rightarrow> ('w, 'b) net \<Rightarrow> 'b readers \<Rightarrow> ('w \<Rightarrow> nat) \<Rightarrow> ('w \<Rightarrow> 'w) \<Rightarrow> client \<Rightarrow> string \<Rightarrow> nat \<Rightarrow> nat \<Rightarrow> nat \<Rightarrow> 'w
    \<Rightarrow> 'w \<times> (client_error + unit) option" where
  "wait_loop 0 send rd now pause c wxid timeout deadline dropped w = (w, None)"
| "wait_loop (Suc n) send rd now pause c wxid timeout deadline dropped w = (case accounts send rd c w of (w', listing) \<Rightarrow>
     (case wait_round wxid timeout listing of
        Inl res \<Rightarrow> (w', Some res)
      | Inr (missed, last_state) \<Rightarrow> (let dropped' = (if missed then Suc dropped else dropped) in
          if deadline \<le> now w' then (w', Some (Inl (not_ready timeout dropped' last_state)))
          else wait_loop n send rd now pause c wxid timeout deadline dropped' (pause w'))))"

definition wait_ready :: "nat \<Rightarrow> ('w, 'b) net \<Rightarrow> 'b readers \<Rightarrow> ('w \<Rightarrow> nat) \<Rightarrow> ('w \<Rightarrow> 'w) \<Rightarrow> client \<Rightarrow> string \<Rightarrow> nat \<Rightarrow> 'w
    \<Rightarrow> 'w \<times> (client_error + unit) option" where
  "wait_ready n send rd now pause c wxid timeout w = wait_loop n send rd now pause c wxid timeout (now w + timeout) 0 w"

definition ensure_ready :: "nat \<Rightarrow> (json \<Rightarrow> string) \<Rightarrow> ('w, 'b) net \<Rightarrow> 'b readers \<Rightarrow> ('w \<Rightarrow> nat) \<Rightarrow> ('w \<Rightarrow> 'w) \<Rightarrow> client \<Rightarrow> string \<Rightarrow> json
    \<Rightarrow> nat \<Rightarrow> 'w \<Rightarrow> 'w \<times> (client_error + unit) option" where
  "ensure_ready n show_json send rd now pause c wxid body timeout w = (case register show_json send rd c body w of
       (w', Inl e) \<Rightarrow> (w', Some (Inl e))
     | (w', Inr outcome) \<Rightarrow> if ro_state outcome \<in> set refusal_states
         then (w', Some (Inl (Refused (ro_state outcome) (url c ''/api/v1/accounts''))))
         else wait_ready n send rd now pause c wxid timeout w')"

section \<open>Pages\<close>

definition pull_params :: "int option \<Rightarrow> nat \<Rightarrow> nat option \<Rightarrow> params" where
  "pull_params since offset limit = opt_param ''since'' (map_option int_to_dec since)
     @ (if offset \<noteq> 0 then [(''offset'', nat_to_dec offset)] else []) @ opt_param ''limit'' (map_option nat_to_dec limit)"

definition pull_path :: "string \<Rightarrow> string" where
  "pull_path talker = ''/api/v1/sessions/'' @ encode_path_segment talker @ ''/messages''"

definition pull_one :: "('w, 'b) net \<Rightarrow> 'b readers \<Rightarrow> client \<Rightarrow> string \<Rightarrow> int option \<Rightarrow> nat \<Rightarrow> nat option \<Rightarrow> 'w
    \<Rightarrow> 'w \<times> (client_error + pull_envelope)" where
  "pull_one send rd c talker since offset limit =
     get_json send c (rd_pull rd) (pull_path talker) (pull_params since offset limit)"

text \<open>\<open>on_page\<close> is the caller's, over a state of its own; \<open>None\<close> when the requests are used up.\<close>

fun drain_session :: "nat \<Rightarrow> ('w, 'b) net \<Rightarrow> 'b readers \<Rightarrow> client \<Rightarrow> string \<Rightarrow> (pull_message list \<Rightarrow> 's \<Rightarrow> 's \<times> (client_error + unit))
    \<Rightarrow> int option \<Rightarrow> nat \<Rightarrow> nat \<Rightarrow> 'w \<Rightarrow> 's \<Rightarrow> 'w \<times> 's \<times> (client_error + nat) option" where
  "drain_session 0 send rd c talker on_page next_since next_offset got w s = (w, s, None)"
| "drain_session (Suc n) send rd c talker on_page next_since next_offset got w s =
     (case pull_one send rd c talker next_since next_offset None w of
        (w', Inl e) \<Rightarrow> (w', s, Some (Inl e))
      | (w', Inr page) \<Rightarrow> (let got' = got + length (pe_messages page) in
          case on_page (pe_messages page) s of
            (s', Inl e) \<Rightarrow> (w', s', Some (Inl e))
          | (s', Inr _) \<Rightarrow> if \<not> py_has_more (pe_sync page) then (w', s', Some (Inr got'))
              else drain_session n send rd c talker on_page (Some (py_next_since (pe_sync page)))
                (py_next_offset (pe_sync page)) got' w' s'))"

text \<open>Sessions not met before; \<open>seen\<close> is the hash set of names.\<close>

fun collapse :: "session_native list \<Rightarrow> session_native list \<Rightarrow> string set \<Rightarrow> session_native list \<times> string set" where
  "collapse [] out seen = (out, seen)"
| "collapse (s # ss) out seen = (if sn_username s \<in> seen then collapse ss out seen
     else collapse ss (out @ [s]) (insert (sn_username s) seen))"

definition list_params :: "nat \<Rightarrow> nat option \<Rightarrow> string option \<Rightarrow> params" where
  "list_params offset per_page keyword = (''offset'', nat_to_dec offset)
     # opt_param ''limit'' (map_option nat_to_dec per_page) @ opt_param ''keyword'' keyword"

fun list_loop :: "nat \<Rightarrow> ('w, 'b) net \<Rightarrow> 'b readers \<Rightarrow> client \<Rightarrow> nat option \<Rightarrow> string option \<Rightarrow> session_native list \<Rightarrow> string set \<Rightarrow> nat
    \<Rightarrow> 'w \<Rightarrow> 'w \<times> (client_error + session_native list) option" where
  "list_loop 0 send rd c per_page keyword out seen offset w = (w, None)"
| "list_loop (Suc n) send rd c per_page keyword out seen offset w =
     (case get_json send c (rd_sessions rd) ''/api/v1/sessions'' (list_params offset per_page keyword) w of
        (w', Inl e) \<Rightarrow> (w', Some (Inl e))
      | (w', Inr page) \<Rightarrow> (let count = length (sl_sessions page); (out', seen') = collapse (sl_sessions page) out seen in
          if count = 0 then (w', Some (Inr out'))
          else list_loop n send rd c per_page keyword out' seen' (offset + count) w'))"

definition list_all_sessions :: "nat \<Rightarrow> ('w, 'b) net \<Rightarrow> 'b readers \<Rightarrow> client \<Rightarrow> nat option \<Rightarrow> string option \<Rightarrow> 'w
    \<Rightarrow> 'w \<times> (client_error + session_native list) option" where
  "list_all_sessions n send rd c per_page keyword w = list_loop n send rd c per_page keyword [] {} 0 w"

definition list_messages :: "('w, 'b) net \<Rightarrow> 'b readers \<Rightarrow> client \<Rightarrow> client_query \<Rightarrow> 'w \<Rightarrow> 'w \<times> (client_error + messages_native)" where
  "list_messages send rd c q w = (case query_params q ''/api/v1/messages'' of Inl e \<Rightarrow> (w, Inl e)
     | Inr p \<Rightarrow> get_json send c (rd_native rd) ''/api/v1/messages'' p w)"

definition chatlab_page :: "('w, 'b) net \<Rightarrow> 'b readers \<Rightarrow> client \<Rightarrow> client_query \<Rightarrow> 'w \<Rightarrow> 'w \<times> (client_error + chatlab_messages)" where
  "chatlab_page send rd c q w = (case query_params q ''/chatlab/messages'' of Inl e \<Rightarrow> (w, Inl e)
     | Inr p \<Rightarrow> get_json send c (rd_chatlab rd) ''/chatlab/messages'' p w)"

definition contacts_list :: "('w, 'b) net \<Rightarrow> 'b readers \<Rightarrow> client \<Rightarrow> contacts_query \<Rightarrow> 'w \<Rightarrow> 'w \<times> (client_error + contacts_dto)" where
  "contacts_list send rd c q = get_json send c (rd_contacts rd) ''/api/v1/contacts''
     (opt_param ''limit'' (map_option nat_to_dec (kq_limit q)) @ opt_param ''offset'' (map_option nat_to_dec (kq_offset q))
      @ opt_param ''keyword'' (kq_keyword q))"

definition group_members_list :: "('w, 'b) net \<Rightarrow> 'b readers \<Rightarrow> client \<Rightarrow> string \<Rightarrow> bool \<Rightarrow> 'w \<Rightarrow> 'w \<times> (client_error + group_members)" where
  "group_members_list send rd c chatroom counts w = (if chatroom = []
     then (w, Inl (Unexpected_Body ''/api/v1/group-members'' ''chatroom must not be empty''))
     else get_json_on send c counts (rd_members rd) ''/api/v1/group-members''
       ((''chatroomId'', chatroom) # (if counts then [(''includeMessageCounts'', ''1'')] else [])) w)"

section \<open>Media\<close>

definition media_url :: "client \<Rightarrow> string \<Rightarrow> string" where
  "media_url c name = url c (''/api/v1/media/'' @ encode_path_segment name)"

definition media_request :: "client \<Rightarrow> string \<Rightarrow> request" where
  "media_request c u = \<lparr>rq_method = Get, rq_url = u, rq_query = [], rq_bearer = Some (cn_token c), rq_body = None, rq_long = True\<rparr>"

text \<open>A 404 is answered by an export of the conversation's media and one second request.\<close>

definition media_bytes :: "('w, 'b) net \<Rightarrow> 'b readers \<Rightarrow> client \<Rightarrow> chatlab_message \<Rightarrow> string \<Rightarrow> 'w \<Rightarrow> 'w \<times> (client_error + 'b)" where
  "media_bytes send rd c message talker w = (case cg_media message of
       None \<Rightarrow> (w, Inl (Unexpected_Body (url c ''/api/v1/media'') ''message carries no media handle''))
     | Some m \<Rightarrow>
       if trim talker = [] then (w, Inl (Unexpected_Body (url c ''/api/v1/media'') ''talker must not be empty''))
       else if trim (bf_file_name m) = []
       then (w, Inl (Unexpected_Body (url c ''/api/v1/media'') ''media file_name must not be empty''))
       else (let u = media_url c (bf_file_name m); rq = media_request c u in
         case send rq w of
           (w1, Inl e) \<Rightarrow> (w1, Inl (Transport e))
         | (w1, Inr resp) \<Rightarrow> if fst resp = 404
             then (case get_json send c (rd_chatlab rd) ''/chatlab/messages'' [(''talker'', talker), (''media'', ''1'')] w1 of
                 (w2, Inl e) \<Rightarrow> (w2, Inl e)
               | (w2, Inr _) \<Rightarrow> sent send rq decode_bytes w2)
             else (w1, decode_bytes resp u)))"

definition media_bytes_by_id :: "('w, 'b) net \<Rightarrow> client \<Rightarrow> string \<Rightarrow> 'w \<Rightarrow> 'w \<times> (client_error + 'b)" where
  "media_bytes_by_id send c i w = (if trim i = []
     then (w, Inl (Unexpected_Body (url c ''/api/v1/media'') ''media id must not be empty''))
     else sent send (media_request c (media_url c i)) decode_bytes w)"

section \<open>Waiting\<close>

lemma wait_round_ready: "wait_round wxid timeout listing = Inl (Inr ()) \<longleftrightarrow>
    (\<exists>views a. listing = Inr views \<and> List.find (\<lambda>a. av_wxid a = wxid) views = Some a \<and> av_state a = Ready)"
  by (auto simp: wait_round_def split: sum.splits option.splits client_error.splits if_splits)

lemma wait_round_dropped:
  "wait_round wxid timeout (Inl (Transport e)) = Inr (True, ''unreachable ('' @ e @ '')'')"
  "500 \<le> status \<Longrightarrow> status \<le> 599 \<Longrightarrow> \<exists>t. wait_round wxid timeout (Inl (Bad_Status status u)) = Inr (True, t)"
  by (simp_all add: wait_round_def)

text \<open>What a wait that came back says: ready was seen, or the deadline has passed, or a listing ended it.\<close>

definition wait_verdict :: "('w, 'b) net \<Rightarrow> 'b readers \<Rightarrow> ('w \<Rightarrow> nat) \<Rightarrow> client \<Rightarrow> string \<Rightarrow> nat \<Rightarrow> nat \<Rightarrow> 'w \<times> (client_error + unit) option \<Rightarrow> bool" where
  "wait_verdict send rd now c wxid timeout deadline r \<longleftrightarrow> (case r of (w', None) \<Rightarrow> False
     | (w', Some (Inr _)) \<Rightarrow> (\<exists>w0 views a. accounts send rd c w0 = (w', Inr views)
         \<and> List.find (\<lambda>a. av_wxid a = wxid) views = Some a \<and> av_state a = Ready)
     | (w', Some (Inl e)) \<Rightarrow> (\<exists>dropped t. e = not_ready timeout dropped t \<and> deadline \<le> now w')
         \<or> (\<exists>w0 listing. accounts send rd c w0 = (w', listing) \<and> wait_round wxid timeout listing = Inl (Inl e)))"

lemma accounts_clock:
  assumes "\<forall>rq w. now w \<le> now (fst (send rq w))"
  shows "now w \<le> now (fst (accounts send rd c w))"
  using assms by (auto simp: accounts_def get_json_def get_json_on_def sent_def split: prod.splits sum.splits) (metis fst_conv)+

lemma wait_loop_ends:
  assumes send: "\<forall>rq w. now w \<le> now (fst (send rq w))" and pause: "\<forall>w. now w + 250 \<le> now (pause w)"
  shows "deadline \<le> now w + 250 * n \<Longrightarrow>
    wait_verdict send rd now c wxid timeout deadline (wait_loop (Suc n) send rd now pause c wxid timeout deadline dropped w)"
proof (induction n arbitrary: dropped w)
  case 0
  obtain w' listing where a: "accounts send rd c w = (w', listing)" by fastforce
  have "deadline \<le> now w'" using accounts_clock [OF send, of w rd c] 0 a by simp
  then show ?case using a wait_round_ready [of wxid timeout listing]
    by (auto simp: wait_verdict_def Let_def split: sum.split prod.split)
next
  case (Suc n)
  obtain w' listing where a: "accounts send rd c w = (w', listing)" by fastforce
  show ?case
  proof (cases "wait_round wxid timeout listing")
    case (Inl res)
    then show ?thesis using a wait_round_ready [of wxid timeout listing]
      by (auto simp: wait_verdict_def split: sum.split)
  next
    case (Inr p)
    obtain missed t where p: "p = (missed, t)" by fastforce
    show ?thesis
    proof (cases "deadline \<le> now w'")
      case True
      then show ?thesis using a Inr p by (auto simp: wait_verdict_def Let_def)
    next
      case False
      have "now w + 250 \<le> now (pause w')" using accounts_clock [OF send, of w rd c] pause [rule_format, of w'] a by simp
      then have "deadline \<le> now (pause w') + 250 * n" using Suc.prems by simp
      note ih = Suc.IH [OF this, of "if missed then Suc dropped else dropped"]
      have "wait_loop (Suc (Suc n)) send rd now pause c wxid timeout deadline dropped w
          = wait_loop (Suc n) send rd now pause c wxid timeout deadline (if missed then Suc dropped else dropped) (pause w')"
        by (subst wait_loop.simps) (simp add: a Inr p False Let_def del: wait_loop.simps)
      with ih show ?thesis by (simp only:)
    qed
  qed
qed

text \<open>
  C21. Waiting for an account ends, also while the server cannot be reached: with a sleep of a quarter of a second a round, it
  comes back after at most one request more than there are quarters in the timeout. Success means that the last listing
  named the account as ready; a refusal is either what the last listing says, or the deadline has passed.
\<close>

theorem wait_ready_ends:
  assumes "\<forall>rq w. now w \<le> now (fst (send rq w))" and "\<forall>w. now w + 250 \<le> now (pause w)" and "timeout \<le> 250 * n"
  shows "wait_verdict send rd now c wxid timeout (now w + timeout) (wait_ready (Suc n) send rd now pause c wxid timeout w)"
  unfolding wait_ready_def using wait_loop_ends [OF assms(1,2)] assms(3) by simp

definition down_net :: "(nat, string) net" where
  "down_net rq w = (w, Inl ''refused'')"

theorem wait_ready_ends_witness:
  "\<forall>rd c. wait_ready 5 down_net rd id (\<lambda>w. w + 250) c ''wxid_a'' 1000 0 =
    (1000, Some (Inl (Not_Ready 1000 ''unreachable (refused); 5 poll(s) never got through'')))
   \<and> wait_verdict down_net rd id c ''wxid_a'' 1000 1000 (wait_ready 5 down_net rd id (\<lambda>w. w + 250) c ''wxid_a'' 1000 0)"
proof (intro allI)
  fix rd :: "string readers" and c
  have a: "accounts down_net rd c w = (w, Inl (Transport ''refused''))" for w
    by (simp add: accounts_def get_json_def get_json_on_def sent_def down_net_def)
  have n: "nat_to_dec 5 = ''5''" by code_simp
  have "wait_ready 5 down_net rd id (\<lambda>w. w + 250) c ''wxid_a'' 1000 0 =
    (1000, Some (Inl (Not_Ready 1000 ''unreachable (refused); 5 poll(s) never got through'')))"
    by (simp add: wait_ready_def a wait_round_dropped numeral_eq_Suc not_ready_def flip: n)
  moreover have "wait_verdict down_net rd id c ''wxid_a'' 1000 (id 0 + 1000) (wait_ready (Suc 4) down_net rd id (\<lambda>w. w + 250) c ''wxid_a'' 1000 0)"
    by (rule wait_ready_ends) (simp_all add: down_net_def)
  ultimately show "wait_ready 5 down_net rd id (\<lambda>w. w + 250) c ''wxid_a'' 1000 0 =
    (1000, Some (Inl (Not_Ready 1000 ''unreachable (refused); 5 poll(s) never got through'')))
   \<and> wait_verdict down_net rd id c ''wxid_a'' 1000 1000 (wait_ready 5 down_net rd id (\<lambda>w. w + 250) c ''wxid_a'' 1000 0)"
    by simp
qed

end
