(* ===== verification/Wire.thy ===== *)
theory Wire
  imports Client Push
begin

text \<open>
  The bodies as JSON, at both ends: what the server's derived serialisers write for the structures of \<open>src/server/dto.rs\<close>, and
  what the derived readers of the generated client types (\<open>clients/rust/src/generated/gen.rs\<close>) make of it. Printing and parsing
  the text of a JSON value are left aside. An error of a reader is its message without the position; of several
  errors in one body the first field's is reported, not the first one of the text.
\<close>

section \<open>Readers\<close>

definition option_list :: "'a option \<Rightarrow> 'a list" where
  "option_list x = (case x of None \<Rightarrow> [] | Some y \<Rightarrow> [y])"

definition opt_entry :: "string \<Rightarrow> json option \<Rightarrow> (string \<times> json) list" where
  "opt_entry k v = (case v of None \<Rightarrow> [] | Some x \<Rightarrow> [(k, x)])"

definition entries :: "string \<Rightarrow> (string \<times> json) list \<Rightarrow> json list" where
  "entries k es = map snd (filter (\<lambda>e. fst e = k) es)"

text \<open>A structure is read from an object, or from an array that has one value for each field.\<close>

definition struct_entries :: "string list \<Rightarrow> json \<Rightarrow> string + (string \<times> json) list" where
  "struct_entries names v = (case v of Object es \<Rightarrow> Inr es
     | Array xs \<Rightarrow> if length xs = length names then Inr (zip names xs) else Inl ''invalid length''
     | _ \<Rightarrow> Inl ''invalid type'')"

definition with_fields :: "string list \<Rightarrow> json \<Rightarrow> ((string \<times> json) list \<Rightarrow> string + 'a) \<Rightarrow> string + 'a" where
  "with_fields names v cont = (case struct_entries names v of Inl e \<Rightarrow> Inl e | Inr es \<Rightarrow> cont es)"

definition needed :: "(string \<times> json) list \<Rightarrow> string \<Rightarrow> (json \<Rightarrow> string + 'a) \<Rightarrow> ('a \<Rightarrow> string + 'b) \<Rightarrow> string + 'b" where
  "needed es k rd cont = (case entries k es of
       [] \<Rightarrow> Inl (''missing field '' @ k)
     | [x] \<Rightarrow> (case rd x of Inl e \<Rightarrow> Inl e | Inr a \<Rightarrow> cont a)
     | _ \<Rightarrow> Inl (''duplicate field '' @ k))"

text \<open>An optional field may be missing or null.\<close>

definition optional :: "(string \<times> json) list \<Rightarrow> string \<Rightarrow> (json \<Rightarrow> string + 'a) \<Rightarrow> ('a option \<Rightarrow> string + 'b) \<Rightarrow> string + 'b" where
  "optional es k rd cont = (case entries k es of
       [] \<Rightarrow> cont None
     | [x] \<Rightarrow> if x = Null then cont None else (case rd x of Inl e \<Rightarrow> Inl e | Inr a \<Rightarrow> cont (Some a))
     | _ \<Rightarrow> Inl (''duplicate field '' @ k))"

definition read_string :: "json \<Rightarrow> string + string" where
  "read_string v = (case v of String s \<Rightarrow> Inr s | _ \<Rightarrow> Inl ''invalid type'')"

definition read_bool :: "json \<Rightarrow> string + bool" where
  "read_bool v = (case v of Bool b \<Rightarrow> Inr b | _ \<Rightarrow> Inl ''invalid type'')"

text \<open>\<open>-0\<close> is a float for the parser.\<close>

definition read_i64 :: "json \<Rightarrow> string + int" where
  "read_i64 v = (case v of Number t \<Rightarrow> if t = ''-0'' then Inl ''invalid type''
       else (case parse_i64 t of Some n \<Rightarrow> Inr n | None \<Rightarrow> Inl ''invalid number'')
     | _ \<Rightarrow> Inl ''invalid type'')"

definition read_u64 :: "json \<Rightarrow> string + nat" where
  "read_u64 v = (case v of Number t \<Rightarrow> (case parse_usize t of Some n \<Rightarrow> Inr n | None \<Rightarrow> Inl ''invalid number'')
     | _ \<Rightarrow> Inl ''invalid type'')"

fun read_all :: "(json \<Rightarrow> string + 'a) \<Rightarrow> json list \<Rightarrow> string + 'a list" where
  "read_all rd [] = Inr []"
| "read_all rd (x # xs) = (case rd x of Inl e \<Rightarrow> Inl e | Inr a \<Rightarrow> (case read_all rd xs of Inl e \<Rightarrow> Inl e | Inr as \<Rightarrow> Inr (a # as)))"

definition read_list :: "(json \<Rightarrow> string + 'a) \<Rightarrow> json \<Rightarrow> string + 'a list" where
  "read_list rd v = (case v of Array xs \<Rightarrow> read_all rd xs | _ \<Rightarrow> Inl ''invalid type'')"

text \<open>A variant without data is its name, or an object that maps its name to null.\<close>

definition variant_name :: "json \<Rightarrow> string + string" where
  "variant_name v = (case v of String s \<Rightarrow> Inr s
     | Object [(k, x)] \<Rightarrow> if x = Null then Inr k else Inl ''invalid type''
     | _ \<Rightarrow> Inl ''invalid type'')"

lemma entries_simps [simp]:
  "entries k [] = []" "entries k ((k', v) # es) = (if k' = k then v # entries k es else entries k es)"
  "entries k (es @ fs) = entries k es @ entries k fs"
  by (simp_all add: entries_def)

lemma entries_opt_entry [simp]: "entries k (opt_entry k' v) = (if k' = k then option_list v else [])"
  by (simp add: opt_entry_def option_list_def split: option.split)

lemma with_fields_Object [simp]: "with_fields names (Object es) cont = cont es"
  by (simp add: with_fields_def struct_entries_def)

lemma needed_one [simp]: "entries k es = [x] \<Longrightarrow> rd x = Inr a \<Longrightarrow> needed es k rd cont = cont a"
  by (simp add: needed_def)

lemma read_simple [simp]: "read_string (String s) = Inr s" "read_bool (Bool b) = Inr b"
  "usize_ok k \<Longrightarrow> read_u64 (nat_json k) = Inr k"
  by (simp_all add: read_string_def read_bool_def read_u64_def nat_json_def parse_usize_def parse_unsigned_to_dec usize_ok_def)

lemma int_to_dec_not_minus_zero: "int_to_dec n \<noteq> ''-0''"
proof
  assume e: "int_to_dec n = ''-0''"
  have d: "parse_dec ''0'' = Some 0" "\<not> list_all is_ascii_digit ''-0''" by code_simp+
  show False
  proof (cases "n < 0")
    case True
    then have "nat_to_dec (nat (- n)) = ''0''" using e by (simp add: int_to_dec_def)
    then have "Some (nat (- n)) = Some 0" using d(1) by (metis parse_nat_to_dec)
    then show False using True by simp
  next
    case False
    then have "nat_to_dec (nat n) = ''-0''" using e by (simp add: int_to_dec_def)
    then show False using d(2) nat_to_dec_digits [of "nat n"] by metis
  qed
qed

lemma read_i64_json [simp]: "i64_ok n \<Longrightarrow> read_i64 (int_json n) = Inr n"
  by (simp add: read_i64_def int_json_def parse_i64_to_dec int_to_dec_not_minus_zero)

lemma read_all_map [simp]: "(\<And>x. x \<in> set xs \<Longrightarrow> rd (f x) = Inr (g x)) \<Longrightarrow> read_all rd (map f xs) = Inr (map g xs)"
  by (induction xs) auto

lemma read_list_map [simp]: "(\<And>x. x \<in> set xs \<Longrightarrow> rd (f x) = Inr x) \<Longrightarrow> read_list rd (Array (map f xs)) = Inr xs"
  by (simp add: read_list_def read_all_map [of xs rd f "\<lambda>x. x"])

text \<open>What is written of an optional value: null in its place, or no entry.\<close>

definition or_null :: "('a \<Rightarrow> json) \<Rightarrow> 'a option \<Rightarrow> json" where
  "or_null f v = (case v of None \<Rightarrow> Null | Some x \<Rightarrow> f x)"

lemma optional_written [simp]:
  "entries k es = [or_null f v] \<Longrightarrow> (\<And>x. v = Some x \<Longrightarrow> f x \<noteq> Null \<and> rd (f x) = Inr x)
    \<Longrightarrow> optional es k rd cont = cont v"
  "entries k es = option_list (map_option f v) \<Longrightarrow> (\<And>x. v = Some x \<Longrightarrow> f x \<noteq> Null \<and> rd (f x) = Inr x)
    \<Longrightarrow> optional es k rd cont = cont v"
  by (cases v; simp add: optional_def or_null_def option_list_def)+

section \<open>What the server writes\<close>

fun account_status_body :: "account_status \<Rightarrow> json" where
  "account_status_body Awaiting_Key = String ''awaiting_key''"
| "account_status_body Indexing = String ''indexing''"
| "account_status_body Ready = String ''ready''"
| "account_status_body Error = String ''error''"

fun account_phase_body :: "account_phase \<Rightarrow> json" where
  "account_phase_body Phase_Unregistered = String ''unregistered''"
| "account_phase_body Phase_Indexing = String ''indexing''"
| "account_phase_body Phase_Ready = String ''ready''"
| "account_phase_body Phase_Error = String ''error''"

definition index_progress_dto_body :: "index_progress_dto \<Rightarrow> json" where
  "index_progress_dto_body p = Object [(''messages_indexed'', nat_json (pd_messages_indexed p)), (''tables_done'', nat_json
     (pd_tables_done p)), (''tables_total'', nat_json (pd_tables_total p))]"

definition account_state_view_body :: "account_state_view \<Rightarrow> json" where
  "account_state_view_body a = Object ([(''db_storage'', String (av_db_storage a))] @ opt_entry ''error'' (map_option String
     (av_error a)) @ [(''message_count'', nat_json (av_message_count a))] @ opt_entry ''progress'' (map_option
     index_progress_dto_body (av_progress a)) @ [(''state'', account_status_body (av_state a)), (''wxid'', String (av_wxid a))])"

definition accounts_list_body :: "accounts_list \<Rightarrow> json" where
  "accounts_list_body l = Object [(''accounts'', Array (map account_state_view_body (al_accounts l))), (''success'', Bool
     (al_success l))]"

definition health_dto_body :: "health_dto \<Rightarrow> json" where
  "health_dto_body h = Object [(''account'', account_phase_body (hd_account h)), (''status'', String (hd_status h)),
     (''version'', String (hd_version h))]"

definition sync_result_body :: "sync_result \<Rightarrow> json" where
  "sync_result_body r = Object [(''newMessages'', nat_json (sr_new_messages r)), (''revokeMessages'', nat_json
     (sr_revoke_messages r)), (''success'', Bool (sr_success r))]"

definition session_native_body :: "session_native \<Rightarrow> json" where
  "session_native_body s = Object [(''displayName'', String (sn_display_name s)), (''lastTimestamp'', int_json
     (sn_last_timestamp s)), (''messageCount'', nat_json (sn_message_count s)), (''sessionType'', String (sn_session_type s)),
     (''summary'', or_null String (sn_summary s)), (''type'', int_json (sn_type s)), (''unreadCount'', int_json (sn_unread_count
     s)), (''username'', String (sn_username s))]"

definition sessions_native_body :: "sessions_native \<Rightarrow> json" where
  "sessions_native_body l = Object [(''count'', nat_json (sl_count l)), (''sessions'', Array (map session_native_body
     (sl_sessions l))), (''success'', Bool (sl_success l))]"

definition page_block_body :: "page_block \<Rightarrow> json" where
  "page_block_body p = Object [(''hasMore'', Bool (pb_has_more p)), (''nextCursor'', or_null String (pb_next_cursor p))]"

definition media_brief_body :: "media_brief \<Rightarrow> json" where
  "media_brief_body b = Object ([(''fileName'', String (bf_file_name b))] @ opt_entry ''md5'' (map_option String (bf_md5 b)) @
     [(''type'', String (bf_type b))])"

definition chatlab_header_body :: "chatlab_header \<Rightarrow> json" where
  "chatlab_header_body h = Object [(''exportedAt'', int_json (ch_exported_at h)), (''generator'', String (ch_generator h)),
     (''version'', String (ch_version h))]"

definition chatlab_meta_body :: "chatlab_meta \<Rightarrow> json" where
  "chatlab_meta_body m = Object [(''groupId'', String (cm_group_id m)), (''name'', String (cm_name m)), (''ownerId'', String
     (cm_owner_id m)), (''platform'', String (cm_platform m)), (''type'', String (cm_type m))]"

definition chatlab_member_body :: "chatlab_member \<Rightarrow> json" where
  "chatlab_member_body m = Object [(''accountName'', String (cmb_account_name m)), (''avatar'', String (cmb_avatar m)),
     (''groupNickname'', String (cmb_group_nickname m)), (''platformId'', String (cmb_platform_id m))]"

definition chatlab_message_body :: "chatlab_message \<Rightarrow> json" where
  "chatlab_message_body m = Object ([(''accountName'', String (cg_account_name m)), (''content'', String (cg_content m)),
     (''groupNickname'', String (cg_group_nickname m))] @ opt_entry ''media'' (map_option media_brief_body (cg_media m)) @
     [(''platformMessageId'', String (cg_platform_message_id m))] @ opt_entry ''replyToMessageId'' (map_option String
     (cg_reply_to_message_id m)) @ [(''sender'', String (cg_sender m)), (''timestamp'', int_json (cg_timestamp m)), (''type'',
     int_json (cg_type m))])"

definition chatlab_messages_body :: "chatlab_messages \<Rightarrow> json" where
  "chatlab_messages_body l = Object [(''chatlab'', chatlab_header_body (cs_chatlab l)), (''count'', nat_json (cs_count l)),
     (''members'', Array (map chatlab_member_body (cs_members l))), (''messages'', Array (map chatlab_message_body (cs_messages
     l))), (''meta'', chatlab_meta_body (cs_meta l)), (''page'', page_block_body (cs_page l)), (''talker'', String (cs_talker
     l))]"

definition pull_message_body :: "pull_message \<Rightarrow> json" where
  "pull_message_body m = Object ([(''accountName'', String (cg_account_name m)), (''content'', String (cg_content m)),
     (''groupNickname'', String (cg_group_nickname m))] @ opt_entry ''media'' (map_option media_brief_body (cg_media m)) @
     opt_entry ''mediaId'' (map_option String (pu_media_id m)) @ [(''platformMessageId'', String (cg_platform_message_id m))] @
     opt_entry ''replyToMessageId'' (map_option String (cg_reply_to_message_id m)) @ [(''sender'', String (cg_sender m)),
     (''timestamp'', int_json (cg_timestamp m)), (''type'', int_json (cg_type m))])"

definition pull_sync_body :: "pull_sync \<Rightarrow> json" where
  "pull_sync_body y = Object [(''hasMore'', Bool (py_has_more y)), (''nextOffset'', nat_json (py_next_offset y)),
     (''nextSince'', int_json (py_next_since y)), (''watermark'', int_json (py_watermark y))]"

definition pull_envelope_body :: "pull_envelope \<Rightarrow> json" where
  "pull_envelope_body e = Object [(''chatlab'', chatlab_header_body (pe_chatlab e)), (''members'', Array (map
     chatlab_member_body (pe_members e))), (''messages'', Array (map pull_message_body (pe_messages e))), (''meta'',
     chatlab_meta_body (pe_meta e)), (''sync'', pull_sync_body (pe_sync e))]"

definition media_object_body :: "media_object \<Rightarrow> json" where
  "media_object_body m = Object (opt_entry ''exported'' (map_option Bool (mo_exported m)) @ [(''fileName'', String
     (mo_file_name m))] @ opt_entry ''localPath'' (map_option String (mo_local_path m)) @ opt_entry ''md5'' (map_option String
     (mo_md5 m)) @ opt_entry ''mediaId'' (map_option String (mo_media_id m)) @ [(''type'', String (mo_type m))] @ opt_entry
     ''url'' (map_option String (mo_url m)))"

definition quote_dto_body :: "quote_dto \<Rightarrow> json" where
  "quote_dto_body q = Object [(''accountName'', String (qd_account_name q)), (''content'', String (qd_content q)),
     (''platformMessageId'', String (qd_platform_message_id q)), (''sender'', String (qd_sender q)), (''type'', int_json (qd_type
     q))]"

definition message_native_body :: "message_native \<Rightarrow> json" where
  "message_native_body m = Object ([(''appmsgSubtype'', or_null int_json (mn_appmsg_subtype m)), (''baseType'', int_json
     (mn_base_type m)), (''content'', String (mn_content m)), (''createTime'', int_json (mn_create_time m)), (''isSend'', int_json
     (mn_is_send m)), (''localId'', int_json (mn_local_id m)), (''localType'', int_json (mn_local_type m)), (''media'', or_null
     media_object_body (mn_media m)), (''parsedContent'', String (mn_parsed_content m)), (''quote'', or_null quote_dto_body
     (mn_quote m)), (''rawContent'', String (mn_raw_content m))] @ opt_entry ''replyToMessageId'' (map_option String
     (mn_reply_to_message_id m)) @ [(''senderName'', String (mn_sender_name m)), (''senderUsername'', String (mn_sender_username
     m)), (''serverId'', String (mn_server_id m)), (''sortSeq'', int_json (mn_sort_seq m))])"

definition media_envelope_body :: "media_envelope \<Rightarrow> json" where
  "media_envelope_body m = Object [(''count'', nat_json (me_count m)), (''enabled'', Bool (me_enabled m)), (''exportPath'',
     String (me_export_path m))]"

definition messages_native_body :: "messages_native \<Rightarrow> json" where
  "messages_native_body l = Object [(''count'', nat_json (ml_count l)), (''hasMore'', Bool (ml_has_more l)), (''media'',
     media_envelope_body (ml_media l)), (''messages'', Array (map message_native_body (ml_messages l))), (''success'', Bool
     (ml_success l)), (''talker'', String (ml_talker l))]"

definition contact_dto_body :: "contact_dto \<Rightarrow> json" where
  "contact_dto_body c = Object [(''alias'', String (cd_alias c)), (''avatarUrl'', String (cd_avatar_url c)), (''displayName'',
     String (cd_display_name c)), (''nickname'', String (cd_nickname c)), (''remark'', String (cd_remark c)), (''type'', String
     (cd_type c)), (''username'', String (cd_username c))]"

definition contacts_dto_body :: "contacts_dto \<Rightarrow> json" where
  "contacts_dto_body l = Object [(''contacts'', Array (map contact_dto_body (cl_contacts l))), (''count'', nat_json (cl_count
     l)), (''hasMore'', Bool (cl_has_more l)), (''success'', Bool (cl_success l)), (''total'', nat_json (cl_total l))]"

definition group_member_body :: "group_member \<Rightarrow> json" where
  "group_member_body m = Object [(''alias'', String (gm_alias m)), (''avatarUrl'', String (gm_avatar_url m)), (''displayName'',
     String (gm_display_name m)), (''groupNickname'', String (gm_group_nickname m)), (''isFriend'', Bool (gm_is_friend m)),
     (''isOwner'', Bool (gm_is_owner m)), (''messageCount'', int_json (gm_message_count m)), (''nickname'', String (gm_nickname
     m)), (''remark'', String (gm_remark m)), (''wxid'', String (gm_wxid m))]"

definition group_members_body :: "group_members \<Rightarrow> json" where
  "group_members_body l = Object [(''chatroomId'', String (gl_chatroom_id l)), (''count'', nat_json (gl_count l)),
     (''fromCache'', Bool (gl_from_cache l)), (''members'', Array (map group_member_body (gl_members l))), (''success'', Bool
     (gl_success l)), (''updatedAt'', int_json (gl_updated_at l))]"

definition event_media_body :: "event_media \<Rightarrow> json" where
  "event_media_body m = Object ([(''fileName'', String (vm_file_name m)), (''md5'', or_null String (vm_md5 m)), (''type'',
     String (vm_type m))] @ opt_entry ''mediaId'' (map_option String (vm_media_id m)))"

definition event_new_body :: "event_new \<Rightarrow> json" where
  "event_new_body e = Object [(''content'', String (vn_content e)), (''event'', String (vn_event e)), (''groupName'', or_null
     String (vn_group_name e)), (''media'', or_null event_media_body (vn_media e)), (''rawid'', String (vn_rawid e)),
     (''sessionId'', String (vn_session_id e)), (''sessionType'', String (vn_session_type e)), (''sourceName'', String
     (vn_source_name e)), (''timestamp'', int_json (vn_timestamp e))]"

definition event_revoke_body :: "event_revoke \<Rightarrow> json" where
  "event_revoke_body e = Object [(''content'', String (vr_content e)), (''event'', String (vr_event e)), (''groupName'',
     or_null String (vr_group_name e)), (''rawid'', String (vr_rawid e)), (''sessionId'', String (vr_session_id e)),
     (''sessionType'', String (vr_session_type e)), (''sourceName'', String (vr_source_name e)), (''timestamp'', int_json
     (vr_timestamp e))]"

definition watermark_value_body :: "watermark_value \<Rightarrow> json" where
  "watermark_value_body w = Object [(''create_time'', int_json (wv_create_time w)), (''local_id'', int_json (wv_local_id w)),
     (''sort_seq'', int_json (wv_sort_seq w))]"

definition watermark_entry_body :: "watermark_entry \<Rightarrow> json" where
  "watermark_entry_body w = Object [(''table'', String (we_table w)), (''watermark'', watermark_value_body (we_watermark w))]"

definition event_sync_body :: "event_sync \<Rightarrow> json" where
  "event_sync_body e = Object [(''event'', String (vs_event e)), (''generation'', nat_json (vs_generation e)), (''watermarks'',
     Array (map watermark_entry_body (vs_watermarks e)))]"

definition notification_frame_body :: "notification_frame \<Rightarrow> json" where
  "notification_frame_body f = Object [(''event'', String (nf_event f)), (''eventId'', String (nf_event_id f)),
     (''platformMessageId'', or_null String (nf_platform_message_id f)), (''sessionId'', String (nf_session_id f)),
     (''timestamp'', int_json (nf_timestamp f))]"

definition account_conflict_body :: "account_conflict \<Rightarrow> json" where
  "account_conflict_body a = Object ([(''occupied_by'', String (ac_occupied_by a)), (''occupied_status'', account_status_body
     (ac_occupied_status a))] @ opt_entry ''progress'' (map_option index_progress_dto_body (ac_progress a)) @ [(''state'', String
     (ac_state a)), (''success'', Bool (ac_success a)), (''wxid'', String (ac_wxid a))])"

definition account_registered_body :: "account_registered \<Rightarrow> json" where
  "account_registered_body a = Object ([(''db_storage'', String (ar_db_storage a))] @ opt_entry ''progress'' (map_option
     index_progress_dto_body (ar_progress a)) @ [(''state'', String (ar_state a)), (''status'', account_status_body (ar_status
     a)), (''success'', Bool (ar_success a)), (''wxid'', String (ar_wxid a))])"

definition account_deregistered_body :: "account_deregistered \<Rightarrow> json" where
  "account_deregistered_body a = Object [(''index_cleared'', Bool (ad_index_cleared a)), (''previous_status'',
     account_status_body (ad_previous_status a)), (''purged_dirs'', nat_json (ad_purged_dirs a)), (''purged_media'', Bool
     (ad_purged_media a)), (''state'', String (ad_state a)), (''success'', Bool (ad_success a)), (''wxid'', String (ad_wxid a))]"

definition account_not_registered_body :: "account_not_registered \<Rightarrow> json" where
  "account_not_registered_body a = Object [(''index_cleared'', Bool (an_index_cleared a)), (''purged_dirs'', nat_json
     (an_purged_dirs a)), (''purged_media'', Bool (an_purged_media a)), (''state'', String (an_state a)), (''success'', Bool
     (an_success a)), (''wxid'', String (an_wxid a))]"

definition account_wxid_mismatch_body :: "account_wxid_mismatch \<Rightarrow> json" where
  "account_wxid_mismatch_body a = Object [(''index_cleared'', Bool (aw_index_cleared a)), (''occupied_by'', String
     (aw_occupied_by a)), (''occupied_status'', account_status_body (aw_occupied_status a)), (''purged_dirs'', nat_json
     (aw_purged_dirs a)), (''purged_media'', Bool (aw_purged_media a)), (''state'', String (aw_state a)), (''success'', Bool
     (aw_success a)), (''wxid'', String (aw_wxid a))]"

definition session_chatlab_body :: "session_chatlab \<Rightarrow> json" where
  "session_chatlab_body s = Object ([(''id'', String (sb_id s)), (''lastMessageAt'', int_json (sb_last_message_at s)),
     (''messageCount'', nat_json (sb_message_count s)), (''name'', String (sb_name s)), (''platform'', String (sb_platform s)),
     (''type'', String (sb_type s))] @ opt_entry ''memberCount'' (map_option nat_json (sb_member_count s)))"

definition sessions_chatlab_body :: "sessions_chatlab \<Rightarrow> json" where
  "sessions_chatlab_body l = Object [(''count'', nat_json (sb_count l)), (''page'', page_block_body (sb_page l)),
     (''sessions'', Array (map session_chatlab_body (sb_sessions l)))]"

definition api_error_body_body :: "api_error_body \<Rightarrow> json" where
  "api_error_body_body e = Object [(''success'', Bool (eb_success e)), (''code'', nat_json (eb_code e)), (''message'', String
     (eb_message e))]"

definition register_reply_body :: "register_reply \<Rightarrow> json" where
  "register_reply_body r = (case r of Conflict a \<Rightarrow> account_conflict_body a | Registered a \<Rightarrow> account_registered_body a)"

definition delete_reply_body :: "delete_reply \<Rightarrow> json" where
  "delete_reply_body r = (case r of Removed a \<Rightarrow> account_deregistered_body a
     | Nothing_Registered a \<Rightarrow> account_not_registered_body a | Mismatch a \<Rightarrow> account_wxid_mismatch_body a)"

definition sessions_reply_body :: "sessions_reply \<Rightarrow> json" where
  "sessions_reply_body r = (case r of Sessions_Native l \<Rightarrow> sessions_native_body l | Sessions_Chatlab l \<Rightarrow> sessions_chatlab_body l)"

definition payload_body :: "payload \<Rightarrow> json" where
  "payload_body p = (case p of Ready_Payload \<Rightarrow> Object [(''status'', String ''ok'')]
     | New_Payload e \<Rightarrow> event_new_body e | Revoke_Payload e \<Rightarrow> event_revoke_body e
     | Sync_Payload e \<Rightarrow> event_sync_body e | Notification f \<Rightarrow> notification_frame_body f)"

section \<open>What the client reads\<close>

definition read_account_status :: "json \<Rightarrow> string + account_status" where
  "read_account_status v = (case variant_name v of Inl e \<Rightarrow> Inl e | Inr s \<Rightarrow>
     if s = ''awaiting_key'' then Inr Awaiting_Key else if s = ''indexing'' then Inr Indexing
     else if s = ''ready'' then Inr Ready else if s = ''error'' then Inr Error else Inl ''unknown variant'')"

definition read_account_phase :: "json \<Rightarrow> string + account_phase" where
  "read_account_phase v = (case variant_name v of Inl e \<Rightarrow> Inl e | Inr s \<Rightarrow>
     if s = ''unregistered'' then Inr Phase_Unregistered else if s = ''indexing'' then Inr Phase_Indexing
     else if s = ''ready'' then Inr Phase_Ready else if s = ''error'' then Inr Phase_Error else Inl ''unknown variant'')"

definition read_index_progress_dto :: "json \<Rightarrow> string + index_progress_dto" where
  "read_index_progress_dto v = with_fields [''messages_indexed'', ''tables_done'', ''tables_total''] v (\<lambda>es.
     needed es ''messages_indexed'' read_u64 (\<lambda>messages_indexed.
     needed es ''tables_done'' read_u64 (\<lambda>tables_done.
     needed es ''tables_total'' read_u64 (\<lambda>tables_total.
     Inr \<lparr>pd_messages_indexed = messages_indexed, pd_tables_done = tables_done, pd_tables_total = tables_total\<rparr>))))"

definition read_account_state_view :: "json \<Rightarrow> string + account_state_view" where
  "read_account_state_view v = with_fields [''db_storage'', ''error'', ''message_count'', ''progress'', ''state'', ''wxid''] v (\<lambda>es.
     needed es ''db_storage'' read_string (\<lambda>db_storage. optional es ''error'' read_string (\<lambda>error.
     needed es ''message_count'' read_u64 (\<lambda>message_count.
     optional es ''progress'' read_index_progress_dto (\<lambda>progress.
     needed es ''state'' read_account_status (\<lambda>state. needed es ''wxid'' read_string (\<lambda>wxid.
     Inr \<lparr>av_db_storage = db_storage, av_error = error, av_message_count = message_count, av_progress = progress,
       av_state = state, av_wxid = wxid\<rparr>)))))))"

definition read_accounts_list :: "json \<Rightarrow> string + accounts_list" where
  "read_accounts_list v = with_fields [''accounts'', ''success''] v (\<lambda>es.
     needed es ''accounts'' (read_list read_account_state_view) (\<lambda>accounts.
     needed es ''success'' read_bool (\<lambda>success.
     Inr \<lparr>al_accounts = accounts, al_success = success\<rparr>)))"

definition read_health_dto :: "json \<Rightarrow> string + health_dto" where
  "read_health_dto v = with_fields [''account'', ''status'', ''version''] v (\<lambda>es.
     needed es ''account'' read_account_phase (\<lambda>account. needed es ''status'' read_string (\<lambda>status.
     needed es ''version'' read_string (\<lambda>version.
     Inr \<lparr>hd_account = account, hd_status = status, hd_version = version\<rparr>))))"

definition read_sync_result :: "json \<Rightarrow> string + sync_result" where
  "read_sync_result v = with_fields [''newMessages'', ''revokeMessages'', ''success''] v (\<lambda>es.
     needed es ''newMessages'' read_u64 (\<lambda>new_messages.
     needed es ''revokeMessages'' read_u64 (\<lambda>revoke_messages.
     needed es ''success'' read_bool (\<lambda>success.
     Inr \<lparr>sr_new_messages = new_messages, sr_revoke_messages = revoke_messages, sr_success = success\<rparr>))))"

definition read_session_native :: "json \<Rightarrow> string + session_native" where
  "read_session_native v = with_fields [''displayName'', ''lastTimestamp'', ''messageCount'', ''sessionType'', ''summary'', ''type'', ''unreadCount'', ''username''] v (\<lambda>es.
     needed es ''displayName'' read_string (\<lambda>display_name.
     needed es ''lastTimestamp'' read_i64 (\<lambda>last_timestamp.
     needed es ''messageCount'' read_u64 (\<lambda>message_count.
     needed es ''sessionType'' read_string (\<lambda>session_type.
     optional es ''summary'' read_string (\<lambda>summary. needed es ''type'' read_i64 (\<lambda>ty.
     needed es ''unreadCount'' read_i64 (\<lambda>unread_count. needed es ''username'' read_string (\<lambda>username.
     Inr \<lparr>sn_display_name = display_name, sn_last_timestamp = last_timestamp, sn_message_count = message_count,
       sn_session_type = session_type, sn_summary = summary, sn_type = ty, sn_unread_count = unread_count, sn_username =
       username\<rparr>)))))))))"

definition read_sessions_native :: "json \<Rightarrow> string + sessions_native" where
  "read_sessions_native v = with_fields [''count'', ''sessions'', ''success''] v (\<lambda>es.
     needed es ''count'' read_u64 (\<lambda>count.
     needed es ''sessions'' (read_list read_session_native) (\<lambda>sessions.
     needed es ''success'' read_bool (\<lambda>success.
     Inr \<lparr>sl_count = count, sl_sessions = sessions, sl_success = success\<rparr>))))"

definition read_page_block :: "json \<Rightarrow> string + page_block" where
  "read_page_block v = with_fields [''hasMore'', ''nextCursor''] v (\<lambda>es.
     needed es ''hasMore'' read_bool (\<lambda>has_more. optional es ''nextCursor'' read_string (\<lambda>next_cursor.
     Inr \<lparr>pb_has_more = has_more, pb_next_cursor = next_cursor\<rparr>)))"

definition read_media_brief :: "json \<Rightarrow> string + media_brief" where
  "read_media_brief v = with_fields [''fileName'', ''md5'', ''type''] v (\<lambda>es.
     needed es ''fileName'' read_string (\<lambda>file_name. optional es ''md5'' read_string (\<lambda>md5.
     needed es ''type'' read_string (\<lambda>ty.
     Inr \<lparr>bf_file_name = file_name, bf_md5 = md5, bf_type = ty\<rparr>))))"

definition read_chatlab_header :: "json \<Rightarrow> string + chatlab_header" where
  "read_chatlab_header v = with_fields [''exportedAt'', ''generator'', ''version''] v (\<lambda>es.
     needed es ''exportedAt'' read_i64 (\<lambda>exported_at. needed es ''generator'' read_string (\<lambda>generator.
     needed es ''version'' read_string (\<lambda>version.
     Inr \<lparr>ch_exported_at = exported_at, ch_generator = generator, ch_version = version\<rparr>))))"

definition read_chatlab_meta :: "json \<Rightarrow> string + chatlab_meta" where
  "read_chatlab_meta v = with_fields [''groupId'', ''name'', ''ownerId'', ''platform'', ''type''] v (\<lambda>es.
     needed es ''groupId'' read_string (\<lambda>group_id. needed es ''name'' read_string (\<lambda>name.
     needed es ''ownerId'' read_string (\<lambda>owner_id. needed es ''platform'' read_string (\<lambda>platform.
     needed es ''type'' read_string (\<lambda>ty.
     Inr \<lparr>cm_group_id = group_id, cm_name = name, cm_owner_id = owner_id, cm_platform = platform, cm_type =
       ty\<rparr>))))))"

definition read_chatlab_member :: "json \<Rightarrow> string + chatlab_member" where
  "read_chatlab_member v = with_fields [''accountName'', ''avatar'', ''groupNickname'', ''platformId''] v (\<lambda>es.
     needed es ''accountName'' read_string (\<lambda>account_name. needed es ''avatar'' read_string (\<lambda>avatar.
     needed es ''groupNickname'' read_string (\<lambda>group_nickname.
     needed es ''platformId'' read_string (\<lambda>platform_id.
     Inr \<lparr>cmb_account_name = account_name, cmb_avatar = avatar, cmb_group_nickname = group_nickname, cmb_platform_id =
       platform_id\<rparr>)))))"

definition read_chatlab_message :: "json \<Rightarrow> string + chatlab_message" where
  "read_chatlab_message v = with_fields [''accountName'', ''content'', ''groupNickname'', ''media'', ''platformMessageId'', ''replyToMessageId'', ''sender'',
       ''timestamp'', ''type''] v (\<lambda>es.
     needed es ''accountName'' read_string (\<lambda>account_name.
     needed es ''content'' read_string (\<lambda>content.
     needed es ''groupNickname'' read_string (\<lambda>group_nickname.
     optional es ''media'' read_media_brief (\<lambda>media.
     needed es ''platformMessageId'' read_string (\<lambda>platform_message_id.
     optional es ''replyToMessageId'' read_string (\<lambda>reply_to_message_id.
     needed es ''sender'' read_string (\<lambda>sender. needed es ''timestamp'' read_i64 (\<lambda>timestamp.
     needed es ''type'' read_i64 (\<lambda>ty.
     Inr \<lparr>cg_account_name = account_name, cg_content = content, cg_group_nickname = group_nickname, cg_media = media,
       cg_platform_message_id = platform_message_id, cg_reply_to_message_id = reply_to_message_id, cg_sender = sender,
       cg_timestamp = timestamp, cg_type = ty\<rparr>))))))))))"

definition read_chatlab_messages :: "json \<Rightarrow> string + chatlab_messages" where
  "read_chatlab_messages v = with_fields [''chatlab'', ''count'', ''members'', ''messages'', ''meta'', ''page'', ''talker''] v (\<lambda>es.
     needed es ''chatlab'' read_chatlab_header (\<lambda>chatlab. needed es ''count'' read_u64 (\<lambda>count.
     needed es ''members'' (read_list read_chatlab_member) (\<lambda>members.
     needed es ''messages'' (read_list read_chatlab_message) (\<lambda>messages.
     needed es ''meta'' read_chatlab_meta (\<lambda>meta. needed es ''page'' read_page_block (\<lambda>page.
     needed es ''talker'' read_string (\<lambda>talker.
     Inr \<lparr>cs_chatlab = chatlab, cs_count = count, cs_members = members, cs_messages = messages, cs_meta = meta,
       cs_page = page, cs_talker = talker\<rparr>))))))))"

definition read_pull_message :: "json \<Rightarrow> string + pull_message" where
  "read_pull_message v = with_fields [''accountName'', ''content'', ''groupNickname'', ''media'', ''mediaId'', ''platformMessageId'', ''replyToMessageId'',
       ''sender'', ''timestamp'', ''type''] v (\<lambda>es.
     needed es ''accountName'' read_string (\<lambda>account_name.
     needed es ''content'' read_string (\<lambda>content.
     needed es ''groupNickname'' read_string (\<lambda>group_nickname.
     optional es ''media'' read_media_brief (\<lambda>media. optional es ''mediaId'' read_string (\<lambda>media_id.
     needed es ''platformMessageId'' read_string (\<lambda>platform_message_id.
     optional es ''replyToMessageId'' read_string (\<lambda>reply_to_message_id.
     needed es ''sender'' read_string (\<lambda>sender. needed es ''timestamp'' read_i64 (\<lambda>timestamp.
     needed es ''type'' read_i64 (\<lambda>ty.
     Inr \<lparr>cg_account_name = account_name, cg_content = content, cg_group_nickname = group_nickname, cg_media = media,
       cg_platform_message_id = platform_message_id, cg_reply_to_message_id = reply_to_message_id, cg_sender = sender,
       cg_timestamp = timestamp, cg_type = ty, pu_media_id = media_id\<rparr>)))))))))))"

definition read_pull_sync :: "json \<Rightarrow> string + pull_sync" where
  "read_pull_sync v = with_fields [''hasMore'', ''nextOffset'', ''nextSince'', ''watermark''] v (\<lambda>es.
     needed es ''hasMore'' read_bool (\<lambda>has_more. needed es ''nextOffset'' read_u64 (\<lambda>next_offset.
     needed es ''nextSince'' read_i64 (\<lambda>next_since. needed es ''watermark'' read_i64 (\<lambda>watermark.
     Inr \<lparr>py_has_more = has_more, py_next_offset = next_offset, py_next_since = next_since, py_watermark =
       watermark\<rparr>)))))"

definition read_pull_envelope :: "json \<Rightarrow> string + pull_envelope" where
  "read_pull_envelope v = with_fields [''chatlab'', ''members'', ''messages'', ''meta'', ''sync''] v (\<lambda>es.
     needed es ''chatlab'' read_chatlab_header (\<lambda>chatlab.
     needed es ''members'' (read_list read_chatlab_member) (\<lambda>members.
     needed es ''messages'' (read_list read_pull_message) (\<lambda>messages.
     needed es ''meta'' read_chatlab_meta (\<lambda>meta. needed es ''sync'' read_pull_sync (\<lambda>sync.
     Inr \<lparr>pe_chatlab = chatlab, pe_members = members, pe_messages = messages, pe_meta = meta, pe_sync = sync\<rparr>))))))"

definition read_media_object :: "json \<Rightarrow> string + media_object" where
  "read_media_object v = with_fields [''exported'', ''fileName'', ''localPath'', ''md5'', ''mediaId'', ''type'', ''url''] v (\<lambda>es.
     optional es ''exported'' read_bool (\<lambda>exported. needed es ''fileName'' read_string (\<lambda>file_name.
     optional es ''localPath'' read_string (\<lambda>local_path. optional es ''md5'' read_string (\<lambda>md5.
     optional es ''mediaId'' read_string (\<lambda>media_id. needed es ''type'' read_string (\<lambda>ty.
     optional es ''url'' read_string (\<lambda>url.
     Inr \<lparr>mo_exported = exported, mo_file_name = file_name, mo_local_path = local_path, mo_md5 = md5, mo_media_id =
       media_id, mo_type = ty, mo_url = url\<rparr>))))))))"

definition read_quote_dto :: "json \<Rightarrow> string + quote_dto" where
  "read_quote_dto v = with_fields [''accountName'', ''content'', ''platformMessageId'', ''sender'', ''type''] v (\<lambda>es.
     needed es ''accountName'' read_string (\<lambda>account_name.
     needed es ''content'' read_string (\<lambda>content.
     needed es ''platformMessageId'' read_string (\<lambda>platform_message_id.
     needed es ''sender'' read_string (\<lambda>sender. needed es ''type'' read_i64 (\<lambda>ty.
     Inr \<lparr>qd_account_name = account_name, qd_content = content, qd_platform_message_id = platform_message_id,
       qd_sender = sender, qd_type = ty\<rparr>))))))"

definition read_message_native :: "json \<Rightarrow> string + message_native" where
  "read_message_native v = with_fields [''appmsgSubtype'', ''baseType'', ''content'', ''createTime'', ''isSend'', ''localId'', ''localType'', ''media'',
       ''parsedContent'', ''quote'', ''rawContent'', ''replyToMessageId'', ''senderName'', ''senderUsername'', ''serverId'',
       ''sortSeq''] v (\<lambda>es.
     optional es ''appmsgSubtype'' read_i64 (\<lambda>appmsg_subtype.
     needed es ''baseType'' read_i64 (\<lambda>base_type. needed es ''content'' read_string (\<lambda>content.
     needed es ''createTime'' read_i64 (\<lambda>create_time. needed es ''isSend'' read_i64 (\<lambda>is_send.
     needed es ''localId'' read_i64 (\<lambda>local_id. needed es ''localType'' read_i64 (\<lambda>local_type.
     optional es ''media'' read_media_object (\<lambda>media.
     needed es ''parsedContent'' read_string (\<lambda>parsed_content.
     optional es ''quote'' read_quote_dto (\<lambda>quote. needed es ''rawContent'' read_string (\<lambda>raw_content.
     optional es ''replyToMessageId'' read_string (\<lambda>reply_to_message_id.
     needed es ''senderName'' read_string (\<lambda>sender_name.
     needed es ''senderUsername'' read_string (\<lambda>sender_username.
     needed es ''serverId'' read_string (\<lambda>server_id. needed es ''sortSeq'' read_i64 (\<lambda>sort_seq.
     Inr \<lparr>mn_appmsg_subtype = appmsg_subtype, mn_base_type = base_type, mn_content = content, mn_create_time =
       create_time, mn_is_send = is_send, mn_local_id = local_id, mn_local_type = local_type, mn_media = media,
       mn_parsed_content = parsed_content, mn_quote = quote, mn_raw_content = raw_content, mn_reply_to_message_id =
       reply_to_message_id, mn_sender_name = sender_name, mn_sender_username = sender_username, mn_server_id = server_id,
       mn_sort_seq = sort_seq\<rparr>)))))))))))))))))"

definition read_media_envelope :: "json \<Rightarrow> string + media_envelope" where
  "read_media_envelope v = with_fields [''count'', ''enabled'', ''exportPath''] v (\<lambda>es.
     needed es ''count'' read_u64 (\<lambda>count. needed es ''enabled'' read_bool (\<lambda>enabled.
     needed es ''exportPath'' read_string (\<lambda>export_path.
     Inr \<lparr>me_count = count, me_enabled = enabled, me_export_path = export_path\<rparr>))))"

definition read_messages_native :: "json \<Rightarrow> string + messages_native" where
  "read_messages_native v = with_fields [''count'', ''hasMore'', ''media'', ''messages'', ''success'', ''talker''] v (\<lambda>es.
     needed es ''count'' read_u64 (\<lambda>count. needed es ''hasMore'' read_bool (\<lambda>has_more.
     needed es ''media'' read_media_envelope (\<lambda>media.
     needed es ''messages'' (read_list read_message_native) (\<lambda>messages.
     needed es ''success'' read_bool (\<lambda>success. needed es ''talker'' read_string (\<lambda>talker.
     Inr \<lparr>ml_count = count, ml_has_more = has_more, ml_media = media, ml_messages = messages, ml_success = success,
       ml_talker = talker\<rparr>)))))))"

definition read_contact_dto :: "json \<Rightarrow> string + contact_dto" where
  "read_contact_dto v = with_fields [''alias'', ''avatarUrl'', ''displayName'', ''nickname'', ''remark'', ''type'', ''username''] v (\<lambda>es.
     needed es ''alias'' read_string (\<lambda>alias. needed es ''avatarUrl'' read_string (\<lambda>avatar_url.
     needed es ''displayName'' read_string (\<lambda>display_name.
     needed es ''nickname'' read_string (\<lambda>nickname. needed es ''remark'' read_string (\<lambda>remark.
     needed es ''type'' read_string (\<lambda>ty. needed es ''username'' read_string (\<lambda>username.
     Inr \<lparr>cd_alias = alias, cd_avatar_url = avatar_url, cd_display_name = display_name, cd_nickname = nickname,
       cd_remark = remark, cd_type = ty, cd_username = username\<rparr>))))))))"

definition read_contacts_dto :: "json \<Rightarrow> string + contacts_dto" where
  "read_contacts_dto v = with_fields [''contacts'', ''count'', ''hasMore'', ''success'', ''total''] v (\<lambda>es.
     needed es ''contacts'' (read_list read_contact_dto) (\<lambda>contacts.
     needed es ''count'' read_u64 (\<lambda>count. needed es ''hasMore'' read_bool (\<lambda>has_more.
     needed es ''success'' read_bool (\<lambda>success. needed es ''total'' read_u64 (\<lambda>total.
     Inr \<lparr>cl_contacts = contacts, cl_count = count, cl_has_more = has_more, cl_success = success, cl_total =
       total\<rparr>))))))"

definition read_group_member :: "json \<Rightarrow> string + group_member" where
  "read_group_member v = with_fields [''alias'', ''avatarUrl'', ''displayName'', ''groupNickname'', ''isFriend'', ''isOwner'', ''messageCount'', ''nickname'',
       ''remark'', ''wxid''] v (\<lambda>es.
     needed es ''alias'' read_string (\<lambda>alias. needed es ''avatarUrl'' read_string (\<lambda>avatar_url.
     needed es ''displayName'' read_string (\<lambda>display_name.
     needed es ''groupNickname'' read_string (\<lambda>group_nickname.
     needed es ''isFriend'' read_bool (\<lambda>is_friend. needed es ''isOwner'' read_bool (\<lambda>is_owner.
     needed es ''messageCount'' read_i64 (\<lambda>message_count.
     needed es ''nickname'' read_string (\<lambda>nickname. needed es ''remark'' read_string (\<lambda>remark.
     needed es ''wxid'' read_string (\<lambda>wxid.
     Inr \<lparr>gm_alias = alias, gm_avatar_url = avatar_url, gm_display_name = display_name, gm_group_nickname =
       group_nickname, gm_is_friend = is_friend, gm_is_owner = is_owner, gm_message_count = message_count, gm_nickname =
       nickname, gm_remark = remark, gm_wxid = wxid\<rparr>)))))))))))"

definition read_group_members :: "json \<Rightarrow> string + group_members" where
  "read_group_members v = with_fields [''chatroomId'', ''count'', ''fromCache'', ''members'', ''success'', ''updatedAt''] v (\<lambda>es.
     needed es ''chatroomId'' read_string (\<lambda>chatroom_id. needed es ''count'' read_u64 (\<lambda>count.
     needed es ''fromCache'' read_bool (\<lambda>from_cache.
     needed es ''members'' (read_list read_group_member) (\<lambda>members.
     needed es ''success'' read_bool (\<lambda>success. needed es ''updatedAt'' read_i64 (\<lambda>updated_at.
     Inr \<lparr>gl_chatroom_id = chatroom_id, gl_count = count, gl_from_cache = from_cache, gl_members = members, gl_success
       = success, gl_updated_at = updated_at\<rparr>)))))))"

definition read_event_media :: "json \<Rightarrow> string + event_media" where
  "read_event_media v = with_fields [''fileName'', ''md5'', ''mediaId'', ''type''] v (\<lambda>es.
     needed es ''fileName'' read_string (\<lambda>file_name. optional es ''md5'' read_string (\<lambda>md5.
     optional es ''mediaId'' read_string (\<lambda>media_id. needed es ''type'' read_string (\<lambda>ty.
     Inr \<lparr>vm_file_name = file_name, vm_md5 = md5, vm_type = ty, vm_media_id = media_id\<rparr>)))))"

definition read_event_new :: "json \<Rightarrow> string + event_new" where
  "read_event_new v = with_fields [''content'', ''event'', ''groupName'', ''media'', ''rawid'', ''sessionId'', ''sessionType'', ''sourceName'', ''timestamp''] v (\<lambda>es.
     needed es ''content'' read_string (\<lambda>content. needed es ''event'' read_string (\<lambda>event.
     optional es ''groupName'' read_string (\<lambda>group_name.
     optional es ''media'' read_event_media (\<lambda>media. needed es ''rawid'' read_string (\<lambda>rawid.
     needed es ''sessionId'' read_string (\<lambda>session_id.
     needed es ''sessionType'' read_string (\<lambda>session_type.
     needed es ''sourceName'' read_string (\<lambda>source_name. needed es ''timestamp'' read_i64 (\<lambda>timestamp.
     Inr \<lparr>vn_content = content, vn_event = event, vn_group_name = group_name, vn_media = media, vn_rawid = rawid,
       vn_session_id = session_id, vn_session_type = session_type, vn_source_name = source_name, vn_timestamp =
       timestamp\<rparr>))))))))))"

definition read_event_revoke :: "json \<Rightarrow> string + event_revoke" where
  "read_event_revoke v = with_fields [''content'', ''event'', ''groupName'', ''rawid'', ''sessionId'', ''sessionType'', ''sourceName'', ''timestamp''] v (\<lambda>es.
     needed es ''content'' read_string (\<lambda>content. needed es ''event'' read_string (\<lambda>event.
     optional es ''groupName'' read_string (\<lambda>group_name. needed es ''rawid'' read_string (\<lambda>rawid.
     needed es ''sessionId'' read_string (\<lambda>session_id.
     needed es ''sessionType'' read_string (\<lambda>session_type.
     needed es ''sourceName'' read_string (\<lambda>source_name. needed es ''timestamp'' read_i64 (\<lambda>timestamp.
     Inr \<lparr>vr_content = content, vr_event = event, vr_group_name = group_name, vr_rawid = rawid, vr_session_id =
       session_id, vr_session_type = session_type, vr_source_name = source_name, vr_timestamp = timestamp\<rparr>)))))))))"

definition read_watermark_value :: "json \<Rightarrow> string + watermark_value" where
  "read_watermark_value v = with_fields [''create_time'', ''local_id'', ''sort_seq''] v (\<lambda>es.
     needed es ''create_time'' read_i64 (\<lambda>create_time. needed es ''local_id'' read_i64 (\<lambda>local_id.
     needed es ''sort_seq'' read_i64 (\<lambda>sort_seq.
     Inr \<lparr>wv_create_time = create_time, wv_local_id = local_id, wv_sort_seq = sort_seq\<rparr>))))"

definition read_watermark_entry :: "json \<Rightarrow> string + watermark_entry" where
  "read_watermark_entry v = with_fields [''table'', ''watermark''] v (\<lambda>es.
     needed es ''table'' read_string (\<lambda>table.
     needed es ''watermark'' read_watermark_value (\<lambda>watermark.
     Inr \<lparr>we_table = table, we_watermark = watermark\<rparr>)))"

definition read_event_sync :: "json \<Rightarrow> string + event_sync" where
  "read_event_sync v = with_fields [''event'', ''generation'', ''watermarks''] v (\<lambda>es.
     needed es ''event'' read_string (\<lambda>event. needed es ''generation'' read_i64 (\<lambda>generation.
     needed es ''watermarks'' (read_list read_watermark_entry) (\<lambda>watermarks.
     Inr \<lparr>vs_event = event, vs_generation = nat generation, vs_watermarks = watermarks\<rparr>))))"

definition read_notification_frame :: "json \<Rightarrow> string + notification_frame" where
  "read_notification_frame v = with_fields [''event'', ''eventId'', ''platformMessageId'', ''sessionId'', ''timestamp''] v (\<lambda>es.
     needed es ''event'' read_string (\<lambda>event. needed es ''eventId'' read_string (\<lambda>event_id.
     optional es ''platformMessageId'' read_string (\<lambda>platform_message_id.
     needed es ''sessionId'' read_string (\<lambda>session_id. needed es ''timestamp'' read_i64 (\<lambda>timestamp.
     Inr \<lparr>nf_event = event, nf_event_id = event_id, nf_platform_message_id = platform_message_id, nf_session_id =
       session_id, nf_timestamp = timestamp\<rparr>))))))"

definition wire_readers :: "json readers" where
  "wire_readers = \<lparr>rd_health = read_health_dto, rd_accounts = read_accounts_list, rd_json = Inr, rd_sync = read_sync_result,
     rd_pull = read_pull_envelope, rd_sessions = read_sessions_native, rd_native = read_messages_native,
     rd_chatlab = read_chatlab_messages, rd_contacts = read_contacts_dto, rd_members = read_group_members\<rparr>"

section \<open>What the numbers must fit\<close>

text \<open>
  The numbers of the structures within the types the code gives them. The server's generation is unsigned and
  the client's signed.
\<close>

definition generation_ok :: "nat \<Rightarrow> bool" where
  "generation_ok n \<longleftrightarrow> i64_ok (int n)"

definition index_progress_dto_ok :: "index_progress_dto \<Rightarrow> bool" where
  "index_progress_dto_ok p \<longleftrightarrow> usize_ok (pd_messages_indexed p) \<and> usize_ok (pd_tables_done p) \<and>
     usize_ok (pd_tables_total p)"

definition account_state_view_ok :: "account_state_view \<Rightarrow> bool" where
  "account_state_view_ok a \<longleftrightarrow> usize_ok (av_message_count a) \<and> is_none_or index_progress_dto_ok
     (av_progress a)"

definition accounts_list_ok :: "accounts_list \<Rightarrow> bool" where
  "accounts_list_ok l \<longleftrightarrow> list_all account_state_view_ok (al_accounts l)"

definition sync_result_ok :: "sync_result \<Rightarrow> bool" where
  "sync_result_ok r \<longleftrightarrow> usize_ok (sr_new_messages r) \<and> usize_ok (sr_revoke_messages r)"

definition session_native_ok :: "session_native \<Rightarrow> bool" where
  "session_native_ok s \<longleftrightarrow> i64_ok (sn_last_timestamp s) \<and> usize_ok (sn_message_count s) \<and> i64_ok
     (sn_type s) \<and> i64_ok (sn_unread_count s)"

definition sessions_native_ok :: "sessions_native \<Rightarrow> bool" where
  "sessions_native_ok l \<longleftrightarrow> usize_ok (sl_count l) \<and> list_all session_native_ok (sl_sessions l)"

definition chatlab_header_ok :: "chatlab_header \<Rightarrow> bool" where
  "chatlab_header_ok h \<longleftrightarrow> i64_ok (ch_exported_at h)"

definition chatlab_message_ok :: "chatlab_message \<Rightarrow> bool" where
  "chatlab_message_ok m \<longleftrightarrow> i64_ok (cg_timestamp m) \<and> i64_ok (cg_type m)"

definition chatlab_messages_ok :: "chatlab_messages \<Rightarrow> bool" where
  "chatlab_messages_ok l \<longleftrightarrow> chatlab_header_ok (cs_chatlab l) \<and> usize_ok (cs_count l) \<and> list_all
     chatlab_message_ok (cs_messages l)"

definition pull_message_ok :: "pull_message \<Rightarrow> bool" where
  "pull_message_ok m \<longleftrightarrow> i64_ok (cg_timestamp m) \<and> i64_ok (cg_type m)"

definition pull_sync_ok :: "pull_sync \<Rightarrow> bool" where
  "pull_sync_ok y \<longleftrightarrow> usize_ok (py_next_offset y) \<and> i64_ok (py_next_since y) \<and> i64_ok (py_watermark
     y)"

definition pull_envelope_ok :: "pull_envelope \<Rightarrow> bool" where
  "pull_envelope_ok e \<longleftrightarrow> chatlab_header_ok (pe_chatlab e) \<and> list_all pull_message_ok (pe_messages e)
     \<and> pull_sync_ok (pe_sync e)"

definition quote_dto_ok :: "quote_dto \<Rightarrow> bool" where
  "quote_dto_ok q \<longleftrightarrow> i64_ok (qd_type q)"

definition message_native_ok :: "message_native \<Rightarrow> bool" where
  "message_native_ok m \<longleftrightarrow> is_none_or i64_ok (mn_appmsg_subtype m) \<and> i64_ok (mn_base_type m) \<and>
     i64_ok (mn_create_time m) \<and> i64_ok (mn_is_send m) \<and> i64_ok (mn_local_id m) \<and> i64_ok (mn_local_type m) \<and>
     is_none_or quote_dto_ok (mn_quote m) \<and> i64_ok (mn_sort_seq m)"

definition media_envelope_ok :: "media_envelope \<Rightarrow> bool" where
  "media_envelope_ok m \<longleftrightarrow> usize_ok (me_count m)"

definition messages_native_ok :: "messages_native \<Rightarrow> bool" where
  "messages_native_ok l \<longleftrightarrow> usize_ok (ml_count l) \<and> media_envelope_ok (ml_media l) \<and> list_all
     message_native_ok (ml_messages l)"

definition contacts_dto_ok :: "contacts_dto \<Rightarrow> bool" where
  "contacts_dto_ok l \<longleftrightarrow> usize_ok (cl_count l) \<and> usize_ok (cl_total l)"

definition group_member_ok :: "group_member \<Rightarrow> bool" where
  "group_member_ok m \<longleftrightarrow> i64_ok (gm_message_count m)"

definition group_members_ok :: "group_members \<Rightarrow> bool" where
  "group_members_ok l \<longleftrightarrow> usize_ok (gl_count l) \<and> list_all group_member_ok (gl_members l) \<and> i64_ok
     (gl_updated_at l)"

definition event_new_ok :: "event_new \<Rightarrow> bool" where
  "event_new_ok e \<longleftrightarrow> i64_ok (vn_timestamp e)"

definition event_revoke_ok :: "event_revoke \<Rightarrow> bool" where
  "event_revoke_ok e \<longleftrightarrow> i64_ok (vr_timestamp e)"

definition watermark_value_ok :: "watermark_value \<Rightarrow> bool" where
  "watermark_value_ok w \<longleftrightarrow> i64_ok (wv_create_time w) \<and> i64_ok (wv_local_id w) \<and> i64_ok
     (wv_sort_seq w)"

definition watermark_entry_ok :: "watermark_entry \<Rightarrow> bool" where
  "watermark_entry_ok w \<longleftrightarrow> watermark_value_ok (we_watermark w)"

definition event_sync_ok :: "event_sync \<Rightarrow> bool" where
  "event_sync_ok e \<longleftrightarrow> generation_ok (vs_generation e) \<and> list_all watermark_entry_ok (vs_watermarks e)"

definition notification_frame_ok :: "notification_frame \<Rightarrow> bool" where
  "notification_frame_ok f \<longleftrightarrow> i64_ok (nf_timestamp f)"

section \<open>Written and read\<close>

lemma body_not_null [simp]: "media_brief_body b \<noteq> Null" "media_object_body m \<noteq> Null" "quote_dto_body q \<noteq> Null"
  "event_media_body e \<noteq> Null" "index_progress_dto_body p \<noteq> Null"
  by (simp_all add: media_brief_body_def media_object_body_def quote_dto_body_def event_media_body_def index_progress_dto_body_def)

lemma number_not_null [simp]: "int_json n \<noteq> Null" "nat_json k \<noteq> Null"
  by (simp_all add: int_json_def nat_json_def)

lemma is_none_or_iff: "is_none_or P v \<longleftrightarrow> (\<forall>x. v = Some x \<longrightarrow> P x)"
  by (cases v) simp_all

lemma read_generation [simp]: "generation_ok n \<Longrightarrow> read_i64 (nat_json n) = Inr (int n)"
  using read_i64_json [of "int n"] by (simp add: generation_ok_def nat_json_def int_json_def int_to_dec_def)

lemma read_enum_body [simp]: "read_account_status (account_status_body a) = Inr a" "read_account_phase (account_phase_body p) = Inr p"
  by (cases a; simp add: read_account_status_def variant_name_def) (cases p; simp add: read_account_phase_def variant_name_def)

lemma read_index_progress_dto_body [simp]: "index_progress_dto_ok p \<Longrightarrow> read_index_progress_dto (index_progress_dto_body p) = Inr p"
  by (cases p) (simp add: read_index_progress_dto_def index_progress_dto_body_def index_progress_dto_ok_def)

lemma read_account_state_view_body [simp]: "account_state_view_ok a \<Longrightarrow> read_account_state_view (account_state_view_body a) = Inr a"
  by (cases a) (simp add: read_account_state_view_def account_state_view_body_def account_state_view_ok_def is_none_or_iff)

lemma read_accounts_list_body [simp]: "accounts_list_ok l \<Longrightarrow> read_accounts_list (accounts_list_body l) = Inr l"
  by (cases l) (simp add: read_accounts_list_def accounts_list_body_def accounts_list_ok_def list_all_iff)

lemma read_health_dto_body [simp]: "read_health_dto (health_dto_body h) = Inr h"
  by (cases h) (simp add: read_health_dto_def health_dto_body_def)

lemma read_sync_result_body [simp]: "sync_result_ok r \<Longrightarrow> read_sync_result (sync_result_body r) = Inr r"
  by (cases r) (simp add: read_sync_result_def sync_result_body_def sync_result_ok_def)

lemma read_session_native_body [simp]: "session_native_ok s \<Longrightarrow> read_session_native (session_native_body s) = Inr s"
  by (cases s) (simp add: read_session_native_def session_native_body_def session_native_ok_def)

lemma read_sessions_native_body [simp]: "sessions_native_ok l \<Longrightarrow> read_sessions_native (sessions_native_body l) = Inr l"
  by (cases l) (simp add: read_sessions_native_def sessions_native_body_def sessions_native_ok_def list_all_iff)

lemma read_page_block_body [simp]: "read_page_block (page_block_body p) = Inr p"
  by (cases p) (simp add: read_page_block_def page_block_body_def)

lemma read_media_brief_body [simp]: "read_media_brief (media_brief_body b) = Inr b"
  by (cases b) (simp add: read_media_brief_def media_brief_body_def)

lemma read_chatlab_header_body [simp]: "chatlab_header_ok h \<Longrightarrow> read_chatlab_header (chatlab_header_body h) = Inr h"
  by (cases h) (simp add: read_chatlab_header_def chatlab_header_body_def chatlab_header_ok_def)

lemma read_chatlab_meta_body [simp]: "read_chatlab_meta (chatlab_meta_body m) = Inr m"
  by (cases m) (simp add: read_chatlab_meta_def chatlab_meta_body_def)

lemma read_chatlab_member_body [simp]: "read_chatlab_member (chatlab_member_body m) = Inr m"
  by (cases m) (simp add: read_chatlab_member_def chatlab_member_body_def)

lemma read_chatlab_message_body [simp]: "chatlab_message_ok m \<Longrightarrow> read_chatlab_message (chatlab_message_body m) = Inr m"
  by (cases m) (simp add: read_chatlab_message_def chatlab_message_body_def chatlab_message_ok_def)

lemma read_chatlab_messages_body [simp]: "chatlab_messages_ok l \<Longrightarrow> read_chatlab_messages (chatlab_messages_body l) = Inr l"
  by (cases l) (simp add: read_chatlab_messages_def chatlab_messages_body_def chatlab_messages_ok_def list_all_iff)

lemma read_pull_message_body [simp]: "pull_message_ok m \<Longrightarrow> read_pull_message (pull_message_body m) = Inr m"
  by (cases m) (simp add: read_pull_message_def pull_message_body_def pull_message_ok_def)

lemma read_pull_sync_body [simp]: "pull_sync_ok y \<Longrightarrow> read_pull_sync (pull_sync_body y) = Inr y"
  by (cases y) (simp add: read_pull_sync_def pull_sync_body_def pull_sync_ok_def)

lemma read_pull_envelope_body [simp]: "pull_envelope_ok e \<Longrightarrow> read_pull_envelope (pull_envelope_body e) = Inr e"
  by (cases e) (simp add: read_pull_envelope_def pull_envelope_body_def pull_envelope_ok_def list_all_iff)

lemma read_media_object_body [simp]: "read_media_object (media_object_body m) = Inr m"
  by (cases m) (simp add: read_media_object_def media_object_body_def)

lemma read_quote_dto_body [simp]: "quote_dto_ok q \<Longrightarrow> read_quote_dto (quote_dto_body q) = Inr q"
  by (cases q) (simp add: read_quote_dto_def quote_dto_body_def quote_dto_ok_def)

lemma read_message_native_body [simp]: "message_native_ok m \<Longrightarrow> read_message_native (message_native_body m) = Inr m"
  by (cases m) (simp add: read_message_native_def message_native_body_def message_native_ok_def is_none_or_iff)

lemma read_media_envelope_body [simp]: "media_envelope_ok m \<Longrightarrow> read_media_envelope (media_envelope_body m) = Inr m"
  by (cases m) (simp add: read_media_envelope_def media_envelope_body_def media_envelope_ok_def)

lemma read_messages_native_body [simp]: "messages_native_ok l \<Longrightarrow> read_messages_native (messages_native_body l) = Inr l"
  by (cases l) (simp add: read_messages_native_def messages_native_body_def messages_native_ok_def list_all_iff)

lemma read_contact_dto_body [simp]: "read_contact_dto (contact_dto_body c) = Inr c"
  by (cases c) (simp add: read_contact_dto_def contact_dto_body_def)

lemma read_contacts_dto_body [simp]: "contacts_dto_ok l \<Longrightarrow> read_contacts_dto (contacts_dto_body l) = Inr l"
  by (cases l) (simp add: read_contacts_dto_def contacts_dto_body_def contacts_dto_ok_def list_all_iff)

lemma read_group_member_body [simp]: "group_member_ok m \<Longrightarrow> read_group_member (group_member_body m) = Inr m"
  by (cases m) (simp add: read_group_member_def group_member_body_def group_member_ok_def)

lemma read_group_members_body [simp]: "group_members_ok l \<Longrightarrow> read_group_members (group_members_body l) = Inr l"
  by (cases l) (simp add: read_group_members_def group_members_body_def group_members_ok_def list_all_iff)

lemma read_event_media_body [simp]: "read_event_media (event_media_body m) = Inr m"
  by (cases m) (simp add: read_event_media_def event_media_body_def)

lemma read_event_new_body [simp]: "event_new_ok e \<Longrightarrow> read_event_new (event_new_body e) = Inr e"
  by (cases e) (simp add: read_event_new_def event_new_body_def event_new_ok_def)

lemma read_event_revoke_body [simp]: "event_revoke_ok e \<Longrightarrow> read_event_revoke (event_revoke_body e) = Inr e"
  by (cases e) (simp add: read_event_revoke_def event_revoke_body_def event_revoke_ok_def)

lemma read_watermark_value_body [simp]: "watermark_value_ok w \<Longrightarrow> read_watermark_value (watermark_value_body w) = Inr w"
  by (cases w) (simp add: read_watermark_value_def watermark_value_body_def watermark_value_ok_def)

lemma read_watermark_entry_body [simp]: "watermark_entry_ok w \<Longrightarrow> read_watermark_entry (watermark_entry_body w) = Inr w"
  by (cases w) (simp add: read_watermark_entry_def watermark_entry_body_def watermark_entry_ok_def)

lemma read_event_sync_body [simp]: "event_sync_ok e \<Longrightarrow> read_event_sync (event_sync_body e) = Inr e"
  by (cases e) (simp add: read_event_sync_def event_sync_body_def event_sync_ok_def list_all_iff)

lemma read_notification_frame_body [simp]: "notification_frame_ok f \<Longrightarrow> read_notification_frame (notification_frame_body f) = Inr f"
  by (cases f) (simp add: read_notification_frame_def notification_frame_body_def notification_frame_ok_def)

text \<open>A generation the client's signed type cannot hold is refused, and the event with it.\<close>

lemma read_generation_too_large:
  assumes "\<not> generation_ok n"
  shows "read_i64 (nat_json n) = Inl ''invalid number''"
proof -
  have d: "is_ascii_digit (hd (nat_to_dec n))" by (rule nat_to_dec_head_digit)
  then have "hd (nat_to_dec n) \<noteq> CHR ''-''" and "hd (nat_to_dec n) \<noteq> CHR ''+''" by (auto simp: ascii_class_defs)
  then have "parse_i64 (nat_to_dec n) = None"
    using assms by (cases "nat_to_dec n") (use parse_nat_to_dec [of n] in \<open>auto simp: parse_i64_def generation_ok_def opt_filter_def\<close>)
  moreover have "nat_to_dec n \<noteq> ''-0''" using \<open>hd (nat_to_dec n) \<noteq> CHR ''-''\<close> by auto
  ultimately show ?thesis by (simp add: read_i64_def nat_json_def)
qed

text \<open>
  C15. Server and client agree on every body they exchange: what the server's structures are written as, the client's generated
  readers return as the same values, an omitted or null field as a missing one, provided each number fits the type that
  the code gives it; and the one type that differs, the generation of a baseline, is refused by the client beyond its range.
\<close>

theorem bodies_read_back:
  "(\<forall>h. read_health_dto (health_dto_body h) = Inr h)
   \<and> (\<forall>l. accounts_list_ok l \<longrightarrow> read_accounts_list (accounts_list_body l) = Inr l)
   \<and> (\<forall>r. sync_result_ok r \<longrightarrow> read_sync_result (sync_result_body r) = Inr r)
   \<and> (\<forall>l. sessions_native_ok l \<longrightarrow> read_sessions_native (sessions_native_body l) = Inr l)
   \<and> (\<forall>l. messages_native_ok l \<longrightarrow> read_messages_native (messages_native_body l) = Inr l)
   \<and> (\<forall>l. chatlab_messages_ok l \<longrightarrow> read_chatlab_messages (chatlab_messages_body l) = Inr l)
   \<and> (\<forall>e. pull_envelope_ok e \<longrightarrow> read_pull_envelope (pull_envelope_body e) = Inr e)
   \<and> (\<forall>l. contacts_dto_ok l \<longrightarrow> read_contacts_dto (contacts_dto_body l) = Inr l)
   \<and> (\<forall>l. group_members_ok l \<longrightarrow> read_group_members (group_members_body l) = Inr l)
   \<and> (\<forall>e. event_new_ok e \<longrightarrow> read_event_new (event_new_body e) = Inr e)
   \<and> (\<forall>e. event_revoke_ok e \<longrightarrow> read_event_revoke (event_revoke_body e) = Inr e)
   \<and> (\<forall>e. event_sync_ok e \<longrightarrow> read_event_sync (event_sync_body e) = Inr e)
   \<and> (\<forall>e. \<not> generation_ok (vs_generation e) \<longrightarrow> read_event_sync (event_sync_body e) = Inl ''invalid number'')"
proof -
  have "read_event_sync (event_sync_body e) = Inl ''invalid number''" if "\<not> generation_ok (vs_generation e)" for e
    using read_generation_too_large [OF that] by (simp add: read_event_sync_def event_sync_body_def needed_def)
  then show ?thesis by simp
qed

definition demo_pull_body :: pull_envelope where
  "demo_pull_body = \<lparr>pe_chatlab = header 1700000000, pe_members = [], pe_messages = [\<lparr>cg_account_name = ''a'', cg_content = ''hi'',
     cg_group_nickname = [], cg_media = Some \<lparr>bf_file_name = ''f.jpg'', bf_md5 = None, bf_type = ''image''\<rparr>,
     cg_platform_message_id = ''-7'', cg_reply_to_message_id = None, cg_sender = ''wxid_a'', cg_timestamp = 1700000000, cg_type = 1,
     pu_media_id = None\<rparr>], pe_meta = meta store_default ''wxid_a'' ''wxid_a'' [],
     pe_sync = \<lparr>py_has_more = False, py_next_offset = 0, py_next_since = 1700000001, py_watermark = 1700000001\<rparr>\<rparr>"

theorem bodies_read_back_witness:
  "read_pull_envelope (pull_envelope_body demo_pull_body) = Inr demo_pull_body
   \<and> read_event_sync (event_sync_body \<lparr>vs_event = ''sync'', vs_generation = 2 ^ 63, vs_watermarks = []\<rparr>) = Inl ''invalid number''"
proof -
  have e: "pull_envelope_ok demo_pull_body" by code_simp
  have g: "\<not> generation_ok (vs_generation \<lparr>vs_event = ''sync'', vs_generation = 2 ^ 63, vs_watermarks = []\<rparr>)"
    by (simp add: generation_ok_def i64_ok_def i64_max_def)
  show ?thesis using bodies_read_back e g by blast
qed

end
