(* ===== verification/Client_Stream.thy ===== *)
theory Client_Stream
  imports Wire "HOL-Library.Sublist"
begin

text \<open>
  The event stream of the client library (\<open>watch\<close>, \<open>SseFrameState\<close> and \<open>decode_event\<close> in \<open>clients/rust/src/client.rs\<close>):
  bytes into lines, lines into events, and the connections that follow one another. Parsing JSON and reading it as the
  payload types are arguments (\<open>event_readers\<close>); what a connection brings is an \<open>attempt\<close>, a function of the
  cursor the client sends.
\<close>

section \<open>Lines into events\<close>

datatype server_event = Ev_New event_new | Ev_Revoke event_revoke | Ev_Sync event_sync | Ev_Notification notification_frame

definition event_kind :: "server_event \<Rightarrow> string" where
  "event_kind ev = (case ev of Ev_New e \<Rightarrow> vn_event e | Ev_Revoke e \<Rightarrow> vr_event e | Ev_Sync e \<Rightarrow> vs_event e
     | Ev_Notification e \<Rightarrow> nf_event e)"

definition event_generation :: "server_event \<Rightarrow> nat" where
  "event_generation ev = (case ev of Ev_Sync e \<Rightarrow> vs_generation e | _ \<Rightarrow> 0)"

record event_readers =
  er_json :: "string \<Rightarrow> string + json"
  er_new :: "json \<Rightarrow> string + event_new"
  er_revoke :: "json \<Rightarrow> string + event_revoke"
  er_sync :: "json \<Rightarrow> string + event_sync"
  er_notification :: "json \<Rightarrow> string + notification_frame"

definition decode_event :: "event_readers \<Rightarrow> string \<Rightarrow> json \<Rightarrow> client_error + server_event" where
  "decode_event er kind v = (if kind = ''message.new'' then map_sum Wrong_Shape Ev_New (er_new er v)
     else if kind = ''message.revoke'' then map_sum Wrong_Shape Ev_Revoke (er_revoke er v)
     else if kind = ''sync'' then map_sum Wrong_Shape Ev_Sync (er_sync er v)
     else if kind = ''notification'' then map_sum Wrong_Shape Ev_Notification (er_notification er v)
     else Inr (Ev_Notification \<lparr>nf_event = kind, nf_event_id = [], nf_platform_message_id = None, nf_session_id = [],
       nf_timestamp = 0\<rparr>))"

record sse_state =
  sf_pending_id :: "nat option"
  sf_last_event_id :: "nat option"

definition sse_default :: sse_state where
  "sse_default = \<lparr>sf_pending_id = None, sf_last_event_id = None\<rparr>"

definition begin_connection :: "sse_state \<Rightarrow> sse_state" where
  "begin_connection s = s\<lparr>sf_pending_id := None\<rparr>"

definition commit_id :: "sse_state \<Rightarrow> sse_state" where
  "commit_id s = (case sf_pending_id s of Some i \<Rightarrow> \<lparr>sf_pending_id = None, sf_last_event_id = Some i\<rparr> | None \<Rightarrow> s)"

definition read_payload :: "event_readers \<Rightarrow> string \<Rightarrow> client_error + server_event" where
  "read_payload er payload = (case er_json er payload of Inl e \<Rightarrow> Inl (Wrong_Shape e)
     | Inr v \<Rightarrow> decode_event er (opt_or (as_str (json_get v ''event'')) []) v)"

definition feed :: "event_readers \<Rightarrow> string \<Rightarrow> sse_state \<Rightarrow> sse_state \<times> (client_error + server_event) option" where
  "feed er line s = (case strip_prefix ''id:'' line of
       Some rest \<Rightarrow> (case parse_usize (trim rest) of Some i \<Rightarrow> s\<lparr>sf_pending_id := Some i\<rparr> | None \<Rightarrow> s, None)
     | None \<Rightarrow> (case strip_prefix ''data:'' line of
         Some rest \<Rightarrow> (commit_id s, Some (read_payload er (opt_or (strip_prefix '' '' rest) rest)))
       | None \<Rightarrow> (s, None)))"

section \<open>Bytes into lines\<close>

function feed_lines :: "event_readers \<Rightarrow> string \<Rightarrow> sse_state \<Rightarrow> string \<times> sse_state \<times> (client_error + server_event) list" where
  "feed_lines er buf s = (if lf \<notin> set buf then (buf, s, []) else
     (let line = takeWhile (\<lambda>c. c \<noteq> lf) buf; (s1, ev) = feed er (from_utf8_lossy line) s;
          (buf', s2, evs) = feed_lines er (drop (Suc (length line)) buf) s1
      in (buf', s2, option_list ev @ evs)))"
  by pat_completeness auto
termination by (relation "measure (\<lambda>(er, buf, s). length buf)") (auto dest: length_pos_if_in_set)

declare feed_lines.simps [simp del]

fun read_chunks :: "event_readers \<Rightarrow> string list \<Rightarrow> string \<Rightarrow> sse_state \<Rightarrow> sse_state \<times> (client_error + server_event) list" where
  "read_chunks er [] buf s = (s, [])"
| "read_chunks er (chunk # chunks) buf s = (case feed_lines er (buf @ chunk) s of (buf', s1, evs) \<Rightarrow>
     (case read_chunks er chunks buf' s1 of (s2, evs') \<Rightarrow> (s2, evs @ evs')))"

section \<open>The server's payloads\<close>

definition wire_event_readers :: "(string \<Rightarrow> string + json) \<Rightarrow> event_readers" where
  "wire_event_readers parse = \<lparr>er_json = parse, er_new = read_event_new, er_revoke = read_event_revoke, er_sync = read_event_sync,
     er_notification = read_notification_frame\<rparr>"

text \<open>The payloads of the client's face, and the event each is decoded to: the greeting of a stream becomes an empty notification.\<close>

fun native_payload :: "payload \<Rightarrow> bool" where
  "native_payload Ready_Payload = True"
| "native_payload (New_Payload e) = (vn_event e = ''message.new'' \<and> event_new_ok e)"
| "native_payload (Revoke_Payload e) = (vr_event e = ''message.revoke'' \<and> event_revoke_ok e)"
| "native_payload (Sync_Payload e) = (vs_event e = ''sync'' \<and> event_sync_ok e)"
| "native_payload (Notification f) = False"

fun event_of :: "payload \<Rightarrow> server_event" where
  "event_of Ready_Payload = Ev_Notification \<lparr>nf_event = [], nf_event_id = [], nf_platform_message_id = None, nf_session_id = [],
     nf_timestamp = 0\<rparr>"
| "event_of (New_Payload e) = Ev_New e"
| "event_of (Revoke_Payload e) = Ev_Revoke e"
| "event_of (Sync_Payload e) = Ev_Sync e"
| "event_of (Notification f) = Ev_Notification f"

lemma body_event [simp]:
  "json_get (event_new_body n) ''event'' = String (vn_event n)" "json_get (event_revoke_body r) ''event'' = String (vr_event r)"
  "json_get (event_sync_body y) ''event'' = String (vs_event y)" "json_get (notification_frame_body f) ''event'' = String (nf_event f)"
  by (simp_all add: json_get_def event_new_body_def event_revoke_body_def event_sync_body_def notification_frame_body_def)

lemma payload_decoded:
  assumes "native_payload p" and "parse t = Inr (payload_body p)"
  shows "read_payload (wire_event_readers parse) t = Inr (event_of p)"
  using assms by (cases p) (simp_all add: read_payload_def wire_event_readers_def payload_body_def decode_event_def as_str_def
      json_get_def [of "Object [(''status'', String ''ok'')]"])

lemma serialize_event_native:
  assumes "case ev of New_Event m \<Rightarrow> i64_ok (ne_timestamp m) | Revoke_Event r \<Rightarrow> i64_ok (re_timestamp r)
      | Sync_Event wms \<Rightarrow> generation_ok g \<and> (\<forall>(k, w)\<in>set wms. i64_ok (wm_create_time w) \<and> i64_ok (wm_local_id w) \<and> i64_ok (wm_sort_seq w))"
  shows "native_payload (snd (serialize_event d dir g ev))"
  using assms by (cases ev) (auto simp: serialize_event_def event_new_ok_def event_revoke_ok_def sync_payload_def event_sync_ok_def
      watermark_entries_def watermark_entry_ok_def watermark_value_ok_def list_all_iff)

text \<open>
  A message frame of the notification face is not read at all: it carries the kind of the full event without its fields.
\<close>

lemma notification_face_unread:
  assumes "parse t = Inr (payload_body (snd (serialize_notification g (New_Event m))))"
  shows "read_payload (wire_event_readers parse) t = Inl (Wrong_Shape ''missing field content'')"
  using assms by (simp add: read_payload_def wire_event_readers_def payload_body_def decode_event_def as_str_def serialize_notification_def
      read_event_new_def notification_frame_body_def needed_def json_get_def)

section \<open>Connections\<close>

text \<open>What a connection brings: nothing, or a status, the chunks of its body and the error it breaks off with, if any.\<close>

datatype attempt = No_Connection string | Streamed nat "string list" "string option"

datatype watch_item = Fed "client_error + server_event" | Failed client_error | Slept nat

fun watch :: "event_readers \<Rightarrow> string \<Rightarrow> (nat option \<Rightarrow> attempt) list \<Rightarrow> sse_state \<Rightarrow> nat \<Rightarrow> sse_state \<times> watch_item list" where
  "watch er u [] s backoff = (s, [])"
| "watch er u (connect # rest) s backoff = (let s0 = begin_connection s in case connect (sf_last_event_id s0) of
     No_Connection e \<Rightarrow> (case watch er u rest s0 (min (backoff * 2) 30000) of
       (s', out) \<Rightarrow> (s', Failed (Transport e) # Slept backoff # out))
   | Streamed status chunks broken \<Rightarrow> if \<not> (200 \<le> status \<and> status < 300)
       then (case watch er u rest s0 (min (backoff * 2) 30000) of
         (s', out) \<Rightarrow> (s', Failed (Bad_Status status u) # Slept backoff # out))
       else (case read_chunks er chunks [] s0 of (s1, evs) \<Rightarrow> (case watch er u rest s1 500 of
         (s', out) \<Rightarrow> (s', map Fed evs @ (case broken of Some e \<Rightarrow> [Failed (Transport e)] | None \<Rightarrow> []) @ Slept 500 # out))))"

section \<open>Chunks do not matter\<close>

lemma feed_lines_no_lf [simp]: "lf \<notin> set buf \<Longrightarrow> feed_lines er buf s = (buf, s, [])"
  by (simp add: feed_lines.simps)

lemma feed_lines_line:
  "lf \<notin> set l \<Longrightarrow> feed_lines er (l @ lf # buf) s = (case feed er (from_utf8_lossy l) s of (s1, ev) \<Rightarrow>
     (case feed_lines er buf s1 of (buf', s2, evs) \<Rightarrow> (buf', s2, option_list ev @ evs)))"
proof -
  assume "lf \<notin> set l"
  then have "takeWhile (\<lambda>c. c \<noteq> lf) (l @ lf # buf) = l" by (subst takeWhile_append2) auto
  then show ?thesis by (subst feed_lines.simps) simp
qed

lemma split_line: "lf \<in> set buf \<Longrightarrow> \<exists>l r. buf = l @ lf # r \<and> lf \<notin> set l"
  using split_list_first by fastforce

lemma feed_lines_append:
  "feed_lines er (b @ c) s = (case feed_lines er b s of (b', s1, e1) \<Rightarrow>
     (case feed_lines er (b' @ c) s1 of (b'', s2, e2) \<Rightarrow> (b'', s2, e1 @ e2)))"
proof (induction "length b" arbitrary: b s rule: less_induct)
  case less
  show ?case
  proof (cases "lf \<in> set b")
    case True
    then obtain l r where b: "b = l @ lf # r" "lf \<notin> set l" using split_line by blast
    then show ?thesis using less [of r]
      by (simp add: feed_lines_line split: prod.split)
  next
    case False
    then show ?thesis by (simp split: prod.split)
  qed
qed

lemma read_chunks_concat: "lf \<notin> set buf \<Longrightarrow>
    read_chunks er chunks buf s = (case feed_lines er (buf @ concat chunks) s of (r, s', evs) \<Rightarrow> (s', evs))"
proof (induction chunks arbitrary: buf s)
  case (Cons chunk chunks)
  obtain b' s1 e1 where f: "feed_lines er (buf @ chunk) s = (b', s1, e1)" using prod_cases3 by blast
  have "lf \<notin> set b'" if "feed_lines er b s = (b', s1, e1)" for b s b' s1 e1
    using that
  proof (induction "length b" arbitrary: b s e1 rule: less_induct)
    case less
    then show ?case
      by (cases "lf \<in> set b") (use split_line [of b] in \<open>fastforce simp: feed_lines_line split: prod.splits\<close>)+
  qed
  with f have "lf \<notin> set b'" by blast
  with Cons.IH [of b' s1] feed_lines_append [of er "buf @ chunk" "concat chunks" s] f show ?case
    by (simp split: prod.split)
qed simp

section \<open>Frames on the wire\<close>

text \<open>
  The text of a frame as the client describes it: the id line if there is one, the event line, the data line and an
  empty line; a heartbeat is a comment line and an empty line.
\<close>

datatype wire_item = Frame_Item frame | Heartbeat

definition id_lines :: "frame \<Rightarrow> string list" where
  "id_lines f = (case fr_id f of Some i \<Rightarrow> [''id: '' @ nat_to_dec i] | None \<Rightarrow> [])"

definition item_lines :: "(payload \<Rightarrow> string) \<Rightarrow> wire_item \<Rightarrow> string list" where
  "item_lines show x = (case x of Heartbeat \<Rightarrow> ['': ping'', []]
     | Frame_Item f \<Rightarrow> id_lines f @ [''event: '' @ fr_event f, ''data: '' @ show (fr_payload f), []])"

definition wire_text :: "(payload \<Rightarrow> string) \<Rightarrow> wire_item list \<Rightarrow> string" where
  "wire_text show ws = unlines (concat (map (item_lines show) ws))"

definition wire_frames :: "wire_item list \<Rightarrow> frame list" where
  "wire_frames ws = List.map_filter (\<lambda>x. case x of Frame_Item f \<Rightarrow> Some f | Heartbeat \<Rightarrow> None) ws"

lemma wire_frames_simps [simp]: "wire_frames [] = []" "wire_frames (Heartbeat # ws) = wire_frames ws"
  "wire_frames (Frame_Item f # ws) = f # wire_frames ws"
  by (simp_all add: wire_frames_def)

text \<open>A line that survives the wire: one line of valid text.\<close>

definition plain_line :: "string \<Rightarrow> bool" where
  "plain_line l \<longleftrightarrow> lf \<notin> set l \<and> utf8_valid l"

text \<open>A frame of the client's face: its id is a \<open>u64\<close>, its payload one of the face's, and its data line the payload printed as JSON.\<close>

definition good_frame :: "(string \<Rightarrow> string + json) \<Rightarrow> (payload \<Rightarrow> string) \<Rightarrow> frame \<Rightarrow> bool" where
  "good_frame parse show f \<longleftrightarrow> is_none_or usize_ok (fr_id f) \<and> native_payload (fr_payload f)
     \<and> parse (show (fr_payload f)) = Inr (payload_body (fr_payload f))"

definition plain_item :: "(string \<Rightarrow> string + json) \<Rightarrow> (payload \<Rightarrow> string) \<Rightarrow> wire_item \<Rightarrow> bool" where
  "plain_item parse show x \<longleftrightarrow> list_all plain_line (item_lines show x)
     \<and> (case x of Heartbeat \<Rightarrow> True | Frame_Item f \<Rightarrow> good_frame parse show f)"

lemma good_frames: "list_all (plain_item parse show) ws \<Longrightarrow> list_all (good_frame parse show) (wire_frames ws)"
  by (induction ws) (auto simp: plain_item_def split: wire_item.splits)

fun feed_all :: "event_readers \<Rightarrow> string list \<Rightarrow> sse_state \<Rightarrow> sse_state \<times> (client_error + server_event) list" where
  "feed_all er [] s = (s, [])"
| "feed_all er (l # ls) s = (case feed er l s of (s1, ev) \<Rightarrow> (case feed_all er ls s1 of (s2, evs) \<Rightarrow> (s2, option_list ev @ evs)))"

lemma take_unlines: "\<exists>j r. take n (unlines ls) = unlines (take j ls) @ r \<and> (list_all plain_line ls \<longrightarrow> lf \<notin> set r)"
proof (induction ls arbitrary: n)
  case (Cons l ls)
  show ?case
  proof (cases "n \<le> length l")
    case True
    have "take n (unlines (l # ls)) = unlines (take 0 (l # ls)) @ take n l" using True by simp
    moreover have "list_all plain_line (l # ls) \<longrightarrow> lf \<notin> set (take n l)" by (auto simp: plain_line_def dest: in_set_takeD)
    ultimately show ?thesis by blast
  next
    case False
    then obtain m where n: "n = Suc (length l + m)" by (metis add_Suc_right not_le less_iff_Suc_add)
    obtain j r where j: "take m (unlines ls) = unlines (take j ls) @ r" "list_all plain_line ls \<longrightarrow> lf \<notin> set r" using Cons.IH by blast
    have "take n (unlines (l # ls)) = unlines (take (Suc j) (l # ls)) @ r" using j(1) by (simp add: n)
    moreover have "list_all plain_line (l # ls) \<longrightarrow> lf \<notin> set r" using j(2) by simp
    ultimately show ?thesis by blast
  qed
qed simp

lemma feed_lines_unlines: "list_all plain_line ls \<Longrightarrow> lf \<notin> set r \<Longrightarrow>
    feed_lines er (unlines ls @ r) s = (case feed_all er ls s of (s', evs) \<Rightarrow> (r, s', evs))"
proof (induction ls arbitrary: s)
  case (Cons l ls)
  then have l: "lf \<notin> set l" "from_utf8_lossy l = l" by (simp_all add: plain_line_def lossy_valid_id)
  show ?case using Cons feed_lines_line [OF l(1), of er "unlines ls @ r" s] by (simp add: l split: prod.split)
qed simp

lemma plain_items_lines: "list_all (plain_item parse show) ws \<Longrightarrow> list_all plain_line (concat (map (item_lines show) ws))"
  by (induction ws) (auto simp: plain_item_def)

lemma trim_spaced_number: "trim (CHR '' '' # nat_to_dec i) = nat_to_dec i"
proof -
  have d: "list_all is_ascii (nat_to_dec i)" "list_all (\<lambda>c. \<not> is_whitespace [c]) (nat_to_dec i)"
    using nat_to_dec_digits [of i]
    by (auto simp: list_all_iff is_ascii_def is_whitespace_def char_code_def is_ascii_digit_def in_range_def)
  have "utf8_chars (CHR '' '' # nat_to_dec i) = [CHR '' ''] # utf8_chars (nat_to_dec i)"
    using d(1) utf8_chars_ascii [of "CHR '' '' # nat_to_dec i"] by (simp add: utf8_chars_ascii is_ascii_def)
  moreover have "is_whitespace [CHR '' '']" by code_simp
  ultimately have "trim_start (CHR '' '' # nat_to_dec i) = trim_start (nat_to_dec i)" by (simp add: trim_start_def)
  then show ?thesis using trim_ascii_id [OF d] by (simp add: trim_def)
qed

lemma feed_id: "usize_ok i \<Longrightarrow> feed er (''id: '' @ nat_to_dec i) s = (s\<lparr>sf_pending_id := Some i\<rparr>, None)"
  by (simp add: feed_def trim_spaced_number parse_usize_def parse_unsigned_to_dec usize_ok_def)

lemma feed_other: "feed er (''event: '' @ l) s = (s, None)" "feed er [] s = (s, None)" "feed er '': ping'' s = (s, None)"
  by (simp_all add: feed_def)

lemma feed_data: "feed er (''data: '' @ l) s = (commit_id s, Some (read_payload er l))"
  by (simp add: feed_def)

lemmas feed_wire = feed_id [unfolded append_Cons append_Nil] feed_other [unfolded append_Cons append_Nil]
  feed_data [unfolded append_Cons append_Nil]

text \<open>What the client makes of a frame, and the cursor after some frames.\<close>

definition frame_result :: "event_readers \<Rightarrow> (payload \<Rightarrow> string) \<Rightarrow> frame \<Rightarrow> client_error + server_event" where
  "frame_result er show f = read_payload er (show (fr_payload f))"

definition cursor_after :: "frame list \<Rightarrow> nat option \<Rightarrow> nat option" where
  "cursor_after fs i = fold (\<lambda>f i. opt_else (fr_id f) i) fs i"

text \<open>However the lines end, they deliver the first frames and leave the cursor at the last id among them.\<close>

lemma feed_prefix:
  assumes "list_all (plain_item parse show) ws" and "sf_pending_id s = None"
  shows "\<exists>k s'. feed_all er (take j (concat (map (item_lines show) ws))) s
      = (s', map (frame_result er show) (take k (wire_frames ws)))
    \<and> sf_last_event_id s' = cursor_after (take k (wire_frames ws)) (sf_last_event_id s)"
  using assms
proof (induction ws arbitrary: s j)
  case (Cons x ws)
  show ?case
  proof (cases x)
    case Heartbeat
    obtain k s' where "feed_all er (take (j - 2) (concat (map (item_lines show) ws))) s
        = (s', map (frame_result er show) (take k (wire_frames ws)))"
      "sf_last_event_id s' = cursor_after (take k (wire_frames ws)) (sf_last_event_id s)"
      using Cons.IH [of s "j - 2"] Cons.prems by auto
    moreover have "feed_all er (take j ('': ping'' # [] # ls)) s = feed_all er (take (j - 2) ls) s" for ls
    proof (cases j)
      case (Suc i)
      then show ?thesis by (cases i) (simp_all add: feed_wire option_list_def)
    qed simp
    ultimately have "feed_all er (take j (concat (map (item_lines show) (x # ws)))) s
        = (s', map (frame_result er show) (take k (wire_frames (x # ws))))"
      by (simp add: Heartbeat item_lines_def)
    then show ?thesis using \<open>sf_last_event_id s' = _\<close> Heartbeat by (metis wire_frames_simps(2))
  next
    case (Frame_Item f)
    let ?rest = "concat (map (item_lines show) ws)"
    let ?s1 = "case fr_id f of Some i \<Rightarrow> s\<lparr>sf_pending_id := Some i\<rparr> | None \<Rightarrow> s"
    have ok: "is_none_or usize_ok (fr_id f)" using Cons.prems Frame_Item by (simp add: plain_item_def good_frame_def)
    have last: "sf_last_event_id ?s1 = sf_last_event_id s" by (simp split: option.split)
    have commit: "sf_pending_id (commit_id ?s1) = None" "sf_last_event_id (commit_id ?s1) = opt_else (fr_id f) (sf_last_event_id s)"
      using Cons.prems(2) by (simp_all add: commit_id_def split: option.split)
    have ids: "feed_all er (id_lines f @ ls) s = feed_all er ls ?s1" for ls
      using ok by (cases "fr_id f") (simp_all add: id_lines_def feed_wire option_list_def)
    have cut: "\<exists>s'. feed_all er (take i (id_lines f)) s = (s', []) \<and> sf_last_event_id s' = sf_last_event_id s" for i
      using ok by (cases "fr_id f"; cases i) (auto simp: id_lines_def feed_wire option_list_def)
    show ?thesis
    proof (cases "j < length (id_lines f) + 2")
      case True
      have "\<exists>s'. feed_all er (take j (item_lines show x @ ?rest)) s = (s', []) \<and> sf_last_event_id s' = sf_last_event_id s"
      proof (cases "j \<le> length (id_lines f)")
        case True
        then show ?thesis using cut [of j] by (simp add: item_lines_def Frame_Item)
      next
        case False
        with \<open>j < _\<close> have "take j (item_lines show x @ ?rest) = id_lines f @ [''event: '' @ fr_event f]"
          by (simp add: item_lines_def Frame_Item take_Cons' less_Suc_eq_le)
        then show ?thesis using last by (simp only: ids) (simp add: feed_wire option_list_def)
      qed
      then show ?thesis by (auto simp: cursor_after_def intro!: exI [of _ 0])
    next
      case False
      then obtain m where m: "j = length (id_lines f) + 2 + m" using le_Suc_ex not_less by blast
      have t: "take j (item_lines show x @ ?rest) = id_lines f @ (''event: '' @ fr_event f) # (''data: '' @ show (fr_payload f)) # take m ([] # ?rest)"
        by (simp add: item_lines_def Frame_Item m)
      obtain k s' where ih: "feed_all er (take (m - 1) ?rest) (commit_id ?s1) = (s', map (frame_result er show) (take k (wire_frames ws)))"
        "sf_last_event_id s' = cursor_after (take k (wire_frames ws)) (sf_last_event_id (commit_id ?s1))"
        using Cons.IH [of "commit_id ?s1" "m - 1"] Cons.prems(1) commit(1) by auto
      have "feed_all er (take m ([] # ?rest)) (commit_id ?s1) = feed_all er (take (m - 1) ?rest) (commit_id ?s1)"
        by (cases m) (simp_all add: feed_wire option_list_def)
      then have "feed_all er (take j (item_lines show x @ ?rest)) s = (s', map (frame_result er show) (take (Suc k) (f # wire_frames ws)))"
        unfolding t ids using ih(1) by (simp add: feed_wire option_list_def frame_result_def)
      moreover have "sf_last_event_id s' = cursor_after (take (Suc k) (f # wire_frames ws)) (sf_last_event_id s)"
        using ih(2) commit(2) by (simp add: cursor_after_def)
      ultimately show ?thesis using Frame_Item by (metis concat.simps(2) list.simps(9) wire_frames_simps(3))
    qed
  qed
qed (simp add: cursor_after_def)

section \<open>Resuming\<close>

text \<open>
  A connection brings a stream from a cursor on: whatever of its bytes arrives, in whatever chunks, its numbered frames are the
  next of \<open>ids\<close> after the cursor.
\<close>

definition brings :: "(string \<Rightarrow> string + json) \<Rightarrow> (payload \<Rightarrow> string) \<Rightarrow> nat list \<Rightarrow> nat option \<Rightarrow> attempt \<Rightarrow> bool" where
  "brings parse show ids cursor a \<longleftrightarrow> (case a of No_Connection e \<Rightarrow> True
     | Streamed status chunks broken \<Rightarrow> \<not> (200 \<le> status \<and> status < 300)
       \<or> (\<exists>ws n. list_all (plain_item parse show) ws \<and> concat chunks = take n (wire_text show ws)
           \<and> prefix (frame_ids (wire_frames ws)) (filter (\<lambda>i. opt_or cursor 0 < i) ids)))"

definition fed :: "watch_item list \<Rightarrow> (client_error + server_event) list" where
  "fed out = List.map_filter (\<lambda>x. case x of Fed r \<Rightarrow> Some r | _ \<Rightarrow> None) out"

lemma fed_simps [simp]: "fed [] = []" "fed (Fed r # out) = r # fed out" "fed (Failed e # out) = fed out" "fed (Slept n # out) = fed out"
  "fed (xs @ ys) = fed xs @ fed ys" "fed (map Fed rs) = rs"
  "fed (map (Fed \<circ> f) zs) = map f zs"
  by (simp_all add: fed_def map_filter_def comp_def)

lemma cursor_after_last: "cursor_after fs i = (if frame_ids fs = [] then i else Some (last (frame_ids fs)))"
proof (induction fs arbitrary: i)
  case (Cons f fs)
  have "cursor_after (f # fs) i = cursor_after fs (opt_else (fr_id f) i)" by (simp add: cursor_after_def)
  then show ?case by (cases "fr_id f") (simp_all add: Cons.IH frame_ids_def)
qed (simp add: cursor_after_def frame_ids_def)

lemma frame_ids_take: "prefix (frame_ids (take k fs)) (frame_ids fs)"
  by (metis append_take_drop_id frame_ids_append prefixI)

text \<open>A first part of what follows a cursor is what follows it up to the last of the part.\<close>

lemma prefix_up_to:
  assumes "sorted_wrt (<) ids" and "prefix p (filter (\<lambda>i. c < i) ids)" and "p \<noteq> ([] :: nat list)"
  shows "p = filter (\<lambda>i. c < i \<and> i \<le> last p) ids \<and> c < last p"
proof -
  obtain q where q: "filter (\<lambda>i. c < i) ids = p @ q" using assms(2) by (auto simp: prefix_def)
  have s: "sorted_wrt (<) (p @ q)" using assms(1) unfolding q [symmetric] by (rule sorted_wrt_filter)
  obtain b l where p: "p = b @ [l]" using assms(3) by (cases p rule: rev_cases) auto
  have "filter (\<lambda>i. i \<le> l) b = b" using s by (fastforce simp: p sorted_wrt_append filter_id_conv)
  moreover have "filter (\<lambda>i. i \<le> l) q = []" using s by (fastforce simp: p sorted_wrt_append filter_empty_conv)
  ultimately have "filter (\<lambda>i. i \<le> last p) (p @ q) = p" by (simp add: p)
  moreover have "filter (\<lambda>i. i \<le> last p) (filter (\<lambda>i. c < i) ids) = filter (\<lambda>i. c < i \<and> i \<le> last p) ids"
    by (simp add: filter_filter)
  ultimately have "p = filter (\<lambda>i. c < i \<and> i \<le> last p) ids" unfolding q by simp
  moreover have "last p \<in> set (filter (\<lambda>i. c < i) ids)" unfolding q by (simp add: p)
  ultimately show ?thesis by simp
qed

lemma filter_between:
  assumes "sorted_wrt (<) xs" and "a \<le> b" and "b \<le> (c :: nat)"
  shows "filter (\<lambda>i. a < i \<and> i \<le> b) xs @ filter (\<lambda>i. b < i \<and> i \<le> c) xs = filter (\<lambda>i. a < i \<and> i \<le> c) xs"
  using assms(1)
proof (induction xs)
  case (Cons x xs)
  show ?case
  proof (cases "b < x")
    case True
    then have "filter (\<lambda>i. a < i \<and> i \<le> b) xs = []" using Cons.prems by (fastforce simp: filter_empty_conv)
    with True Cons assms(2) show ?thesis by simp
  next
    case False
    with Cons assms(3) show ?thesis by auto
  qed
qed simp

text \<open>One connection: the frames that reach the caller and the cursor it leaves.\<close>

lemma connection_delivers:
  assumes ids: "sorted_wrt (<) ids" and plain: "list_all (plain_item parse show) ws"
    and arrived: "concat chunks = take n (wire_text show ws)"
    and pfx: "prefix (frame_ids (wire_frames ws)) (filter (\<lambda>i. opt_or (sf_last_event_id s) 0 < i) ids)" and "sf_pending_id s = None"
  shows "\<exists>fs s'. read_chunks er chunks [] s = (s', map (frame_result er show) fs) \<and> list_all (good_frame parse show) fs
    \<and> opt_or (sf_last_event_id s) 0 \<le> opt_or (sf_last_event_id s') 0
    \<and> frame_ids fs = filter (\<lambda>i. opt_or (sf_last_event_id s) 0 < i \<and> i \<le> opt_or (sf_last_event_id s') 0) ids"
proof -
  let ?ls = "concat (map (item_lines show) ws)"
  have pl: "list_all plain_line ?ls" using plain by (rule plain_items_lines)
  obtain j r where j: "take n (unlines ?ls) = unlines (take j ?ls) @ r" "lf \<notin> set r" using take_unlines [of n ?ls] pl by blast
  obtain k s' where k: "feed_all er (take j ?ls) s = (s', map (frame_result er show) (take k (wire_frames ws)))"
      "sf_last_event_id s' = cursor_after (take k (wire_frames ws)) (sf_last_event_id s)"
    using feed_prefix [OF plain assms(5)] by blast
  have "list_all plain_line (take j ?ls)" using pl by (metis append_take_drop_id list_all_append)
  then have "read_chunks er chunks [] s = (s', map (frame_result er show) (take k (wire_frames ws)))"
    using read_chunks_concat [of "[]" er chunks s] feed_lines_unlines [of "take j ?ls" r er s] j k(1)
    by (simp add: arrived wire_text_def)
  moreover have p: "prefix (frame_ids (take k (wire_frames ws))) (filter (\<lambda>i. opt_or (sf_last_event_id s) 0 < i) ids)"
    using frame_ids_take pfx by (rule prefix_order.trans)
  note c = cursor_after_last [of "take k (wire_frames ws)" "sf_last_event_id s"]
  have "opt_or (sf_last_event_id s) 0 \<le> opt_or (sf_last_event_id s') 0
    \<and> frame_ids (take k (wire_frames ws)) = filter (\<lambda>i. opt_or (sf_last_event_id s) 0 < i \<and> i \<le> opt_or (sf_last_event_id s') 0) ids"
  proof (cases "frame_ids (take k (wire_frames ws)) = []")
    case True
    then show ?thesis by (simp add: k(2) c filter_empty_conv [symmetric])
  next
    case False
    then show ?thesis using prefix_up_to [OF ids p False] by (simp add: k(2) c)
  qed
  moreover have "list_all (good_frame parse show) (take k (wire_frames ws))"
    using good_frames [OF plain] by (metis append_take_drop_id list_all_append)
  ultimately show ?thesis by blast
qed

lemma watch_delivers:
  assumes ids: "sorted_wrt (<) ids"
  shows "\<forall>connect\<in>set attempts. \<forall>cursor. brings parse show ids cursor (connect cursor) \<Longrightarrow>
    \<exists>fs. fed (snd (watch er u attempts s backoff)) = map (frame_result er show) fs \<and> list_all (good_frame parse show) fs
      \<and> opt_or (sf_last_event_id s) 0 \<le> opt_or (sf_last_event_id (fst (watch er u attempts s backoff))) 0
      \<and> frame_ids fs = filter (\<lambda>i. opt_or (sf_last_event_id s) 0 < i
          \<and> i \<le> opt_or (sf_last_event_id (fst (watch er u attempts s backoff))) 0) ids"
proof (induction attempts arbitrary: s backoff)
  case Nil
  have "frame_ids [] = []" by (simp add: frame_ids_def)
  then show ?case by (auto intro!: exI [of _ "[]"] simp: filter_empty_conv)
next
  case (Cons connect rest)
  let ?s0 = "begin_connection s"
  have s0: "sf_last_event_id ?s0 = sf_last_event_id s" "sf_pending_id ?s0 = None" by (simp_all add: begin_connection_def)
  have rest: "\<forall>connect\<in>set rest. \<forall>cursor. brings parse show ids cursor (connect cursor)" using Cons.prems by simp
  have b: "brings parse show ids (sf_last_event_id s) (connect (sf_last_event_id s))" using Cons.prems by simp
  show ?case
  proof (cases "connect (sf_last_event_id s)")
    case (No_Connection e)
    then show ?thesis using Cons.IH [OF rest, of ?s0 "min (backoff * 2) 30000"] by (simp add: Let_def s0 split_beta)
  next
    case (Streamed status chunks broken)
    show ?thesis
    proof (cases "200 \<le> status \<and> status < 300")
      case False
      then show ?thesis using Streamed Cons.IH [OF rest, of ?s0 "min (backoff * 2) 30000"] by (simp add: Let_def s0 split_beta)
    next
      case True
      then obtain ws n where w: "list_all (plain_item parse show) ws" "concat chunks = take n (wire_text show ws)"
          "prefix (frame_ids (wire_frames ws)) (filter (\<lambda>i. opt_or (sf_last_event_id ?s0) 0 < i) ids)"
        using b Streamed by (auto simp: brings_def s0)
      obtain fs1 s1 where one: "read_chunks er chunks [] ?s0 = (s1, map (frame_result er show) fs1)"
          "list_all (good_frame parse show) fs1"
          "opt_or (sf_last_event_id s) 0 \<le> opt_or (sf_last_event_id s1) 0"
          "frame_ids fs1 = filter (\<lambda>i. opt_or (sf_last_event_id s) 0 < i \<and> i \<le> opt_or (sf_last_event_id s1) 0) ids"
        using connection_delivers [OF ids w s0(2)] unfolding s0 by blast
      let ?r = "watch er u rest s1 500"
      obtain fs2 where two: "fed (snd ?r) = map (frame_result er show) fs2" "list_all (good_frame parse show) fs2"
          "opt_or (sf_last_event_id s1) 0 \<le> opt_or (sf_last_event_id (fst ?r)) 0"
          "frame_ids fs2 = filter (\<lambda>i. opt_or (sf_last_event_id s1) 0 < i \<and> i \<le> opt_or (sf_last_event_id (fst ?r)) 0) ids"
        using Cons.IH [OF rest, of s1 500] by blast
      have f: "fst (watch er u (connect # rest) s backoff) = fst ?r" "fed (snd (watch er u (connect # rest) s backoff))
          = map (frame_result er show) (fs1 @ fs2)"
        using True Streamed one(1) two(1) by (simp_all add: Let_def s0 split_beta split: option.split)
      have "frame_ids (fs1 @ fs2) = filter (\<lambda>i. opt_or (sf_last_event_id s) 0 < i \<and> i \<le> opt_or (sf_last_event_id (fst ?r)) 0) ids"
        unfolding frame_ids_append one(4) two(4) by (rule filter_between [OF ids one(3) two(3)])
      then show ?thesis unfolding f using one(2,3) two(2,3) by (intro exI [of _ "fs1 @ fs2"]) simp
    qed
  qed
qed

text \<open>
  The server's stream is such a stream, as long as its replay buffer still holds everything after the cursor: the ids of the
  replay and of what arrives live are all the ids after it.
\<close>

lemma filter_above_upt: "filter (\<lambda>i. c < i) [a..<b] = [max (Suc c) a..<b]"
  by (induction b) (auto simp: max_def not_less_eq)

lemma server_stream_whole:
  assumes inv: "history_inv (history (ap_bus app))"
    and held: "last_id (history (ap_bus app)) - length (items (history (ap_bus app))) \<le> c" "c \<le> last_id (history (ap_bus app))"
    and fresh: "\<forall>x\<in>set (items (history (ap_bus app))). now - hi_at x < history_ttl"
    and live: "arrival_ids arrivals = [Suc (last_id (history (ap_bus app)))..<m]" "last_id (history (ap_bus app)) < m"
  shows "frame_ids (snd (sse_from subscribe serialize now c app arrivals)) = filter (\<lambda>i. c < i) [1..<m]"
proof -
  let ?h = "history (ap_bus app)"
  have "map fst (replay_since now c ?h) = filter (\<lambda>i. c < i) (map hi_id (items ?h))"
    using fresh by (simp add: replay_since_def comp_def filter_map) (metis (mono_tags, lifting) filter_cong)
  also have "\<dots> = [Suc c..<Suc (last_id ?h)]"
    using inv held by (simp add: history_inv_def filter_above_upt max_def del: upt_Suc)
  finally have "frame_ids (snd (sse_from subscribe serialize now c app arrivals)) = [Suc c..<Suc (last_id ?h)] @ [Suc (last_id ?h)..<m]"
    by (simp add: sse_from_def subscribe_with_replay_def frame_ids_stream live del: upt_Suc)
  also have "\<dots> = [Suc c..<m]" using held(2) live(2) upt_add_eq_append [of "Suc c" "Suc (last_id ?h)" "m - Suc (last_id ?h)"]
    by (simp del: upt_Suc)
  finally show ?thesis by (simp add: filter_above_upt)
qed

text \<open>
  C12. A client that watches the events through any sequence of connections, refused, answered with an error, cut off in the
  middle of a line or of a frame, and read in chunks of any size, receives every numbered event once and in order: the numbered
  frames it has been given are exactly those up to the cursor it would resume from, so what it asks for next neither
  repeats an event nor skips one; and each is decoded to the event the server serialised, none to an error.
\<close>

theorem watch_resumes_exactly:
  assumes "sorted_wrt (<) ids" and "\<forall>connect\<in>set attempts. \<forall>cursor. brings parse show ids cursor (connect cursor)"
  shows "\<exists>fs. fed (snd (watch (wire_event_readers parse) u attempts sse_default 500)) = map (\<lambda>f. Inr (event_of (fr_payload f))) fs
    \<and> frame_ids fs = filter (\<lambda>i. 0 < i
        \<and> i \<le> opt_or (sf_last_event_id (fst (watch (wire_event_readers parse) u attempts sse_default 500))) 0) ids"
proof -
  let ?w = "watch (wire_event_readers parse) u attempts sse_default 500"
  obtain fs where fs: "fed (snd ?w) = map (frame_result (wire_event_readers parse) show) fs" "list_all (good_frame parse show) fs"
      "frame_ids fs = filter (\<lambda>i. 0 < i \<and> i \<le> opt_or (sf_last_event_id (fst ?w)) 0) ids"
    using watch_delivers [OF assms, of "wire_event_readers parse" u sse_default 500] by (auto simp: sse_default_def)
  have "map (frame_result (wire_event_readers parse) show) fs = map (\<lambda>f. Inr (event_of (fr_payload f))) fs"
    using fs(2) by (auto simp: list_all_iff good_frame_def frame_result_def intro: payload_decoded)
  with fs show ?thesis by metis
qed

definition demo_frame :: "nat \<Rightarrow> frame" where
  "demo_frame i = frame_of (Some i) (''sync'', sync_payload 0 [])"

definition demo_show :: "payload \<Rightarrow> string" where "demo_show p = ''x''"

definition demo_parse :: "string \<Rightarrow> string + json" where "demo_parse t = Inr (payload_body (sync_payload 0 []))"

definition cut_attempt :: "nat \<Rightarrow> nat option \<Rightarrow> attempt" where
  "cut_attempt n cursor = Streamed 200 [take n (wire_text demo_show
     (map (Frame_Item \<circ> demo_frame) (filter (\<lambda>i. opt_or cursor 0 < i) [1, 2])))] None"

lemma cut_attempt_brings: "brings demo_parse demo_show [1, 2] cursor (cut_attempt n cursor)"
proof -
  let ?is = "filter (\<lambda>i. opt_or cursor 0 < i) [1, 2 :: nat]"
  have "frame_ids (wire_frames (map (Frame_Item \<circ> demo_frame) is)) = is" for "is"
    by (induction "is") (simp_all add: demo_frame_def frame_of_def frame_ids_def)
  then have ids: "prefix (frame_ids (wire_frames (map (Frame_Item \<circ> demo_frame) ?is))) ?is" by (simp only: prefix_order.refl)
  have "plain_item demo_parse demo_show (Frame_Item (demo_frame 1))" "plain_item demo_parse demo_show (Frame_Item (demo_frame 2))"
    by code_simp+
  then have "list_all (plain_item demo_parse demo_show) (map (Frame_Item \<circ> demo_frame) ?is)" by simp
  moreover have "concat [take n s] = take n s" for s :: string by simp
  ultimately show ?thesis unfolding brings_def cut_attempt_def attempt.case using ids by metis
qed

text \<open>The first connection ends after the id line of the second event, which is therefore asked for again.\<close>

theorem watch_resumes_exactly_witness:
  "let as = [cut_attempt 36, No_Connection \<circ> (\<lambda>_. ''reset''), cut_attempt 100] in
     (\<exists>fs. fed (snd (watch (wire_event_readers demo_parse) ''u'' as sse_default 500)) = map (\<lambda>f. Inr (event_of (fr_payload f))) fs
       \<and> frame_ids fs = [1, 2])
     \<and> sf_last_event_id (fst (watch (wire_event_readers demo_parse) ''u'' [cut_attempt 36] sse_default 500)) = Some 1"
proof -
  let ?as = "[cut_attempt 36, No_Connection \<circ> (\<lambda>_. ''reset''), cut_attempt 100]"
  have b: "\<forall>connect\<in>set ?as. \<forall>cursor. brings demo_parse demo_show [1, 2] cursor (connect cursor)"
    using cut_attempt_brings by (simp add: brings_def)
  have l: "sf_last_event_id (fst (watch (wire_event_readers demo_parse) ''u'' ?as sse_default 500)) = Some 2"
    "sf_last_event_id (fst (watch (wire_event_readers demo_parse) ''u'' [cut_attempt 36] sse_default 500)) = Some 1" by code_simp+
  have s: "sorted_wrt (<) [1, 2 :: nat]" by simp
  obtain fs where "fed (snd (watch (wire_event_readers demo_parse) ''u'' ?as sse_default 500)) = map (\<lambda>f. Inr (event_of (fr_payload f))) fs"
    "frame_ids fs = filter (\<lambda>i. 0 < i \<and> i \<le> opt_or (Some 2) 0) [1, 2]"
    using watch_resumes_exactly [OF s b, of "''u''"] unfolding l by (elim exE conjE)
  then show ?thesis unfolding Let_def using l(2) by (intro conjI exI [of _ fs]) simp_all
qed

end
