(* ===== verification/Store_Types.thy ===== *)
theory Store_Types
  imports Sync
begin

text \<open>
  The types of the index: what the tables hold fits the Rust types of its fields and is filed under its own key. The model
  keeps \<open>i64\<close> as \<open>int\<close>; here the full build and the poll are shown to stay inside, as long as SQLite's integers are
  64-bit, which is its documented range.
\<close>

section \<open>Well-typed tables\<close>

definition hm_typed :: "('k \<Rightarrow> 'v \<Rightarrow> bool) \<Rightarrow> ('k, 'v) hashmap \<Rightarrow> bool" where
  "hm_typed P m \<longleftrightarrow> hm_ok m \<and> (\<forall>(k, v)\<in>set m. P k v)"

lemma hm_typed_Nil [simp]: "hm_typed P []"
  by (simp add: hm_typed_def)

lemma hm_typed_get: "hm_typed P m \<Longrightarrow> hm_get m k = Some v \<Longrightarrow> P k v"
  by (auto simp: hm_typed_def dest: map_of_SomeD)

lemma hm_typed_iff: "hm_typed P m \<longleftrightarrow> hm_ok m \<and> (\<forall>k v. hm_get m k = Some v \<longrightarrow> P k v)"
  by (auto simp: hm_typed_def hm_ok_def dest: map_of_SomeD map_of_is_SomeI)

lemma hm_typed_insert [simp]: "hm_typed P m \<Longrightarrow> P k v \<Longrightarrow> hm_typed P (hm_insert k v m)"
  by (simp add: hm_typed_iff hm_simps)

lemma hm_typed_modify [simp]:
  assumes "hm_typed P m" and "P k d" and "\<And>v. P k v \<Longrightarrow> P k (f v)"
  shows "hm_typed P (hm_modify k d f m)"
  using assms hm_typed_get [OF assms(1)] unfolding hm_modify_def by (cases "hm_get m k") simp_all

lemma fold_invariant: "(\<And>x a. x \<in> set xs \<Longrightarrow> I a \<Longrightarrow> I (f x a)) \<Longrightarrow> I a \<Longrightarrow> I (fold f xs a)"
  by (induction xs arbitrary: a) auto

section \<open>Well-typed stores\<close>

definition session_fits :: "string \<Rightarrow> session \<Rightarrow> bool" where
  "session_fits k s \<longleftrightarrow> ss_username s = k \<and> k \<noteq> [] \<and> i64_ok (ss_last_timestamp s) \<and> i64_ok (ss_unread_count s)
     \<and> is_none_or i64_ok (ss_last_msg_type s)"

definition contact_fits :: "string \<Rightarrow> contact \<Rightarrow> bool" where
  "contact_fits k c \<longleftrightarrow> ct_username c = k \<and> k \<noteq> []"

definition message_fits :: "message_record \<Rightarrow> bool" where
  "message_fits m \<longleftrightarrow> i64_ok (mr_local_id m) \<and> i64_ok (mr_server_id m) \<and> i64_ok (mr_local_type m)
     \<and> i64_ok (mr_create_time m) \<and> i64_ok (mr_sort_seq m)"

definition watermark_fits :: "watermark \<Rightarrow> bool" where
  "watermark_fits w \<longleftrightarrow> i64_ok (wm_create_time w) \<and> i64_ok (wm_sort_seq w) \<and> i64_ok (wm_local_id w)"

definition feed_fits :: "sns_feed \<Rightarrow> bool" where
  "feed_fits f \<longleftrightarrow> i64_ok (sf_create_time f) \<and> list_all (\<lambda>c. i64_ok (sc_create_time c)) (sf_comments f)
     \<and> list_all (\<lambda>p. i64_ok (sp_create_time p)) (sf_likes f) \<and> list_all (\<lambda>m. i64_ok (sm_width m) \<and> i64_ok (sm_height m)) (sf_media f)"

definition store_fits :: "store \<Rightarrow> bool" where
  "store_fits st \<longleftrightarrow> hm_typed session_fits (st_sessions st) \<and> hm_typed (\<lambda>k. list_all message_fits) (st_convs st)
     \<and> hm_typed contact_fits (st_contacts st) \<and> hm_typed (\<lambda>k. hm_typed (\<lambda>m nm. nm \<noteq> [])) (st_group_cards st)
     \<and> hm_typed (\<lambda>room owner. room \<noteq> [] \<and> owner \<noteq> []) (st_chatroom_owner st) \<and> hm_typed (\<lambda>room. distinct) (st_chatroom_roster st)
     \<and> hm_typed (\<lambda>k. watermark_fits) (st_watermarks st) \<and> list_all feed_fits (st_sns_feeds st)"

text \<open>A connection whose integers are 64-bit.\<close>

definition row_fits :: "sql_row \<Rightarrow> bool" where
  "row_fits r \<longleftrightarrow> (\<forall>i. is_none_or i64_ok (row_i64 r i))"

definition conn_fits :: "conn \<Rightarrow> bool" where
  "conn_fits c \<longleftrightarrow> (\<forall>q ps rows err. c q ps = Some (rows, err) \<longrightarrow> list_all row_fits rows)"

lemma zero_fits [simp]: "i64_ok 0" "watermark_fits watermark_default"
  by (simp_all add: watermark_fits_def watermark_default_def i64_ok_def i64_min_def i64_max_def)

lemma store_default_fits [simp]: "store_fits store_default" "store_fits (store_default\<lparr>st_my_wxid := w\<rparr>)"
  by (simp_all add: store_fits_def store_default_def)

lemma mark_index_built_fits [simp]: "store_fits (mark_index_built now st) = store_fits st"
  by (simp add: store_fits_def mark_index_built_def)

lemma get_i64_fits [simp]: "row_fits r \<Longrightarrow> i64_ok (get_i64 r i)"
  by (auto simp: row_fits_def get_i64_def dest!: spec [of _ i] split: option.splits) (cases "row_i64 r i"; simp)

lemma conn_rows: "conn_fits c \<Longrightarrow> c q ps = Some (rows, err) \<Longrightarrow> r \<in> set rows \<Longrightarrow> row_fits r"
  by (auto simp: conn_fits_def list_all_iff)

text \<open>Sessions are filed under their names, so the names in the table differ.\<close>

lemma session_names_distinct: "hm_typed session_fits m \<Longrightarrow> distinct (map ss_username (hm_values m))"
proof -
  assume m: "hm_typed session_fits m"
  have "map ss_username (hm_values m) = map fst m"
    using m by (induction m) (auto simp: hm_typed_def hm_ok_def hm_values_def session_fits_def)
  then show ?thesis using m by (simp add: hm_typed_def hm_ok_def)
qed

section \<open>The loaders\<close>

lemmas store_fold = fold_invariant [where I = store_fits]

lemma session_of_row_fits: "row_fits r \<Longrightarrow> store_fits st \<Longrightarrow> store_fits (session_of_row cols r st)"
  by (simp add: session_of_row_def Let_def store_fits_def session_fits_def)

lemma load_sessions_fits: "conn_fits c \<Longrightarrow> store_fits st \<Longrightarrow> store_fits (fst (load_sessions c st))"
proof -
  assume c: "conn_fits c" and st: "store_fits st"
  have "store_fits (fst (load_sessions_from c t st))" for t
    using st by (auto simp: load_sessions_from_def Let_def split: option.split intro!: store_fold session_of_row_fits conn_rows [OF c])
  then show ?thesis using st by (simp add: load_sessions_def Let_def split: option.split)
qed

lemma contact_of_row_fits: "store_fits st \<Longrightarrow> store_fits (contact_of_row cols r st)"
  by (simp add: contact_of_row_def Let_def store_fits_def contact_fits_def)

lemma load_contacts_fits: "store_fits st \<Longrightarrow> store_fits (fst (load_contacts c st))"
  by (auto simp: load_contacts_def Let_def split: option.split intro!: store_fold contact_of_row_fits)

lemma load_chatroom_meta_fits: "store_fits st \<Longrightarrow> store_fits (load_chatroom_meta c st)"
proof -
  assume st: "store_fits st"
  have owner: "store_fits (add_owner row st)" if "store_fits st" for row st
    using that by (cases row) (auto simp: add_owner_def store_fits_def split: option.split)
  have member: "store_fits (add_member ids row st)" if "store_fits st" for ids row st
  proof (cases "hm_get ids (fst row)"; cases "hm_get ids (snd row)")
    fix room member assume "hm_get ids (fst row) = Some room" "hm_get ids (snd row) = Some member"
    with that show ?thesis by (simp add: add_member_def store_fits_def)
  qed (use that in \<open>simp_all add: add_member_def\<close>)
  have owners: "store_fits (case r of Some rows \<Rightarrow> fold add_owner rows st | None \<Rightarrow> st)" for r
    using st owner by (cases r) (auto intro: store_fold)
  have members: "store_fits (case r of Some rows \<Rightarrow> fold (add_member ids) rows st' | None \<Rightarrow> st')" if "store_fits st'" for r ids st'
    using that member by (cases r) (auto intro: store_fold)
  show ?thesis
  proof (cases "uid_map c = []")
    case False
    then show ?thesis unfolding load_chatroom_meta_def Let_def if_not_P [OF False] by (intro members owners)
  qed (use st in \<open>simp add: load_chatroom_meta_def\<close>)
qed

abbreviation cards_fit :: "group_cards \<Rightarrow> bool" where
  "cards_fit \<equiv> hm_typed (\<lambda>k. hm_typed (\<lambda>m nm. nm \<noteq> []))"

lemma add_card_fits: "cards_fit cards \<Longrightarrow> cards_fit (add_card ids row cards)"
proof -
  assume cards: "cards_fit cards"
  obtain room member t where row: "row = (room, member, t)" using prod_cases3 by blast
  show ?thesis
  proof (cases "opt_filter (\<lambda>c. c \<noteq> []) t"; cases "hm_get ids room"; cases "hm_get ids member")
    fix nm r m assume h: "opt_filter (\<lambda>c. c \<noteq> []) t = Some nm" "hm_get ids room = Some r" "hm_get ids member = Some m"
    then have "nm \<noteq> []" by (cases t) (auto simp: opt_filter_def split: if_splits)
    then show ?thesis using cards by (simp add: add_card_def row h)
  qed (use cards in \<open>simp_all add: add_card_def row\<close>)
qed

lemma load_group_cards_fits: "store_fits st \<Longrightarrow> store_fits (load_group_cards c st)"
proof -
  assume st: "store_fits st"
  have "cards_fit (fold (add_card ids) rows [])" for ids rows
    by (rule fold_invariant [where I = cards_fit]) (simp_all add: add_card_fits)
  then show ?thesis using st by (simp add: load_group_cards_def Let_def store_fits_def split: option.split)
qed

lemma parsed_i64_fits [simp]: "i64_ok (opt_or (Option.bind t parse_i64) 0)"
  by (cases t) (auto simp: parse_i64_def opt_filter_def split: option.split)

lemma parse_sns_feed_fits: "feed_fits (parse_sns_feed parse_f64 u t x)"
proof -
  have "i64_ok (sc_create_time c)" if "c \<in> set (comment_blocks x)" for c
    using that by (auto simp: comment_blocks_def map_filter_def bind_eq_Some_conv parse_user_comment_def Let_def split: if_splits)
  moreover have "i64_ok (sm_width m) \<and> i64_ok (sm_height m)" if "parse_media_block b = Some m" for b m
    using that by (auto simp: parse_media_block_def Let_def split: option.splits if_splits)
  ultimately show ?thesis
    by (auto simp: feed_fits_def parse_sns_feed_def Let_def list_all_iff person_of_def map_filter_def)
qed

lemma load_sns_fits: "store_fits st \<Longrightarrow> store_fits (load_sns parse_f64 c st)"
  by (auto simp: load_sns_def store_fits_def list_all_iff newest_first_def parse_sns_feed_fits split: option.split)

section \<open>The full build\<close>

definition opener_fits :: "'p opener \<Rightarrow> bool" where
  "opener_fits open_db \<longleftrightarrow> (\<forall>p f key p' c. open_db p f key = (p', Inr c) \<longrightarrow> conn_fits c)"

lemma max_watermark_fits [simp]: "watermark_fits a \<Longrightarrow> watermark_fits b \<Longrightarrow> watermark_fits (max_watermark a b)"
  by (simp add: max_watermark_def)

lemma extracted_fits:
  assumes "row_fits r"
  shows "message_fits (row_to_record dec (extract_row mc r ids) my contacts)" "watermark_fits (owned_watermark (extract_row mc r ids))"
  using assms by (simp_all add: message_fits_def row_to_record_def extract_row_def watermark_fits_def owned_watermark_def Let_def)

lemma load_rows_fit:
  assumes "\<forall>r\<in>set rows. row_fits r" and "list_all message_fits (ls_records ls)" and "watermark_fits (ls_watermark ls)"
  shows "list_all message_fits (ls_records (fold (load_row dec mc ids contacts my) rows ls))
    \<and> watermark_fits (ls_watermark (fold (load_row dec mc ids contacts my) rows ls))"
  by (rule fold_invariant [where I = "\<lambda>ls. list_all message_fits (ls_records ls) \<and> watermark_fits (ls_watermark ls)"])
    (use assms in \<open>auto simp: load_row_def Let_def extracted_fits\<close>)

lemma load_message_table_fits:
  assumes "conn_fits c" and "load_message_table dec c table ids contacts my p = (p', Inr (records, wm))"
  shows "list_all message_fits records" "watermark_fits wm"
proof -
  obtain mc rows where m: "probe c table = Some mc" "c (full_query mc table) [] = Some (rows, False)"
    using assms(2) by (auto simp: load_message_table_def Let_def split: option.splits prod.splits if_splits)
  have "\<forall>r\<in>set rows. row_fits r" using conn_rows [OF assms(1) m(2)] by blast
  from load_rows_fit [OF this] show "list_all message_fits records" "watermark_fits wm"
    using assms(2) by (auto simp: load_message_table_def m Let_def)
qed

lemma index_table_fits:
  assumes c: "conn_fits c" and st: "store_fits (fst sp)"
  shows "store_fits (fst (index_table dec md5_hex rel c ids contacts my tbl sp))"
proof -
  obtain table sfx st0 p where sp: "tbl = (table, sfx)" "sp = (st0, p)" by fastforce
  show ?thesis
  proof (cases "load_message_table dec c table ids contacts my p")
    case (Pair p' r)
    show ?thesis
    proof (cases r)
      case (Inl e)
      then show ?thesis using st by (simp add: index_table_def sp Pair)
    next
      case (Inr x)
      obtain records wm where x: "x = (records, wm)" by fastforce
      note fits = load_message_table_fits [OF c, of dec table ids contacts my p p' records wm]
      have "watermark_fits (opt_or (hm_get (st_watermarks st0) (watermark_key rel table)) watermark_default)"
        using st by (cases "hm_get (st_watermarks st0) (watermark_key rel table)") (auto simp: sp store_fits_def dest: hm_typed_get)
      then show ?thesis using st fits by (simp add: index_table_def sp Pair Inr x Let_def store_fits_def)
    qed
  qed
qed

lemma index_files_fits: "opener_fits open_db \<Longrightarrow> store_fits st \<Longrightarrow>
    store_fits (fst (snd (index_files dec md5_hex open_db keys contacts my fs pool st p)))"
proof (induction fs arbitrary: pool st p)
  case (Cons f fs)
  show ?case
  proof (cases "key_for keys (df_rel f)")
    case None
    then show ?thesis using Cons by simp
  next
    case (Some key)
    obtain pool' r where o: "open_db pool f key = (pool', r)" by fastforce
    show ?thesis
    proof (cases r)
      case (Inl e)
      then show ?thesis using Cons Some o by simp
    next
      case (Inr c)
      then have c: "conn_fits c" using Cons.prems(1) o by (auto simp: opener_fits_def)
      obtain st' p' where f: "fold (index_table dec md5_hex (df_rel f) c (uid_map c) contacts my) (message_tables c) (st, p) = (st', p')"
        by fastforce
      have "store_fits (fst (fold (index_table dec md5_hex (df_rel f) c (uid_map c) contacts my) (message_tables c) (st, p)))"
        by (rule fold_invariant [where I = "\<lambda>sp. store_fits (fst sp)"]) (simp_all add: index_table_fits [OF c] Cons.prems)
      then show ?thesis using Cons.IH [OF Cons.prems(1), of st'] Some o Inr f by simp
    qed
  qed
qed simp

lemma with_first_fits:
  assumes "opener_fits open_db" and "store_fits st" and "\<And>c st. conn_fits c \<Longrightarrow> store_fits st \<Longrightarrow> store_fits (load c st)"
  shows "store_fits (fst (snd (with_first open_db keys fs kind load pool st)))"
  using assms by (auto simp: with_first_def opener_fits_def split: option.split prod.split sum.split)

lemma fill_counts_fits: "store_fits st \<Longrightarrow> store_fits (fill_counts st)"
proof -
  assume st: "store_fits st"
  let ?g = "\<lambda>(u, s). (u, s\<lparr>ss_message_count := conv_count st u\<rparr>)"
  have "map (fst \<circ> ?g) m = map fst m" for m by (rule map_cong) auto
  then have "hm_ok (map ?g (st_sessions st)) = hm_ok (st_sessions st)" unfolding hm_ok_def map_map by metis
  moreover have "(\<forall>(k, v)\<in>set (map ?g (st_sessions st)). session_fits k v) = (\<forall>(k, v)\<in>set (st_sessions st). session_fits k v)"
    by (auto simp: session_fits_def)
  ultimately have "hm_typed session_fits (map ?g (st_sessions st)) = hm_typed session_fits (st_sessions st)"
    unfolding hm_typed_def by (simp only:)
  then show ?thesis using st by (simp add: fill_counts_def store_fits_def)
qed

lemma finish_build_fits:
  assumes "opener_fits open_db" and "store_fits st"
  shows "store_fits (snd (finish_build parse_f64 open_db keys fs pool st))"
  using with_first_fits [OF assms, of "load_sns parse_f64" keys fs Sns pool]
  by (auto simp: finish_build_def load_sns_fits fill_counts_fits split: prod.split)

lemma build_fits:
  assumes "opener_fits open_db"
  shows "store_fits (fst (snd (build_all_live dec md5_hex parse_f64 now open_db keys my fs pool p)))"
proof -
  let ?a = "with_first open_db keys fs Session (\<lambda>c st. fst (load_sessions c st)) pool (store_default\<lparr>st_my_wxid := my\<rparr>)"
  have a: "store_fits (fst (snd ?a))" by (rule with_first_fits [OF assms]) (simp_all add: load_sessions_fits)
  let ?b = "\<lambda>pool st. with_first open_db keys fs Contact (\<lambda>c st. load_chatroom_meta c (fst (load_contacts c st))) pool st"
  have b: "store_fits st \<Longrightarrow> store_fits (fst (snd (?b pool st)))" for pool st
    by (rule with_first_fits [OF assms]) (simp_all add: load_contacts_fits load_chatroom_meta_fits)
  have c: "store_fits st \<Longrightarrow> store_fits (fst (snd (with_first open_db keys fs ContactFts load_group_cards pool st)))" for pool st
    by (rule with_first_fits [OF assms]) (simp_all add: load_group_cards_fits)
  note f = index_files_fits [OF assms] finish_build_fits [OF assms]
  have "store_fits (fst (snd (build_all_live_inner dec md5_hex parse_f64 open_db keys my fs pool p)))"
  proof -
    obtain p1 s1 g1 where 1: "?a = (p1, s1, g1)" by (cases ?a)
    obtain p2 s2 g2 where 2: "?b p1 s1 = (p2, s2, g2)" by (cases "?b p1 s1")
    obtain p3 s3 g3 where 3: "with_first open_db keys fs ContactFts load_group_cards p2 s2 = (p3, s3, g3)"
      by (cases "with_first open_db keys fs ContactFts load_group_cards p2 s2")
    have s: "store_fits s1" "store_fits s2" "store_fits s3" using a b [of s1 p1] c [of s2 p2] 1 2 3 by simp_all
    show ?thesis by (simp add: build_all_live_inner_def Let_def 1 2 3 s split_beta f(2) [OF f(1)])
  qed
  then show ?thesis by (simp add: build_all_live_def split_beta)
qed

section \<open>The poll\<close>

definition read_fits :: "'c read_state \<Rightarrow> bool" where
  "read_fits rs \<longleftrightarrow> (\<forall>(session, m)\<in>set (rs_new rs). message_fits m) \<and> (\<forall>(key, w)\<in>set (rs_watermarks rs). watermark_fits w)"

definition env_fits :: "'c sync_env \<Rightarrow> bool" where
  "env_fits env \<longleftrightarrow> (\<forall>c. conn_fits (se_db env c))"

lemma env_open_fits: "env_fits env \<Longrightarrow> opener_fits (env_open hx env)"
  unfolding opener_fits_def env_open_def env_fits_def
  by (auto simp: map_sum_def split: prod.splits sum.splits)

lemma read_new_fits: "conn_fits c \<Longrightarrow> read_new dec c table wm ids = Inr rows \<Longrightarrow> list_all message_fits rows"
  by (auto simp: read_new_def Let_def list_all_iff extracted_fits conn_rows split: option.splits prod.splits if_splits)

lemma drain_table_fits:
  assumes "\<And>wm rows. read wm = Inr rows \<Longrightarrow> list_all message_fits rows"
  shows "drain_table read n wm = Inr (rows, drained) \<Longrightarrow> list_all message_fits rows"
proof (induction n arbitrary: wm rows drained)
  case (Suc n)
  then obtain page where page: "read wm = Inr page" by (auto split: sum.splits)
  show ?case
  proof (cases "length page < read_page \<or> n = 0")
    case True
    then show ?thesis using Suc.prems page assms by (auto split: if_splits)
  next
    case False
    then obtain rest where "drain_table read n (last_watermark page wm) = Inr (rest, drained)" "rows = page @ rest"
      using Suc.prems page by (auto split: sum.splits prod.splits)
    then show ?thesis using Suc.IH assms page by simp
  qed
qed simp

lemma take_rows_fits: "list_all message_fits rows \<Longrightarrow> read_fits rs \<Longrightarrow> read_fits (take_rows session key rows rs)"
  by (auto simp: read_fits_def take_rows_def list_all_iff watermark_fits_def row_watermark_def message_fits_def)

lemma read_tables_fits: "conn_fits c \<Longrightarrow> read_fits rs \<Longrightarrow>
    read_tables dec md5_hex st rel c ids tables rs = Inr (rs', drained) \<Longrightarrow> read_fits rs'"
proof (induction tables arbitrary: rs drained)
  case (Cons t tables)
  obtain table sfx where t: "t = (table, sfx)" by fastforce
  obtain rows d where d: "drain_table (\<lambda>wm. read_new dec c table wm ids) read_max_pages
      (opt_or (hm_get (st_watermarks st) (watermark_key rel table)) watermark_default) = Inr (rows, d)"
    using Cons.prems(3) by (auto simp: t Let_def split: sum.splits)
  have "list_all message_fits rows" by (rule drain_table_fits [OF _ d]) (rule read_new_fits [OF Cons.prems(1)])
  then have "read_fits (take_rows (table_session md5_hex sfx st) (watermark_key rel table) rows rs)"
    using Cons.prems(2) by (rule take_rows_fits)
  then show ?case using Cons.IH [OF Cons.prems(1)] Cons.prems(3) d by (auto simp: t Let_def split: sum.splits prod.splits)
qed simp

lemma read_phase_fits: "env_fits env \<Longrightarrow> read_fits rs \<Longrightarrow> read_fits (fst (read_phase dec md5_hex hx env keys st ws rs))"
proof (induction ws arbitrary: rs)
  case (Cons w ws)
  have pool: "read_fits (rs\<lparr>rs_pool := p\<rparr>) = read_fits rs" "read_fits (rs\<lparr>rs_done := ds\<rparr>) = read_fits rs" for rs :: "'a read_state" and p ds
    by (simp_all add: read_fits_def)
  note opens = env_open_fits [OF Cons.prems(1), of hx, unfolded opener_fits_def, rule_format]
  show ?case
  proof (cases w)
    case (Messages f)
    show ?thesis
    proof (cases "key_for keys (df_rel f)")
      case (Some key)
      obtain p r where o: "env_open hx env (rs_pool rs) f key = (p, r)" by fastforce
      show ?thesis
      proof (cases r)
        case (Inl e)
        then show ?thesis using Cons Messages Some o by (cases e) (simp_all add: pool)
      next
        case (Inr c)
        then have c: "conn_fits c" using opens o by blast
        show ?thesis
        proof (cases "read_tables dec md5_hex st (df_rel f) c (name2id_table c) (message_tables c) (rs\<lparr>rs_pool := p\<rparr>)")
          case Inl
          then show ?thesis using Cons.prems Messages Some o Inr pool by simp
        next
          case (Inr x)
          obtain rs' d where x: "x = (rs', d)" by fastforce
          have "read_fits (rs\<lparr>rs_pool := p\<rparr>)" using Cons.prems(2) by (simp add: pool)
          from read_tables_fits [OF c this] Inr x have "read_fits rs'" by blast
          then show ?thesis using Cons Messages Some o \<open>r = Inr c\<close> Inr x by (simp add: pool)
        qed
      qed
    qed (use Cons Messages in simp)
  qed (use Cons in simp_all)
qed simp

lemma apply_new_fits:
  assumes "message_fits (snd sr)" and "store_fits (fst acc)"
  shows "store_fits (fst (apply_new pub sr acc))"
proof -
  obtain session row st bus n where sr: "sr = (session, row)" "acc = (st, bus, n)" by (cases sr; cases acc) auto
  have "message_fits (resolve_row st row)" using assms(1) by (simp add: sr message_fits_def resolve_row_def)
  then show ?thesis using assms(2) by (simp add: sr apply_new_def Let_def store_fits_def)
qed

lemma apply_phase_fits:
  assumes "read_fits rs" and "store_fits st"
  shows "store_fits (fst (apply_phase pub rs st bus))"
proof -
  let ?wms = "fold (\<lambda>(k, w) m. hm_insert k w m) (rs_watermarks rs) (st_watermarks st)"
  have "hm_typed (\<lambda>k. watermark_fits) ?wms"
    by (rule fold_invariant [where I = "hm_typed (\<lambda>k. watermark_fits)"]) (use assms in \<open>auto simp: read_fits_def store_fits_def\<close>)
  then have "store_fits (st\<lparr>st_watermarks := ?wms\<rparr>)" using assms(2) by (simp add: store_fits_def)
  then have "store_fits (fst (fold (apply_new pub) (rs_new rs) (st\<lparr>st_watermarks := ?wms\<rparr>, bus, 0)))"
    by (intro fold_invariant [where I = "\<lambda>acc. store_fits (fst acc)"]) (use assms(1) in \<open>auto simp: read_fits_def intro!: apply_new_fits\<close>)
  then show ?thesis by (simp add: apply_phase_def Let_def split_beta)
qed

lemma reload_of_fits: "reload_of parse_f64 w = Some load \<Longrightarrow> conn_fits c \<Longrightarrow> store_fits st \<Longrightarrow> store_fits (load c st)"
  by (cases w) (auto simp: reload_of_def load_sessions_fits load_contacts_fits load_chatroom_meta_fits load_group_cards_fits load_sns_fits)

lemma reload_item_fits:
  assumes "env_fits env" and "store_fits (snd ps)"
  shows "store_fits (snd (reload_item parse_f64 hx env keys w ps))"
  using assms env_open_fits [OF assms(1), of hx, unfolded opener_fits_def, rule_format]
  by (auto simp: reload_item_def reload_of_fits split: option.split prod.split sum.split)

lemma reload_phase_fits: "env_fits env \<Longrightarrow> store_fits (snd ps) \<Longrightarrow>
    store_fits (snd (fst (reload_phase parse_f64 hx env keys i ws ps)))"
  by (induction ws arbitrary: i ps) (simp_all add: reload_item_fits)

lemma remember_store: "as_store (remember env d w s) = as_store s"
  by (simp add: remember_def Let_def)

lemma poll_fits:
  assumes "env_fits env" and "store_fits (as_store s)"
  shows "store_fits (as_store (fst (poll_once dec md5_hex hx parse_f64 pub env s)))"
proof (cases "se_stopped_start env")
  case False
  obtain s1 work where k: "classify_changed env s = (s1, work)" by fastforce
  then have st: "store_fits (as_store s1)" using assms(2) by (auto simp: classify_changed_def Let_def)
  obtain rs failed where r: "read_phase dec md5_hex hx env (as_keys s1) (as_store s1) work
      \<lparr>rs_pool = as_pool s1, rs_new = [], rs_watermarks = [], rs_revoke = [], rs_done = []\<rparr> = (rs, failed)" by fastforce
  have rs: "read_fits rs"
    using read_phase_fits [OF assms(1), of "\<lparr>rs_pool = as_pool s1, rs_new = [], rs_watermarks = [], rs_revoke = [], rs_done = []\<rparr>"
        dec md5_hex hx "as_keys s1" "as_store s1" work] by (simp add: r read_fits_def)
  obtain st2 bus a b where p: "apply_phase pub rs (as_store s1) (as_bus s1) = (st2, bus, a, b)" using prod_cases4 by blast
  have st2: "store_fits st2" using apply_phase_fits [OF rs st, of pub "as_bus s1"] by (simp add: p)
  obtain pool st3 fin where l: "reload_phase parse_f64 hx env (as_keys s1) 0 work (rs_pool rs, st2) = ((pool, st3), fin)"
    by (metis surj_pair)
  have st3: "store_fits st3" using reload_phase_fits [OF assms(1), of "(rs_pool rs, st2)" parse_f64 hx "as_keys s1" 0 work] st2 by (simp add: l)
  have keep: "as_store (fold (remember env d) work s) = as_store s" for d and s :: "('a, 'b) account_sync"
    by (rule fold_invariant [where I = "\<lambda>t. as_store t = as_store s"]) (simp_all add: remember_store)
  show ?thesis using False assms(2) st st3
    by (simp add: poll_once_def k r p l Let_def keep split: option.split)
qed (use assms in \<open>simp add: poll_once_def\<close>)

text \<open>
  C8. The index is well typed from the first build on: after a full build and after every poll, failed and interrupted ones too, each
  table has one entry for a key, sessions and contacts are filed under their own nonempty names, rosters name nobody twice, cards
  and owners are not empty, and every number that the code holds in an \<open>i64\<close> fits one, given only that SQLite's integers do.
\<close>

theorem index_stays_typed:
  assumes "env_fits env" and "store_fits (as_store s)"
  shows "store_fits (as_store (fst (full_sync dec md5_hex hx parse_f64 env s)))
    \<and> store_fits (as_store (fst (poll_once dec md5_hex hx parse_f64 pub env s)))"
proof -
  have "store_fits (as_store (fst (full_sync dec md5_hex hx parse_f64 env s)))"
    using build_fits [OF env_open_fits [OF assms(1)]] assms(2)
    by (simp add: full_sync_def Let_def split_beta)
  then show ?thesis using poll_fits [OF assms] by blast
qed

lemma row_of_fits: "list_all (\<lambda>v. case v of SInt n \<Rightarrow> i64_ok n | _ \<Rightarrow> True) vs \<Longrightarrow> row_fits (row_of vs)"
  by (auto simp: row_fits_def row_of_def Let_def list_all_iff split: sql_value.split dest!: nth_mem)

definition typed_conn :: conn where
  "typed_conn q ps = (if q = ''PRAGMA table_info(SessionTable)''
     then Some ([row_of [SInt 0, SText ''username''], row_of [SInt 1, SText ''last_timestamp'']], False)
     else if q = ''SELECT username, last_timestamp FROM \"SessionTable\"''
     then Some ([row_of [SText ''wxid_a'', SInt 5], row_of [SText ''wxid_a'', SInt 6]], False) else None)"

theorem index_stays_typed_witness:
  "let s' = fst (demo_poll (demo_env Session typed_conn) demo_sync) in
     map_option ss_last_timestamp (hm_get (st_sessions (as_store s')) ''wxid_a'') = Some 6 \<and> store_fits (as_store s')"
proof -
  have "i64_ok 0 \<and> i64_ok 1 \<and> i64_ok 5 \<and> i64_ok 6" by code_simp
  then have "env_fits (demo_env Session typed_conn)"
    by (auto simp: env_fits_def demo_env_def conn_fits_def typed_conn_def intro!: row_of_fits split: if_splits)
  moreover have "store_fits (as_store demo_sync)" by (simp add: demo_sync_def account_sync_new_def)
  ultimately have "store_fits (as_store (fst (demo_poll (demo_env Session typed_conn) demo_sync)))"
    unfolding demo_poll_def by (rule index_stays_typed [THEN conjunct2])
  moreover have "map_option ss_last_timestamp (hm_get (st_sessions (as_store (fst (demo_poll (demo_env Session typed_conn) demo_sync)))) ''wxid_a'') = Some 6"
    by code_simp
  ultimately show ?thesis unfolding Let_def by blast
qed

end
