(* ===== verification/Client_Server.thy ===== *)
theory Client_Server
  imports Wire Store_Types
begin

text \<open>
  The client library against the server: the network is the model of the server's handlers behind the paths the client
  asks for, and the bodies are those of \<open>Wire\<close>, written by the server's serialisers and read by the client's, so what the two
  loops over pages return is stated over the store of the server.
\<close>

section \<open>Names and numbers on the wire\<close>

lemma path_char_plain: "is_path_char c \<Longrightarrow> c \<noteq> CHR ''%'' \<and> c \<noteq> CHR ''/''"
  by (auto simp: is_path_char_def is_ascii_alnum_def is_ascii_digit_def is_ascii_upper_def is_ascii_lower_def in_range_def)

lemma percent_bytes_plain: "c \<noteq> CHR ''%'' \<Longrightarrow> percent_bytes (c # s) = c # percent_bytes s"
  by (simp split: list.split)

lemma percent_bytes_encode_path: "percent_bytes (encode_path_segment s) = s"
proof (induction s)
  case (Cons c s)
  have "(of_char c :: nat) div 16 < 16" by (simp add: less_mult_imp_div_less)
  moreover have "char_of (16 * (of_char c div 16) + of_char c mod 16 :: nat) = c" by simp
  ultimately show ?case
    using Cons path_char_plain [of c]
    by (auto simp: encode_path_segment_def hex_value_upper percent_bytes_plain simp del: percent_bytes.simps)
      (simp add: hex_value_upper)
qed (simp add: encode_path_segment_def)

lemma encode_path_no_slash: "CHR ''/'' \<notin> set (encode_path_segment s)"
proof -
  have h: "hex_upper n \<noteq> CHR ''/''" if "n < 16" for n
  proof -
    have "(of_char (hex_upper n) :: nat) \<noteq> 47" using that by (auto simp: hex_upper_def)
    then show ?thesis by auto
  qed
  have "CHR ''/'' \<notin> set (if is_path_char b then [b] else [CHR ''%'', hex_upper (of_char b div 16), hex_upper (of_char b mod 16)])" for b
  proof -
    have "(of_char b :: nat) div 16 < 16" "(of_char b :: nat) mod 16 < 16" by (simp_all add: less_mult_imp_div_less)
    note n = h [OF this(1), THEN not_sym] h [OF this(2), THEN not_sym]
    show ?thesis using path_char_plain [of b] n by (cases "is_path_char b") auto
  qed
  then show ?thesis unfolding encode_path_segment_def set_concat set_map by blast
qed

lemma length_nat_to_dec: "10 ^ k \<le> n \<Longrightarrow> k < length (nat_to_dec n)"
proof (induction k arbitrary: n)
  case (Suc k)
  then have "10 ^ k \<le> n div 10" by (simp add: less_eq_div_iff_mult_less_eq mult.commute)
  moreover have "\<not> n < 10"
  proof
    assume "n < 10"
    with Suc.prems have "(10 :: nat) ^ Suc k < 10" by linarith
    then show False by simp
  qed
  ultimately show ?case using Suc.IH by (subst nat_to_dec.simps) simp
qed simp

lemma digit_plain: "is_ascii_digit c \<Longrightarrow> is_ascii c \<and> \<not> is_whitespace [c]"
  by (auto simp: is_ascii_def is_whitespace_def char_code_def is_ascii_digit_def in_range_def)

lemma trim_int_to_dec: "0 \<le> i \<Longrightarrow> trim (int_to_dec i) = int_to_dec i"
  using nat_to_dec_digits [of "nat i"] by (intro trim_ascii_id) (auto simp: int_to_dec_def list_all_iff digit_plain)

text \<open>A cursor is read back as it was written, from the ninth digit on: eight digits are a date.\<close>

lemma parse_cursor:
  assumes "10 ^ 8 \<le> i" and "i64_ok i"
  shows "parse_time_bound midnight (int_to_dec i) = Some i"
proof -
  have "8 < length (int_to_dec i)" using assms(1) length_nat_to_dec [of 8 "nat i"] by (simp add: int_to_dec_def)
  then show ?thesis
    using assms trim_int_to_dec [of i] by (simp add: parse_time_bound_def parse_time_bound_inner_def Let_def parse_i64_to_dec)
qed

section \<open>The server behind the network\<close>

record ('c, 'ch) served =
  sv_base :: string
  sv_show_json :: "json \<Rightarrow> string"
  sv_lower :: "string \<Rightarrow> string"
  sv_midnight :: "nat \<Rightarrow> nat \<Rightarrow> nat \<Rightarrow> int option"
  sv_env :: export_env
  sv_disk :: disk
  sv_export_dir :: "string list"
  sv_now :: int
  sv_app :: "('c, 'ch) app_state"

definition refused :: "api_error \<Rightarrow> json http_response" where
  "refused e = (case into_response e of (status, body) \<Rightarrow> (status, Inr (api_error_body_body body)))"

definition answer :: "('a \<Rightarrow> json) \<Rightarrow> api_error + 'a \<Rightarrow> json http_response" where
  "answer write r = (case r of Inl e \<Rightarrow> refused e | Inr x \<Rightarrow> (200, Inr (write x)))"

definition path_ident :: "string \<Rightarrow> string option" where
  "path_ident path = Option.bind (strip_prefix ''/api/v1/sessions/'' path) (\<lambda>r.
     Option.bind (strip_suffix ''/messages'' r) (\<lambda>seg. if CHR ''/'' \<in> set seg then None else Some (percent_bytes seg)))"

definition authorization_of :: "request \<Rightarrow> string option" where
  "authorization_of rq = map_option (\<lambda>t. ''Bearer '' @ t) (rq_bearer rq)"

definition server_net :: "('c, 'ch) served \<Rightarrow> ('w, json) net" where
  "server_net sv rq w = (w, Inr (case strip_prefix (sv_base sv) (rq_url rq) of None \<Rightarrow> refused (not_found []) | Some path \<Rightarrow>
     if path = ''/api/v1/sessions'' then answer sessions_reply_body
       (sessions_respond (sv_show_json sv) (sv_lower sv) (rq_query rq) (authorization_of rq) None False (sv_app sv))
     else (case path_ident path of None \<Rightarrow> refused (not_found []) | Some ident \<Rightarrow> answer pull_envelope_body
       (chatlab_pull_handler (sv_midnight sv) (sv_env sv) (sv_disk sv) (sv_export_dir sv) (sv_now sv) ident (rq_query rq)
         (authorization_of rq) (sv_app sv)))))"

text \<open>The server answers the client: same address, same token, one account that is ready; its clock is an \<open>i64\<close>.\<close>

definition serving :: "('c, 'ch) served \<Rightarrow> client \<Rightarrow> nat \<Rightarrow> bool" where
  "serving sv c a \<longleftrightarrow> sv_base sv = cn_base_url c \<and> ap_token (sv_app sv) = cn_token c
     \<and> bound_account (ap_accounts (sv_app sv)) = Some a \<and> is_ready (status_of (handle_at (sv_app sv) a)) \<and> i64_ok (sv_now sv)"

definition sv_store :: "('c, 'ch) served \<Rightarrow> nat \<Rightarrow> store" where
  "sv_store sv a = handle_store (handle_at (sv_app sv) a)"

lemma serving_auth: "serving sv c a \<Longrightarrow> require_auth (ap_token (sv_app sv)) q (Some (''Bearer '' @ cn_token c)) = Inr ()"
  by (simp add: serving_def require_auth_def authorized_iff)

lemma serving_account: "serving sv c a \<Longrightarrow> hm_get q ''wxid'' = None \<Longrightarrow> ready_account (sv_app sv) q = Inr a"
  by (simp add: serving_def ready_account_def)

lemma map_of_sorted: "distinct (map fst q) \<Longrightarrow> map_of (sort_key fst q) k = map_of q k"
  by (metis distinct_map distinct_sort map_of_eqI map_of_inject_set set_sort sort_key_simps(1) distinct_map)

lemma path_ident_pull: "path_ident (pull_path talker) = Some talker"
proof -
  have "strip_prefix ''/api/v1/sessions/'' (pull_path talker) = Some (encode_path_segment talker @ ''/messages'')"
    unfolding pull_path_def by (rule strip_prefix_append)
  moreover have "strip_suffix ''/messages'' (encode_path_segment talker @ ''/messages'') = Some (encode_path_segment talker)"
    by (simp only: strip_suffix_Some)
  ultimately show ?thesis by (simp add: path_ident_def encode_path_no_slash percent_bytes_encode_path)
qed

lemma pull_path_not_list: "pull_path talker \<noteq> ''/api/v1/sessions''"
  by (simp add: pull_path_def)

section \<open>One page\<close>

definition served_row :: "('c, 'ch) served \<Rightarrow> nat \<Rightarrow> string \<Rightarrow> message_record \<Rightarrow> pull_message" where
  "served_row sv a ident m = chatlab_message.extend (message_fields (sv_store sv a) (chatroom_of ident) m)
     (pull_message.fields (pull_media_id (digest_handles (sv_env sv) (sv_disk sv) (sv_export_dir sv) ident) m))"

definition late_cursor :: "int \<Rightarrow> bool" where
  "late_cursor s \<longleftrightarrow> 10 ^ 8 \<le> s \<and> i64_ok s"

lemma pull_params_distinct: "distinct (map fst (pull_params since offset limit))"
  by (simp add: pull_params_def opt_param_def split: option.split)

lemma pull_params_get:
  "hm_get (pull_params since offset limit) ''since'' = map_option int_to_dec since"
  "hm_get (pull_params since offset limit) ''limit'' = map_option nat_to_dec limit"
  "hm_get (pull_params since offset limit) ''offset'' = (if offset = 0 then None else Some (nat_to_dec offset))"
  "hm_get (pull_params since offset limit) ''end'' = None" "hm_get (pull_params since offset limit) ''wxid'' = None"
  by (simp_all add: pull_params_def opt_param_def split: option.split)

text \<open>What the pull endpoint answers fits the types it is written and read in.\<close>

lemma pull_page_rows: "set (fst (pull_page st ident now since until limit offset)) \<subseteq> set (conversation st ident)"
proof -
  have "set (take_page limit 0 None xs) \<subseteq> set xs" for xs
    using take_page_length [of limit 0 None xs] by (metis set_take_subset)
  then show ?thesis by (fastforce simp: pull_page_def Let_def ascending_def dest: in_set_dropD)
qed

lemma pull_page_sync_ok:
  assumes late: "\<forall>m\<in>set (conversation st ident). late_cursor (mr_create_time m)" and since: "is_none_or late_cursor since"
    and now: "i64_ok now"
  shows "pull_sync_ok (snd (pull_page st ident now since None limit offset))"
proof -
  have zero: "i64_ok 0" by (simp add: i64_ok_def i64_min_def i64_max_def)
  let ?r = "pull_page st ident now since None limit offset"
  let ?page = "fst ?r"
  have "i64_ok (if ?page = [] then opt_or since 0 else mr_create_time (last ?page))"
  proof (cases "?page = []")
    case True
    then show ?thesis using since zero by (cases since) (auto simp: late_cursor_def)
  next
    case False
    then have "last ?page \<in> set (conversation st ident)" using pull_page_rows by (metis last_in_set subsetD)
    then show ?thesis using late False by (simp add: late_cursor_def)
  qed
  moreover have "py_next_since (snd ?r) = (if py_has_more (snd ?r) then (if ?page = [] then opt_or since 0 else mr_create_time (last ?page)) else now)"
    "usize_ok (py_next_offset (snd ?r))" "py_watermark (snd ?r) = now"
    by (simp_all add: pull_page_def Let_def saturating_add_def usize_ok_def)
  ultimately show ?thesis using now by (simp add: pull_sync_ok_def)
qed

lemma chatlab_type_ok: "i64_ok (chatlab_type t parsed)"
  by (simp add: chatlab_type_def Let_def i64_ok_def i64_min_def i64_max_def)

lemma served_row_ok: "late_cursor (mr_create_time m) \<Longrightarrow> pull_message_ok (served_row sv a ident m)"
  by (simp add: served_row_def pull_message_ok_def message_fields_def late_cursor_def chatlab_type_ok
      chatlab_message.defs pull_message.defs)

lemma served_envelope_ok:
  assumes "serving sv c a" and "\<forall>m\<in>set (conversation (sv_store sv a) ident). late_cursor (mr_create_time m)"
    and "is_none_or late_cursor since"
    and "pe_chatlab e = header (sv_now sv)"
    and "pe_messages e = map (served_row sv a ident) (fst (pull_page (sv_store sv a) ident (sv_now sv) since None limit offset))"
    and "pe_sync e = snd (pull_page (sv_store sv a) ident (sv_now sv) since None limit offset)"
  shows "pull_envelope_ok e"
  using assms pull_page_rows [of "sv_store sv a" ident "sv_now sv" since None limit offset]
  by (auto simp: pull_envelope_ok_def chatlab_header_ok_def header_def list_all_iff serving_def intro!: pull_page_sync_ok served_row_ok)

lemma pull_one_served:
  assumes sv: "serving sv c a" and known: "conversation_known (sv_store sv a) ident"
    and late: "\<forall>m\<in>set (conversation (sv_store sv a) ident). late_cursor (mr_create_time m)"
    and since: "is_none_or late_cursor since" and off: "usize_ok offset"
    and lim: "is_none_or (\<lambda>l. 1 \<le> l \<and> l \<le> 5000) limit"
  shows "\<exists>e. pull_one (server_net sv) wire_readers c ident since offset limit w = (w, Inr e)
    \<and> pe_messages e = map (served_row sv a ident) (fst (pull_page (sv_store sv a) ident (sv_now sv) since None (opt_or limit 5000) offset))
    \<and> pe_sync e = snd (pull_page (sv_store sv a) ident (sv_now sv) since None (opt_or limit 5000) offset)"
proof -
  let ?q = "sort_key fst (pull_params since offset limit)"
  note get = map_of_sorted [OF pull_params_distinct [of since offset limit]]
  have s: "Option.bind (hm_get ?q ''since'') (parse_time_bound (sv_midnight sv)) = since"
    using since unfolding get pull_params_get by (cases since) (auto simp: late_cursor_def parse_cursor)
  have e: "Option.bind (hm_get ?q ''end'') (parse_time_bound_end (sv_midnight sv)) = None" by (simp add: get pull_params_get)
  have l: "parse_limit ?q ''limit'' 5000 5000 = opt_or limit 5000"
    using lim get [of "''limit''"] by (cases limit)
      (auto simp: pull_params_get parse_limit_given parse_limit_default usize_ok_def usize_max_def)
  have o: "parse_offset ?q ''offset'' = offset"
  proof (cases "offset = 0")
    case True
    then show ?thesis using get [of "''offset''"] by (simp add: parse_offset_def pull_params_get)
  next
    case False
    then have "hm_get ?q ''offset'' = Some (nat_to_dec offset)" by (simp add: get pull_params_get)
    then show ?thesis using off by (rule parse_offset_given)
  qed
  have r: "ready_account (sv_app sv) ?q = Inr a" by (rule serving_account [OF sv]) (simp add: get pull_params_get)
  have pre: "strip_prefix (sv_base sv) (url c (pull_path ident)) = Some (pull_path ident)"
    using sv by (simp add: serving_def url_def)
  obtain page sync where p: "pull_page (sv_store sv a) ident (sv_now sv) since None (opt_or limit 5000) offset = (page, sync)"
    by fastforce
  obtain e where h: "chatlab_pull_handler (sv_midnight sv) (sv_env sv) (sv_disk sv) (sv_export_dir sv) (sv_now sv) ident ?q
      (Some (''Bearer '' @ cn_token c)) (sv_app sv) = Inr e" "pe_messages e = map (served_row sv a ident) page" "pe_sync e = sync" "pe_chatlab e = header (sv_now sv)"
    using known p unfolding chatlab_pull_handler_def serving_auth [OF sv] r sum.case Let_def s e l o
    by (simp add: sv_store_def served_row_def)
  have "pull_envelope_ok e" using h p by (intro served_envelope_ok [OF sv late since, where limit = "opt_or limit 5000" and offset = offset]) simp_all
  then have rd: "read_pull_envelope (pull_envelope_body e) = Inr e" by simp
  have "pull_one (server_net sv) wire_readers c ident since offset limit w = (w, Inr e)"
    using h(1) rd pre
    by (simp add: wire_readers_def pull_one_def get_json_def get_json_on_def sent_def get_request_def server_net_def pull_path_not_list
        path_ident_pull authorization_of_def answer_def decode_def)
  with h(2,3) show ?thesis by (simp add: p)
qed

section \<open>All pages\<close>

lemma pull_page_cursor:
  assumes "py_has_more (snd (pull_page st ident now since until limit 0))"
  shows "py_next_since (snd (pull_page st ident now since until limit 0)) \<in> mr_create_time ` set (conversation st ident)"
proof -
  let ?rows = "ascending st ident since until"
  let ?page = "take_page limit 0 None ?rows"
  have more: "length ?page < length ?rows" using assms by (simp add: pull_page_def Let_def)
  then have ne: "?page \<noteq> []" by (intro take_page_nonempty) auto
  have "last ?page \<in> set ?rows" using ne take_page_length [of limit 0 None ?rows] by (metis in_set_takeD last_in_set)
  then have "last ?page \<in> set (conversation st ident)" by (auto simp: ascending_def)
  then show ?thesis using more ne by (auto simp: pull_page_def Let_def)
qed

definition collect :: "pull_message list \<Rightarrow> pull_message list \<Rightarrow> pull_message list \<times> (client_error + unit)" where
  "collect page acc = (acc @ page, Inr ())"

lemma drain_rows:
  assumes sv: "serving sv c a" and known: "conversation_known (sv_store sv a) ident"
    and late: "\<forall>m\<in>set (conversation (sv_store sv a) ident). late_cursor (mr_create_time m)"
  shows "is_none_or late_cursor since \<Longrightarrow> length (ascending (sv_store sv a) ident since None) < n \<Longrightarrow>
    drain_session n (server_net sv) wire_readers c ident collect since 0 got w acc
      = (w, acc @ map (served_row sv a ident) (ascending (sv_store sv a) ident since None),
         Some (Inr (got + length (ascending (sv_store sv a) ident since None))))"
proof (induction n arbitrary: since got acc)
  case (Suc n)
  let ?st = "sv_store sv a"
  let ?r = "pull_page ?st ident (sv_now sv) since None 5000 0"
  let ?rows = "ascending ?st ident since None"
  obtain e where e: "pull_one (server_net sv) wire_readers c ident since 0 None w = (w, Inr e)"
      "pe_messages e = map (served_row sv a ident) (fst ?r)" "pe_sync e = snd ?r"
    using pull_one_served [OF sv known late Suc.prems(1), of 0 None w] by (auto simp: usize_ok_def)
  show ?case
  proof (cases "py_has_more (snd ?r)")
    case True
    have ge: "is_none_or (\<lambda>s. i64_min \<le> s) since" "\<forall>m\<in>set (conversation ?st ident). i64_min < mr_create_time m"
      using Suc.prems(1) late by (auto simp: late_cursor_def i64_min_def is_none_or_def split: option.splits)
    note f = pull_page_first [OF True ge, unfolded Let_def]
    have cur: "is_none_or late_cursor (Some (py_next_since (snd ?r)))" using pull_page_cursor [OF True] late by auto
    have "length (ascending ?st ident (Some (py_next_since (snd ?r))) None) < n" using f Suc.prems(2) by (cases "fst ?r") auto
    note ih = Suc.IH [OF cur this]
    have k: "fst ?r @ drop (length (fst ?r)) ?rows = ?rows" using f by (metis append_take_drop_id)
    have "length (fst ?r) + (length ?rows - length (fst ?r)) = length ?rows" using f by simp
    moreover have "map (served_row sv a ident) (fst ?r) @ map (served_row sv a ident) (drop (length (fst ?r)) ?rows)
        = map (served_row sv a ident) ?rows" using k by (metis map_append)
    moreover have "py_next_offset (snd ?r) = 0" "ascending ?st ident (Some (py_next_since (snd ?r))) None = drop (length (fst ?r)) ?rows"
      using f by simp_all
    ultimately show ?thesis using True e by (simp add: ih flip: collect_def) (simp add: collect_def ih add.assoc)
  next
    case False
    have "fst ?r = ?rows" using False take_page_length [of 5000 0 None ?rows] by (simp add: pull_page_def Let_def)
    then show ?thesis using False e by (simp add: collect_def)
  qed
qed simp

section \<open>The list of sessions\<close>

lemma list_params_distinct: "distinct (map fst (list_params offset per_page keyword))"
  by (simp add: list_params_def opt_param_def split: option.split)

lemma list_params_get:
  "hm_get (list_params offset per_page keyword) ''offset'' = Some (nat_to_dec offset)"
  "hm_get (list_params offset per_page keyword) ''limit'' = map_option nat_to_dec per_page"
  "hm_get (list_params offset per_page keyword) ''keyword'' = keyword"
  "hm_get (list_params offset per_page keyword) ''wxid'' = None"
  by (simp_all add: list_params_def opt_param_def split: option.split)

definition listed :: "('c, 'ch) served \<Rightarrow> nat \<Rightarrow> string option \<Rightarrow> session list" where
  "listed sv a keyword = ordered_sessions (sv_lower sv) (sv_store sv a) (map_option (sv_lower sv) (opt_filter (\<lambda>s. s \<noteq> []) keyword))"

text \<open>A well-typed index whose vectors have lengths of a \<open>usize\<close>: its sessions are written and read without loss.\<close>

definition sessions_fit :: "store \<Rightarrow> bool" where
  "sessions_fit st \<longleftrightarrow> store_fits st \<and> usize_ok (length (st_sessions st)) \<and> (\<forall>(k, conv)\<in>set (st_convs st). usize_ok (length conv))"

lemma session_kind_number_ok: "i64_ok (session_kind_number k)"
  by (cases k) (simp_all add: i64_ok_def i64_min_def i64_max_def)

lemma sessions_fit_native:
  assumes "sessions_fit st" and "s \<in> set (hm_values (st_sessions st))"
  shows "session_native_ok (session_native_of st s)"
proof -
  obtain k where "(k, s) \<in> set (st_sessions st)" using assms(2) by (auto simp: hm_values_def)
  then have "session_fits k s" using assms(1) by (auto simp: sessions_fit_def store_fits_def hm_typed_def)
  moreover have "usize_ok (conv_count st u)" for u
    using assms(1) by (auto simp: sessions_fit_def conv_count_def usize_ok_def dest!: map_of_SomeD split: option.split)
  ultimately show ?thesis by (simp add: session_native_ok_def session_native_of_def session_fits_def session_kind_number_ok)
qed

lemma listed_rows: "set (listed sv a keyword) \<subseteq> set (hm_values (st_sessions (sv_store sv a)))"
  "length (listed sv a keyword) \<le> length (st_sessions (sv_store sv a))"
  by (auto simp: listed_def ordered_sessions_def) (metis hm_values_def length_filter_le length_map)

lemma list_one_served:
  assumes sv: "serving sv c a" and fit: "sessions_fit (sv_store sv a)"
    and off: "usize_ok offset" and per: "is_none_or (\<lambda>l. 1 \<le> l \<and> l \<le> 10000) per_page"
  shows "\<exists>x. get_json (server_net sv) c (rd_sessions wire_readers) ''/api/v1/sessions'' (list_params offset per_page keyword) w = (w, Inr x)
    \<and> sl_sessions x = map (session_native_of (sv_store sv a)) (window offset (opt_or per_page 100) (listed sv a keyword))"
proof -
  let ?q = "sort_key fst (list_params offset per_page keyword)"
  note get = map_of_sorted [OF list_params_distinct [of offset per_page keyword]]
  have l: "parse_limit ?q ''limit'' 100 10000 = opt_or per_page 100"
    using per get [of "''limit''"] by (cases per_page)
      (auto simp: list_params_get parse_limit_given parse_limit_default usize_ok_def usize_max_def)
  have o: "sessions_offset False ?q = offset"
    using off by (simp add: sessions_offset_def parse_offset_given get list_params_get)
  have k: "keyword_of (sv_lower sv) ?q = map_option (sv_lower sv) (opt_filter (\<lambda>s. s \<noteq> []) keyword)"
    by (simp add: keyword_of_def get list_params_get)
  have r: "ready_account (sv_app sv) ?q = Inr a" by (rule serving_account [OF sv]) (simp add: get list_params_get)
  have m: "merge_params (sv_show_json sv) ?q None = ?q" by (simp add: merge_params_def)
  have pre: "strip_prefix (sv_base sv) (url c ''/api/v1/sessions'') = Some ''/api/v1/sessions''"
    using sv by (simp add: serving_def url_def)
  obtain x where h: "sessions_respond (sv_show_json sv) (sv_lower sv) ?q (Some (''Bearer '' @ cn_token c)) None False (sv_app sv)
      = Inr (Sessions_Native x)"
      "sl_sessions x = map (session_native_of (sv_store sv a)) (window offset (opt_or per_page 100) (listed sv a keyword))"
      "sl_count x = length (sl_sessions x)"
    unfolding sessions_respond_def m Let_def serving_auth [OF sv] r sum.case l o k
    by (simp add: session_page_def listed_def sv_store_def Let_def)
  let ?page = "window offset (opt_or per_page 100) (listed sv a keyword)"
  have "set ?page \<subseteq> set (hm_values (st_sessions (sv_store sv a)))" using listed_rows(1) [of sv a keyword]
    by (auto simp: window_def dest!: in_set_takeD in_set_dropD)
  moreover have "length ?page \<le> length (st_sessions (sv_store sv a))" using listed_rows(2) [of sv a keyword] by (simp add: length_window)
  ultimately have "sessions_native_ok x" using fit h(2,3) sessions_fit_native [OF fit]
    by (auto simp: sessions_fit_def sessions_native_ok_def list_all_iff usize_ok_def)
  then have rd: "read_sessions_native (sessions_native_body x) = Inr x" by simp
  have "get_json (server_net sv) c (rd_sessions wire_readers) ''/api/v1/sessions'' (list_params offset per_page keyword) w = (w, Inr x)"
    using h(1) rd pre
    by (simp add: wire_readers_def sessions_reply_body_def get_json_def get_json_on_def sent_def get_request_def server_net_def authorization_of_def answer_def decode_def)
  with h(2) show ?thesis by blast
qed

lemma collapse_new:
  "distinct (map sn_username ss) \<Longrightarrow> sn_username ` set ss \<inter> seen = {} \<Longrightarrow>
    collapse ss out seen = (out @ ss, seen \<union> sn_username ` set ss)"
proof (induction ss arbitrary: out seen)
  case (Cons s ss)
  then have "sn_username ` set ss \<inter> insert (sn_username s) seen = {}" by auto
  with Cons show ?case by auto
qed simp

lemma username_native: "sn_username \<circ> session_native_of st = ss_username"
  by (simp add: session_native_of_def comp_def)

lemma list_rows:
  assumes sv: "serving sv c a" and fit: "sessions_fit (sv_store sv a)"
    and per: "is_none_or (\<lambda>l. 1 \<le> l \<and> l \<le> 10000) per_page"
    and names: "distinct (map ss_username (listed sv a keyword))" and len: "usize_ok (length (listed sv a keyword))"
  shows "offset \<le> length (listed sv a keyword) \<Longrightarrow> length (listed sv a keyword) - offset < n \<Longrightarrow>
    list_loop n (server_net sv) wire_readers c per_page keyword (map (session_native_of (sv_store sv a)) (take offset (listed sv a keyword)))
        (ss_username ` set (take offset (listed sv a keyword))) offset w
      = (w, Some (Inr (map (session_native_of (sv_store sv a)) (listed sv a keyword))))"
proof (induction n arbitrary: offset)
  case (Suc n)
  let ?L = "listed sv a keyword"
  let ?f = "session_native_of (sv_store sv a)"
  let ?w = "window offset (opt_or per_page 100) ?L"
  have off: "usize_ok offset" using Suc.prems(1) len by (simp add: usize_ok_def)
  obtain x where x: "get_json (server_net sv) c (rd_sessions wire_readers) ''/api/v1/sessions'' (list_params offset per_page keyword) w = (w, Inr x)"
      "sl_sessions x = map ?f ?w"
    using list_one_served [OF sv fit off per, of keyword w] by (elim exE conjE)
  have pos: "0 < opt_or per_page 100" using per by (cases per_page) auto
  have t: "take offset ?L @ ?w = take (offset + length ?w) ?L"
    by (simp add: window_def take_add min_def)
  have "distinct (map ss_username (take (offset + length ?w) ?L))" using names by (simp flip: take_map)
  then have d: "distinct (map ss_username ?w)" "ss_username ` set ?w \<inter> ss_username ` set (take offset ?L) = {}"
    unfolding t [symmetric] by auto
  have names_w: "map sn_username (map ?f ?w) = map ss_username ?w" "sn_username ` set (map ?f ?w) = ss_username ` set ?w"
    by (simp_all add: username_native image_comp)
  have c: "collapse (sl_sessions x) (map ?f (take offset ?L)) (ss_username ` set (take offset ?L))
      = (map ?f (take (offset + length ?w) ?L), ss_username ` set (take (offset + length ?w) ?L))"
    unfolding x(2) using d by (subst collapse_new) (simp_all only: names_w t [symmetric] map_append set_append image_Un Un_commute)
  show ?case
  proof (cases "offset < length ?L")
    case True
    then have w: "0 < length ?w" "offset + length ?w \<le> length ?L" using pos by (auto simp: length_window)
    then have "length ?L - (offset + length ?w) < n" using Suc.prems(2) by linarith
    from Suc.IH [OF w(2) this] show ?thesis using w(1) c by (simp add: x)
  next
    case False
    then have "?w = []" by simp
    then show ?thesis using c False by (simp add: x)
  qed
qed simp

section \<open>What the client receives\<close>

text \<open>A server with one conversation, for the concrete instances.\<close>

definition demo_served :: "store \<Rightarrow> (nat, nat list) served" where
  "demo_served st = \<lparr>sv_base = ''http://h'', sv_show_json = \<lambda>_. [], sv_lower = id, sv_midnight = gregorian_midnight,
     sv_env = demo_export_env True, sv_disk = Map.empty, sv_export_dir = [], sv_now = 2000000000, sv_app = ready_app st\<rparr>"

definition late_store :: store where
  "late_store = store_default\<lparr>st_convs := [(''g@chatroom'',
     [demo_message 1700000010 1 ''wxid_a'', demo_message 1700000012 2 ''wxid_b'', demo_message 1700000011 3 ''wxid_a''])]\<rparr>"

lemma demo_serving: "serving (demo_served st) (client_new ''http://h/'' ''secret'') 0"
proof -
  have "client_new ''http://h/'' ''secret'' = \<lparr>cn_base_url = ''http://h'', cn_token = ''secret''\<rparr>" by code_simp
  moreover have "ap_token (ready_app st) = ''secret''" "bound_account (ap_accounts (ready_app st)) = Some 0"
    by (simp_all add: ready_app_def demo_app_def app_new_def bound_account_def hm_values_def)
  moreover have "is_ready (status_of (handle_at (ready_app st) 0))"
    by (simp add: ready_app_def, code_simp)
  moreover have "i64_ok 2000000000" by code_simp
  ultimately show ?thesis by (simp add: serving_def demo_served_def)
qed

text \<open>
  C3. Client and server agree on the pull protocol: draining a session through the library, over the server's handler, its
  parameter parsing and its access check, hands the caller every message after the starting point once, in order, as
  the server renders it, and the number it returns is their number. It needs cursors of nine digits or more: the server
  reads a cursor of eight digits as a date.
\<close>

theorem client_drains_conversation:
  assumes "serving sv c a" and "conversation_known (sv_store sv a) ident"
    and "\<forall>m\<in>set (conversation (sv_store sv a) ident). late_cursor (mr_create_time m)" and "is_none_or late_cursor since"
    and "length (conversation (sv_store sv a) ident) < n"
  shows "\<exists>rows. drain_session n (server_net sv) wire_readers c ident collect since 0 0 w []
        = (w, map (served_row sv a ident) rows, Some (Inr (length rows)))
    \<and> mset rows = mset (filter (\<lambda>m. is_none_or (\<lambda>s. s < mr_create_time m) since) (conversation (sv_store sv a) ident))
    \<and> sorted (map sort_pos rows)"
proof -
  let ?rows = "ascending (sv_store sv a) ident since None"
  have "length ?rows < n" using assms(5) by (simp add: ascending_def) (meson le_less_trans length_filter_le)
  then have "drain_session n (server_net sv) wire_readers c ident collect since 0 0 w []
      = (w, map (served_row sv a ident) ?rows, Some (Inr (length ?rows)))"
    using drain_rows [OF assms(1-4), of n 0 w "[]"] by simp
  moreover have "mset ?rows = mset (filter (\<lambda>m. is_none_or (\<lambda>s. s < mr_create_time m) since) (conversation (sv_store sv a) ident))"
    by (simp add: ascending_def)
  moreover have "sorted (map sort_pos ?rows)" by (simp add: ascending_def)
  ultimately show ?thesis by blast
qed

theorem client_drains_conversation_witness:
  "\<exists>rows. drain_session 4 (server_net (demo_served late_store)) wire_readers (client_new ''http://h/'' ''secret'') ''g@chatroom'' collect
      (Some 1700000010) 0 0 () [] = ((), map (served_row (demo_served late_store) 0 ''g@chatroom'') rows, Some (Inr 2))"
proof -
  let ?conv = "conversation (sv_store (demo_served late_store) 0) ''g@chatroom''"
  have c: "list_all (\<lambda>m. late_cursor (mr_create_time m)) ?conv" "length ?conv < 4"
    "conversation_known (sv_store (demo_served late_store) 0) ''g@chatroom''" "is_none_or late_cursor (Some 1700000010)"
    "length (filter (\<lambda>m. is_none_or (\<lambda>s. s < mr_create_time m) (Some 1700000010)) ?conv) = 2" by code_simp+
  have l: "\<forall>m\<in>set ?conv. late_cursor (mr_create_time m)" using c(1) by (simp add: list_all_iff)
  obtain rows where "drain_session 4 (server_net (demo_served late_store)) wire_readers (client_new ''http://h/'' ''secret'') ''g@chatroom''
      collect (Some 1700000010) 0 0 () [] = ((), map (served_row (demo_served late_store) 0 ''g@chatroom'') rows, Some (Inr (length rows)))"
    "mset rows = mset (filter (\<lambda>m. is_none_or (\<lambda>s. s < mr_create_time m) (Some 1700000010)) ?conv)"
    using client_drains_conversation [OF demo_serving c(3) l c(4,2), of "()"] by blast
  moreover from arg_cong [OF this(2), of size] c(5) have "length rows = 2" by (simp only: size_mset)
  ultimately show ?thesis by metis
qed

text \<open>
  C19. The list of sessions is complete: whatever the page size, the library returns exactly the sessions that match the keyword,
  each once and in the server's order, and it stops, with one request more than there are pages.
\<close>

theorem client_lists_every_session:
  assumes "serving sv c a" and "sessions_fit (sv_store sv a)"
    and "is_none_or (\<lambda>l. 1 \<le> l \<and> l \<le> 10000) per_page"
    and "length (st_sessions (sv_store sv a)) < n"
  shows "\<exists>ss. list_all_sessions n (server_net sv) wire_readers c per_page keyword w
        = (w, Some (Inr (map (session_native_of (sv_store sv a)) ss)))
    \<and> mset ss = mset (filter (session_matches (sv_lower sv) (sv_store sv a) (map_option (sv_lower sv) (opt_filter (\<lambda>s. s \<noteq> []) keyword)))
        (hm_values (st_sessions (sv_store sv a))))
    \<and> sorted (map (\<lambda>s. (- ss_last_timestamp s, ss_username s)) ss)"
proof -
  let ?L = "listed sv a keyword"
  have m: "mset ?L = mset (filter (session_matches (sv_lower sv) (sv_store sv a) (map_option (sv_lower sv) (opt_filter (\<lambda>s. s \<noteq> []) keyword)))
        (hm_values (st_sessions (sv_store sv a))))"
    by (simp add: listed_def ordered_sessions_def)
  have len: "length ?L \<le> length (st_sessions (sv_store sv a))" by (rule listed_rows)
  have names: "distinct (map ss_username ?L)"
    using session_names_distinct assms(2)
    by (auto simp: sessions_fit_def store_fits_def listed_def ordered_sessions_def distinct_map inj_on_def)
  have "list_all_sessions n (server_net sv) wire_readers c per_page keyword w = (w, Some (Inr (map (session_native_of (sv_store sv a)) ?L)))"
    using list_rows [OF assms(1-3) names, of 0 n w] len assms(2,4) by (simp add: list_all_sessions_def sessions_fit_def usize_ok_def)
  moreover have "sorted (map (\<lambda>s. (- ss_last_timestamp s, ss_username s)) ?L)" by (simp add: listed_def ordered_sessions_def)
  ultimately show ?thesis using m by blast
qed

definition two_sessions :: store where
  "two_sessions = store_default\<lparr>st_sessions := [
     (''wxid_a'', \<lparr>ss_username = ''wxid_a'', ss_display_name = [], ss_kind = Private, ss_last_timestamp = 5, ss_last_msg_type = None, ss_summary = None, ss_unread_count = 0, ss_message_count = 0\<rparr>),
     (''wxid_b'', \<lparr>ss_username = ''wxid_b'', ss_display_name = [], ss_kind = Private, ss_last_timestamp = 7, ss_last_msg_type = None, ss_summary = None, ss_unread_count = 0, ss_message_count = 0\<rparr>)]\<rparr>"

theorem client_lists_every_session_witness:
  "\<exists>ss. list_all_sessions 3 (server_net (demo_served two_sessions)) wire_readers (client_new ''http://h/'' ''secret'') (Some 1) None ()
      = ((), Some (Inr (map (session_native_of (sv_store (demo_served two_sessions) 0)) ss))) \<and> length ss = 2"
proof -
  let ?st = "sv_store (demo_served two_sessions) 0"
  have c: "sessions_fit ?st"
    "length (st_sessions ?st) < 3" "is_none_or (\<lambda>l. 1 \<le> l \<and> l \<le> 10000) (Some (1 :: nat))"
    "length (filter (session_matches (sv_lower (demo_served two_sessions)) ?st
        (map_option (sv_lower (demo_served two_sessions)) (opt_filter (\<lambda>s. s \<noteq> []) None))) (hm_values (st_sessions ?st))) = 2" by code_simp+
  obtain ss where "list_all_sessions 3 (server_net (demo_served two_sessions)) wire_readers (client_new ''http://h/'' ''secret'') (Some 1) None ()
      = ((), Some (Inr (map (session_native_of ?st) ss)))"
    "mset ss = mset (filter (session_matches (sv_lower (demo_served two_sessions)) ?st
        (map_option (sv_lower (demo_served two_sessions)) (opt_filter (\<lambda>s. s \<noteq> []) None))) (hm_values (st_sessions ?st)))"
    using client_lists_every_session [OF demo_serving c(1,3,2), of None "()"] by blast
  moreover from arg_cong [OF this(2), of size] c(4) have "length ss = 2" by (simp only: size_mset)
  ultimately show ?thesis by blast
qed

end
