(* ===== verification/Mcp.thy ===== *)
theory Mcp
  imports Client_Server
begin

text \<open>
  The tools for language models (\<open>src/mcp.rs\<close>): each asks the server through the client library, projects what comes back on
  the keys of a list, cuts it to a number of items and of characters, and says how to go on. Printing JSON and
  the clock are arguments; the frame of the protocol (the \<open>rmcp\<close> crate) is not code of the repository.
\<close>

section \<open>Results and arguments\<close>

datatype since_error = Bad_Days string | Bad_Hours string | Bad_Year string | Bad_Month string | Bad_Day string
  | No_Such_Date string | Bad_Since_Form string

datatype tool_text = Client_Text client_error | Since_Text since_error
datatype tool_result = Structured json | Tool_Failed tool_text
datatype mcp_error = Internal_Error client_error

definition sdk_outcome :: "client_error \<Rightarrow> mcp_error + tool_result" where
  "sdk_outcome e = (case e of Bad_Status status u \<Rightarrow> if status = 404 then Inr (Tool_Failed (Client_Text e)) else Inl (Internal_Error e)
     | _ \<Rightarrow> Inl (Internal_Error e))"

definition char_budget :: nat where "char_budget = 32 * 1024"
definition default_limit :: nat where "default_limit = 50"
definition max_limit :: nat where "max_limit = 200"

definition chatlab_message_keys :: "string list" where
  "chatlab_message_keys = [''platformMessageId'', ''timestamp'', ''sender'', ''accountName'', ''groupNickname'',
     ''type'', ''content'', ''replyToMessageId'', ''media'']"

definition native_message_keys :: "string list" where
  "native_message_keys = [''serverId'', ''createTime'', ''senderName'', ''senderUsername'', ''content'', ''rawContent'',
     ''isSend'', ''localType'', ''replyToMessageId'', ''media'']"

record mcp_server =
  mp_client :: client
  mp_base_url :: string

definition mcp_new :: "string \<Rightarrow> string \<Rightarrow> mcp_server" where
  "mcp_new base_url token = \<lparr>mp_client = client_new base_url token, mp_base_url = base_url\<rparr>"

record list_sessions_args =
  la_keyword :: "string option"
  la_limit :: "nat option"

record get_messages_args =
  ga_talker :: string
  ga_since :: "string option"
  ga_limit :: "nat option"
  ga_offset :: "nat option"

record raw_messages_args =
  ra_talker :: string
  ra_keyword :: "string option"
  ra_start :: "string option"
  ra_end :: "string option"
  ra_limit :: "nat option"
  ra_offset :: "nat option"

record search_args =
  sa_talker :: string
  sa_keyword :: string
  sa_limit :: "nat option"
  sa_offset :: "nat option"

record contacts_args =
  ka_keyword :: "string option"
  ka_limit :: "nat option"
  ka_offset :: "nat option"

record members_args =
  na_chatroom :: string
  na_include_message_counts :: "bool option"

section \<open>Pure parts\<close>

definition clamp_limit :: "nat option \<Rightarrow> nat" where
  "clamp_limit v = clamp_nat (opt_or v default_limit) 1 max_limit"

fun pick_entries :: "json \<Rightarrow> string list \<Rightarrow> (string \<times> json) list" where
  "pick_entries v [] = []"
| "pick_entries v (k # ks) = (let x = json_get v k in
     if x = Null then pick_entries v ks else (k, x) # pick_entries v ks)"

definition pick :: "json \<Rightarrow> string list \<Rightarrow> json" where
  "pick v keys = Object (pick_entries v keys)"

definition project_list :: "json list \<Rightarrow> string list \<Rightarrow> json list" where
  "project_list xs keys = map (\<lambda>v. pick v keys) xs"

record projected =
  pj_items :: "json list"
  pj_truncated :: bool

fun project_loop :: "(json \<Rightarrow> string) \<Rightarrow> nat \<Rightarrow> json list \<Rightarrow> nat \<Rightarrow> json list \<Rightarrow> json list" where
  "project_loop show_json budget [] used out = out"
| "project_loop show_json budget (x # xs) used out = (let n = length (utf8_chars (show_json x)) in
     if out \<noteq> [] \<and> used + n > budget then out else project_loop show_json budget xs (used + n) (out @ [x]))"

definition project_messages :: "(json \<Rightarrow> string) \<Rightarrow> json list \<Rightarrow> nat \<Rightarrow> nat \<Rightarrow> projected" where
  "project_messages show_json xs max_items budget = (let out = project_loop show_json budget (take max_items xs) 0 [] in
     \<lparr>pj_items = out, pj_truncated = length out < length xs\<rparr>)"

text \<open>The arithmetic of a release build wraps.\<close>

definition wrap_i64 :: "int \<Rightarrow> int" where
  "wrap_i64 x = (x + 2 ^ 63) mod 2 ^ 64 - 2 ^ 63"

definition parse_since :: "(nat \<Rightarrow> nat \<Rightarrow> nat \<Rightarrow> int option) \<Rightarrow> string \<Rightarrow> int \<Rightarrow> since_error + int" where
  "parse_since midnight spec now = (let s = trim spec in
     case strip_suffix ''d'' s of
       Some rest \<Rightarrow> (case parse_i64 rest of None \<Rightarrow> Inl (Bad_Days spec) | Some n \<Rightarrow> Inr (wrap_i64 (now - wrap_i64 (n * 86400))))
     | None \<Rightarrow> (case strip_suffix ''h'' s of
         Some rest \<Rightarrow> (case parse_i64 rest of None \<Rightarrow> Inl (Bad_Hours spec) | Some n \<Rightarrow> Inr (wrap_i64 (now - wrap_i64 (n * 3600))))
       | None \<Rightarrow> if length s = 8 \<and> list_all is_ascii_digit s
         then (case parse_dec (slice 0 4 s) of None \<Rightarrow> Inl (Bad_Year spec) | Some y \<Rightarrow>
              (case parse_dec (slice 4 6 s) of None \<Rightarrow> Inl (Bad_Month spec) | Some m \<Rightarrow>
              (case parse_dec (slice 6 8 s) of None \<Rightarrow> Inl (Bad_Day spec) | Some d \<Rightarrow>
              (case midnight y m d of None \<Rightarrow> Inl (No_Such_Date spec) | Some t \<Rightarrow> Inr t))))
         else (case parse_i64 s of None \<Rightarrow> Inl (Bad_Since_Form spec) | Some t \<Rightarrow> Inr t)))"

definition since_of :: "(nat \<Rightarrow> nat \<Rightarrow> nat \<Rightarrow> int option) \<Rightarrow> int \<Rightarrow> string option \<Rightarrow> since_error + int option" where
  "since_of midnight now spec = (case spec of None \<Rightarrow> Inr None | Some s \<Rightarrow> map_sum id Some (parse_since midnight s now))"

section \<open>Messages as JSON\<close>

text \<open>The serialised form of the generated types: a key without a value is left out.\<close>

definition media_brief_json :: "media_brief \<Rightarrow> json" where
  "media_brief_json b = Object ((''fileName'', String (bf_file_name b)) # opt_entry ''md5'' (map_option String (bf_md5 b))
     @ [(''type'', String (bf_type b))])"

definition chatlab_message_json :: "chatlab_message \<Rightarrow> json" where
  "chatlab_message_json m = Object ([(''accountName'', String (cg_account_name m)), (''content'', String (cg_content m)),
     (''groupNickname'', String (cg_group_nickname m))] @ opt_entry ''media'' (map_option media_brief_json (cg_media m))
     @ [(''platformMessageId'', String (cg_platform_message_id m))]
     @ opt_entry ''replyToMessageId'' (map_option String (cg_reply_to_message_id m))
     @ [(''sender'', String (cg_sender m)), (''timestamp'', int_json (cg_timestamp m)), (''type'', int_json (cg_type m))])"

definition pull_message_json :: "pull_message \<Rightarrow> json" where
  "pull_message_json m = Object ([(''accountName'', String (cg_account_name m)), (''content'', String (cg_content m)),
     (''groupNickname'', String (cg_group_nickname m))] @ opt_entry ''media'' (map_option media_brief_json (cg_media m))
     @ opt_entry ''mediaId'' (map_option String (pu_media_id m))
     @ [(''platformMessageId'', String (cg_platform_message_id m))]
     @ opt_entry ''replyToMessageId'' (map_option String (cg_reply_to_message_id m))
     @ [(''sender'', String (cg_sender m)), (''timestamp'', int_json (cg_timestamp m)), (''type'', int_json (cg_type m))])"

definition media_object_json :: "media_object \<Rightarrow> json" where
  "media_object_json m = Object (opt_entry ''exported'' (map_option Bool (mo_exported m)) @ [(''fileName'', String (mo_file_name m))]
     @ opt_entry ''localPath'' (map_option String (mo_local_path m)) @ opt_entry ''md5'' (map_option String (mo_md5 m))
     @ opt_entry ''mediaId'' (map_option String (mo_media_id m)) @ [(''type'', String (mo_type m))]
     @ opt_entry ''url'' (map_option String (mo_url m)))"

definition quote_json :: "quote_dto \<Rightarrow> json" where
  "quote_json q = Object [(''accountName'', String (qd_account_name q)), (''content'', String (qd_content q)),
     (''platformMessageId'', String (qd_platform_message_id q)), (''sender'', String (qd_sender q)), (''type'', int_json (qd_type q))]"

definition native_message_json :: "message_native \<Rightarrow> json" where
  "native_message_json m = Object (opt_entry ''appmsgSubtype'' (map_option int_json (mn_appmsg_subtype m))
     @ [(''baseType'', int_json (mn_base_type m)), (''content'', String (mn_content m)), (''createTime'', int_json (mn_create_time m)),
        (''isSend'', int_json (mn_is_send m)), (''localId'', int_json (mn_local_id m)), (''localType'', int_json (mn_local_type m))]
     @ opt_entry ''media'' (map_option media_object_json (mn_media m)) @ [(''parsedContent'', String (mn_parsed_content m))]
     @ opt_entry ''quote'' (map_option quote_json (mn_quote m)) @ [(''rawContent'', String (mn_raw_content m))]
     @ opt_entry ''replyToMessageId'' (map_option String (mn_reply_to_message_id m))
     @ [(''senderName'', String (mn_sender_name m)), (''senderUsername'', String (mn_sender_username m)),
        (''serverId'', String (mn_server_id m)), (''sortSeq'', int_json (mn_sort_seq m))])"

section \<open>The tools\<close>

definition list_sessions :: "(json \<Rightarrow> string) \<Rightarrow> nat \<Rightarrow> ('w, 'b) net \<Rightarrow> 'b readers \<Rightarrow> mcp_server \<Rightarrow> list_sessions_args \<Rightarrow> 'w
    \<Rightarrow> 'w \<times> (mcp_error + tool_result) option" where
  "list_sessions show_json n send rd mcp a w = (let limit = clamp_limit (la_limit a) in
     case list_all_sessions n send rd (mp_client mcp) (Some 10000) (la_keyword a) w of
       (w', None) \<Rightarrow> (w', None)
     | (w', Some (Inl e)) \<Rightarrow> (w', Some (sdk_outcome e))
     | (w', Some (Inr sessions)) \<Rightarrow> (let proj = project_messages show_json (map (\<lambda>s. Object
           [(''username'', String (sn_username s)), (''displayName'', String (sn_display_name s)),
            (''sessionType'', String (sn_session_type s)), (''lastTimestamp'', int_json (sn_last_timestamp s)),
            (''messageCount'', nat_json (sn_message_count s)), (''unreadCount'', int_json (sn_unread_count s))]) sessions) limit char_budget
         in (w', Some (Inr (Structured (Object [(''count'', nat_json (length (pj_items proj))),
              (''truncated'', Bool (pj_truncated proj)), (''sessions'', Array (pj_items proj))]))))))"

text \<open>The hints of a page that was cut, with and without a lower bound to give back, and the note of a media address.\<close>

definition hint_with_since :: string where
  "hint_with_since =
    utf8 [230, 156, 172, 233, 161, 181, 232, 182, 133, 232, 191, 135, 229, 173, 151, 231, 172, 166, 233, 162, 132, 231, 174, 151, 239,
    188, 140, 229, 183, 178, 229, 176, 145, 231, 187, 153, 232, 139, 165, 229, 185, 178, 230, 157, 161, 239, 188, 154, 231, 148, 168,
    32, 110, 101, 120, 116, 79, 102, 102, 115, 101, 116, 32, 228, 184, 148, 32, 115, 105, 110, 99, 101, 32, 228, 188, 160, 229, 147,
    141, 229, 186, 148, 233, 135, 140, 231, 154, 132, 32, 115, 105, 110, 99, 101, 82, 101, 115, 111, 108, 118, 101, 100, 239, 188,
    136, 231, 187, 157, 229, 175, 185, 228, 184, 139, 231, 149, 140, 239, 188, 140, 228, 184, 141, 232, 166, 129, 233, 135, 141, 229,
    143, 145, 231, 155, 184, 229, 175, 185, 228, 184, 178, 226, 128, 148, 226, 128, 148, 228, 184, 139, 228, 184, 128, 232, 189, 174,
    32, 110, 111, 119, 32, 229, 183, 178, 229, 137, 141, 231, 167, 187, 228, 188, 154, 230, 140, 170, 231, 170, 151, 239, 188, 137,
    231, 187, 173, 230, 139, 137, 239, 188, 155, 228, 185, 159, 229, 143, 175, 231, 148, 168, 230, 155, 180, 229, 176, 143, 231, 154,
    132, 32, 108, 105, 109, 105, 116, 32, 233, 135, 141, 229, 143, 150, 230, 156, 172, 233, 161, 181, 239, 188, 140, 230, 173, 164,
    230, 151, 182, 230, 140, 137, 32, 112, 108, 97, 116, 102, 111, 114, 109, 77, 101, 115, 115, 97, 103, 101, 73, 100, 32, 229, 142,
    187, 233, 135, 141]"

definition hint_plain :: string where
  "hint_plain =
    utf8 [230, 156, 172, 233, 161, 181, 232, 182, 133, 232, 191, 135, 229, 173, 151, 231, 172, 166, 233, 162, 132, 231, 174, 151, 239,
    188, 140, 229, 183, 178, 229, 176, 145, 231, 187, 153, 232, 139, 165, 229, 185, 178, 230, 157, 161, 239, 188, 154, 231, 148, 168,
    32, 110, 101, 120, 116, 79, 102, 102, 115, 101, 116, 32, 231, 187, 173, 230, 139, 137, 239, 188, 136, 230, 156, 172, 230, 172,
    161, 232, 176, 131, 231, 148, 168, 230, 156, 170, 230, 143, 144, 228, 190, 155, 32, 115, 105, 110, 99, 101, 239, 188, 140, 230,
    151, 160, 231, 187, 157, 229, 175, 185, 228, 184, 139, 231, 149, 140, 229, 143, 175, 229, 155, 158, 229, 161, 171, 239, 188, 137,
    239, 188, 155, 228, 185, 159, 229, 143, 175, 231, 148, 168, 230, 155, 180, 229, 176, 143, 231, 154, 132, 32, 108, 105, 109, 105,
    116, 32, 233, 135, 141, 229, 143, 150, 230, 156, 172, 233, 161, 181, 239, 188, 140, 230, 173, 164, 230, 151, 182, 230, 140, 137,
    32, 112, 108, 97, 116, 102, 111, 114, 109, 77, 101, 115, 115, 97, 103, 101, 73, 100, 32, 229, 142, 187, 233, 135, 141]"

definition media_note :: string where
  "media_note =
    utf8 [229, 173, 151, 232, 138, 130, 231, 187, 143, 32, 72, 84, 84, 80, 32, 228, 187, 165, 32, 66, 101, 97, 114, 101, 114, 32, 116,
    111, 107, 101, 110, 32, 230, 143, 144, 228, 190, 155, 239, 188, 155, 77, 67, 80, 32, 232, 191, 155, 231, 168, 139, 229, 136, 187,
    230, 132, 143, 228, 184, 141, 230, 138, 138, 230, 150, 135, 228, 187, 182, 229, 173, 151, 232, 138, 130, 228, 186, 164, 231, 187,
    153, 230, 168, 161, 229, 158, 139, 227, 128, 130]"

definition cut_hint :: "bool \<Rightarrow> string option \<Rightarrow> json" where
  "cut_hint is_cut resolved = (if is_cut then (if resolved \<noteq> None then String hint_with_since else String hint_plain) else Null)"

definition messages_reply :: "(json \<Rightarrow> string) \<Rightarrow> get_messages_args \<Rightarrow> nat \<Rightarrow> int option \<Rightarrow> pull_envelope \<Rightarrow> json" where
  "messages_reply show_json a limit since page = (let
       raw = map pull_message_json (pe_messages page);
       proj = project_messages show_json (project_list raw chatlab_message_keys) limit char_budget;
       is_cut = pj_truncated proj;
       start = opt_or (ga_offset a) 0;
       resolved = map_option int_to_dec since
     in Object [(''talker'', String (ga_talker a)), (''count'', nat_json (length (pj_items proj))),
          (''pageSize'', nat_json (length raw)), (''truncated'', Bool is_cut),
          (''hasMore'', Bool (py_has_more (pe_sync page) \<or> is_cut)),
          (''nextSince'', if is_cut then Null else int_json (py_next_since (pe_sync page))),
          (''nextOffset'', if is_cut then nat_json (start + length (pj_items proj)) else nat_json (py_next_offset (pe_sync page))),
          (''sinceResolved'', opt_json resolved), (''hint'', cut_hint is_cut resolved), (''messages'', Array (pj_items proj))])"

definition get_messages :: "(json \<Rightarrow> string) \<Rightarrow> (nat \<Rightarrow> nat \<Rightarrow> nat \<Rightarrow> int option) \<Rightarrow> int \<Rightarrow> ('w, 'b) net \<Rightarrow> 'b readers \<Rightarrow> mcp_server
    \<Rightarrow> get_messages_args \<Rightarrow> 'w \<Rightarrow> 'w \<times> (mcp_error + tool_result)" where
  "get_messages show_json midnight now send rd mcp a w = (let limit = clamp_limit (ga_limit a) in
     case since_of midnight now (ga_since a) of Inl e \<Rightarrow> (w, Inr (Tool_Failed (Since_Text e))) | Inr since \<Rightarrow>
       (case pull_one send rd (mp_client mcp) (ga_talker a) since (opt_or (ga_offset a) 0) (Some limit) w of
          (w', Inl e) \<Rightarrow> (w', sdk_outcome e)
        | (w', Inr page) \<Rightarrow> (w', Inr (Structured (messages_reply show_json a limit since page)))))"

definition raw_reply :: "(json \<Rightarrow> string) \<Rightarrow> raw_messages_args \<Rightarrow> nat \<Rightarrow> messages_native \<Rightarrow> json" where
  "raw_reply show_json a limit page = (let
       proj = project_messages show_json (project_list (map native_message_json (ml_messages page)) native_message_keys) limit char_budget
     in Object [(''talker'', String (ra_talker a)), (''count'', nat_json (length (pj_items proj))),
          (''truncated'', Bool (pj_truncated proj)), (''hasMore'', Bool (ml_has_more page \<or> pj_truncated proj)),
          (''nextOffset'', nat_json (opt_or (ra_offset a) 0 + length (pj_items proj))), (''messages'', Array (pj_items proj))])"

definition get_messages_raw :: "(json \<Rightarrow> string) \<Rightarrow> ('w, 'b) net \<Rightarrow> 'b readers \<Rightarrow> mcp_server \<Rightarrow> raw_messages_args \<Rightarrow> 'w
    \<Rightarrow> 'w \<times> (mcp_error + tool_result)" where
  "get_messages_raw show_json send rd mcp a w = (let limit = clamp_limit (ra_limit a);
       q = (query_new (ra_talker a))\<lparr>cq_keyword := ra_keyword a, cq_start := ra_start a, cq_end := ra_end a,
         cq_limit := Some limit, cq_offset := ra_offset a\<rparr>
     in case Client.list_messages send rd (mp_client mcp) q w of
          (w', Inl e) \<Rightarrow> (w', sdk_outcome e)
        | (w', Inr page) \<Rightarrow> (w', Inr (Structured (raw_reply show_json a limit page))))"

definition search_reply :: "(json \<Rightarrow> string) \<Rightarrow> search_args \<Rightarrow> nat \<Rightarrow> chatlab_messages \<Rightarrow> json" where
  "search_reply show_json a limit page = (let
       proj = project_messages show_json (project_list (map chatlab_message_json (cs_messages page)) chatlab_message_keys) limit char_budget
     in Object [(''talker'', String (sa_talker a)), (''keyword'', String (sa_keyword a)), (''count'', nat_json (length (pj_items proj))),
          (''truncated'', Bool (pj_truncated proj)), (''hasMore'', Bool (pb_has_more (cs_page page) \<or> pj_truncated proj)),
          (''nextOffset'', nat_json (opt_or (sa_offset a) 0 + length (pj_items proj))), (''messages'', Array (pj_items proj))])"

definition search_messages :: "(json \<Rightarrow> string) \<Rightarrow> ('w, 'b) net \<Rightarrow> 'b readers \<Rightarrow> mcp_server \<Rightarrow> search_args \<Rightarrow> 'w
    \<Rightarrow> 'w \<times> (mcp_error + tool_result)" where
  "search_messages show_json send rd mcp a w = (let limit = clamp_limit (sa_limit a);
       q = (query_new (sa_talker a))\<lparr>cq_keyword := Some (sa_keyword a), cq_limit := Some limit,
         cq_offset := Some (opt_or (sa_offset a) 0)\<rparr>
     in case chatlab_page send rd (mp_client mcp) q w of
          (w', Inl e) \<Rightarrow> (w', sdk_outcome e)
        | (w', Inr page) \<Rightarrow> (w', Inr (Structured (search_reply show_json a limit page))))"

definition get_contacts :: "(json \<Rightarrow> string) \<Rightarrow> ('w, 'b) net \<Rightarrow> 'b readers \<Rightarrow> mcp_server \<Rightarrow> contacts_args \<Rightarrow> 'w
    \<Rightarrow> 'w \<times> (mcp_error + tool_result)" where
  "get_contacts show_json send rd mcp a w = (let limit = clamp_limit (ka_limit a); start = opt_or (ka_offset a) 0 in
     case contacts_list send rd (mp_client mcp) \<lparr>kq_limit = Some limit, kq_offset = ka_offset a, kq_keyword = ka_keyword a\<rparr> w of
       (w', Inl e) \<Rightarrow> (w', sdk_outcome e)
     | (w', Inr page) \<Rightarrow> (let proj = project_messages show_json (map (\<lambda>c. Object
           [(''username'', String (cd_username c)), (''displayName'', String (cd_display_name c)), (''remark'', String (cd_remark c)),
            (''nickname'', String (cd_nickname c)), (''alias'', String (cd_alias c))]) (cl_contacts page)) limit char_budget
         in (w', Inr (Structured (Object [(''count'', nat_json (length (pj_items proj))), (''truncated'', Bool (pj_truncated proj)),
              (''hasMore'', Bool (cl_has_more page \<or> pj_truncated proj)),
              (''nextOffset'', nat_json (start + length (pj_items proj))), (''contacts'', Array (pj_items proj))])))))"

definition get_media :: "mcp_server \<Rightarrow> string \<Rightarrow> mcp_error + tool_result" where
  "get_media mcp handle = Inr (Structured (Object [(''handle'', String handle), (''url'',
     String (trim_end_matches (\<lambda>c. c = CHR ''/'') (mp_base_url mcp) @ ''/api/v1/media/'' @ handle)), (''note'', String media_note)]))"

definition group_members_tool :: "(json \<Rightarrow> string) \<Rightarrow> ('w, 'b) net \<Rightarrow> 'b readers \<Rightarrow> mcp_server \<Rightarrow> members_args \<Rightarrow> 'w
    \<Rightarrow> 'w \<times> (mcp_error + tool_result)" where
  "group_members_tool show_json send rd mcp a w =
     (case group_members_list send rd (mp_client mcp) (na_chatroom a) (opt_or (na_include_message_counts a) False) w of
       (w', Inl e) \<Rightarrow> (w', sdk_outcome e)
     | (w', Inr page) \<Rightarrow> (let proj = project_messages show_json (map (\<lambda>m. Object
           [(''wxid'', String (gm_wxid m)), (''displayName'', String (gm_display_name m)), (''groupNickname'', String (gm_group_nickname m)),
            (''remark'', String (gm_remark m)), (''alias'', String (gm_alias m)), (''isOwner'', Bool (gm_is_owner m)),
            (''isFriend'', Bool (gm_is_friend m)), (''messageCount'', int_json (gm_message_count m))]) (gl_members page)) max_limit char_budget
         in (w', Inr (Structured (Object [(''chatroomId'', String (gl_chatroom_id page)), (''count'', nat_json (length (pj_items proj))),
              (''total'', nat_json (gl_count page)), (''truncated'', Bool (pj_truncated proj)), (''members'', Array (pj_items proj))])))))"

definition sync_now_tool :: "('w, 'b) net \<Rightarrow> 'b readers \<Rightarrow> mcp_server \<Rightarrow> 'w \<Rightarrow> 'w \<times> (mcp_error + tool_result)" where
  "sync_now_tool send rd mcp w = (case Client.sync_now send rd (mp_client mcp) w of
       (w', Inl e) \<Rightarrow> (w', sdk_outcome e)
     | (w', Inr r) \<Rightarrow> (w', Inr (Structured (Object [(''success'', Bool (sr_success r)),
         (''newMessages'', nat_json (sr_new_messages r)), (''revokeMessages'', nat_json (sr_revoke_messages r))]))))"

section \<open>The cut\<close>

lemma project_loop_prefix: "\<exists>k. project_loop show_json budget xs used out = out @ take k xs \<and> k \<le> length xs
    \<and> (out = [] \<and> xs \<noteq> [] \<longrightarrow> 0 < k)"
proof (induction xs arbitrary: used out)
  case (Cons x xs)
  let ?n = "length (utf8_chars (show_json x))"
  show ?case
  proof (cases "out \<noteq> [] \<and> used + ?n > budget")
    case True
    then show ?thesis by (auto simp: Let_def intro!: exI [of _ 0])
  next
    case False
    obtain k where "project_loop show_json budget xs (used + ?n) (out @ [x]) = (out @ [x]) @ take k xs" "k \<le> length xs"
      using Cons.IH by blast
    then show ?thesis using False by (auto simp: Let_def intro!: exI [of _ "Suc k"])
  qed
qed simp

text \<open>What is given is a first part of the list, not empty unless the list is; \<open>truncated\<close> says whether it is less than all.\<close>

lemma project_messages_prefix:
  assumes "0 < max_items"
  obtains k where "pj_items (project_messages show_json xs max_items budget) = take k xs" and "k \<le> length xs"
    and "pj_truncated (project_messages show_json xs max_items budget) \<longleftrightarrow> k < length xs" and "xs \<noteq> [] \<longrightarrow> 0 < k"
proof -
  let ?xs = "take max_items xs"
  obtain k where k: "project_loop show_json budget ?xs 0 [] = [] @ take k ?xs \<and> k \<le> length ?xs
      \<and> (([] :: json list) = [] \<and> ?xs \<noteq> [] \<longrightarrow> 0 < k)"
    using project_loop_prefix by blast
  have kl: "k \<le> length ?xs" using k by (elim conjE)
  have "take k ?xs = take k xs" using kl by (simp add: min_absorb1)
  with k have items: "pj_items (project_messages show_json xs max_items budget) = take k xs"
    by (simp add: project_messages_def Let_def)
  have le: "k \<le> length xs" using kl by simp
  have "pj_truncated (project_messages show_json xs max_items budget) \<longleftrightarrow> k < length xs"
    using items le by (auto simp: project_messages_def Let_def min_def)
  moreover have "xs \<noteq> [] \<longrightarrow> 0 < k" using k assms by simp
  ultimately show ?thesis using that [OF items le] by blast
qed

lemma clamp_limit_range: "1 \<le> clamp_limit v \<and> clamp_limit v \<le> 200"
  using clamp_nat_range [of 1 max_limit] by (simp add: clamp_limit_def max_limit_def)

section \<open>An agent that goes on as it is told\<close>

text \<open>
  What the reply tells the caller to do: after a cut, the same lower bound in its absolute form and the next offset; with more
  pages, both cursors. A number is handed back as its text, as the tool's parameter is one.
\<close>

definition json_text :: "json \<Rightarrow> string option" where
  "json_text v = (case v of String s \<Rightarrow> Some s | Number t \<Rightarrow> Some t | _ \<Rightarrow> None)"

definition json_count :: "json \<Rightarrow> nat option" where
  "json_count v = (case v of Number t \<Rightarrow> parse_usize t | _ \<Rightarrow> None)"

definition next_call :: "get_messages_args \<Rightarrow> json \<Rightarrow> get_messages_args option" where
  "next_call a v = (if json_get v ''truncated'' = Bool True
     then Some (a\<lparr>ga_since := json_text (json_get v ''sinceResolved''), ga_offset := json_count (json_get v ''nextOffset'')\<rparr>)
     else if json_get v ''hasMore'' = Bool True
     then Some (a\<lparr>ga_since := json_text (json_get v ''nextSince''), ga_offset := json_count (json_get v ''nextOffset'')\<rparr>)
     else None)"

text \<open>\<open>nows\<close> is the clock of the tool at each call; \<open>None\<close> when a call fails or the calls are used up.\<close>

fun agent_pull :: "nat \<Rightarrow> (json \<Rightarrow> string) \<Rightarrow> (nat \<Rightarrow> nat \<Rightarrow> nat \<Rightarrow> int option) \<Rightarrow> (nat \<Rightarrow> int) \<Rightarrow> ('w, 'b) net \<Rightarrow> 'b readers \<Rightarrow> mcp_server
    \<Rightarrow> get_messages_args \<Rightarrow> 'w \<Rightarrow> json list option" where
  "agent_pull 0 show_json midnight nows send rd mcp a w = None"
| "agent_pull (Suc n) show_json midnight nows send rd mcp a w =
     (case get_messages show_json midnight (nows n) send rd mcp a w of
        (w', Inr (Structured v)) \<Rightarrow> (let ms = opt_or (as_array (json_get v ''messages'')) [] in
          case next_call a v of None \<Rightarrow> Some ms
            | Some a' \<Rightarrow> map_option (\<lambda>rest. ms @ rest) (agent_pull n show_json midnight nows send rd mcp a' w'))
      | _ \<Rightarrow> None)"

lemma parse_since_cursor:
  assumes "late_cursor i"
  shows "parse_since midnight (int_to_dec i) now = Inr i"
proof -
  have i: "10 ^ 8 \<le> i" "i64_ok i" using assms by (simp_all add: late_cursor_def)
  then have digits: "list_all is_ascii_digit (int_to_dec i)" using nat_to_dec_digits [of "nat i"] by (simp add: int_to_dec_def)
  have no: "strip_suffix [x] (int_to_dec i) = None" if "\<not> is_ascii_digit x" for x
  proof (cases "strip_suffix [x] (int_to_dec i)")
    case (Some r)
    then have "int_to_dec i = r @ [x]" by (simp only: strip_suffix_Some)
    with digits that show ?thesis by simp
  qed
  have "\<not> is_ascii_digit CHR ''d''" "\<not> is_ascii_digit CHR ''h''" by code_simp+
  note no [OF this(1)] no [OF this(2)]
  moreover have "10 ^ 8 \<le> nat i" using i(1) by (simp add: le_nat_iff)
  then have "8 < length (nat_to_dec (nat i))" by (rule length_nat_to_dec)
  then have "length (int_to_dec i) \<noteq> 8" using i(1) by (simp add: int_to_dec_def)
  moreover have "trim (int_to_dec i) = int_to_dec i" using i(1) by (intro trim_int_to_dec) simp
  ultimately show ?thesis using parse_i64_to_dec [OF i(2)] by (simp add: parse_since_def Let_def)
qed

definition agent_item :: "('c, 'ch) served \<Rightarrow> nat \<Rightarrow> string \<Rightarrow> message_record \<Rightarrow> json" where
  "agent_item sv a talker m = pick (pull_message_json (served_row sv a talker m)) chatlab_message_keys"

text \<open>What one reply says, and what the caller makes of it.\<close>

definition reply_cut :: "(json \<Rightarrow> string) \<Rightarrow> nat \<Rightarrow> pull_envelope \<Rightarrow> projected" where
  "reply_cut show_json limit page = project_messages show_json
     (project_list (map pull_message_json (pe_messages page)) chatlab_message_keys) limit char_budget"

lemma messages_reply_items:
  "as_array (json_get (messages_reply show_json a limit since page) ''messages'') = Some (pj_items (reply_cut show_json limit page))"
  by (simp add: messages_reply_def reply_cut_def Let_def json_get_def as_array_def)

lemma messages_reply_next:
  "next_call a (messages_reply show_json a limit since page) = (if pj_truncated (reply_cut show_json limit page)
      then Some (a\<lparr>ga_since := map_option int_to_dec since,
        ga_offset := parse_usize (nat_to_dec (opt_or (ga_offset a) 0 + length (pj_items (reply_cut show_json limit page))))\<rparr>)
    else if py_has_more (pe_sync page)
      then Some (a\<lparr>ga_since := Some (int_to_dec (py_next_since (pe_sync page))),
          ga_offset := parse_usize (nat_to_dec (py_next_offset (pe_sync page)))\<rparr>)
    else None)"
  by (simp add: messages_reply_def reply_cut_def Let_def json_get_def next_call_def json_text_def json_count_def opt_json_def
      int_json_def nat_json_def split: option.split)

lemma parse_usize_dec: "usize_ok n \<Longrightarrow> parse_usize (nat_to_dec n) = Some n"
  by (simp add: parse_usize_def parse_unsigned_to_dec usize_ok_def)

text \<open>From any offset, the rest after a page is what its cursor selects.\<close>

lemma page_cut_at:
  assumes page: "take_page limit 0 None (drop off rows) = take k (drop off rows)" and k: "0 < k" "off + k < length rows"
    and sorted: "sorted (map mr_create_time rows)"
  shows "filter (\<lambda>m. mr_create_time (last (take k (drop off rows))) < mr_create_time m) rows = drop (off + k) rows"
proof -
  let ?t = "mr_create_time (last (take k (drop off rows)))"
  have last: "last (take k (drop off rows)) = rows ! (off + k - 1)"
    using k by (subst last_conv_nth) (auto simp: nth_append)
  have "filter (\<lambda>m. ?t < mr_create_time m) (drop off rows) = drop k (drop off rows)"
    using sorted k by (intro page_cut [OF _ _ _ page]) (auto simp: sorted_wrt_drop simp flip: drop_map)
  moreover have "filter (\<lambda>m. ?t < mr_create_time m) (take off rows) = []"
  proof -
    have "mr_create_time m \<le> ?t" if "m \<in> set (take off rows)" for m
    proof -
      from that obtain i where "i < off" "m = rows ! i" using k by (auto simp: in_set_conv_nth)
      then show ?thesis using sorted_split_at [OF sorted, of i "off + k - 1"] k last by simp
    qed
    then show ?thesis by (fastforce simp: filter_empty_conv)
  qed
  ultimately have "filter (\<lambda>m. ?t < mr_create_time m) (take off rows @ drop off rows) = drop k (drop off rows)"
    unfolding filter_append by simp
  then show ?thesis by (simp add: add.commute)
qed

lemma get_messages_served:
  assumes sv: "serving sv (mp_client mcp) ac" and known: "conversation_known (sv_store sv ac) (ga_talker a)"
    and late: "\<forall>m\<in>set (conversation (sv_store sv ac) (ga_talker a)). late_cursor (mr_create_time m)"
    and since: "since_of midnight now (ga_since a) = Inr since" "is_none_or late_cursor since" and off: "usize_ok (opt_or (ga_offset a) 0)"
  obtains page where "get_messages show_json midnight now (server_net sv) wire_readers mcp a w
      = (w, Inr (Structured (messages_reply show_json a (clamp_limit (ga_limit a)) since page)))"
    and "pe_messages page = map (served_row sv ac (ga_talker a))
      (fst (pull_page (sv_store sv ac) (ga_talker a) (sv_now sv) since None (clamp_limit (ga_limit a)) (opt_or (ga_offset a) 0)))"
    and "pe_sync page = snd (pull_page (sv_store sv ac) (ga_talker a) (sv_now sv) since None (clamp_limit (ga_limit a)) (opt_or (ga_offset a) 0))"
proof -
  have l: "is_none_or (\<lambda>l. 1 \<le> l \<and> l \<le> 5000) (Some (clamp_limit (ga_limit a)))" using clamp_limit_range [of "ga_limit a"] by simp
  from pull_one_served [OF sv known late since(2) off l, of w] obtain e where
    "pull_one (server_net sv) wire_readers (mp_client mcp) (ga_talker a) since (opt_or (ga_offset a) 0) (Some (clamp_limit (ga_limit a))) w = (w, Inr e)"
    "pe_messages e = map (served_row sv ac (ga_talker a))
      (fst (pull_page (sv_store sv ac) (ga_talker a) (sv_now sv) since None (clamp_limit (ga_limit a)) (opt_or (ga_offset a) 0)))"
    "pe_sync e = snd (pull_page (sv_store sv ac) (ga_talker a) (sv_now sv) since None (clamp_limit (ga_limit a)) (opt_or (ga_offset a) 0))"
    unfolding opt_or_simps by (elim exE conjE)
  then show ?thesis using that [of e] since(1) by (simp add: get_messages_def Let_def)
qed

lemma agent_rows:
  assumes sv: "serving sv (mp_client mcp) ac"
    and known: "conversation_known (sv_store sv ac) talker"
    and late: "\<forall>m\<in>set (conversation (sv_store sv ac) talker). late_cursor (mr_create_time m)"
    and size: "usize_ok (length (conversation (sv_store sv ac) talker))"
  shows "ga_talker a = talker \<Longrightarrow> since_of midnight (nows (n - 1)) (ga_since a) = Inr since \<Longrightarrow> is_none_or late_cursor since
    \<Longrightarrow> opt_or (ga_offset a) 0 \<le> length (ascending (sv_store sv ac) talker since None)
    \<Longrightarrow> length (ascending (sv_store sv ac) talker since None) - opt_or (ga_offset a) 0 < n
    \<Longrightarrow> agent_pull n show_json midnight nows (server_net sv) wire_readers mcp a w
      = Some (map (agent_item sv ac talker) (drop (opt_or (ga_offset a) 0) (ascending (sv_store sv ac) talker since None)))"
proof (induction n arbitrary: a since)
  case (Suc n)
  let ?st = "sv_store sv ac" and ?off = "opt_or (ga_offset a) 0" and ?limit = "clamp_limit (ga_limit a)"
  let ?rows = "ascending ?st talker since None"
  let ?pg = "take_page ?limit 0 None (drop ?off ?rows)"
  let ?L = "length ?pg"
  have "length ?rows \<le> length (conversation ?st talker)" by (simp add: ascending_def)
  then have ok: "usize_ok i" if "i \<le> length ?rows" for i using that size by (simp add: usize_ok_def)
  have pfx: "?pg = take ?L (drop ?off ?rows)" by (rule take_page_length)
  have start: "min ?off (length ?rows) = ?off" using Suc.prems(4) by simp
  obtain page where g: "get_messages show_json midnight (nows n) (server_net sv) wire_readers mcp a w
      = (w, Inr (Structured (messages_reply show_json a ?limit since page)))"
      "pe_messages page = map (served_row sv ac talker) ?pg"
      "pe_sync page = snd (pull_page ?st talker (sv_now sv) since None ?limit ?off)"
    using get_messages_served [OF sv, of a midnight "nows n" since show_json w] known late Suc.prems(1-3) ok [OF Suc.prems(4)]
    by (auto simp: pull_page_def Let_def start)
  let ?proj = "reply_cut show_json ?limit page"
  have items: "project_list (map pull_message_json (pe_messages page)) chatlab_message_keys = map (agent_item sv ac talker) ?pg"
    by (simp add: g(2) project_list_def agent_item_def)
  have pos: "0 < ?limit" using clamp_limit_range [of "ga_limit a"] by simp
  obtain k where k: "pj_items ?proj = take k (map (agent_item sv ac talker) ?pg)" "k \<le> ?L" "pj_truncated ?proj \<longleftrightarrow> k < ?L" "?pg \<noteq> [] \<longrightarrow> 0 < k"
    using project_messages_prefix [OF pos, of show_json "map (agent_item sv ac talker) ?pg" char_budget] unfolding reply_cut_def items by auto
  have len: "?L \<le> length ?rows - ?off" using pfx by (metis length_drop length_take min.cobounded1)
  have "take k ?pg = take k (drop ?off ?rows)"
    using arg_cong [OF pfx, of "take k"] unfolding take_take min_absorb1 [OF k(2)] .
  moreover have "length (take k (map (agent_item sv ac talker) ?pg)) = k" using k(2) by simp
  ultimately have given: "pj_items ?proj = map (agent_item sv ac talker) (take k (drop ?off ?rows))" "length (pj_items ?proj) = k"
    unfolding k(1) by (simp_all only: take_map)
  have more: "py_has_more (pe_sync page) \<longleftrightarrow> ?off + ?L < length ?rows" by (simp add: g(3) pull_page_def Let_def start)
  have its: "as_array (json_get (messages_reply show_json a ?limit since page) ''messages'') = Some (pj_items ?proj)"
    by (rule messages_reply_items)
  have step: "agent_pull (Suc n) show_json midnight nows (server_net sv) wire_readers mcp a w = (case next_call a (messages_reply show_json a ?limit since page) of
      None \<Rightarrow> Some (pj_items ?proj)
    | Some a' \<Rightarrow> map_option (\<lambda>rest. pj_items ?proj @ rest) (agent_pull n show_json midnight nows (server_net sv) wire_readers mcp a' w))"
    by (simp add: g(1) Let_def) (simp only: its opt_or_simps)
  have join: "take k (drop ?off ?rows) @ drop (?off + k) ?rows = drop ?off ?rows"
    by (metis add.commute append_take_drop_id drop_drop)
  show ?case
  proof (cases "k < ?L")
    case True
    then have kpos: "0 < k" using k(4) by auto
    have bound: "?off + k \<le> length ?rows" using True len Suc.prems(4) by simp
    let ?a' = "a\<lparr>ga_since := map_option int_to_dec since, ga_offset := Some (?off + k)\<rparr>"
    have nx: "next_call a (messages_reply show_json a ?limit since page) = Some ?a'"
      using True k(3) parse_usize_dec [OF ok [OF bound]] by (simp add: messages_reply_next given(2))
    have "since_of midnight (nows (n - 1)) (ga_since ?a') = Inr since"
      using Suc.prems(3) by (cases since) (simp_all add: since_of_def parse_since_cursor)
    then have "agent_pull n show_json midnight nows (server_net sv) wire_readers mcp ?a' w = Some (map (agent_item sv ac talker) (drop (?off + k) ?rows))"
      using Suc.IH [of ?a' since] Suc.prems(1,3,5) bound kpos by simp
    then show ?thesis using join unfolding step nx by (simp add: given(1) flip: map_append)
  next
    case False
    then have kL: "k = ?L" using k(2) by simp
    show ?thesis
    proof (cases "?off + ?L < length ?rows")
      case True
      then have ne: "drop ?off ?rows \<noteq> []" by simp
      then have pne: "?pg \<noteq> []" by (rule take_page_nonempty)
      then have L0: "0 < ?L" by simp
      let ?t = "mr_create_time (last ?pg)"
      have "last ?pg \<in> set ?rows" using pne pfx by (metis in_set_dropD in_set_takeD last_in_set)
      then have mem: "last ?pg \<in> set (conversation ?st talker)" "is_none_or (\<lambda>s. s < ?t) since" by (auto simp: ascending_def)
      then have lt: "late_cursor ?t" using late by blast
      have "\<not> ?t \<le> opt_or since i64_min"
        using mem(2) lt by (cases since) (auto simp: late_cursor_def i64_min_def)
      then have sync: "py_next_since (pe_sync page) = ?t" "py_next_offset (pe_sync page) = 0"
        using True pne by (simp_all add: g(3) pull_page_def Let_def start)
      let ?a' = "a\<lparr>ga_since := Some (int_to_dec ?t), ga_offset := Some 0\<rparr>"
      have nx: "next_call a (messages_reply show_json a ?limit since page) = Some ?a'"
        using True False k(3) more by (simp add: messages_reply_next sync parse_usize_dec usize_ok_def)
      have "is_none_or (\<lambda>s. s \<le> ?t) since" using mem(2) by (cases since) auto
      then have "ascending ?st talker (Some ?t) None = filter (\<lambda>m. ?t < mr_create_time m) ?rows" by (rule ascending_later)
      also have "\<dots> = drop (?off + ?L) ?rows"
        using page_cut_at [OF pfx L0 True ascending_sorted] pfx by simp
      finally have asc: "ascending ?st talker (Some ?t) None = drop (?off + k) ?rows" by (simp add: kL)
      have "agent_pull n show_json midnight nows (server_net sv) wire_readers mcp ?a' w = Some (map (agent_item sv ac talker) (drop (?off + k) ?rows))"
      proof -
        have q: "ga_talker ?a' = talker" "since_of midnight (nows (n - 1)) (ga_since ?a') = Inr (Some ?t)" "is_none_or late_cursor (Some ?t)"
          "opt_or (ga_offset ?a') 0 = 0" using Suc.prems(1) lt by (simp_all add: since_of_def parse_since_cursor)
        have "length (ascending ?st talker (Some ?t) None) - 0 < n" using Suc.prems(5) L0 True unfolding asc kL length_drop by linarith
        then show ?thesis using Suc.IH [OF q(1-3)] unfolding q(4) asc by simp
      qed
      then show ?thesis using join unfolding step nx by (simp add: given(1) flip: map_append)
    next
      case False
      then have "?L = length ?rows - ?off" using len by simp
      then have "take k (drop ?off ?rows) = drop ?off ?rows" by (simp add: kL)
      moreover have "next_call a (messages_reply show_json a ?limit since page) = None"
        using False \<open>\<not> k < ?L\<close> k(3) more by (simp add: messages_reply_next)
      ultimately show ?thesis unfolding step by (simp add: given(1))
    qed
  qed
qed simp

text \<open>
  C13. An agent that goes on as the replies of \<open>get_messages\<close> tell it receives the whole conversation after its lower bound, once and
  in order, although each reply is cut to a number of items and of characters, although a relative bound such as
  \<open>7d\<close> would mean another time at every call, and although pages never split a second; it needs no more calls than
  there are messages, and one.
\<close>

theorem agent_receives_everything:
  assumes "serving sv (mp_client mcp) ac"
    and "conversation_known (sv_store sv ac) (ga_talker a)"
    and "\<forall>m\<in>set (conversation (sv_store sv ac) (ga_talker a)). late_cursor (mr_create_time m)"
    and "usize_ok (length (conversation (sv_store sv ac) (ga_talker a)))"
    and "since_of midnight (nows (n - 1)) (ga_since a) = Inr since" and "is_none_or late_cursor since" and "ga_offset a = None"
    and "length (conversation (sv_store sv ac) (ga_talker a)) < n"
  shows "\<exists>rows. agent_pull n show_json midnight nows (server_net sv) wire_readers mcp a w = Some (map (agent_item sv ac (ga_talker a)) rows)
    \<and> mset rows = mset (filter (\<lambda>m. is_none_or (\<lambda>s. s < mr_create_time m) since) (conversation (sv_store sv ac) (ga_talker a)))
    \<and> sorted (map sort_pos rows)"
proof -
  let ?rows = "ascending (sv_store sv ac) (ga_talker a) since None"
  have "length ?rows < n" using assms(8) by (simp add: ascending_def) (meson le_less_trans length_filter_le)
  then have "agent_pull n show_json midnight nows (server_net sv) wire_readers mcp a w = Some (map (agent_item sv ac (ga_talker a)) ?rows)"
    using agent_rows [where nows = nows and n = n, OF assms(1-4) refl assms(5,6), of show_json w] assms(7) by simp
  moreover have "mset ?rows = mset (filter (\<lambda>m. is_none_or (\<lambda>s. s < mr_create_time m) since) (conversation (sv_store sv ac) (ga_talker a)))"
    by (simp add: ascending_def)
  moreover have "sorted (map sort_pos ?rows)" by (simp add: ascending_def)
  ultimately show ?thesis by blast
qed

definition wide_json :: "json \<Rightarrow> string" where
  "wide_json v = replicate 40000 (CHR ''x'')"

definition demo_pull_args :: get_messages_args where
  "demo_pull_args = \<lparr>ga_talker = ''g@chatroom'', ga_since = Some ''7d'', ga_limit = None, ga_offset = None\<rparr>"

text \<open>Every message here is longer than the budget, so every reply holds one.\<close>

theorem agent_receives_everything_witness:
  "\<exists>rows. agent_pull 4 wide_json gregorian_midnight (\<lambda>i. 1700000018 - int i) (server_net (demo_served late_store)) wire_readers
      (mcp_new ''http://h/'' ''secret'') demo_pull_args () = Some (map (agent_item (demo_served late_store) 0 ''g@chatroom'') rows) \<and> length rows = 3"
proof -
  let ?sv = "demo_served late_store"
  let ?conv = "conversation (sv_store ?sv 0) (ga_talker demo_pull_args)"
  have sv: "serving ?sv (mp_client (mcp_new ''http://h/'' ''secret'')) 0" using demo_serving by (simp add: mcp_new_def)
  have c: "list_all (\<lambda>m. late_cursor (mr_create_time m)) ?conv" "length ?conv < 4" "usize_ok (length ?conv)"
    "conversation_known (sv_store ?sv 0) (ga_talker demo_pull_args)"
    "since_of gregorian_midnight (1700000018 - int (4 - 1)) (ga_since demo_pull_args) = Inr (Some 1699395215)"
    "is_none_or late_cursor (Some 1699395215)" "ga_offset demo_pull_args = None"
    "length (filter (\<lambda>m. is_none_or (\<lambda>s. s < mr_create_time m) (Some 1699395215)) ?conv) = 3" by code_simp+
  have l: "\<forall>m\<in>set ?conv. late_cursor (mr_create_time m)" using c(1) by (simp add: list_all_iff)
  obtain rows where "agent_pull 4 wide_json gregorian_midnight (\<lambda>i. 1700000018 - int i) (server_net ?sv) wire_readers
      (mcp_new ''http://h/'' ''secret'') demo_pull_args () = Some (map (agent_item ?sv 0 (ga_talker demo_pull_args)) rows)"
    "mset rows = mset (filter (\<lambda>m. is_none_or (\<lambda>s. s < mr_create_time m) (Some 1699395215)) ?conv)"
    using agent_receives_everything [where nows = "\<lambda>i. 1700000018 - int i" and n = 4, OF sv c(4) l c(3,5,6,7,2), of wide_json "()"] by blast
  moreover from arg_cong [OF this(2), of size] c(8) have "length rows = 3" by (simp only: size_mset)
  moreover have "ga_talker demo_pull_args = ''g@chatroom''" by (simp add: demo_pull_args_def)
  ultimately show ?thesis by metis
qed

section \<open>Searching\<close>

lemma page_indices: "page_slice lower st q = Inr page \<Longrightarrow>
    mp_indices page = window (mq_offset q) (mq_limit q) (matching_messages lower st q)"
  using messages.page_items [of lower st q "mq_offset q" "mq_limit q"] by (simp add: message_window_def)

lemma matching_offset: "matching_messages lower st (q\<lparr>mq_offset := off, mq_limit := lim\<rparr>) = matching_messages lower st q"
  by (simp add: matching_messages_def in_bounds_def)

definition search_cut :: "(json \<Rightarrow> string) \<Rightarrow> nat \<Rightarrow> chatlab_messages \<Rightarrow> projected" where
  "search_cut show_json limit page = project_messages show_json
     (project_list (map chatlab_message_json (cs_messages page)) chatlab_message_keys) limit char_budget"

lemma search_reply_fields:
  "as_array (json_get (search_reply show_json a limit p) ''messages'') = Some (pj_items (search_cut show_json limit p))"
  "json_get (search_reply show_json a limit p) ''truncated'' = Bool (pj_truncated (search_cut show_json limit p))"
  "json_get (search_reply show_json a limit p) ''nextOffset'' = nat_json (opt_or (sa_offset a) 0 + length (pj_items (search_cut show_json limit p)))"
  by (simp_all add: search_reply_def search_cut_def Let_def json_get_def as_array_def)

lemma hd_not_in_cut:
  assumes "distinct xs" and "k < length xs"
  shows "hd xs \<notin> set (take k (rev xs))"
proof -
  have "distinct (rev xs)" using assms(1) by simp
  moreover have "rev xs = take k (rev xs) @ drop k (rev xs)" by simp
  ultimately have "set (take k (rev xs)) \<inter> set (drop k (rev xs)) = {}" by (metis distinct_append)
  moreover have "last (drop k (rev xs)) = hd xs" "drop k (rev xs) \<noteq> []" using assms(2) by (auto simp: last_rev)
  ultimately show ?thesis by (metis disjoint_iff last_in_set)
qed

lemma nth_not_later:
  assumes "distinct xs" and "i < off" and "i < length xs"
  shows "xs ! i \<notin> set (drop off xs)"
proof
  assume "xs ! i \<in> set (drop off xs)"
  then obtain j where "j < length (drop off xs)" "drop off xs ! j = xs ! i" unfolding in_set_conv_nth by blast
  then have "xs ! (off + j) = xs ! i" "off + j < length xs" by simp_all
  then show False using assms by (simp add: nth_eq_iff_index_eq)
qed


definition wide_page :: chatlab_messages where
  "wide_page = \<lparr>cs_chatlab = header 0, cs_count = 2, cs_members = [],
     cs_messages = map (\<lambda>i. message_fields late_store None (conversation late_store ''g@chatroom'' ! i)) [2, 1],
     cs_meta = meta late_store ''g@chatroom'' ''g@chatroom'' [], cs_page = \<lparr>pb_has_more = True, pb_next_cursor = Some ''2''\<rparr>,
     cs_talker = ''g@chatroom''\<rparr>"

definition demo_search :: search_args where
  "demo_search = \<lparr>sa_talker = ''g@chatroom'', sa_keyword = ''hi'', sa_limit = Some 2, sa_offset = None\<rparr>"

definition demo_search_query :: message_query where
  "demo_search_query = \<lparr>mq_talker = ''g@chatroom'', mq_limit = 2, mq_offset = 0, mq_keyword = Some ''hi'', mq_start = None, mq_end = None\<rparr>"

lemma wide_size: "length (utf8_chars (wide_json v)) = 40000"
  by (simp add: wide_json_def utf8_chars_ascii list_all_iff is_ascii_def)


end
