(* ===== verification/Cli.thy ===== *)
theory Cli
  imports Export_Cli Embed Mcp
begin

text \<open>
  The command line of the binary (\<open>src/cli.rs\<close>): which of the two parsers a command line goes to, the subcommands over the
  client library or over an index opened in the process, and what is printed. The parser of \<open>clap\<close>, the environment, the files,
  printing and parsing JSON are fields of a \<open>cli_env\<close>, and so is what \<open>Export_Cli\<close> and \<open>Embed\<close> leave open; the network goes through \<open>send\<close> as in \<open>Client\<close>. Standard error and the
  lines of the export command are left aside.
\<close>

section \<open>Arguments and outcomes\<close>

record common_args =
  cm_base_url :: "string option"
  cm_json :: bool

record read_args =
  read_common :: common_args
  read_embedded :: bool

record listing_args =
  listing_common :: common_args
  listing_embedded :: bool
  listing_limit :: "nat option"
  listing_offset :: "nat option"

record message_args =
  msg_common :: common_args
  msg_talker :: "string option"
  msg_since :: "string option"
  msg_keyword :: "string option"
  msg_limit :: "nat option"
  msg_embedded :: bool

datatype cli_command = Cmd_Serve | Cmd_Token | Cmd_Sessions read_args | Cmd_Messages message_args | Cmd_Search message_args
  | Cmd_Contacts listing_args | Cmd_Accounts common_args | Cmd_Sync common_args | Cmd_Export common_args export_args
  | Cmd_Mcp "string option"

datatype embed_error = No_Embed_Config | Unreadable_Config string | Bad_Config_Json string | No_Keys | Bad_Key key_error

datatype cli_error = Bad_Setting config_error | Token_Unreadable token_error | Token_Not_Generated | No_Api_Token string
  | Client_Failed client_error | Embed_Failed embed_error | Bad_Start string | Export_Failed export_exit | Rounds_Used_Up

text \<open>
  How a command line ends: a service to start, the work done, an exit by \<open>clap\<close> with its code (0 for help and the version, 2 for a
  usage error), an error for \<open>main\<close>, or the MCP server on the standard streams.
\<close>

datatype cli_exit = Serve_With config | Finished | Clap_Exit nat | Failed_With cli_error | Speak_Mcp mcp_server

record ('w, 'b, 'c) cli_env =
  ce_defaults :: config
  ce_clap :: "string list \<Rightarrow> nat + cli_command"
  ce_keyring :: keyring
  ce_token :: "string option"
  ce_send :: "('w, 'b) net"
  ce_readers :: "'b readers"
  ce_rounds :: nat
  ce_show :: "json \<Rightarrow> string"
  ce_pretty :: "json \<Rightarrow> string option"
  ce_midnight :: "nat \<Rightarrow> nat \<Rightarrow> nat \<Rightarrow> int option"
  ce_embed_config :: "string option"
  ce_read_file :: "string \<Rightarrow> string + string"
  ce_parse_json :: "string \<Rightarrow> string + json"
  ce_hex_decode :: "string \<Rightarrow> bytes option"
  ce_storage :: "string \<Rightarrow> fs option"
  ce_unzip :: "bytes \<Rightarrow> bytes option"
  ce_md5_hex :: "string \<Rightarrow> string"
  ce_parse_f64 :: "string \<Rightarrow> f64 option"
  ce_now_ms :: "nat option"
  ce_open_db :: "'c live_pool opener"
  ce_run_env :: run_env
  ce_list :: "string \<Rightarrow> string \<Rightarrow> string + (string \<times> string) list"
  ce_media :: "string \<Rightarrow> nat \<Rightarrow> pull_message list \<Rightarrow> string + (string, string) hashmap"
  ce_pull :: "string \<Rightarrow> string \<Rightarrow> nat \<Rightarrow> string \<Rightarrow> pull_server"
  ce_media_dir :: media_dir

section \<open>The client\<close>

definition default_base_url :: string where
  "default_base_url = ''http://127.0.0.1:5033''"

fun token_cause :: "token_error \<Rightarrow> string" where
  "token_cause (Init_Failed e) = e"
| "token_cause (Write_Failed e) = e"
| "token_cause (Read_Failed e) = e"

definition stored_token :: "keyring \<Rightarrow> string + string option" where
  "stored_token kr = map_sum token_cause id (show_token kr)"

definition http_client :: "('w, 'b, 'c) cli_env \<Rightarrow> common_args \<Rightarrow> cli_exit + client" where
  "http_client env c = (let base = opt_or (cm_base_url c) default_base_url in
     case env_token (ce_token env) (stored_token (ce_keyring env)) of
       Inl e \<Rightarrow> Inl (Failed_With (No_Api_Token e))
     | Inr token \<Rightarrow> Inr (client_new base token))"

section \<open>Reading in the process\<close>

text \<open>The entries of \<open>keys\<close> whose value is a string.\<close>

definition embedded_keys :: "json \<Rightarrow> (string, string) hashmap" where
  "embedded_keys cfg = (case json_get cfg ''keys'' of
       Object es \<Rightarrow> fold (\<lambda>(k, v) m. case as_str v of Some hex \<Rightarrow> hm_insert k hex m | None \<Rightarrow> m) es []
     | _ \<Rightarrow> [])"

text \<open>What the configuration file names: the account's directory, its keys and its name.\<close>

definition embedded_source :: "('w, 'b, 'c) cli_env \<Rightarrow> embed_error + string \<times> key_map \<times> string" where
  "embedded_source env = (case ce_embed_config env of None \<Rightarrow> Inl No_Embed_Config | Some path \<Rightarrow>
     (case ce_read_file env path of Inl e \<Rightarrow> Inl (Unreadable_Config e) | Inr raw \<Rightarrow>
     (case ce_parse_json env raw of Inl e \<Rightarrow> Inl (Bad_Config_Json e) | Inr cfg \<Rightarrow>
     (let account_root = opt_or (as_str (json_get cfg ''db_path'')) [];
          wxid = opt_or (as_str (json_get cfg ''wxid'')) ''unknown'';
          keys = embedded_keys cfg
      in if keys = [] then Inl No_Keys else
        (case key_map_from_parts (ce_hex_decode env) None (Some keys) of
           Inl e \<Rightarrow> Inl (Bad_Key e)
         | Inr keymap \<Rightarrow> Inr (account_root, keymap, wxid))))))"

text \<open>\<open>ce_storage\<close> is the tree below \<open>db_storage\<close> in the account's directory.\<close>

definition embedded_index :: "('w, 'b, 'c) cli_env \<Rightarrow> cli_exit + store" where
  "embedded_index env = (case embedded_source env of
       Inl e \<Rightarrow> Inl (Failed_With (Embed_Failed e))
     | Inr (account_root, keymap, wxid) \<Rightarrow> Inr (index_open (ce_unzip env) (ce_md5_hex env) (ce_parse_f64 env) (ce_now_ms env)
         (ce_open_db env) (ce_storage env account_root) keymap wxid))"

fun kind_name :: "session_kind \<Rightarrow> string" where
  "kind_name Group = ''group''"
| "kind_name Official = ''official''"
| "kind_name Private = ''private''"
| "kind_name Other = ''other''"

definition embedded_session_row :: "store \<Rightarrow> session \<Rightarrow> json" where
  "embedded_session_row st s = Object [(''username'', String (ss_username s)),
     (''displayName'', String (index_session_display st (ss_username s))), (''sessionType'', String (kind_name (ss_kind s))),
     (''lastTimestamp'', int_json (ss_last_timestamp s)), (''messageCount'', nat_json (ss_message_count s)),
     (''unreadCount'', int_json (ss_unread_count s))]"

definition embedded_sessions :: "('w, 'b, 'c) cli_env \<Rightarrow> cli_exit + json list" where
  "embedded_sessions env = map_sum id (\<lambda>st. map (embedded_session_row st) (index_sessions st)) (embedded_index env)"

definition embedded_contact_row :: "contact \<Rightarrow> json" where
  "embedded_contact_row c = Object [(''username'', String (ct_username c)), (''displayName'', String (contact_display_name c)),
     (''remark'', or_null String (ct_remark c)), (''nickname'', or_null String (ct_nickname c)),
     (''alias'', or_null String (ct_alias c))]"

definition embedded_contacts :: "('w, 'b, 'c) cli_env \<Rightarrow> nat option \<Rightarrow> nat option \<Rightarrow> cli_exit + json list" where
  "embedded_contacts env limit offset = map_sum id (\<lambda>st.
     map embedded_contact_row (take (opt_or limit 200) (drop (opt_or offset 0) (index_contacts st)))) (embedded_index env)"

definition shown_text :: "message_record \<Rightarrow> string" where
  "shown_text m = (if pm_display (mr_parsed m) = [] then pm_parsed_text (mr_parsed m) else pm_display (mr_parsed m))"

definition embedded_message_row :: "message_record \<Rightarrow> json" where
  "embedded_message_row m = Object [(''serverId'', String (int_to_dec (mr_server_id m))), (''createTime'', int_json (mr_create_time m)),
     (''senderName'', String (mr_sender_name m)), (''senderUsername'', String (mr_sender_username m)),
     (''content'', String (shown_text m))]"

definition wanted :: "int \<Rightarrow> string option \<Rightarrow> message_record \<Rightarrow> bool" where
  "wanted start keyword m \<longleftrightarrow> start \<le> mr_create_time m
     \<and> is_none_or (\<lambda>kw. contains_sub kw (shown_text m) \<or> contains_sub kw (pm_raw_content (mr_parsed m))) keyword"

text \<open>One conversation: the rows so far, and whether the limit was reached, which is checked after a row was added.\<close>

fun scan_conversation :: "nat \<Rightarrow> int \<Rightarrow> string option \<Rightarrow> message_record list \<Rightarrow> json list \<Rightarrow> json list \<times> bool" where
  "scan_conversation cap start keyword [] out = (out, False)"
| "scan_conversation cap start keyword (m # ms) out = (if \<not> wanted start keyword m then scan_conversation cap start keyword ms out
     else (let out' = out @ [embedded_message_row m] in
       if cap \<le> length out' then (out', True) else scan_conversation cap start keyword ms out'))"

definition newest_of :: "store \<Rightarrow> string \<Rightarrow> message_record list" where
  "newest_of st t = sort_key (\<lambda>m. - mr_create_time m) (index_messages st t)"

fun scan_targets :: "nat \<Rightarrow> int \<Rightarrow> string option \<Rightarrow> store \<Rightarrow> string list \<Rightarrow> json list \<Rightarrow> json list" where
  "scan_targets cap start keyword st [] out = out"
| "scan_targets cap start keyword st (t # ts) out = (case scan_conversation cap start keyword (newest_of st t) out of
       (out', full) \<Rightarrow> if full then out' else scan_targets cap start keyword st ts out')"

definition embedded_messages :: "('w, 'b, 'c) cli_env \<Rightarrow> string option \<Rightarrow> string option \<Rightarrow> string option \<Rightarrow> nat option
    \<Rightarrow> cli_exit + json list" where
  "embedded_messages env talker since keyword limit = (case embedded_index env of Inl e \<Rightarrow> Inl e | Inr st \<Rightarrow>
     (case (case since of None \<Rightarrow> Inr 0 | Some s \<Rightarrow> (case to_unix (ce_midnight env) s of
              None \<Rightarrow> Inl (Failed_With (Bad_Start s)) | Some t \<Rightarrow> Inr t)) of
        Inl e \<Rightarrow> Inl e
      | Inr start \<Rightarrow> (let cap = opt_or limit 200;
          targets = (case talker of Some t \<Rightarrow> [t] | None \<Rightarrow> map ss_username (index_sessions st))
        in Inr (scan_targets cap start keyword st targets []))))"

section \<open>Over the network\<close>

definition http_session_row :: "session_native \<Rightarrow> json" where
  "http_session_row s = Object [(''username'', String (sn_username s)), (''displayName'', String (sn_display_name s)),
     (''sessionType'', String (sn_session_type s)), (''lastTimestamp'', int_json (sn_last_timestamp s)),
     (''messageCount'', nat_json (sn_message_count s)), (''unreadCount'', int_json (sn_unread_count s))]"

definition sessions_rows :: "('w, 'b, 'c) cli_env \<Rightarrow> read_args \<Rightarrow> 'w \<Rightarrow> 'w \<times> (cli_exit + json list)" where
  "sessions_rows env q w = (if read_embedded q then (w, embedded_sessions env) else
     (case http_client env (read_common q) of Inl e \<Rightarrow> (w, Inl e) | Inr c \<Rightarrow>
     (case list_all_sessions (ce_rounds env) (ce_send env) (ce_readers env) c (Some 10000) None w of
        (w', None) \<Rightarrow> (w', Inl (Failed_With Rounds_Used_Up))
      | (w', Some (Inl e)) \<Rightarrow> (w', Inl (Failed_With (Client_Failed e)))
      | (w', Some (Inr ss)) \<Rightarrow> (w', Inr (map http_session_row ss)))))"

definition http_contact_row :: "contact_dto \<Rightarrow> json" where
  "http_contact_row c = Object [(''username'', String (cd_username c)), (''displayName'', String (cd_display_name c)),
     (''remark'', String (cd_remark c)), (''nickname'', String (cd_nickname c)), (''alias'', String (cd_alias c))]"

definition contacts_value :: "nat \<Rightarrow> bool \<Rightarrow> json list \<Rightarrow> json" where
  "contacts_value n_contacts has_more rows = Object [(''total'', nat_json n_contacts), (''hasMore'', Bool has_more), (''contacts'', Array rows)]"

definition contacts_rows :: "('w, 'b, 'c) cli_env \<Rightarrow> listing_args \<Rightarrow> 'w \<Rightarrow> 'w \<times> (cli_exit + json)" where
  "contacts_rows env q w = (if listing_embedded q
     then (w, map_sum id (\<lambda>rows. contacts_value (length rows) False rows) (embedded_contacts env (listing_limit q) (listing_offset q)))
     else (case http_client env (listing_common q) of Inl e \<Rightarrow> (w, Inl e) | Inr c \<Rightarrow>
       (case contacts_list (ce_send env) (ce_readers env) c
            \<lparr>kq_limit = listing_limit q, kq_offset = listing_offset q, kq_keyword = None\<rparr> w of
          (w', Inl e) \<Rightarrow> (w', Inl (Failed_With (Client_Failed e)))
        | (w', Inr page) \<Rightarrow> (w', Inr (contacts_value (cl_total page) (cl_has_more page) (map http_contact_row (cl_contacts page)))))))"

definition http_message_row :: "message_native \<Rightarrow> json" where
  "http_message_row m = Object [(''serverId'', String (mn_server_id m)), (''createTime'', int_json (mn_create_time m)),
     (''senderName'', String (mn_sender_name m)), (''senderUsername'', String (mn_sender_username m)), (''content'', String (mn_content m))]"

definition usage_error :: cli_exit where
  "usage_error = Clap_Exit 2"

definition run_messages :: "('w, 'b, 'c) cli_env \<Rightarrow> message_args \<Rightarrow> 'w \<Rightarrow> 'w \<times> (cli_exit + json list)" where
  "run_messages env m w = (if msg_embedded m then
       (if is_some_and (\<lambda>t. trim t = []) (msg_talker m) then (w, Inl usage_error)
        else (w, embedded_messages env (msg_talker m) (msg_since m) (msg_keyword m) (msg_limit m)))
     else (case opt_filter (\<lambda>t. trim t \<noteq> []) (msg_talker m) of None \<Rightarrow> (w, Inl usage_error) | Some talker \<Rightarrow>
       (case http_client env (msg_common m) of Inl e \<Rightarrow> (w, Inl e) | Inr c \<Rightarrow>
       (case list_messages (ce_send env) (ce_readers env) c
            ((query_new talker)\<lparr>cq_keyword := msg_keyword m, cq_start := msg_since m, cq_limit := msg_limit m\<rparr>) w of
          (w', Inl e) \<Rightarrow> (w', Inl (Failed_With (Client_Failed e)))
        | (w', Inr page) \<Rightarrow> (w', Inr (map http_message_row (ml_messages page)))))))"

definition account_row :: "account_state_view \<Rightarrow> json" where
  "account_row a = Object [(''wxid'', String (av_wxid a)), (''state'', String (account_status_text (av_state a))),
     (''messageCount'', nat_json (av_message_count a)), (''dbStorage'', String (av_db_storage a)), (''error'', or_null String (av_error a))]"

definition accounts_rows :: "('w, 'b, 'c) cli_env \<Rightarrow> common_args \<Rightarrow> 'w \<Rightarrow> 'w \<times> (cli_exit + json list)" where
  "accounts_rows env q w = (case http_client env q of Inl e \<Rightarrow> (w, Inl e) | Inr c \<Rightarrow>
     (case accounts (ce_send env) (ce_readers env) c w of
        (w', Inl e) \<Rightarrow> (w', Inl (Failed_With (Client_Failed e)))
      | (w', Inr views) \<Rightarrow> (w', Inr (map account_row views))))"

definition sync_value :: "('w, 'b, 'c) cli_env \<Rightarrow> common_args \<Rightarrow> 'w \<Rightarrow> 'w \<times> (cli_exit + json)" where
  "sync_value env q w = (case http_client env q of Inl e \<Rightarrow> (w, Inl e) | Inr c \<Rightarrow>
     (case Client.sync_now (ce_send env) (ce_readers env) c w of
        (w', Inl e) \<Rightarrow> (w', Inl (Failed_With (Client_Failed e)))
      | (w', Inr r) \<Rightarrow> (w', Inr (Object [(''success'', Bool (sr_success r)), (''newMessages'', nat_json (sr_new_messages r)),
          (''revokeMessages'', nat_json (sr_revoke_messages r))]))))"

section \<open>What is printed\<close>

definition json_member :: "json \<Rightarrow> string \<Rightarrow> json option" where
  "json_member v k = (case v of Object es \<Rightarrow> map_of es k | _ \<Rightarrow> None)"

definition text_of :: "json \<Rightarrow> string \<Rightarrow> string" where
  "text_of v k = opt_or (Option.bind (json_member v k) as_str) []"

definition value_of_key :: "(json \<Rightarrow> string) \<Rightarrow> json \<Rightarrow> string \<Rightarrow> string" where
  "value_of_key show_json v k = opt_or (map_option show_json (json_member v k)) []"

definition tab :: string where "tab = [CHR 0x09]"

definition human_row :: "(json \<Rightarrow> string) \<Rightarrow> json \<Rightarrow> string \<Rightarrow> string" where
  "human_row show_json v kind = (let s = text_of v; n = value_of_key show_json v in
     if kind = ''sessions'' then s ''username'' @ tab @ s ''displayName'' @ tab @ n ''messageCount'' @ utf8 [32, 230, 157, 161] @ tab
       @ n ''lastTimestamp''
     else if kind = ''contacts'' then s ''username'' @ tab @ s ''displayName''
     else if kind = ''accounts'' then s ''wxid'' @ tab @ s ''state'' @ tab @ n ''messageCount'' @ utf8 [32, 230, 157, 161] @ tab
       @ s ''dbStorage'' @ (case Option.bind (json_member v ''error'') as_str of None \<Rightarrow> [] | Some e \<Rightarrow> tab @ ''error: '' @ e)
     else if kind = ''sync'' then utf8 [230, 150, 176, 229, 162, 158, 32] @ n ''newMessages''
       @ utf8 [32, 230, 157, 161, 239, 188, 140, 230, 146, 164, 229, 155, 158, 32] @ n ''revokeMessages''
       @ utf8 [32, 230, 157, 161, 239, 188, 136, 115, 117, 99, 99, 101, 115, 115, 61] @ n ''success'' @ utf8 [239, 188, 137]
     else n ''createTime'' @ tab @ s ''senderName'' @ tab @ s ''content'')"

definition no_results :: string where
  "no_results = utf8 [239, 188, 136, 230, 151, 160, 231, 187, 147, 230, 158, 156, 239, 188, 137]"

definition emit :: "('w, 'b, 'c) cli_env \<Rightarrow> json \<Rightarrow> bool \<Rightarrow> string \<Rightarrow> string list" where
  "emit env value as_json kind = (if as_json then [opt_or (ce_pretty env value) ''{}''] else
     (case value of
        Array rows \<Rightarrow> (if rows = [] then [no_results] else []) @ map (\<lambda>it. human_row (ce_show env) it kind) rows
      | other \<Rightarrow> [human_row (ce_show env) other kind]))"

section \<open>The two parsers and the subcommands\<close>

definition legacy :: "('w, 'b, 'c) cli_env \<Rightarrow> string list \<Rightarrow> cli_exit" where
  "legacy env argv = (case parse_args (ce_defaults env) argv of
       Inl e \<Rightarrow> Failed_With (Bad_Setting e)
     | Inr (Some cfg) \<Rightarrow> Serve_With cfg
     | Inr None \<Rightarrow> Finished)"

text \<open>A bare run reads the arguments again, which are none.\<close>

definition legacy_load :: "('w, 'b, 'c) cli_env \<Rightarrow> cli_exit" where
  "legacy_load env = legacy env []"

definition print_value :: "('w, 'b, 'c) cli_env \<Rightarrow> bool \<Rightarrow> string \<Rightarrow> 'w \<times> (cli_exit + json) \<Rightarrow> 'w \<times> string list \<times> cli_exit" where
  "print_value env as_json kind r = (case r of
       (w, Inl e) \<Rightarrow> (w, [], e)
     | (w, Inr v) \<Rightarrow> (w, emit env v as_json kind, Finished))"

definition print_rows :: "('w, 'b, 'c) cli_env \<Rightarrow> bool \<Rightarrow> string \<Rightarrow> 'w \<times> (cli_exit + json list) \<Rightarrow> 'w \<times> string list \<times> cli_exit" where
  "print_rows env as_json kind r = (case r of (w, x) \<Rightarrow> print_value env as_json kind (w, map_sum id Array x))"

definition token_command :: "('w, 'b, 'c) cli_env \<Rightarrow> string list \<times> cli_exit" where
  "token_command env = (case show_token (ce_keyring env) of
       Inl e \<Rightarrow> ([], Failed_With (Token_Unreadable e))
     | Inr (Some t) \<Rightarrow> ([t], Finished)
     | Inr None \<Rightarrow> ([], Failed_With Token_Not_Generated))"

definition export_command :: "('w, 'b, 'c) cli_env \<Rightarrow> common_args \<Rightarrow> export_args \<Rightarrow> dir \<Rightarrow> dir \<times> cli_exit" where
  "export_command env c a d = (let base = opt_or (cm_base_url c) default_base_url in
     case run_export (ce_run_env env) (ce_midnight env) (ce_rounds env) (ce_list env base) (ce_media env base) (ce_pull env base)
       (ce_media_dir env) (ce_token env) (stored_token (ce_keyring env)) a d of
       (d', Exported out) \<Rightarrow> (d', Finished)
     | (d', failed) \<Rightarrow> (d', Failed_With (Export_Failed failed)))"

definition mcp_command :: "('w, 'b, 'c) cli_env \<Rightarrow> string option \<Rightarrow> cli_exit" where
  "mcp_command env base_url = (case env_token (ce_token env) (stored_token (ce_keyring env)) of
       Inl e \<Rightarrow> Failed_With (No_Api_Token e)
     | Inr token \<Rightarrow> Speak_Mcp (mcp_new (opt_or base_url default_base_url) token))"

text \<open>One command that \<open>clap\<close> has read; \<open>d\<close> is the directory of the export.\<close>

definition run_command :: "('w, 'b, 'c) cli_env \<Rightarrow> string list \<Rightarrow> cli_command \<Rightarrow> 'w \<Rightarrow> dir \<Rightarrow> 'w \<times> dir \<times> string list \<times> cli_exit" where
  "run_command env argv command w d = (case command of
       Cmd_Serve \<Rightarrow> (w, d, [], legacy env (tl argv))
     | Cmd_Token \<Rightarrow> (w, d, token_command env)
     | Cmd_Sessions q \<Rightarrow> (case print_rows env (cm_json (read_common q)) ''sessions'' (sessions_rows env q w) of (w', r) \<Rightarrow> (w', d, r))
     | Cmd_Contacts q \<Rightarrow> (case print_value env (cm_json (listing_common q)) ''contacts'' (contacts_rows env q w) of (w', r) \<Rightarrow> (w', d, r))
     | Cmd_Messages m \<Rightarrow> (case print_rows env (cm_json (msg_common m)) ''messages'' (run_messages env m w) of (w', r) \<Rightarrow> (w', d, r))
     | Cmd_Search m \<Rightarrow> if opt_or (msg_keyword m) [] = [] then (w, d, [], usage_error)
         else (case print_rows env (cm_json (msg_common m)) ''messages'' (run_messages env m w) of (w', r) \<Rightarrow> (w', d, r))
     | Cmd_Export c a \<Rightarrow> (case export_command env c a d of (d', e) \<Rightarrow> (w, d', [], e))
     | Cmd_Accounts q \<Rightarrow> (case print_rows env (cm_json q) ''accounts'' (accounts_rows env q w) of (w', r) \<Rightarrow> (w', d, r))
     | Cmd_Sync q \<Rightarrow> (case print_value env (cm_json q) ''sync'' (sync_value env q w) of (w', r) \<Rightarrow> (w', d, r))
     | Cmd_Mcp base_url \<Rightarrow> (w, d, [], mcp_command env base_url))"

definition cli_dispatch :: "('w, 'b, 'c) cli_env \<Rightarrow> string list \<Rightarrow> 'w \<Rightarrow> dir \<Rightarrow> 'w \<times> dir \<times> string list \<times> cli_exit" where
  "cli_dispatch env argv w d = (case argv of
       [] \<Rightarrow> (w, d, [], legacy_load env)
     | first # rest \<Rightarrow>
         if starts_with ''-'' first then (w, d, [], legacy env argv)
         else if first = ''serve'' then (w, d, [], legacy env rest)
         else (case ce_clap env argv of Inl code \<Rightarrow> (w, d, [], Clap_Exit code)
           | Inr command \<Rightarrow> run_command env argv command w d))"

text \<open>\<open>run_cli\<close> and \<open>main\<close>: the exit code, for a process that does not go on serving.\<close>

definition exit_code :: "keyring \<Rightarrow> cli_exit \<Rightarrow> nat option" where
  "exit_code kr e = (case e of
       Serve_With cfg \<Rightarrow> (case run_entry cfg kr of Printed t \<Rightarrow> Some 0 | No_Token_Yet \<Rightarrow> Some 1 | Token_Error x \<Rightarrow> Some 1 | Serving \<Rightarrow> None)
     | Finished \<Rightarrow> Some 0 | Clap_Exit code \<Rightarrow> Some code | Failed_With x \<Rightarrow> Some 1 | Speak_Mcp s \<Rightarrow> None)"

section \<open>Command lines of before\<close>

text \<open>\<open>serve\<close> in front changes nothing for a bare run or one that starts with a flag.\<close>

lemma serve_is_bare:
  assumes "argv = [] \<or> starts_with ''-'' (hd argv)"
  shows "cli_dispatch env (''serve'' # argv) w d = cli_dispatch env argv w d"
  using assms by (cases argv) (simp_all add: cli_dispatch_def legacy_load_def starts_with_def)

section \<open>Reading a conversation in the process\<close>

lemma scan_conversation_rows:
  "length out < cap \<Longrightarrow> scan_conversation cap start keyword ms out =
     (let rows = out @ map embedded_message_row (filter (wanted start keyword) ms) in (take cap rows, cap \<le> length rows))"
proof (induction ms arbitrary: out)
  case (Cons m ms)
  show ?case
  proof (cases "wanted start keyword m")
    case w: True
    show ?thesis
    proof (cases "cap \<le> Suc (length out)")
      case True
      then have "cap = Suc (length out)" using Cons.prems by simp
      then show ?thesis using w by simp
    next
      case False
      then show ?thesis using w Cons.IH [of "out @ [embedded_message_row m]"] by simp
    qed
  qed (use Cons in simp)
qed simp

lemma scan_targets_rows:
  "length out < cap \<Longrightarrow> scan_targets cap start keyword st ts out = take cap (out
     @ map embedded_message_row (filter (wanted start keyword) (concat (map (newest_of st) ts))))"
proof (induction ts arbitrary: out)
  case (Cons t ts)
  let ?out = "out @ map embedded_message_row (filter (wanted start keyword) (newest_of st t))"
  show ?case
  proof (cases "cap \<le> length ?out")
    case True
    then show ?thesis using scan_conversation_rows [OF Cons.prems, of start keyword "newest_of st t"]
      by (auto simp: Let_def)
  next
    case False
    then show ?thesis using Cons.IH [of ?out] scan_conversation_rows [OF Cons.prems, of start keyword "newest_of st t"]
      by (simp add: Let_def)
  qed
qed simp

section \<open>Where the forms differ\<close>

text \<open>Without \<open>--json\<close> the contacts are never shown: the line is built from the object around the list.\<close>

lemma contacts_print_blank: "emit env (contacts_value n has_more rows) False ''contacts'' = [tab]"
  by (simp add: emit_def contacts_value_def human_row_def text_of_def json_member_def Let_def)

text \<open>Two messages of one second: the service lists the later one first, the form in the process the earlier one.\<close>

definition tie_store :: store where
  "tie_store = store_default\<lparr>st_convs := [(''g@chatroom'', [demo_message 5 1 ''wxid_a'', demo_message 5 2 ''wxid_a''])]\<rparr>"

lemma forms_order_ties:
  "map mr_local_id (newest_of tie_store ''g@chatroom'') = [1, 2]
   \<and> map_sum id (\<lambda>p. map (\<lambda>i. mr_local_id (conversation tie_store ''g@chatroom'' ! i)) (mp_indices p))
      (page_slice id tie_store \<lparr>mq_talker = ''g@chatroom'', mq_limit = 2, mq_offset = 0, mq_keyword = None, mq_start = None, mq_end = None\<rparr>)
      = Inr [2, 1]"
  by code_simp

section \<open>One answer from both forms\<close>

text \<open>A finished build leaves every session with its conversation's length; it is cut short only by a database without a key.\<close>

definition counts_filled :: "store \<Rightarrow> bool" where
  "counts_filled st \<longleftrightarrow> (\<forall>(k, s)\<in>set (st_sessions st). ss_message_count s = conv_count st k)"

lemma fill_counts_filled: "counts_filled (fill_counts st)"
  by (auto simp: counts_filled_def fill_counts_def conv_count_def)

lemma with_first_goes_on:
  "\<forall>f\<in>set files. key_for keys (df_rel f) \<noteq> None \<Longrightarrow> snd (snd (with_first open_db keys files kind load pool st))"
  by (auto simp: with_first_def split: option.split prod.split sum.split) (metis find_Some_iff nth_mem option.distinct(1))

lemma finish_build_filled:
  "\<forall>f\<in>set files. key_for keys (df_rel f) \<noteq> None \<Longrightarrow> counts_filled (snd (finish_build parse_f64 open_db keys files pool st))"
  using with_first_goes_on [of files keys open_db Sns "load_sns parse_f64" pool st]
  by (auto simp: finish_build_def fill_counts_filled split: prod.split)

lemma keyless_moments_skip_counts:
  "List.find (\<lambda>f. df_kind f = Sns) files = Some f \<Longrightarrow> key_for keys (df_rel f) = None
    \<Longrightarrow> snd (finish_build parse_f64 open_db keys files pool st) = st"
  by (simp add: finish_build_def with_first_def)

lemma index_open_filled:
  assumes "\<forall>f\<in>set (enum_db_files storage). key_for keys (df_rel f) \<noteq> None"
  shows "counts_filled (index_open dec md5_hex parse_f64 now_ms open_db storage keys my_wxid)"
proof -
  have marked: "counts_filled (mark_index_built now_ms st) = counts_filled st" for st
    by (simp add: counts_filled_def mark_index_built_def conv_count_def)
  show ?thesis
    using with_first_goes_on [OF assms, of open_db Session] with_first_goes_on [OF assms, of open_db Contact] finish_build_filled [OF assms]
    by (simp add: index_open_def build_all_live_def build_all_live_inner_def split_beta Let_def marked)
qed

lemma kind_name_str [simp]: "kind_name k = session_kind_str k"
  by (cases k) simp_all

lemma http_row_is_embedded_row:
  assumes "store_fits st" and "counts_filled st" and "s \<in> set (hm_values (st_sessions st))"
  shows "http_session_row (session_native_of st s) = embedded_session_row st s"
proof -
  obtain k where k: "(k, s) \<in> set (st_sessions st)" using assms(3) by (auto simp: hm_values_def)
  then have "ss_username s = k" using assms(1) by (auto simp: store_fits_def hm_typed_def session_fits_def)
  moreover have "ss_message_count s = conv_count st k" using assms(2) k by (auto simp: counts_filled_def)
  ultimately show ?thesis by (simp add: http_session_row_def embedded_session_row_def session_native_of_def index_session_display_def)
qed

text \<open>
  C20. The list of sessions is the same in both forms of the command: when the service has indexed the files that the command opens
  itself, and every database of them has a key, then asking the service (through the library, page by page, over its handler
  and access check) and opening the index in the process print the same rows, by latest activity in one form and by
  name in the other.
\<close>

theorem sessions_forms_agree:
  assumes "ce_send env = server_net sv" and "ce_readers env = wire_readers"
    and "http_client env common = Inr c" and "serving sv c a"
    and "embedded_source env = Inr (root, keys, wxid)"
    and "\<forall>f\<in>set (enum_db_files (ce_storage env root)). key_for keys (df_rel f) \<noteq> None"
    and "embedded_index env = Inr st" and "sv_store sv a = mark_index_built t st"
    and "sessions_fit st" and "length (st_sessions st) < ce_rounds env"
  shows "\<exists>asked opened. sessions_rows env \<lparr>read_common = common, read_embedded = False\<rparr> w = (w, Inr asked)
    \<and> sessions_rows env \<lparr>read_common = common, read_embedded = True\<rparr> w = (w, Inr opened)
    \<and> mset asked = mset opened \<and> length opened = length (st_sessions st)"
proof -
  let ?st = "sv_store sv a" and ?L = "listed sv a None" and ?E = "index_sessions st"
  have st: "st_sessions ?st = st_sessions st" "st_convs ?st = st_convs st" "st_contacts ?st = st_contacts st"
    by (simp_all add: assms(8) mark_index_built_def)
  have fit: "sessions_fit ?st" using assms(9) by (simp add: sessions_fit_def assms(8)) (simp add: mark_index_built_def)
  have "counts_filled st" using assms(5,7) index_open_filled [OF assms(6)] by (auto simp: embedded_index_def)
  then have filled: "counts_filled ?st" by (simp add: counts_filled_def conv_count_def st)
  have names: "distinct (map ss_username ?L)"
    using session_names_distinct fit by (auto simp: sessions_fit_def store_fits_def listed_def ordered_sessions_def distinct_map inj_on_def)
  have rows: "embedded_session_row ?st = embedded_session_row st"
    by (simp add: fun_eq_iff embedded_session_row_def index_session_display_def session_display_def session_display_opt_def st split: option.split)
  have L: "mset ?L = mset (hm_values (st_sessions st))"
    by (simp add: listed_def ordered_sessions_def session_matches_def st)
  have "list_all_sessions (ce_rounds env) (server_net sv) wire_readers c (Some 10000) None w
      = (w, Some (Inr (map (session_native_of ?st) ?L)))"
    using list_rows [OF assms(4) fit _ names, of "Some 10000" 0 "ce_rounds env" w] assms(10) listed_rows [of sv a None] fit
    by (simp add: list_all_sessions_def sessions_fit_def usize_ok_def st)
  moreover have "map (http_session_row \<circ> session_native_of ?st) ?L = map (embedded_session_row st) ?L"
    using http_row_is_embedded_row [OF _ filled] fit listed_rows [of sv a None] by (auto simp: sessions_fit_def rows)
  ultimately have "sessions_rows env \<lparr>read_common = common, read_embedded = False\<rparr> w = (w, Inr (map (embedded_session_row st) ?L))"
    by (simp add: sessions_rows_def assms(1-3))
  moreover have "sessions_rows env \<lparr>read_common = common, read_embedded = True\<rparr> w = (w, Inr (map (embedded_session_row st) ?E))"
    by (simp add: sessions_rows_def embedded_sessions_def assms(7))
  moreover have "mset (map (embedded_session_row st) ?L) = mset (map (embedded_session_row st) ?E)"
    by (simp add: L index_sessions_def)
  moreover have "length (map (embedded_session_row st) ?E) = length (st_sessions st)" by (simp add: index_sessions_def hm_values_def)
  ultimately show ?thesis by blast
qed

text \<open>An account of one database with two sessions, and a service that has indexed it.\<close>

definition two_row_conn :: conn where
  "two_row_conn q ps = (if q = ''PRAGMA table_info(SessionTable)''
     then Some ([row_of [SInt 0, SText ''username''], row_of [SInt 1, SText ''last_timestamp'']], False)
     else if q = ''SELECT username, last_timestamp FROM \"SessionTable\"''
     then Some ([row_of [SText ''wxid_a'', SInt 5], row_of [SText ''wxid_b'', SInt 6]], False) else None)"

definition demo_cfg :: json where
  "demo_cfg = Object [(''db_path'', String ''/a''), (''wxid'', String ''me''),
     (''keys'', Object [(''session/session.db'', String (replicate 64 (CHR ''0'')))])]"

definition demo_index :: store where
  "demo_index = index_open (\<lambda>_. None) id (\<lambda>_. None) (Some 7) (\<lambda>(p :: nat live_pool) f k. (p, Inr two_row_conn))
     (Some (Dir None [(''session'', Dir None [(''session.db'', File)])])) (Key_Map [(''session/session.db'', [0])]) ''me''"

definition demo_cli :: "(unit, json, nat) cli_env" where
  "demo_cli = \<lparr>ce_defaults = default_config (@) ''/data/'', ce_clap = (\<lambda>_. Inl 2),
     ce_keyring = \<lparr>kr_open = None, kr_token = Stored ''secret'', kr_set_error = None\<rparr>, ce_token = None,
     ce_send = server_net (demo_served (mark_index_built (Some 9) demo_index)), ce_readers = wire_readers, ce_rounds = 3,
     ce_show = (\<lambda>_. []), ce_pretty = (\<lambda>_. None), ce_midnight = gregorian_midnight, ce_embed_config = Some ''embed.json'',
     ce_read_file = (\<lambda>_. Inr []), ce_parse_json = (\<lambda>_. Inr demo_cfg), ce_hex_decode = (\<lambda>_. Some [0]),
     ce_storage = (\<lambda>_. Some (Dir None [(''session'', Dir None [(''session.db'', File)])])),
     ce_unzip = (\<lambda>_. None), ce_md5_hex = id, ce_parse_f64 = (\<lambda>_. None), ce_now_ms = Some 7,
     ce_open_db = (\<lambda>p f k. (p, Inr two_row_conn)), ce_run_env = demo_run_env None, ce_list = (\<lambda>_ _. Inr []),
     ce_media = (\<lambda>_ _ _. Inl []), ce_pull = (\<lambda>_ _ _ _ _ _. Inl []), ce_media_dir = Map.empty\<rparr>"

theorem sessions_forms_agree_witness:
  "\<exists>asked opened. sessions_rows demo_cli \<lparr>read_common = \<lparr>cm_base_url = Some ''http://h/'', cm_json = False\<rparr>, read_embedded = False\<rparr> ()
      = ((), Inr asked)
    \<and> sessions_rows demo_cli \<lparr>read_common = \<lparr>cm_base_url = Some ''http://h/'', cm_json = False\<rparr>, read_embedded = True\<rparr> () = ((), Inr opened)
    \<and> mset asked = mset opened \<and> length opened = 2"
proof -
  let ?common = "\<lparr>cm_base_url = Some ''http://h/'', cm_json = False\<rparr>"
  let ?keys = "Key_Map [(''session/session.db'', [0])]" and ?sv = "demo_served (mark_index_built (Some 9) demo_index) :: (nat, nat list) served"
  have fit: "sessions_fit demo_index" "length (st_sessions demo_index) = 2" by code_simp+
  have source: "embedded_source demo_cli = Inr (''/a'', ?keys, ''me'')" by code_simp
  have keys: "\<forall>f\<in>set (enum_db_files (ce_storage demo_cli ''/a'')). key_for ?keys (df_rel f) \<noteq> None" by code_simp
  have client: "http_client demo_cli ?common = Inr (client_new ''http://h/'' ''secret'')" by code_simp
  have index: "embedded_index demo_cli = Inr demo_index"
    by (simp add: embedded_index_def source) (simp add: demo_cli_def demo_index_def)
  have held: "sv_store ?sv 0 = mark_index_built (Some 9) demo_index"
    by (simp add: sv_store_def demo_served_def ready_app_def)
  have env: "ce_send demo_cli = server_net ?sv" "ce_readers demo_cli = wire_readers" "length (st_sessions demo_index) < ce_rounds demo_cli"
    by (simp_all add: demo_cli_def fit(2))
  from sessions_forms_agree [OF env(1,2) client demo_serving source keys index held fit(1) env(3), of "()"] fit(2)
  show ?thesis by simp
qed

end
